(* ===== verification/Prelude.thy ===== *)
theory Prelude
  imports Main "HOL-Library.Word"
begin

text \<open>
  Shared vocabulary of the development: the fixed-width types of
  \<^verbatim>\<open>common/misc/fixed_types.h\<close>, the errors with which the simulator stops
  (\<^verbatim>\<open>assert\<close>, \<^verbatim>\<open>LOG_ASSERT_ERROR\<close>, \<^verbatim>\<open>LOG_PRINT_ERROR\<close>), and the
  lemmas on lists and results that several components use.
\<close>

unbundle bit_operations_syntax

section \<open>Types\<close>

type_synonym byte = "8 word"
type_synonym u32 = "32 word"
type_synonym u64 = "64 word"
type_synonym intptr = "64 word"

text \<open>\<^verbatim>\<open>core_id_t\<close> and \<^verbatim>\<open>thread_id_t\<close> are signed; -1 is the invalid id.\<close>

type_synonym core_id = int
type_synonym thread_id = int

abbreviation INVALID_CORE_ID :: core_id where
  "INVALID_CORE_ID \<equiv> -1"

abbreviation INVALID_THREAD_ID :: thread_id where
  "INVALID_THREAD_ID \<equiv> -1"

abbreviation INVALID_ADDRESS :: intptr where
  "INVALID_ADDRESS \<equiv> - 1"

text \<open>
  A failed \<^verbatim>\<open>assert\<close> or \<^verbatim>\<open>LOG_ASSERT_ERROR\<close>, a \<^verbatim>\<open>LOG_PRINT_ERROR\<close>,
  and the undefined operations the code does not guard (an index out of range, a
  division by zero, a null pointer) end the run: the left side of a result. \<open>No_Return\<close>
  marks a call that does not come back, where a model bounds a recursion of the code.
\<close>

datatype sim_error =
    Assert_Failed
  | Log_Error
  | Out_Of_Range
  | Div_By_Zero
  | Null_Pointer
  | No_Return

type_synonym 'a result = "sim_error + 'a"

text \<open>A call that may also fail to return: \<open>None\<close> is a recursion without end.\<close>

type_synonym 'a outcome = "'a result option"

text \<open>Sequencing of fallible calls, and an assertion.\<close>

definition bindR :: "'a result \<Rightarrow> ('a \<Rightarrow> 'b result) \<Rightarrow> 'b result" where
  "bindR m f = (case m of Inl er \<Rightarrow> Inl er | Inr x \<Rightarrow> f x)"

definition assertR :: "bool \<Rightarrow> unit result" where
  "assertR b = (if b then Inr () else Inl Assert_Failed)"

lemma bindR_simps [simp]: "bindR (Inr x) f = f x" "bindR (Inl er) f = Inl er"
  by (simp_all add: bindR_def)

lemma bindR_Inr_iff [simp]: "bindR m f = Inr y \<longleftrightarrow> (\<exists>x. m = Inr x \<and> f x = Inr y)"
  by (auto simp: bindR_def split: sum.splits)

lemma assertR_Inr_iff [simp]: "assertR b = Inr u \<longleftrightarrow> b"
  by (simp add: assertR_def)

definition outcomeR :: "'a outcome \<Rightarrow> 'a result" where
  "outcomeR m = (case m of None \<Rightarrow> Inl No_Return | Some r \<Rightarrow> r)"

text \<open>
  What holds of the value of a call whenever it succeeds, and that a call comes back: the
  predicate transformers in which the proofs about sequences of calls are carried out.
\<close>

definition wpR :: "'a result \<Rightarrow> ('a \<Rightarrow> bool) \<Rightarrow> bool" where
  "wpR m Q \<longleftrightarrow> (\<forall>x. m = Inr x \<longrightarrow> Q x)"

definition returnsR :: "'a result \<Rightarrow> bool" where
  "returnsR m \<longleftrightarrow> m \<noteq> Inl No_Return"

lemma wpR_simps [simp]:
  "wpR (Inr x) Q \<longleftrightarrow> Q x" "wpR (Inl er) Q" "wpR (bindR m f) Q \<longleftrightarrow> wpR m (\<lambda>x. wpR (f x) Q)"
  "wpR (assertR b) R \<longleftrightarrow> (b \<longrightarrow> R ())"
  by (auto simp: wpR_def assertR_def)

lemma wpR_mono: "wpR m P \<Longrightarrow> (\<And>x. m = Inr x \<Longrightarrow> P x \<Longrightarrow> Q x) \<Longrightarrow> wpR m Q"
  by (auto simp: wpR_def)

lemma wpR_D: "wpR m Q \<Longrightarrow> m = Inr x \<Longrightarrow> Q x"
  by (simp add: wpR_def)

lemma returnsR_simps [simp]:
  "returnsR (Inr x)" "returnsR (Inl er) \<longleftrightarrow> er \<noteq> No_Return" "returnsR (assertR b)"
  "returnsR (bindR m f) \<longleftrightarrow> returnsR m \<and> wpR m (\<lambda>x. returnsR (f x))"
  by (auto simp: returnsR_def wpR_def assertR_def bindR_def split: sum.splits)

section \<open>Collections of facts\<close>

named_theorems hs_defs \<open>definitions unfolded in component proofs\<close>
named_theorems hs_inv \<open>preservation of component invariants\<close>

section \<open>Lists\<close>

lemma nth_list_update_If:
  "j < length xs \<Longrightarrow> xs[i := x] ! j = (if i = j then x else xs ! j)"
  by (simp add: nth_list_update)

lemma map_list_update_same:
  "f x = f (xs ! i) \<Longrightarrow> map f (xs[i := x]) = map f xs"
  by (metis list_update_id map_update)

text \<open>A loop that scans the indices upwards or downwards and stops at the first hit.\<close>

definition first_idx :: "(nat \<Rightarrow> bool) \<Rightarrow> nat \<Rightarrow> nat option" where
  "first_idx P n = List.find P [0..<n]"

definition last_idx :: "(nat \<Rightarrow> bool) \<Rightarrow> nat \<Rightarrow> nat option" where
  "last_idx P n = List.find P (rev [0..<n])"

lemma first_idx_SomeD:
  assumes "first_idx P n = Some i"
  shows "i < n" and "P i" and "\<And>j. j < i \<Longrightarrow> \<not> P j"
proof -
  from assms obtain k where k: "k < n" "P ([0..<n] ! k)" "i = [0..<n] ! k"
    "\<forall>j<k. \<not> P ([0..<n] ! j)"
    by (auto simp: first_idx_def find_Some_iff)
  from k(1,3) have ki: "i = k" by simp
  show "i < n" "P i" using k(1,2) by (simp_all add: ki)
  show "\<not> P j" if "j < i" for j
    using k(1,4) that by (simp add: ki)
qed

lemma first_idx_None_iff [simp]: "first_idx P n = None \<longleftrightarrow> (\<forall>i<n. \<not> P i)"
  by (auto simp: first_idx_def find_None_iff)

lemma last_idx_SomeD:
  assumes "last_idx P n = Some i"
  shows "i < n" and "P i"
proof -
  from assms have "i \<in> set (rev [0..<n]) \<and> P i"
    unfolding last_idx_def by (metis find_Some_iff nth_mem)
  then show "i < n" "P i" by auto
qed

lemma last_idx_None_iff [simp]: "last_idx P n = None \<longleftrightarrow> (\<forall>i<n. \<not> P i)"
  by (auto simp: last_idx_def find_None_iff)

lemma first_idx_Some_ex: "i < n \<Longrightarrow> P i \<Longrightarrow> \<exists>j. first_idx P n = Some j"
  by (metis first_idx_None_iff option.exhaust)

lemma last_idx_Some_ex: "i < n \<Longrightarrow> P i \<Longrightarrow> \<exists>j. last_idx P n = Some j"
  by (metis last_idx_None_iff option.exhaust)

lemma last_idx_unique:
  assumes "i < n" and "P i" and "\<And>j. j < n \<Longrightarrow> P j \<Longrightarrow> j = i"
  shows "last_idx P n = Some i"
proof -
  from assms(1,2) obtain j where j: "last_idx P n = Some j"
    using last_idx_Some_ex by blast
  then have "j = i" by (intro assms(3) last_idx_SomeD)
  with j show ?thesis by simp
qed

section \<open>Rings\<close>

text \<open>
  The \<open>s\<close> elements of a ring buffer \<open>xs\<close> from position \<open>f\<close> on, and what writing behind the
  last one and advancing the first one do to them.
\<close>

definition ring :: "'a list \<Rightarrow> nat \<Rightarrow> nat \<Rightarrow> 'a list" where
  "ring xs f s = map (\<lambda>i. xs ! ((f + i) mod length xs)) [0..<s]"

lemma length_ring [simp]: "length (ring xs f s) = s"
  by (simp add: ring_def)

lemma ring_nth: "i < s \<Longrightarrow> ring xs f s ! i = xs ! ((f + i) mod length xs)"
  by (simp add: ring_def)

lemma ring_0 [simp]: "ring xs f 0 = []"
  by (simp add: ring_def)

lemma mod_add_cancel:
  fixes f i j M :: nat
  assumes "i < M" and "j < M"
  shows "(f + i) mod M = (f + j) mod M \<longleftrightarrow> i = j"
proof -
  have "a = b" if "(f + a) mod M = (f + b) mod M" "a \<le> b" "b < M" for a b
  proof -
    have "M dvd (f + b) - (f + a)"
      using that mod_eq_dvd_iff_nat [of "f + a" "f + b" M] by simp
    then show ?thesis using that by (auto dest: dvd_imp_le)
  qed
  then show ?thesis using assms by (metis nat_le_linear)
qed

lemma ring_write:
  assumes "s < length xs"
  shows "ring (xs[(f + s) mod length xs := x]) f (Suc s) = ring xs f s @ [x]"
proof -
  have "xs[(f + s) mod length xs := x] ! ((f + i) mod length xs) = xs ! ((f + i) mod length xs)"
    if "i < s" for i
    using mod_add_cancel [of i "length xs" s f] that assms by (intro nth_list_update_neq) simp
  moreover have "(f + s) mod length xs < length xs" using assms by (intro mod_less_divisor) auto
  ultimately show ?thesis by (simp add: ring_def)
qed

lemma ring_advance: "tl (ring xs f (Suc s)) = ring xs (Suc f mod length xs) s"
proof -
  have "(Suc f mod length xs + i) mod length xs = (f + Suc i) mod length xs" for i
    by (simp add: mod_add_left_eq)
  then have "ring xs (Suc f mod length xs) s = map (\<lambda>i. xs ! ((f + i) mod length xs)) (map Suc [0..<s])"
    by (simp add: ring_def)
  also have "map Suc [0..<s] = tl [0..<Suc s]"
    by (simp add: map_Suc_upt upt_conv_Cons del: upt_Suc)
  finally show ?thesis by (simp only: map_tl ring_def)
qed

text \<open>The number of elements between two positions of a ring.\<close>

definition ring_size :: "nat \<Rightarrow> nat \<Rightarrow> nat \<Rightarrow> nat" where
  "ring_size M f b = (b + M - f) mod M"

lemma ring_size_less: "0 < M \<Longrightarrow> ring_size M f b < M"
  by (simp add: ring_size_def)

lemma ring_size_end:
  assumes "f < M" and "b < M"
  shows "(f + ring_size M f b) mod M = b"
proof -
  have "(f + ring_size M f b) mod M = (b + M) mod M"
    unfolding ring_size_def mod_add_right_eq using assms(1) by simp
  then show ?thesis using assms(2) by simp
qed

lemma ring_size_eqI:
  assumes "f < M" and "b = (f + k) mod M" and "k < M"
  shows "ring_size M f b = k"
proof -
  have "b < M" using assms by simp
  then show ?thesis
    using mod_add_cancel [of "ring_size M f b" M k f] ring_size_end [OF assms(1)] ring_size_less [of M f b] assms
    by simp
qed

lemma ring_size_same [simp]: "ring_size M f f = 0"
  by (simp add: ring_size_def)

lemma ring_size_le: "f \<le> b \<Longrightarrow> b < M \<Longrightarrow> ring_size M f b = b - f"
  by (rule ring_size_eqI) auto

lemma ring_size_gt: "b < f \<Longrightarrow> f < M \<Longrightarrow> ring_size M f b = M - f + b"
  by (rule ring_size_eqI) auto

section \<open>Arithmetic\<close>

lemma mixed_radix_inj:
  fixes x y k m :: nat
  assumes "0 < k" and mods: "x div k mod m = y div k mod m"
    and eq: "(x div k div m) * k + x mod k = (y div k div m) * k + y mod k"
  shows "x = y"
proof -
  have low: "x mod k = y mod k"
    using arg_cong [OF eq, of "\<lambda>z. z mod k"] by simp
  have "(x div k div m) * k = (y div k div m) * k" using eq low by linarith
  then have hi: "x div k div m = y div k div m" using assms(1) by simp
  have "x div k = (x div k div m) * m + x div k mod m" by (rule div_mult_mod_eq [symmetric])
  also have "\<dots> = (y div k div m) * m + y div k mod m" by (simp only: hi mods)
  also have "\<dots> = y div k" by (rule div_mult_mod_eq)
  finally have mid: "x div k = y div k" .
  have "x = (x div k) * k + x mod k" by (rule div_mult_mod_eq [symmetric])
  also have "\<dots> = (y div k) * k + y mod k" by (simp only: mid low)
  also have "\<dots> = y" by (rule div_mult_mod_eq)
  finally show ?thesis .
qed

section \<open>Words\<close>

lemma unat_u32_less: "unat (w :: u32) < 2 ^ 32"
  using unsigned_less [where 'a = nat, of w] by simp

lemma unat_u64_less: "unat (w :: u64) < 2 ^ 64"
  using unsigned_less [where 'a = nat, of w] by simp

lemma unat_drop_bit: "unat (drop_bit n w) = unat w div 2 ^ n"
  by (metis drop_bit_eq_div unsigned_drop_bit_eq take_bit_nat_eq_self unsigned_less)

lemma unat_take_bit: "unat (take_bit n w) = unat w mod 2 ^ n"
  unfolding unsigned_take_bit_eq by (simp add: take_bit_eq_mod)

lemma unat_ucast_u32_u64 [simp]: "unat (ucast (w :: u32) :: u64) = unat w"
  by (simp add: unsigned_ucast_eq take_bit_nat_eq_self order_less_trans [OF unat_u32_less])

lemma unat_ucast_u64_u32: "unat (ucast (w :: u64) :: u32) = unat w mod 2 ^ 32"
  by (simp add: unsigned_ucast_eq take_bit_eq_mod)

lemma unat_pow2_pos: "unat w = 2 ^ k \<Longrightarrow> w \<noteq> 0"
  by (metis power_not_zero unat_0 zero_neq_numeral)

lemma unat_pow2_u32_exp: "unat (w :: u32) = 2 ^ k \<Longrightarrow> k < 32"
  using unat_u32_less [of w] power_less_imp_less_exp [of "2::nat" k 32] by simp

lemma unat_of_nat_eq: "n < 2 ^ LENGTH('a) \<Longrightarrow> unat (of_nat n :: 'a::len word) = n"
  by (simp add: unsigned_of_nat take_bit_nat_eq_self)

lemma unat_of_nat_u64: "n < 2 ^ 64 \<Longrightarrow> unat (of_nat n :: u64) = n"
  by (rule unat_of_nat_eq) simp

lemma sint_u32_small:
  fixes w :: u32
  assumes "unat w < 2 ^ 31"
  shows "sint w = int (unat w)"
proof -
  have "uint w < 2 ^ 31" using assms by (simp add: unat_eq_nat_uint nat_less_iff del: nat_uint_eq)
  then have "signed_take_bit 31 (uint w) = uint w"
    by (intro signed_take_bit_int_eq_self) (simp_all add: order_trans [where y = 0])
  moreover have "sint w = signed_take_bit 31 (uint w)" by (simp add: sint_uint)
  ultimately show ?thesis by simp
qed

lemma unat_pow2:
  assumes "k < LENGTH('a)"
  shows "unat (2 ^ k :: 'a::len word) = 2 ^ k"
proof -
  have "(2 ^ k :: 'a word) = of_nat (2 ^ k)" by simp
  also have "unat \<dots> = 2 ^ k"
    using assms by (simp only: unsigned_of_nat) (simp add: take_bit_nat_eq_self)
  finally show ?thesis .
qed

lemma and_exp_minus_1: "w AND (2 ^ k - 1) = take_bit k (w :: 'a::len word)"
  by (simp add: take_bit_eq_mask mask_eq_exp_minus_1)

lemma push_or_take:
  fixes a :: "'a::len word"
  shows "push_bit k a OR take_bit k b = push_bit k a + take_bit k b"
  by (rule disjunctive_add_eq_or [symmetric]) (auto simp: bit_eq_iff bit_simps)

end
