(* ===== verification/Bits.thy ===== *)
theory Bits
  imports Prelude
begin

text \<open>
  The integer utilities of \<^verbatim>\<open>common/misc/utils.cc\<close> (power-of-two test, base-two
  logarithms, population count) and the two random number generators of
  \<^verbatim>\<open>common/misc/rng.h\<close> and \<^verbatim>\<open>common/misc/random.h\<close>. All values keep
  the width they have in the code.
\<close>

section \<open>Definitions\<close>

subsection \<open>utils.cc\<close>

definition isPower2 :: "u32 \<Rightarrow> bool" where
  "isPower2 n \<longleftrightarrow> n AND (n - 1) = 0"

text \<open>One line \<^verbatim>\<open>if (n & mask) { p += s; n >>= s; }\<close> of \<open>floorLog2\<close>.\<close>

definition log_step :: "u32 \<Rightarrow> nat \<Rightarrow> int \<times> u32 \<Rightarrow> int \<times> u32" where
  "log_step m s pn = (case pn of (p, n) \<Rightarrow>
     if n AND m \<noteq> 0 then (p + int s, drop_bit s n) else (p, n))"

definition floorLog2 :: "u32 \<Rightarrow> int" where
  "floorLog2 n =
     (if n = 0 then - 1
      else
        let (p, n) = log_step 0xffff0000 16 (0, n);
            (p, n) = log_step 0x0000ff00 8 (p, n);
            (p, n) = log_step 0x000000f0 4 (p, n);
            (p, n) = log_step 0x0000000c 2 (p, n);
            (p, n) = (if n AND 0x00000002 \<noteq> 0 then (p + 1, n) else (p, n))
        in p)"

definition ceilLog2 :: "u32 \<Rightarrow> int" where
  "ceilLog2 n = floorLog2 (n - 1) + 1"

text \<open>
  \<^verbatim>\<open>for (result = 1; n &= n - 1; ++result);\<close> The recursion stops because
  \<open>n AND (n - 1)\<close> is below a non-zero \<open>n\<close>.
\<close>

lemma and_pred_less:
  fixes n :: "'a::len word"
  assumes "n \<noteq> 0"
  shows "unat (n AND (n - 1)) < unat n"
proof -
  have "n AND (n - 1) \<le> n - 1" by (rule word_and_le1)
  then have "unat (n AND (n - 1)) \<le> unat (n - 1)" by (simp add: word_le_nat_alt)
  also have "\<dots> < unat n" using assms by (simp add: unat_minus_one unat_gt_0)
  finally show ?thesis .
qed

function countBits_loop :: "u64 \<Rightarrow> u64 \<Rightarrow> u64" where
  "countBits_loop n result =
     (let n' = n AND (n - 1)
      in if n' \<noteq> 0 then countBits_loop n' (result + 1) else result)"
  by pat_completeness auto
termination
  by (relation "measure (\<lambda>(n, result). unat n)") (auto intro!: and_pred_less)

declare countBits_loop.simps [simp del]

definition countBits :: "u64 \<Rightarrow> u64" where
  "countBits n = (if n = 0 then 0 else countBits_loop n 1)"

subsection \<open>rng.h and random.h\<close>

definition rng_seed :: "u64 \<Rightarrow> u64" where
  "rng_seed seed = push_bit 16 seed + 0x330E"

text \<open>\<^verbatim>\<open>rng_next\<close> updates the state in place: (value, new state).\<close>

definition rng_next :: "u64 \<Rightarrow> u64 \<times> u64" where
  "rng_next state =
     (let state' = (0x5DEECE66D * state + 0xB) AND (push_bit 48 1 - 1)
      in (drop_bit 16 state', state'))"

text \<open>\<^verbatim>\<open>Random::next(limit)\<close>: a limit of zero is a division by zero.\<close>

definition random_next :: "u32 \<Rightarrow> u32 \<Rightarrow> (u32 \<times> u32) result" where
  "random_next limit seed =
     (let seed' = seed * 1103515245 + 12345
      in if limit = 0 then Inl Div_By_Zero
         else Inr ((seed' div 65536) mod limit, seed'))"

section \<open>Clearing the lowest set bit\<close>

text \<open>
  The loop of \<open>countBits\<close> and the test of \<open>isPower2\<close> both rest on
  \<open>n AND (n - 1)\<close>, which clears the lowest set bit. The facts are proved on \<open>nat\<close>,
  where the recursion on bits is a recursion on halves, and moved to words by \<open>unat\<close>.
\<close>

lemma and_pred_odd:
  fixes n :: nat
  assumes "odd n"
  shows "n AND (n - Suc 0) = n - Suc 0"
proof -
  from assms obtain k where n: "n = Suc (2 * k)" by (auto elim: oddE)
  have "Suc (2 * k) AND 2 * k = 2 * k" by (subst and_rec) simp
  then show ?thesis by (simp add: n)
qed

lemma and_pred_even:
  fixes k :: nat
  assumes "0 < k"
  shows "2 * k AND (2 * k - Suc 0) = 2 * (k AND (k - Suc 0))"
proof -
  obtain m where k: "k = Suc m" using assms by (cases k) auto
  have "Suc (Suc (2 * m)) AND Suc (2 * m) = 2 * (Suc m AND m)" by (subst and_rec) simp
  then show ?thesis by (simp add: k)
qed

fun bits_nat :: "nat \<Rightarrow> nat" where
  "bits_nat n = (if n = 0 then 0 else n mod 2 + bits_nat (n div 2))"

declare bits_nat.simps [simp del]

lemma bits_nat_0 [simp]: "bits_nat 0 = 0"
  by (simp add: bits_nat.simps)

lemma bits_nat_double [simp]: "bits_nat (2 * n) = bits_nat n"
  by (cases "n = 0") (simp_all add: bits_nat.simps [of "2 * n"])

lemma bits_nat_Suc_double [simp]: "bits_nat (Suc (2 * n)) = Suc (bits_nat n)"
  by (simp add: bits_nat.simps [of "Suc (2 * n)"])

lemma bits_nat_and_pred: "0 < n \<Longrightarrow> bits_nat n = Suc (bits_nat (n AND (n - 1)))"
proof (induction n rule: less_induct)
  case (less n)
  show ?case
  proof (cases "odd n")
    case True
    then obtain k where "n = Suc (2 * k)" by (auto elim: oddE)
    with True show ?thesis using and_pred_odd [OF True] by simp
  next
    case False
    then obtain k where k: "n = 2 * k" by (auto elim: evenE)
    with less.prems have "0 < k" by simp
    with less.IH [of k] k show ?thesis by (simp add: and_pred_even)
  qed
qed

lemma bits_nat_eq_0_iff: "bits_nat n = 0 \<longleftrightarrow> n = 0"
  using bits_nat_and_pred [of n] by (cases "n = 0") auto

lemma and_pred_eq_0_iff:
  fixes n :: nat
  assumes "0 < n"
  shows "n AND (n - 1) = 0 \<longleftrightarrow> (\<exists>k. n = 2 ^ k)"
  using assms
proof (induction n rule: less_induct)
  case (less n)
  show ?case
  proof (cases "odd n")
    case True
    have "n - Suc 0 = 0 \<longleftrightarrow> (\<exists>k. n = 2 ^ k)"
    proof
      assume "n - Suc 0 = 0"
      with less.prems have "n = 2 ^ 0" by simp
      then show "\<exists>k. n = 2 ^ k" by blast
    next
      assume "\<exists>k. n = 2 ^ k"
      then obtain j where "n = 2 ^ j" by blast
      with True show "n - Suc 0 = 0" by (cases j) auto
    qed
    then show ?thesis by (simp add: and_pred_odd [OF True])
  next
    case False
    then obtain k where k: "n = 2 * k" by (auto elim: evenE)
    with less.prems have "0 < k" by simp
    then have "(k AND (k - 1) = 0) = (\<exists>j. k = 2 ^ j)" using less.IH [of k] k by simp
    moreover have "(\<exists>j. 2 * k = 2 ^ j) \<longleftrightarrow> (\<exists>j. k = 2 ^ j)"
    proof
      assume "\<exists>j. 2 * k = 2 ^ j"
      then obtain j where j: "2 * k = 2 ^ j" by blast
      with False k show "\<exists>j. k = 2 ^ j" by (cases j) auto
    next
      assume "\<exists>j. k = 2 ^ j"
      then show "\<exists>j. 2 * k = 2 ^ j" by (metis power_Suc)
    qed
    ultimately show ?thesis using \<open>0 < k\<close> by (simp add: k and_pred_even)
  qed
qed

lemma unat_and_pred:
  fixes n :: "'a::len word"
  assumes "n \<noteq> 0"
  shows "unat (n AND (n - 1)) = unat n AND (unat n - 1)"
  using assms by (simp add: unsigned_and_eq unat_minus_one)

section \<open>Population count\<close>

lemma bit_set_double: "{i. bit (2 * n :: nat) i} = Suc ` {i. bit n i}"
  by (auto simp: bit_double_iff image_iff gr0_conv_Suc)

lemma bit_set_Suc_double: "{i. bit (Suc (2 * n)) i} = insert 0 (Suc ` {i. bit n i})"
proof -
  have "bit (Suc (2 * n)) i \<longleftrightarrow> i = 0 \<or> (\<exists>j. i = Suc j \<and> bit n j)" for i
    by (cases i) (simp_all add: bit_0 bit_Suc)
  then show ?thesis by auto
qed

lemma finite_bits_nat: "finite {i. bit (n :: nat) i}"
proof (rule finite_subset)
  show "{i. bit n i} \<subseteq> {i. 2 ^ i \<le> n}"
    by (auto simp: bit_iff_odd intro: ccontr)
  show "finite {i. 2 ^ i \<le> n}"
    by (rule finite_subset [of _ "{..n}"]) (auto intro: order_trans [OF less_imp_le [OF less_exp]])
qed

lemma bits_nat_card: "bits_nat n = card {i. bit n i}"
proof (induction n rule: less_induct)
  case (less n)
  show ?case
  proof (cases "odd n")
    case True
    then obtain k where n: "n = Suc (2 * k)" by (auto elim: oddE)
    with less.IH [of k] show ?thesis
      by (simp add: bit_set_Suc_double card_insert_if card_image finite_bits_nat image_iff)
  next
    case False
    then obtain k where k: "n = 2 * k" by (auto elim: evenE)
    show ?thesis
    proof (cases "k = 0")
      case True then show ?thesis by (simp add: k)
    next
      case False
      with less.IH [of k] k show ?thesis by (simp add: bit_set_double card_image)
    qed
  qed
qed

lemma countBits_loop_eq:
  assumes "n \<noteq> 0"
  shows "countBits_loop n r = r + of_nat (bits_nat (unat n)) - 1"
  using assms
proof (induction n r rule: countBits_loop.induct)
  case (1 n r)
  let ?m = "n AND (n - 1)"
  have "0 < unat n" using "1.prems" by (simp add: unat_gt_0)
  then have *: "bits_nat (unat n) = Suc (bits_nat (unat ?m))"
    using bits_nat_and_pred unat_and_pred [OF "1.prems"] by simp
  show ?case
  proof (cases "?m = 0")
    case True
    then show ?thesis using * by (simp add: countBits_loop.simps [of n r])
  next
    case False
    with "1.IH" [OF refl] have "countBits_loop ?m (r + 1) = r + 1 + of_nat (bits_nat (unat ?m)) - 1"
      by simp
    with False show ?thesis using * by (simp add: countBits_loop.simps [of n r] Let_def)
  qed
qed

text \<open>
  The population count: for every 64-bit value the loop of \<open>countBits\<close> returns the
  number of bits that are set.
\<close>

lemma countBits_card: "unat (countBits n) = card {i. bit n i}"
proof -
  have "card {i. bit (unat n) i} = card {i. bit n i}"
    by (simp add: bit_unsigned_iff conj_commute)
  moreover have "card {i. bit n i} \<le> 64"
  proof -
    have "{i. bit n i} \<subseteq> {..<64}" using bit_imp_le_length [of n] by auto
    from card_mono [OF _ this] show ?thesis by simp
  qed
  moreover have "countBits n = of_nat (bits_nat (unat n))"
    by (simp add: countBits_def countBits_loop_eq)
  ultimately show ?thesis by (simp add: bits_nat_card unat_of_nat)
qed

lemma isPower2_iff: "isPower2 n \<longleftrightarrow> n = 0 \<or> (\<exists>k. unat n = 2 ^ k)"
proof (cases "n = 0")
  case True
  then show ?thesis by (simp add: isPower2_def)
next
  case False
  then have "isPower2 n \<longleftrightarrow> unat n AND (unat n - 1) = 0"
    by (metis isPower2_def unat_and_pred unat_eq_zero)
  then show ?thesis using False and_pred_eq_0_iff [of "unat n"] by (simp add: unat_gt_0)
qed

section \<open>Base-two logarithm\<close>

lemma and_upper_half:
  fixes a :: nat
  assumes "a < 2 ^ (2 * s)"
  shows "a AND push_bit s (mask s) = 2 ^ s * (a div 2 ^ s)"
proof -
  have "a AND push_bit s (mask s) = push_bit s (drop_bit s a)"
  proof (rule bit_eqI)
    fix i
    have "\<not> bit a i" if "2 * s \<le> i"
      using assms that by (auto simp: bit_iff_odd) (metis div_less even_zero less_le_trans numeral_eq_Suc power_increasing_iff numeral_One one_less_numeral_iff semiring_norm(76))
    then show "bit (a AND push_bit s (mask s)) i = bit (push_bit s (drop_bit s a)) i"
      by (cases "2 * s \<le> i") (auto simp: bit_and_iff bit_push_bit_iff bit_mask_iff bit_drop_bit_eq not_le)
  qed
  then show ?thesis by (simp add: push_bit_eq_mult drop_bit_eq_div)
qed

lemma log_step_spec:
  assumes step: "log_step m s (p, n) = (p', n')"
    and m: "unat m = push_bit s (mask s)"
    and n: "unat n < 2 ^ (2 * s)" "0 < unat n" and p: "0 \<le> p"
    and N: "unat N div 2 ^ nat p = unat n"
  shows "unat n' < 2 ^ s" and "0 < unat n'" and "0 \<le> p'"
    and "unat N div 2 ^ nat p' = unat n'"
proof -
  have *: "n AND m \<noteq> 0 \<longleftrightarrow> 2 ^ s \<le> unat n"
  proof -
    have "unat (n AND m) = 2 ^ s * (unat n div 2 ^ s)"
      by (simp add: unsigned_and_eq m and_upper_half [OF n(1)])
    then have "n AND m = 0 \<longleftrightarrow> unat n div 2 ^ s = 0"
      by (metis mult_eq_0_iff power_eq_0_iff unat_eq_zero zero_neq_numeral)
    then show ?thesis by (auto simp: div_eq_0_iff)
  qed
  note d = unat_drop_bit [of s n]
  have sq: "(2::nat) ^ (2 * s) = 2 ^ s * 2 ^ s" by (simp add: mult_2 power_add)
  show "unat n' < 2 ^ s" using step n(1) * d sq
    by (auto simp: log_step_def less_mult_imp_div_less split: if_splits)
  show "0 < unat n'" using step n(2) * d
    by (auto simp: log_step_def div_greater_zero_iff split: if_splits)
  show "0 \<le> p'" using step p by (auto simp: log_step_def split: if_splits)
  show "unat N div 2 ^ nat p' = unat n'" using step p d N
    by (auto simp: log_step_def nat_add_distrib power_add div_mult2_eq split: if_splits)
qed

text \<open>
  \<open>floorLog2\<close> returns the position of the most significant set bit: five masked
  shifts halve the window 32, 16, 8, 4, 2 in which the remaining value lives.
\<close>

lemma floorLog2_bounds:
  assumes "n \<noteq> 0"
  shows "0 \<le> floorLog2 n" and "2 ^ nat (floorLog2 n) \<le> unat n"
    and "unat n < 2 ^ Suc (nat (floorLog2 n))"
proof -
  obtain p1 n1 where s1: "log_step 0xffff0000 16 (0, n) = (p1, n1)" by fastforce
  obtain p2 n2 where s2: "log_step 0x0000ff00 8 (p1, n1) = (p2, n2)" by fastforce
  obtain p3 n3 where s3: "log_step 0x000000f0 4 (p2, n2) = (p3, n3)" by fastforce
  obtain p4 n4 where s4: "log_step 0x0000000c 2 (p3, n3) = (p4, n4)" by fastforce
  define p5 where "p5 = (if n4 AND 2 \<noteq> 0 then p4 + 1 else p4)"
  have res: "floorLog2 n = p5"
    using assms by (simp add: floorLog2_def s1 s2 s3 s4 p5_def)
  have n32: "unat n < 2 ^ (2 * 16)" using unsigned_less [of n] by simp
  have r1: "unat n1 < 2 ^ (2 * 8)" "0 < unat n1" "0 \<le> p1" "unat n div 2 ^ nat p1 = unat n1"
    using log_step_spec [OF s1 _ n32, of n] assms by (auto simp: mask_eq_exp_minus_1 push_bit_eq_mult unat_gt_0)
  have r2: "unat n2 < 2 ^ (2 * 4)" "0 < unat n2" "0 \<le> p2" "unat n div 2 ^ nat p2 = unat n2"
    using log_step_spec [OF s2 _ r1] by (auto simp: mask_eq_exp_minus_1 push_bit_eq_mult)
  have r3: "unat n3 < 2 ^ (2 * 2)" "0 < unat n3" "0 \<le> p3" "unat n div 2 ^ nat p3 = unat n3"
    using log_step_spec [OF s3 _ r2] by (auto simp: mask_eq_exp_minus_1 push_bit_eq_mult)
  have r4: "unat n4 < 2 ^ (2 * 1)" "0 < unat n4" "0 \<le> p4" "unat n div 2 ^ nat p4 = unat n4"
    using log_step_spec [OF s4 _ r3] by (auto simp: mask_eq_exp_minus_1 push_bit_eq_mult)
  obtain n5 where "log_step 2 1 (p4, n4) = (p5, n5)"
    by (cases "n4 AND 2 = 0") (simp_all add: log_step_def p5_def)
  from log_step_spec [OF this _ r4]
  have r5: "unat n5 < 2" "0 < unat n5" "0 \<le> p5" "unat n div 2 ^ nat p5 = unat n5"
    by (auto simp: mask_eq_exp_minus_1 push_bit_eq_mult)
  then have one: "unat n div 2 ^ nat p5 = 1" by simp
  show "0 \<le> floorLog2 n" using r5 by (simp add: res)
  show "2 ^ nat (floorLog2 n) \<le> unat n" 
    using one div_greater_zero_iff [of "unat n" "2 ^ nat p5"] by (simp add: res)
  have "unat n div 2 ^ nat p5 < 2" using one by simp
  then have "unat n < 2 * 2 ^ nat p5" by (simp add: div_less_iff_less_mult)
  then show "unat n < 2 ^ Suc (nat (floorLog2 n))" by (simp add: res)
qed

end
