(* ===== verification/Cache_Base.thy ===== *)
theory Cache_Base
  imports Bits
begin

text \<open>
  Address decoding of the memory subsystem: the home lookup of
  \<^verbatim>\<open>address_home_lookup.cc\<close>, the base class \<^verbatim>\<open>CacheBase\<close>
  (\<^verbatim>\<open>cache/cache_base.cc\<close>), and the per-line bookkeeping of
  \<^verbatim>\<open>cache/cache_block_info.cc\<close> with its subclasses.
\<close>

section \<open>Address home lookup\<close>

record address_home_lookup =
  m_ahl_param :: u32
  m_ahl_mask :: u64
  m_core_list :: "core_id list"
  m_total_modules :: u32

text \<open>
  The constructor's assertion compares \<^verbatim>\<open>1 << m_ahl_param\<close> with the block size as
  signed 32-bit values.
\<close>

definition AddressHomeLookup :: "u32 \<Rightarrow> core_id list \<Rightarrow> u32 \<Rightarrow> address_home_lookup result" where
  "AddressHomeLookup ahl_param core_list cache_block_size =
     (if 32 \<le> unat ahl_param then Inl Out_Of_Range
      else if sint (push_bit (unat ahl_param) (1 :: u32)) < sint cache_block_size
      then Inl Assert_Failed
      else Inr \<lparr>m_ahl_param = ahl_param,
                m_ahl_mask = push_bit (unat ahl_param) 1 - 1,
                m_core_list = core_list,
                m_total_modules = of_nat (length core_list)\<rparr>)"

definition getHome :: "address_home_lookup \<Rightarrow> intptr \<Rightarrow> core_id result" where
  "getHome ahl address =
     (if m_total_modules ahl = 0 then Inl Div_By_Zero
      else
        let module_num = sint (ucast (drop_bit (unat (m_ahl_param ahl)) address
                                        mod ucast (m_total_modules ahl)) :: u32)
        in if 0 \<le> module_num \<and> module_num < sint (m_total_modules ahl)
           then Inr (m_core_list ahl ! nat module_num)
           else Inl Assert_Failed)"

definition getLinearBlock :: "address_home_lookup \<Rightarrow> intptr \<Rightarrow> intptr" where
  "getLinearBlock ahl address =
     drop_bit (unat (m_ahl_param ahl)) address div ucast (m_total_modules ahl)"

definition getLinearAddress :: "address_home_lookup \<Rightarrow> intptr \<Rightarrow> intptr" where
  "getLinearAddress ahl address =
     push_bit (unat (m_ahl_param ahl)) (getLinearBlock ahl address)
       OR (address AND m_ahl_mask ahl)"

section \<open>CacheBase\<close>

datatype hash_t =
    INVALID_HASH_TYPE
  | HASH_MASK
  | HASH_MOD
  | HASH_RNG1_MOD
  | HASH_RNG2_MOD
  | HASH_PRIME_DIS
  | HASH_XOR_MOD
  | HASH_MER_MOD

datatype cache_t = INVALID_CACHE_TYPE | PR_L1_CACHE | PR_L2_CACHE | SHARED_CACHE

datatype access_t = LOAD | STORE

record cache_base =
  cb_cache_size :: u64
  cb_associativity :: u32
  cb_blocksize :: u32
  cb_hash :: hash_t
  cb_num_sets :: u32
  cb_ahl :: "address_home_lookup option"
  cb_log_blocksize :: u32
  cb_log_num_sets :: u32

text \<open>
  The constructor stores \<^verbatim>\<open>floorLog2\<close> in unsigned fields and refuses a mask hash on a
  number of sets that is not a power of two. \<^verbatim>\<open>1UL << floorLog2(0)\<close> shifts by -1, which
  the model reports as out of range.
\<close>

definition CacheBase ::
  "u32 \<Rightarrow> u32 \<Rightarrow> u32 \<Rightarrow> hash_t \<Rightarrow> address_home_lookup option \<Rightarrow> cache_base result" where
  "CacheBase num_sets associativity cache_block_size hash ahl =
     (if num_sets = 0 then Inl Out_Of_Range
      else if \<not> (ucast num_sets = push_bit (nat (floorLog2 num_sets)) (1 :: u64) \<or> hash \<noteq> HASH_MASK)
      then Inl Assert_Failed
      else Inr \<lparr>cb_cache_size = ucast num_sets * ucast associativity * ucast cache_block_size,
                cb_associativity = associativity,
                cb_blocksize = cache_block_size,
                cb_hash = hash,
                cb_num_sets = num_sets,
                cb_ahl = ahl,
                cb_log_blocksize = word_of_int (floorLog2 cache_block_size),
                cb_log_num_sets = word_of_int (floorLog2 num_sets)\<rparr>)"

definition parseAddressHash :: "string \<Rightarrow> hash_t result" where
  "parseAddressHash hash_name =
     (if hash_name = ''mask'' then Inr HASH_MASK
      else if hash_name = ''mod'' then Inr HASH_MOD
      else if hash_name = ''rng1_mod'' then Inr HASH_RNG1_MOD
      else if hash_name = ''rng2_mod'' then Inr HASH_RNG2_MOD
      else if hash_name = ''prime_dis'' then Inr HASH_PRIME_DIS
      else if hash_name = ''xor_mod'' then Inr HASH_XOR_MOD
      else if hash_name = ''mersenne_mod'' then Inr HASH_MER_MOD
      else Inl Log_Error)"

text \<open>\<^verbatim>\<open>a % b\<close> on 64-bit operands; the result is stored in a 32-bit set index.\<close>

definition mod_index :: "u64 \<Rightarrow> u32 \<Rightarrow> u32 result" where
  "mod_index a b = (if b = 0 then Inl Div_By_Zero else Inr (ucast (a mod ucast b)))"

definition hash_index :: "cache_base \<Rightarrow> u64 \<Rightarrow> u32 result" where
  "hash_index cb block_num =
     (case cb_hash cb of
        HASH_MASK \<Rightarrow> Inr (ucast (block_num AND ucast (cb_num_sets cb - 1)))
      | HASH_MOD \<Rightarrow> mod_index block_num (cb_num_sets cb)
      | HASH_RNG1_MOD \<Rightarrow>
          let (r, state) = rng_next (rng_seed block_num)
          in mod_index r (cb_num_sets cb)
      | HASH_RNG2_MOD \<Rightarrow>
          let (r1, state) = rng_next (rng_seed block_num);
              (r2, state) = rng_next state
          in mod_index r2 (cb_num_sets cb)
      | HASH_PRIME_DIS \<Rightarrow>
          if cb_num_sets cb = 0 then Inl Div_By_Zero
          else
            let si = block_num mod ucast (cb_num_sets cb);
                ti = drop_bit (unat (cb_log_num_sets cb)) block_num
            in mod_index (3 * ti + si) (cb_num_sets cb)
      | HASH_XOR_MOD \<Rightarrow>
          if cb_num_sets cb = 0 then Inl Div_By_Zero
          else
            let si = block_num mod ucast (cb_num_sets cb);
                ti = drop_bit (unat (cb_log_num_sets cb)) block_num mod ucast (cb_num_sets cb)
            in Inr (ucast (si XOR ti))
      | HASH_MER_MOD \<Rightarrow> mod_index block_num (cb_num_sets cb - 1)
      | INVALID_HASH_TYPE \<Rightarrow> Inl Log_Error)"

text \<open>\<^verbatim>\<open>splitAddress(addr, tag, set_index)\<close>: the pair of its reference results.\<close>

definition splitAddress :: "cache_base \<Rightarrow> intptr \<Rightarrow> (intptr \<times> u32) result" where
  "splitAddress cb addr =
     (let tag = drop_bit (unat (cb_log_blocksize cb)) addr;
          linearAddress = (case cb_ahl cb of Some ahl \<Rightarrow> getLinearAddress ahl addr | None \<Rightarrow> addr);
          block_num = drop_bit (unat (cb_log_blocksize cb)) linearAddress
      in case hash_index cb block_num of
           Inl e \<Rightarrow> Inl e
         | Inr set_index \<Rightarrow> Inr (tag, set_index))"

text \<open>The overload that also returns the offset in the block.\<close>

definition splitAddress_offset :: "cache_base \<Rightarrow> intptr \<Rightarrow> (intptr \<times> u32 \<times> u32) result" where
  "splitAddress_offset cb addr =
     (let block_offset = ucast (addr AND ucast (cb_blocksize cb - 1))
      in case splitAddress cb addr of
           Inl e \<Rightarrow> Inl e
         | Inr (tag, set_index) \<Rightarrow> Inr (tag, set_index, block_offset))"

definition tagToAddress :: "cache_base \<Rightarrow> intptr \<Rightarrow> intptr" where
  "tagToAddress cb tag = push_bit (unat (cb_log_blocksize cb)) tag"

section \<open>Cache lines\<close>

datatype cstate_t =
    INVALID
  | SHARED
  | SHARED_UPGRADING
  | EXCLUSIVE
  | OWNED
  | MODIFIED
  | INVALID_COLD
  | INVALID_EVICT
  | INVALID_COHERENCY

definition readable :: "cstate_t \<Rightarrow> bool" where
  "readable cstate \<longleftrightarrow>
     cstate = MODIFIED \<or> cstate = OWNED \<or> cstate = SHARED \<or> cstate = EXCLUSIVE"

definition writable :: "cstate_t \<Rightarrow> bool" where
  "writable cstate \<longleftrightarrow> cstate = MODIFIED"

datatype option_t = PREFETCH | WARMUP

text \<open>
  One line of a cache. \<open>m_cached_loc_bitvec\<close> is the extra field of
  \<^verbatim>\<open>PrL2CacheBlockInfo\<close>; it is \<open>None\<close> for the other two classes.
\<close>

record cache_block_info =
  m_tag :: intptr
  m_cstate :: cstate_t
  m_owner :: u64
  m_used :: byte
  m_options :: byte
  m_cached_loc_bitvec :: "u32 option"

definition CacheBlockInfo_create :: "cache_t \<Rightarrow> cache_block_info result" where
  "CacheBlockInfo_create cache_type =
     (let base = \<lparr>m_tag = - 1, m_cstate = INVALID, m_owner = 0, m_used = 0, m_options = 0,
                   m_cached_loc_bitvec = None\<rparr>
      in case cache_type of
           PR_L1_CACHE \<Rightarrow> Inr base
         | PR_L2_CACHE \<Rightarrow> Inr (base\<lparr>m_cached_loc_bitvec := Some 0\<rparr>)
         | SHARED_CACHE \<Rightarrow> Inr base
         | INVALID_CACHE_TYPE \<Rightarrow> Inl Log_Error)"

definition isValid :: "cache_block_info \<Rightarrow> bool" where
  "isValid b \<longleftrightarrow> m_tag b \<noteq> - 1"

text \<open>\<^verbatim>\<open>invalidate\<close> and \<^verbatim>\<open>clone\<close> are virtual; the second-level class also clears
  and copies its bit vector.\<close>

definition invalidate_block :: "cache_block_info \<Rightarrow> cache_block_info" where
  "invalidate_block b =
     b\<lparr>m_tag := - 1, m_cstate := INVALID,
       m_cached_loc_bitvec := map_option (\<lambda>_. 0) (m_cached_loc_bitvec b)\<rparr>"

definition clone_block :: "cache_block_info \<Rightarrow> cache_block_info \<Rightarrow> cache_block_info" where
  "clone_block dst src =
     \<lparr>m_tag = m_tag src, m_cstate = m_cstate src, m_owner = m_owner src,
      m_used = m_used src, m_options = m_options src,
      m_cached_loc_bitvec =
        (case m_cached_loc_bitvec dst of None \<Rightarrow> None | Some _ \<Rightarrow> m_cached_loc_bitvec src)\<rparr>"

fun option_bit :: "option_t \<Rightarrow> nat" where
  "option_bit PREFETCH = 0"
| "option_bit WARMUP = 1"

definition hasOption :: "cache_block_info \<Rightarrow> option_t \<Rightarrow> bool" where
  "hasOption b opt \<longleftrightarrow> m_options b AND push_bit (option_bit opt) 1 \<noteq> 0"

definition setOption :: "cache_block_info \<Rightarrow> option_t \<Rightarrow> cache_block_info" where
  "setOption b opt = b\<lparr>m_options := m_options b OR push_bit (option_bit opt) 1\<rparr>"

definition clearOption :: "cache_block_info \<Rightarrow> option_t \<Rightarrow> cache_block_info" where
  "clearOption b opt = b\<lparr>m_options := m_options b AND NOT (push_bit (option_bit opt) 1)\<rparr>"

text \<open>\<^verbatim>\<open>updateUsage(used)\<close>: (new bits were set, updated line).\<close>

definition updateUsage_mask :: "cache_block_info \<Rightarrow> byte \<Rightarrow> bool \<times> cache_block_info" where
  "updateUsage_mask b used =
     (used AND NOT (m_used b) \<noteq> 0, b\<lparr>m_used := m_used b OR used\<rparr>)"

text \<open>\<^verbatim>\<open>updateUsage(offset, size)\<close>: 32-bit sums, 64-bit masks, an 8-bit usage mask.\<close>

definition updateUsage :: "cache_block_info \<Rightarrow> u32 \<Rightarrow> u32 \<Rightarrow> bool \<times> cache_block_info" where
  "updateUsage b offset sz =
     (let first = unat (drop_bit 3 offset);
          last = unat (drop_bit 3 (offset + sz - 1));
          first_mask = push_bit first (1 :: u64) - 1;
          last_mask = push_bit (last + 1) (1 :: u64) - 1;
          usage_mask = last_mask AND NOT first_mask
      in updateUsage_mask b (ucast usage_mask))"

text \<open>
  The set of first-level caches that hold a line (\<^verbatim>\<open>pr_l2_cache_block_info.cc\<close>).
  Components are numbered as in \<^verbatim>\<open>mem_component.h\<close>: 0 is invalid, 2 and 3 are the
  instruction and data caches.
\<close>

definition L1_ICACHE :: nat where "L1_ICACHE = 2"
definition L1_DCACHE :: nat where "L1_DCACHE = 3"

definition getCachedLoc :: "u32 \<Rightarrow> nat result" where
  "getCachedLoc bv =
     (if bv = push_bit L1_ICACHE 1 OR push_bit L1_DCACHE 1 then Inl Assert_Failed
      else if bv = push_bit L1_ICACHE 1 then Inr L1_ICACHE
      else if bv = push_bit L1_DCACHE 1 then Inr L1_DCACHE
      else if bv = 0 then Inr 0
      else Inl Log_Error)"

definition setCachedLoc :: "u32 \<Rightarrow> nat \<Rightarrow> u32 result" where
  "setCachedLoc bv loc =
     (if loc = 0 \<or> bv AND push_bit loc 1 \<noteq> 0 then Inl Assert_Failed
      else Inr (bv OR push_bit loc 1))"

definition clearCachedLoc :: "u32 \<Rightarrow> nat \<Rightarrow> u32 result" where
  "clearCachedLoc bv loc =
     (if loc = 0 \<or> bv AND push_bit loc 1 = 0 then Inl Assert_Failed
      else Inr (bv AND NOT (push_bit loc 1)))"

section \<open>Decoding an address and putting it back together\<close>

lemma floorLog2_eqI:
  assumes "unat n = 2 ^ k"
  shows "floorLog2 n = int k"
proof -
  have n: "n \<noteq> 0" using assms by (rule unat_pow2_pos)
  have "2 ^ nat (floorLog2 n) \<le> (2::nat) ^ k" "(2::nat) ^ k < 2 ^ Suc (nat (floorLog2 n))"
    using floorLog2_bounds [OF n] assms by simp_all
  then have "nat (floorLog2 n) \<le> k" "k < Suc (nat (floorLog2 n))"
    by (simp_all only: power_increasing_iff power_strict_increasing_iff one_less_numeral_iff semiring_norm)
  then show ?thesis using floorLog2_bounds(1) [OF n] by simp
qed

lemma floorLog2_less_32: "floorLog2 n < 32"
proof (cases "n = 0")
  case False
  have "(2::nat) ^ nat (floorLog2 n) < 2 ^ 32"
    using floorLog2_bounds(2) [OF False] unat_u32_less [of n] by simp
  then have "nat (floorLog2 n) < 32" by (rule power_less_imp_less_exp [rotated]) simp
  then show ?thesis by simp
qed (simp add: floorLog2_def)

lemma CacheBase_fields:
  assumes "CacheBase num_sets assoc bs hash ahl = Inr cb"
  shows "cb_num_sets cb = num_sets" and "cb_hash cb = hash" and "cb_ahl cb = ahl"
    and "cb_blocksize cb = bs" and "cb_associativity cb = assoc" and "num_sets \<noteq> 0"
    and "cb_log_blocksize cb = word_of_int (floorLog2 bs)"
    and "cb_log_num_sets cb = word_of_int (floorLog2 num_sets)"
    and "hash = HASH_MASK \<Longrightarrow> ucast num_sets = push_bit (nat (floorLog2 num_sets)) (1 :: u64)"
  using assms by (auto simp: CacheBase_def split: if_splits)

lemma unat_log: "n \<noteq> 0 \<Longrightarrow> unat (word_of_int (floorLog2 n) :: u32) = nat (floorLog2 n)"
  using floorLog2_less_32 [of n] floorLog2_bounds(1) [of n]
  by (simp add: unsigned_of_int take_bit_int_eq_self)

lemma ucast_pow2_minus_1:
  fixes bs :: u32
  assumes "unat bs = 2 ^ k"
  shows "(ucast (bs - 1) :: u64) = 2 ^ k - 1"
proof -
  have "k < 32" using assms by (rule unat_pow2_u32_exp)
  have "bs \<noteq> 0" using assms by (rule unat_pow2_pos)
  then have "unat (ucast (bs - 1) :: u64) = 2 ^ k - 1"
    using assms by (simp add: unat_minus_one)
  moreover have "unat (2 ^ k - 1 :: u64) = 2 ^ k - 1"
    using \<open>k < 32\<close> by (simp add: unat_minus_one unat_pow2)
  ultimately show ?thesis by (simp add: word_unat_eq_iff)
qed

lemma log_blocksize:
  assumes "CacheBase num_sets assoc bs hash ahl = Inr cb" and "unat bs = 2 ^ k"
  shows "unat (cb_log_blocksize cb) = k"
  using CacheBase_fields(7) [OF assms(1)] unat_log [OF unat_pow2_pos [OF assms(2)]]
    floorLog2_eqI [OF assms(2)] by simp

lemma splitAddress_tag:
  "splitAddress cb addr = Inr (tag, si) \<Longrightarrow> tag = drop_bit (unat (cb_log_blocksize cb)) addr"
  by (auto simp: splitAddress_def Let_def split: sum.splits)

text \<open>
  C15. Address round trip. For a block size that is a power of two, an address is rebuilt
  from the tag and the block offset that \<open>splitAddress\<close> returns, and the offset lies
  inside the block.
\<close>

theorem split_join_address:
  assumes "CacheBase num_sets assoc bs hash ahl = Inr cb" and "unat bs = 2 ^ k"
    and "splitAddress_offset cb addr = Inr (tag, si, off)"
  shows "tagToAddress cb tag + ucast off = addr \<and> unat off < unat bs"
proof -
  have k32: "k < 32" using assms(2) by (rule unat_pow2_u32_exp)
  note log = log_blocksize [OF assms(1,2)]
  from assms(3) have tag: "tag = drop_bit k addr"
    and off: "off = ucast (addr AND ucast (bs - 1))"
    using CacheBase_fields(4) [OF assms(1)] log
    by (auto simp: splitAddress_offset_def Let_def dest!: splitAddress_tag split: sum.splits)
  have off': "off = ucast (take_bit k addr)"
    by (simp add: off ucast_pow2_minus_1 [OF assms(2)] and_exp_minus_1)
  have small: "unat (take_bit k addr) < 2 ^ k" by (simp only: unat_take_bit) simp
  have "(2::nat) ^ k < 2 ^ 32" using k32 by (rule power_strict_increasing) simp
  with small have uoff: "unat off = unat (take_bit k addr)"
    unfolding off' unat_ucast_u64_u32 by simp
  then have "(ucast off :: u64) = take_bit k addr" by (simp add: word_unat_eq_iff)
  then have "tagToAddress cb tag + ucast off = addr"
    using bits_ident [of k addr] by (simp add: tagToAddress_def log tag)
  moreover have "unat off < unat bs" using uoff small assms(2) by simp
  ultimately show ?thesis by blast
qed

lemma mod_index_less: "mod_index a b = Inr i \<Longrightarrow> unat i < unat b"
proof -
  assume *: "mod_index a b = Inr i"
  then have b: "0 < unat b" and i: "i = ucast (a mod ucast b)"
    by (auto simp: mod_index_def unat_gt_0 split: if_splits)
  have "unat (a mod ucast b) < unat b" using b by (simp add: unat_mod_distrib)
  then show ?thesis unfolding i unat_ucast_u64_u32
    using mod_less_eq_dividend le_less_trans by blast
qed

lemma mask_index_less:
  fixes a :: u64
  assumes "CacheBase num_sets assoc bs HASH_MASK ahl = Inr cb"
  shows "unat (ucast (a AND ucast (num_sets - 1)) :: u32) < unat num_sets"
proof -
  have "0 < unat num_sets" using CacheBase_fields(6) [OF assms] by (simp add: unat_gt_0)
  have "a AND ucast (num_sets - 1) \<le> ucast (num_sets - 1)" by (rule word_and_le1)
  then have "unat (a AND ucast (num_sets - 1)) \<le> unat (num_sets - 1)"
    by (simp add: word_le_nat_alt)
  also have "\<dots> < unat num_sets" using CacheBase_fields(6) [OF assms] \<open>0 < unat num_sets\<close>
    by (simp add: unat_minus_one)
  finally show ?thesis unfolding unat_ucast_u64_u32
    using mod_less_eq_dividend le_less_trans by blast
qed

lemma xor_index_less:
  fixes a b :: u64
  assumes "unat a < 2 ^ k" and "unat b < 2 ^ k"
  shows "unat (a XOR b) < 2 ^ k"
proof -
  have "take_bit k (unat a) = unat a" "take_bit k (unat b) = unat b"
    using assms by (simp_all add: take_bit_nat_eq_self)
  then have "take_bit k (unat (a XOR b)) = unat (a XOR b)"
    by (simp add: unsigned_xor_eq take_bit_xor)
  then show ?thesis by (metis take_bit_nat_less_exp)
qed

lemma set_index_less:
  assumes "CacheBase num_sets assoc bs hash ahl = Inr cb"
    and "hash = HASH_XOR_MOD \<Longrightarrow> unat num_sets = 2 ^ k"
    and "splitAddress cb addr = Inr (tag, si)"
  shows "unat si < unat num_sets"
proof -
  note f = CacheBase_fields [OF assms(1)]
  have pos: "0 < unat num_sets" using f(6) by (simp add: unat_gt_0)
  from assms(3) obtain bn where h: "hash_index cb bn = Inr si"
    by (auto simp: splitAddress_def Let_def split: sum.splits)
  show ?thesis
  proof (cases hash)
    case HASH_MASK
    with h f mask_index_less [of num_sets assoc bs ahl cb bn] assms(1) show ?thesis
      by (auto simp: hash_index_def)
  next
    case HASH_XOR_MOD
    let ?m = "ucast num_sets :: u64"
    have k: "unat num_sets = 2 ^ k" using assms(2) HASH_XOR_MOD by simp
    have lt: "unat (x mod ?m) < 2 ^ k" for x
      using pos k by (simp add: unat_mod_distrib)
    have "si = ucast ((bn mod ?m) XOR (drop_bit (unat (cb_log_num_sets cb)) bn mod ?m))"
      using h f HASH_XOR_MOD by (simp add: hash_index_def Let_def)
    then have "unat si \<le> unat ((bn mod ?m) XOR (drop_bit (unat (cb_log_num_sets cb)) bn mod ?m))"
      by (simp only: unat_ucast_u64_u32 mod_less_eq_dividend)
    also have "\<dots> < 2 ^ k" by (intro xor_index_less lt)
    finally show ?thesis by (simp add: k)
  next
    case HASH_MER_MOD
    with h f have "unat si < unat (num_sets - 1)"
      by (auto simp: hash_index_def dest: mod_index_less)
    then show ?thesis using pos f(6) by (simp add: unat_minus_one)
  qed (use h f in \<open>auto simp: hash_index_def Let_def dest!: mod_index_less
         split: prod.splits if_splits\<close>)
qed


lemma split_join_address_witness:
  "\<exists>cb. CacheBase 64 8 64 HASH_MASK None = Inr cb \<and>
     splitAddress_offset cb 0x12345 = Inr (0x48d, 13, 5) \<and>
     tagToAddress cb 0x48d + ucast (5 :: u32) = 0x12345"
proof -
  obtain cb where cb: "CacheBase 64 8 64 HASH_MASK None = Inr cb"
    by (simp add: CacheBase_def floorLog2_eqI [of _ 6])
  have sp: "splitAddress_offset cb 0x12345 = Inr (0x48d, 13, 5)"
    using CacheBase_fields [OF cb] log_blocksize [OF cb, of 6]
    by (simp add: splitAddress_offset_def splitAddress_def hash_index_def Let_def)
  from split_join_address [OF cb, of 6, OF _ sp] cb sp show ?thesis by auto
qed


text \<open>
  The XOR hash leaves the table when the number of sets is not a power of two, although
  the constructor accepts such a cache: with three sets, block 4 is sent to set 3.
\<close>

theorem xor_hash_out_of_range:
  "\<exists>cb. CacheBase 3 1 64 HASH_XOR_MOD None = Inr cb \<and> splitAddress cb 256 = Inr (4, 3)"
proof -
  obtain cb where cb: "CacheBase 3 1 64 HASH_XOR_MOD None = Inr cb"
    by (simp add: CacheBase_def)
  have "floorLog2 3 = 1" by (simp add: floorLog2_def log_step_def)
  then have "splitAddress cb 256 = Inr (4, 3)"
    using CacheBase_fields [OF cb] log_blocksize [OF cb, of 6] unat_log [of 3]
    by (simp add: splitAddress_def hash_index_def Let_def)
  with cb show ?thesis by blast
qed

section \<open>Home node and linear address\<close>

lemma AddressHomeLookup_fields:
  assumes "AddressHomeLookup p cl bs = Inr ahl"
  shows "unat p < 32" and "m_ahl_param ahl = p" and "m_ahl_mask ahl = 2 ^ unat p - 1"
    and "m_core_list ahl = cl" and "m_total_modules ahl = of_nat (length cl)"
  using assms by (auto simp: AddressHomeLookup_def split: if_splits)

lemma getHome_eq:
  assumes "AddressHomeLookup p cl bs = Inr ahl" and "cl \<noteq> []" and "length cl < 2 ^ 31"
  shows "getHome ahl a = Inr (cl ! ((unat a div 2 ^ unat p) mod length cl))"
proof -
  note f = AddressHomeLookup_fields [OF assms(1)]
  let ?q = "(unat a div 2 ^ unat p) mod length cl"
  have um: "unat (of_nat (length cl) :: u32) = length cl"
    using assms(3) by (simp add: unat_of_nat_eq)
  have nz: "m_total_modules ahl \<noteq> 0"
    using um assms(2) f(5) by (metis length_0_conv unat_0)
  have q: "?q < length cl" using assms(2) by simp
  let ?w = "ucast (drop_bit (unat p) a mod ucast (m_total_modules ahl)) :: u32"
  have "unat ?w = ?q mod 2 ^ 32"
    unfolding unat_ucast_u64_u32 unat_mod_distrib unat_drop_bit f(5) unat_ucast_u32_u64 um ..
  also have "\<dots> = ?q"
    by (rule mod_less, rule less_trans [OF q], rule less_trans [OF assms(3)]) simp
  finally have uw: "unat ?w = ?q" .
  have "?q < 2 ^ 31" by (rule less_trans [OF q assms(3)])
  then have "sint ?w = int ?q" using sint_u32_small [of ?w] by (simp only: uw)
  moreover have "sint (m_total_modules ahl) = int (length cl)"
    using sint_u32_small [of "m_total_modules ahl"] assms(3) by (simp only: um f(5))
  ultimately show ?thesis
    using nz q by (simp add: getHome_def f(2,4) Let_def)
qed

lemma unat_getLinearAddress:
  assumes "AddressHomeLookup p cl bs = Inr ahl" and "cl \<noteq> []" and "length cl < 2 ^ 31"
  shows "unat (getLinearAddress ahl a) =
    (unat a div 2 ^ unat p div length cl) * 2 ^ unat p + unat a mod 2 ^ unat p"
proof -
  note f = AddressHomeLookup_fields [OF assms(1)]
  have um: "unat (of_nat (length cl) :: u32) = length cl"
    using assms(3) by (simp add: unat_of_nat_eq)
  let ?L = "getLinearBlock ahl a" and ?k = "unat p"
  have L: "unat ?L = unat a div 2 ^ ?k div length cl"
    using um by (simp add: getLinearBlock_def f(2,5) unat_div_distrib unat_drop_bit)
  have "unat ?L * 2 ^ ?k + unat a mod 2 ^ ?k \<le> unat a div 2 ^ ?k * 2 ^ ?k + unat a mod 2 ^ ?k"
    unfolding L by (intro add_right_mono mult_right_mono div_le_dividend) simp
  also have "\<dots> = unat a" by (rule div_mult_mod_eq)
  finally have le: "unat ?L * 2 ^ ?k + unat a mod 2 ^ ?k < 2 ^ 64"
    using unat_u64_less [of a] by (rule le_less_trans)
  have "getLinearAddress ahl a = ?L * 2 ^ ?k + take_bit ?k a"
    unfolding getLinearAddress_def f(2,3) and_exp_minus_1 push_or_take
    by (simp add: push_bit_eq_mult)
  also have "\<dots> = of_nat (unat ?L * 2 ^ ?k + unat (take_bit ?k a))" by simp
  finally have "getLinearAddress ahl a = of_nat (unat ?L * 2 ^ ?k + unat a mod 2 ^ ?k)"
    by (simp only: unat_take_bit)
  then have "unat (getLinearAddress ahl a) = unat ?L * 2 ^ ?k + unat a mod 2 ^ ?k"
    using unat_of_nat_u64 [OF le] by simp
  then show ?thesis by (simp add: L)
qed

text \<open>
  The home lookup partitions the address space: an address is determined by its home
  core and its linear address there, so no two addresses collide in one home node.
\<close>

theorem home_linear_address_inj:
  assumes "AddressHomeLookup p cl bs = Inr ahl" and "cl \<noteq> []" and "length cl < 2 ^ 31"
    and "distinct cl"
    and "getHome ahl a = getHome ahl b" and "getLinearAddress ahl a = getLinearAddress ahl b"
  shows "a = b"
proof -
  let ?k = "2 ^ unat p :: nat" and ?m = "length cl"
  have m: "0 < ?m" using assms(2) by simp
  have "cl ! (unat a div ?k mod ?m) = cl ! (unat b div ?k mod ?m)"
    using assms(5) unfolding getHome_eq [OF assms(1-3)] by (rule sum.inject(2) [THEN iffD1])
  with assms(4) m have mods: "unat a div ?k mod ?m = unat b div ?k mod ?m"
    by (simp only: nth_eq_iff_index_eq mod_less_divisor)
  have eq: "(unat a div ?k div ?m) * ?k + unat a mod ?k = (unat b div ?k div ?m) * ?k + unat b mod ?k"
    using arg_cong [OF assms(6), of unat] unfolding unat_getLinearAddress [OF assms(1-3)] .
  have "unat a = unat b" by (rule mixed_radix_inj [OF _ mods eq]) simp
  then show ?thesis by (simp add: word_unat_eq_iff)
qed

lemma home_linear_address_inj_witness:
  "\<exists>ahl. AddressHomeLookup 6 [0, 1, 2] 64 = Inr ahl \<and>
     getHome ahl 0x100 = Inr 1 \<and>
     getLinearAddress ahl 0x100 = 0x40 \<and>
     {b. getHome ahl b = Inr 1 \<and> getLinearAddress ahl b = 0x40} = {0x100}"
proof -
  obtain ahl where ahl: "AddressHomeLookup 6 [0, 1, 2] 64 = Inr ahl"
    by (simp add: AddressHomeLookup_def)
  have h: "getHome ahl 0x100 = Inr 1" using getHome_eq [OF ahl, of "0x100"] by simp
  have l: "getLinearAddress ahl 0x100 = 0x40"
    using unat_getLinearAddress [OF ahl, of "0x100"] by (simp add: word_unat_eq_iff)
  have "b = 0x100" if "getHome ahl b = Inr 1" and "getLinearAddress ahl b = 0x40" for b
    by (rule home_linear_address_inj [OF ahl]) (simp_all add: that h l)
  with ahl h l show ?thesis by blast
qed

section \<open>Line bookkeeping\<close>

lemma usage_range:
  assumes "0 < unat sz" and "unat off + unat sz \<le> 64"
  shows "unat (drop_bit 3 off :: u32) = unat off div 8"
    and "unat (drop_bit 3 (off + sz - 1) :: u32) = (unat off + unat sz - 1) div 8"
proof -
  show "unat (drop_bit 3 off :: u32) = unat off div 8" by (simp add: unat_drop_bit)
  have "unat (off + sz) = unat off + unat sz"
    using assms(2) by (simp add: unat_word_ariths)
  moreover from this have "off + sz \<noteq> 0" using assms(1) by (metis add_is_0 less_irrefl unat_0)
  ultimately have "unat (off + sz - 1) = unat off + unat sz - 1" by (simp add: unat_minus_one)
  then show "unat (drop_bit 3 (off + sz - 1) :: u32) = (unat off + unat sz - 1) div 8"
    by (simp add: unat_drop_bit)
qed

lemma bit_usage_mask:
  "bit (ucast ((push_bit (Suc l) (1::u64) - 1) AND NOT (push_bit f 1 - 1)) :: byte) i \<longleftrightarrow>
     i < 8 \<and> f \<le> i \<and> i \<le> l"
proof -
  have m: "push_bit n (1::u64) - 1 = mask n" for n by (simp add: mask_eq_exp_minus_1)
  show ?thesis unfolding m by (auto simp: bit_ucast_iff bit_and_iff bit_not_iff bit_mask_iff less_Suc_eq_le)
qed

text \<open>
  Usage tracking: an access of \<open>sz\<close> bytes at \<open>off\<close> inside a 64-byte line marks
  exactly the 8-byte elements it touches, and the returned flag says whether one of them
  had not been used before.
\<close>

theorem updateUsage_marks:
  assumes "0 < unat sz" and "unat off + unat sz \<le> 64"
    and "updateUsage b off sz = (new, b')"
  shows "(\<forall>i<8. bit (m_used b') i \<longleftrightarrow>
            bit (m_used b) i \<or> (unat off div 8 \<le> i \<and> i \<le> (unat off + unat sz - 1) div 8))
       \<and> (new \<longleftrightarrow> (\<exists>i<8. bit (m_used b') i \<and> \<not> bit (m_used b) i))
       \<and> m_tag b' = m_tag b \<and> m_cstate b' = m_cstate b"
proof -
  let ?f = "unat off div 8" and ?l = "(unat off + unat sz - 1) div 8"
  define u where "u = (ucast ((push_bit (Suc ?l) (1::u64) - 1) AND NOT (push_bit ?f 1 - 1)) :: byte)"
  have bu: "bit u i \<longleftrightarrow> i < 8 \<and> ?f \<le> i \<and> i \<le> ?l" for i
    unfolding u_def by (rule bit_usage_mask)
  have res: "new = (u AND NOT (m_used b) \<noteq> 0)" "b' = b\<lparr>m_used := m_used b OR u\<rparr>"
    using assms(3) unfolding updateUsage_def Let_def usage_range [OF assms(1,2)] Suc_eq_plus1 [symmetric]
      u_def [symmetric] updateUsage_mask_def by auto
  have used: "bit (m_used b') i \<longleftrightarrow> bit (m_used b) i \<or> bit u i" for i
    by (simp add: res(2) bit_or_iff)
  have "new \<longleftrightarrow> (\<exists>i<8. bit (u AND NOT (m_used b)) i)"
    by (simp add: res(1) bit_eq_iff)
  also have "\<dots> \<longleftrightarrow> (\<exists>i<8. bit (m_used b') i \<and> \<not> bit (m_used b) i)"
    using bu used by (auto simp: bit_and_iff bit_not_iff)
  finally show ?thesis using bu used res(2) by auto
qed

lemma updateUsage_marks_witness:
  "\<exists>b b' new. CacheBlockInfo_create PR_L1_CACHE = Inr b \<and> updateUsage b 12 8 = (new, b') \<and>
     new \<and> bit (m_used b') 1 \<and> bit (m_used b') 2 \<and> \<not> bit (m_used b') 3"
proof -
  obtain b where b: "CacheBlockInfo_create PR_L1_CACHE = Inr b" "m_used b = 0"
    by (simp add: CacheBlockInfo_create_def)
  obtain new b' where u: "updateUsage b 12 8 = (new, b')" by fastforce
  have *: "bit (m_used b') i \<longleftrightarrow> 1 \<le> i \<and> i \<le> 2" if "i < 8" for i
    using updateUsage_marks [OF _ _ u] b(2) that by auto
  moreover have "\<exists>i<8. bit (m_used b') i \<and> \<not> bit (m_used b) i"
    using * [of 1] b(2) by (intro exI [of _ 1]) simp
  then have new using updateUsage_marks [OF _ _ u] by auto
  ultimately show ?thesis using b u by auto
qed

lemma set_clear_CachedLoc:
  assumes "setCachedLoc bv loc = Inr bv'"
  shows "clearCachedLoc bv' loc = Inr bv \<or> 32 \<le> loc"
proof (cases "loc < 32")
  case True
  from assms have l: "loc \<noteq> 0" and nb: "\<not> bit bv loc" and bv': "bv' = bv OR push_bit loc 1"
    by (auto simp: setCachedLoc_def and_exp_eq_0_iff_not_bit split: if_splits)
  have "bit bv' loc" using True by (simp add: bv' bit_or_iff bit_exp_iff)
  moreover have "bv' AND NOT (push_bit loc 1) = bv"
    by (rule bit_word_eqI) (use nb in \<open>auto simp: bv' bit_and_iff bit_or_iff bit_not_iff bit_exp_iff\<close>)
  ultimately show ?thesis using l by (simp add: clearCachedLoc_def and_exp_eq_0_iff_not_bit)
qed simp

end
