(* ===== verification/Replacement.thy ===== *)
theory Replacement
  imports Cache_Base
begin

text \<open>
  The replacement policies of \<^verbatim>\<open>common/core/memory_subsystem/cache/cache_set_*.cc\<close>.
  Each policy keeps its own per-set state, chooses a victim way in
  \<^verbatim>\<open>getReplacementIndex\<close> and is told about hits in \<^verbatim>\<open>updateReplacementIndex\<close>.
  A set with \<open>n\<close> ways is a list of \<open>n\<close> lines, so the code's
  \<^verbatim>\<open>m_associativity\<close> is the length of that list. Eight-bit fields are natural
  numbers with the reduction modulo 256 written where the code stores them.
\<close>

section \<open>Environment of a policy call\<close>

text \<open>
  \<^verbatim>\<open>CacheSetInfoLRU\<close>: statistics shared by all sets of one cache. The
  \<^verbatim>\<open>CacheCntlr\<close> passed to a query-based policy is the predicate
  \<^verbatim>\<open>isInLowerLevelCache\<close> with the number of calls of
  \<^verbatim>\<open>incrementQBSLookupCost\<close> made on it.
\<close>

record set_info =
  si_access :: "u64 list"
  si_attempts :: "u64 list option"

record cache_cntlr =
  isInLowerLevelCache :: "cache_block_info \<Rightarrow> bool"
  qbs_lookups :: nat

record repl_env =
  re_info :: "set_info option"
  re_cntlr :: "cache_cntlr option"

definition CacheSetInfoLRU :: "nat \<Rightarrow> nat \<Rightarrow> set_info" where
  "CacheSetInfoLRU associativity num_attempts =
     \<lparr>si_access = replicate associativity 0,
      si_attempts = (if 1 < num_attempts then Some (replicate num_attempts 0) else None)\<rparr>"

definition si_increment :: "set_info \<Rightarrow> nat \<Rightarrow> set_info result" where
  "si_increment si index =
     (if index < length (si_access si)
      then Inr (si\<lparr>si_access := (si_access si)[index := si_access si ! index + 1]\<rparr>)
      else Inl Assert_Failed)"

definition si_incrementAttempt :: "set_info \<Rightarrow> nat \<Rightarrow> set_info result" where
  "si_incrementAttempt si attempt =
     (case si_attempts si of
        Some as \<Rightarrow>
          if attempt < length as
          then Inr (si\<lparr>si_attempts := Some (as[attempt := as ! attempt + 1])\<rparr>)
          else Inl Out_Of_Range
      | None \<Rightarrow> if attempt = 0 then Inr si else Inl Assert_Failed)"

text \<open>The same two calls through the \<^verbatim>\<open>m_set_info\<close> pointer.\<close>

definition env_increment :: "repl_env \<Rightarrow> nat \<Rightarrow> repl_env result" where
  "env_increment e index =
     (case re_info e of
        None \<Rightarrow> Inl Null_Pointer
      | Some si \<Rightarrow> (case si_increment si index of Inl er \<Rightarrow> Inl er
                    | Inr si' \<Rightarrow> Inr (e\<lparr>re_info := Some si'\<rparr>)))"

definition env_incrementAttempt :: "repl_env \<Rightarrow> nat \<Rightarrow> repl_env result" where
  "env_incrementAttempt e attempt =
     (case re_info e of
        None \<Rightarrow> Inl Null_Pointer
      | Some si \<Rightarrow> (case si_incrementAttempt si attempt of Inl er \<Rightarrow> Inl er
                    | Inr si' \<Rightarrow> Inr (e\<lparr>re_info := Some si'\<rparr>)))"

definition env_qbs_cost :: "repl_env \<Rightarrow> repl_env" where
  "env_qbs_cost e =
     e\<lparr>re_cntlr := map_option (\<lambda>c. c\<lparr>qbs_lookups := qbs_lookups c + 1\<rparr>) (re_cntlr e)\<rparr>"

text \<open>
  Query-based selection: on every attempt but the last, ask the controller whether the
  line also lives in a lower-level cache.
\<close>

definition qbs_query :: "repl_env \<Rightarrow> nat \<Rightarrow> nat \<Rightarrow> cache_block_info \<Rightarrow> bool result" where
  "qbs_query e num_attempts attempt b =
     (if attempt + 1 < num_attempts
      then (case re_cntlr e of
              None \<Rightarrow> Inl Assert_Failed
            | Some c \<Rightarrow> Inr (isInLowerLevelCache c b))
      else Inr False)"

definition isValidReplacement :: "cache_block_info list \<Rightarrow> nat \<Rightarrow> bool" where
  "isValidReplacement bs i \<longleftrightarrow> m_cstate (bs ! i) \<noteq> SHARED_UPGRADING"

text \<open>The first loop of every policy but round robin: the first invalid way.\<close>

definition first_invalid :: "cache_block_info list \<Rightarrow> nat option" where
  "first_invalid bs = first_idx (\<lambda>i. \<not> isValid (bs ! i)) (length bs)"

section \<open>LRU\<close>

record lru =
  lru_num_attempts :: nat
  lru_bits :: "nat list"

definition CacheSetLRU :: "nat \<Rightarrow> nat \<Rightarrow> lru" where
  "CacheSetLRU associativity num_attempts =
     \<lparr>lru_num_attempts = num_attempts, lru_bits = map (\<lambda>i. i mod 256) [0..<associativity]\<rparr>"

text \<open>
  \<^verbatim>\<open>moveToMRU\<close>: every counter below the accessed way's is incremented. The loop runs in
  place, but it never changes the accessed way's own counter, so the comparison is with a
  fixed value.
\<close>

definition moveToMRU :: "nat list \<Rightarrow> nat \<Rightarrow> nat list" where
  "moveToMRU bits a =
     (map (\<lambda>b. if b < bits ! a then (b + 1) mod 256 else b) bits)[a := 0]"

text \<open>The scan for the greatest counter of a replaceable way, from way 0 upwards.\<close>

definition lru_victim :: "cache_block_info list \<Rightarrow> nat list \<Rightarrow> nat" where
  "lru_victim bs bits =
     fst (fold (\<lambda>i (index, max_bits).
             if bits ! i > max_bits \<and> isValidReplacement bs i then (i, bits ! i)
             else (index, max_bits))
           [0..<length bs] (0, 0))"

fun lru_attempts ::
  "nat \<Rightarrow> nat list \<Rightarrow> cache_block_info list \<Rightarrow> nat list \<Rightarrow> repl_env
     \<Rightarrow> (nat \<times> nat list \<times> repl_env) result" where
  "lru_attempts num [] bs bits e = Inl Log_Error"
| "lru_attempts num (attempt # rest) bs bits e =
     (let index = lru_victim bs bits
      in if \<not> index < length bs then Inl Assert_Failed
         else case qbs_query e num attempt (bs ! index) of
                Inl er \<Rightarrow> Inl er
              | Inr qbs_reject \<Rightarrow>
                  if qbs_reject
                  then lru_attempts num rest bs (moveToMRU bits index) (env_qbs_cost e)
                  else (case env_incrementAttempt e attempt of
                          Inl er \<Rightarrow> Inl er
                        | Inr e' \<Rightarrow> Inr (index, moveToMRU bits index, e')))"

definition lru_getReplacementIndex ::
  "repl_env \<Rightarrow> cache_block_info list \<Rightarrow> lru \<Rightarrow> (nat \<times> lru \<times> repl_env) result" where
  "lru_getReplacementIndex e bs r =
     (case first_invalid bs of
        Some i \<Rightarrow> Inr (i, r\<lparr>lru_bits := moveToMRU (lru_bits r) i\<rparr>, e)
      | None \<Rightarrow>
          (case lru_attempts (lru_num_attempts r) [0..<lru_num_attempts r] bs (lru_bits r) e of
             Inl er \<Rightarrow> Inl er
           | Inr (index, bits, e') \<Rightarrow> Inr (index, r\<lparr>lru_bits := bits\<rparr>, e')))"

definition lru_updateReplacementIndex :: "repl_env \<Rightarrow> lru \<Rightarrow> nat \<Rightarrow> (lru \<times> repl_env) result" where
  "lru_updateReplacementIndex e r a =
     (case env_increment e (lru_bits r ! a) of
        Inl er \<Rightarrow> Inl er
      | Inr e' \<Rightarrow> Inr (r\<lparr>lru_bits := moveToMRU (lru_bits r) a\<rparr>, e'))"

section \<open>MRU and NMRU\<close>

definition CacheSetMRU :: "nat \<Rightarrow> nat list" where
  "CacheSetMRU associativity = map (\<lambda>i. i mod 256) [0..<associativity]"

text \<open>The \<^verbatim>\<open>while (target < m_associativity)\<close> loop over the counters' values.\<close>

fun mru_search :: "cache_block_info list \<Rightarrow> nat list \<Rightarrow> nat list \<Rightarrow> nat option" where
  "mru_search bs bits [] = None"
| "mru_search bs bits (target # targets) =
     (case first_idx (\<lambda>i. bits ! i = target \<and> isValidReplacement bs i) (length bs) of
        Some i \<Rightarrow> Some i
      | None \<Rightarrow> mru_search bs bits targets)"

definition mru_getReplacementIndex ::
  "cache_block_info list \<Rightarrow> nat list \<Rightarrow> (nat \<times> nat list) result" where
  "mru_getReplacementIndex bs bits =
     (case first_invalid bs of
        Some i \<Rightarrow> Inr (i, moveToMRU bits i)
      | None \<Rightarrow> (case mru_search bs bits [0..<length bs] of
                   Some i \<Rightarrow> Inr (i, moveToMRU bits i)
                 | None \<Rightarrow> Inl Log_Error))"

record nmru =
  nmru_bits :: "nat list"
  nmru_pointer :: nat

definition CacheSetNMRU :: "nat \<Rightarrow> nmru" where
  "CacheSetNMRU associativity =
     \<lparr>nmru_bits = map (\<lambda>i. i mod 256) [0..<associativity], nmru_pointer = 0\<rparr>"

text \<open>
  The circular scan of NMRU and NRU: at most \<open>k\<close> steps of the eight-bit replacement
  pointer, which is left behind the way that was found.
\<close>

definition next_pointer :: "nat \<Rightarrow> nat \<Rightarrow> nat" where
  "next_pointer n p = ((p + 1) mod n) mod 256"

fun ptr_scan :: "nat \<Rightarrow> (nat \<Rightarrow> bool) \<Rightarrow> nat \<Rightarrow> nat \<Rightarrow> (nat \<times> nat) option" where
  "ptr_scan 0 P n p = None"
| "ptr_scan (Suc k) P n p =
     (if P p then Some (p, next_pointer n p) else ptr_scan k P n (next_pointer n p))"

definition nmru_getReplacementIndex ::
  "cache_block_info list \<Rightarrow> nmru \<Rightarrow> (nat \<times> nmru) result" where
  "nmru_getReplacementIndex bs r =
     (case first_invalid bs of
        Some i \<Rightarrow> Inr (i, r\<lparr>nmru_bits := moveToMRU (nmru_bits r) i\<rparr>)
      | None \<Rightarrow>
          (case ptr_scan (length bs) (\<lambda>p. nmru_bits r ! p \<noteq> 0 \<and> isValidReplacement bs p)
                  (length bs) (nmru_pointer r) of
             Some (index, p) \<Rightarrow>
               Inr (index, r\<lparr>nmru_bits := moveToMRU (nmru_bits r) index, nmru_pointer := p\<rparr>)
           | None \<Rightarrow> Inl Log_Error))"

definition nmru_updateReplacementIndex :: "nmru \<Rightarrow> nat \<Rightarrow> nmru" where
  "nmru_updateReplacementIndex r a = r\<lparr>nmru_bits := moveToMRU (nmru_bits r) a\<rparr>"

section \<open>NRU\<close>

record nru =
  nru_bits :: "nat list"
  nru_num_bits_set :: nat
  nru_pointer :: nat

definition CacheSetNRU :: "nat \<Rightarrow> nru" where
  "CacheSetNRU associativity =
     \<lparr>nru_bits = replicate associativity 0, nru_num_bits_set = 0, nru_pointer = 0\<rparr>"

definition nru_updateReplacementIndex :: "nru \<Rightarrow> nat \<Rightarrow> nru" where
  "nru_updateReplacementIndex r a =
     (let bits = (nru_bits r)[a := 1];
          set = (nru_num_bits_set r + 1) mod 256
      in if set = length bits
         then r\<lparr>nru_bits := replicate (length bits) 0, nru_num_bits_set := 0\<rparr>
         else r\<lparr>nru_bits := bits, nru_num_bits_set := set\<rparr>)"

definition nru_getReplacementIndex ::
  "cache_block_info list \<Rightarrow> nru \<Rightarrow> (nat \<times> nru) result" where
  "nru_getReplacementIndex bs r =
     (case first_invalid bs of
        Some i \<Rightarrow> Inr (i, nru_updateReplacementIndex r i)
      | None \<Rightarrow>
          let have_zero_bit =
                (\<exists>i\<in>set [0..<length bs]. nru_bits r ! i = 0 \<and> isValidReplacement bs i)
          in case ptr_scan (length bs)
                    (\<lambda>p. (nru_bits r ! p = 0 \<or> \<not> have_zero_bit) \<and> isValidReplacement bs p)
                    (length bs) (nru_pointer r) of
               Some (index, p) \<Rightarrow>
                 Inr (index, nru_updateReplacementIndex (r\<lparr>nru_pointer := p\<rparr>) index)
             | None \<Rightarrow> Inl Log_Error)"

section \<open>Tree pseudo-LRU\<close>

text \<open>\<^verbatim>\<open>b[8]\<close>, and the associativity, which only 4 and 8 are implemented for.\<close>

record plru =
  plru_associativity :: nat
  plru_b :: "nat list"

definition CacheSetPLRU :: "nat \<Rightarrow> plru result" where
  "CacheSetPLRU associativity =
     (if associativity = 4 \<or> associativity = 8
      then Inr \<lparr>plru_associativity = associativity, plru_b = replicate 8 0\<rparr>
      else Inl Assert_Failed)"

definition plru_victim4 :: "nat list \<Rightarrow> nat" where
  "plru_victim4 b =
     (if b ! 0 = 0 then (if b ! 1 = 0 then 0 else 1)
      else (if b ! 2 = 0 then 2 else 3))"

definition plru_victim8 :: "nat list \<Rightarrow> nat" where
  "plru_victim8 b =
     (if b ! 0 = 0
      then (if b ! 1 = 0 then (if b ! 2 = 0 then 0 else 1)
            else (if b ! 3 = 0 then 2 else 3))
      else (if b ! 4 = 0 then (if b ! 5 = 0 then 4 else 5)
            else (if b ! 6 = 0 then 6 else 7)))"

definition plru_update4 :: "nat list \<Rightarrow> nat \<Rightarrow> nat list" where
  "plru_update4 b a =
     (if a = 0 then b[0 := 1, 1 := 1]
      else if a = 1 then b[0 := 1, 1 := 0]
      else if a = 2 then b[0 := 0, 2 := 1]
      else if a = 3 then b[0 := 0, 2 := 0]
      else b)"

definition plru_update8 :: "nat list \<Rightarrow> nat \<Rightarrow> nat list" where
  "plru_update8 b a =
     (if a = 0 then b[0 := 1, 1 := 1, 2 := 1]
      else if a = 1 then b[0 := 1, 1 := 1, 2 := 0]
      else if a = 2 then b[0 := 1, 1 := 0, 3 := 1]
      else if a = 3 then b[0 := 1, 1 := 0, 3 := 0]
      else if a = 4 then b[0 := 0, 4 := 1, 5 := 1]
      else if a = 5 then b[0 := 0, 4 := 1, 5 := 0]
      else if a = 6 then b[0 := 0, 4 := 0, 6 := 1]
      else if a = 7 then b[0 := 0, 4 := 0, 6 := 0]
      else b)"

definition plru_updateReplacementIndex :: "plru \<Rightarrow> nat \<Rightarrow> plru result" where
  "plru_updateReplacementIndex r a =
     (if plru_associativity r = 4 then Inr (r\<lparr>plru_b := plru_update4 (plru_b r) a\<rparr>)
      else if plru_associativity r = 8 then Inr (r\<lparr>plru_b := plru_update8 (plru_b r) a\<rparr>)
      else Inl Log_Error)"

definition plru_getReplacementIndex ::
  "cache_block_info list \<Rightarrow> plru \<Rightarrow> (nat \<times> plru) result" where
  "plru_getReplacementIndex bs r =
     (case first_invalid bs of
        Some i \<Rightarrow>
          (case plru_updateReplacementIndex r i of Inl er \<Rightarrow> Inl er | Inr r' \<Rightarrow> Inr (i, r'))
      | None \<Rightarrow>
          if plru_associativity r \<noteq> 4 \<and> plru_associativity r \<noteq> 8 then Inl Log_Error
          else
            let retValue = (if plru_associativity r = 4 then plru_victim4 (plru_b r)
                            else plru_victim8 (plru_b r))
            in if \<not> isValidReplacement bs retValue then Inl Assert_Failed
               else (case plru_updateReplacementIndex r retValue of
                       Inl er \<Rightarrow> Inl er | Inr r' \<Rightarrow> Inr (retValue, r')))"

section \<open>Static re-reference interval prediction\<close>

record srrip =
  sr_max :: nat
  sr_insert :: nat
  sr_num_attempts :: nat
  sr_bits :: "nat list"
  sr_pointer :: nat

definition CacheSetSRRIP :: "nat \<Rightarrow> nat \<Rightarrow> nat \<Rightarrow> srrip" where
  "CacheSetSRRIP numbits associativity num_attempts =
     (let rmax = (2 ^ numbits - 1) mod 256;
          ins = (rmax + 255) mod 256
      in \<lparr>sr_max = rmax, sr_insert = ins, sr_num_attempts = num_attempts,
          sr_bits = replicate associativity ins, sr_pointer = 0\<rparr>)"

text \<open>
  The inner loop: \<open>k\<close> iterations left. A query-based rejection uses up an iteration
  without moving the pointer (the \<^verbatim>\<open>continue\<close> of the source). \<open>Inl\<close> in the
  result is the victim found, \<open>Inr\<close> the state after a scan without one.
\<close>

fun srrip_scan ::
  "nat \<Rightarrow> cache_block_info list \<Rightarrow> srrip \<Rightarrow> nat \<Rightarrow> repl_env
     \<Rightarrow> ((nat \<times> srrip \<times> repl_env) + (srrip \<times> nat \<times> repl_env)) result" where
  "srrip_scan 0 bs r attempt e = Inr (Inr (r, attempt, e))"
| "srrip_scan (Suc k) bs r attempt e =
     (if sr_max r \<le> sr_bits r ! sr_pointer r
      then
        let index = sr_pointer r
        in case qbs_query e (sr_num_attempts r) attempt (bs ! index) of
             Inl er \<Rightarrow> Inl er
           | Inr True \<Rightarrow>
               srrip_scan k bs (r\<lparr>sr_bits := (sr_bits r)[index := 0]\<rparr>) (attempt + 1) (env_qbs_cost e)
           | Inr False \<Rightarrow>
               let r' = r\<lparr>sr_pointer := next_pointer (length bs) index,
                          sr_bits := (sr_bits r)[index := sr_insert r]\<rparr>
               in case env_incrementAttempt e attempt of
                    Inl er \<Rightarrow> Inl er
                  | Inr e' \<Rightarrow> if isValidReplacement bs index then Inr (Inl (index, r', e'))
                              else Inl Assert_Failed
      else srrip_scan k bs (r\<lparr>sr_pointer := next_pointer (length bs) (sr_pointer r)\<rparr>) attempt e)"

definition srrip_age :: "srrip \<Rightarrow> srrip" where
  "srrip_age r = r\<lparr>sr_bits := map (\<lambda>b. if b < sr_max r then b + 1 else b) (sr_bits r)\<rparr>"

fun srrip_rounds ::
  "nat \<Rightarrow> cache_block_info list \<Rightarrow> srrip \<Rightarrow> nat \<Rightarrow> repl_env
     \<Rightarrow> (nat \<times> srrip \<times> repl_env) result" where
  "srrip_rounds 0 bs r attempt e = Inl Log_Error"
| "srrip_rounds (Suc j) bs r attempt e =
     (case srrip_scan (length bs) bs r attempt e of
        Inl er \<Rightarrow> Inl er
      | Inr (Inl found) \<Rightarrow> Inr found
      | Inr (Inr (r', attempt', e')) \<Rightarrow> srrip_rounds j bs (srrip_age r') attempt' e')"

definition srrip_getReplacementIndex ::
  "repl_env \<Rightarrow> cache_block_info list \<Rightarrow> srrip \<Rightarrow> (nat \<times> srrip \<times> repl_env) result" where
  "srrip_getReplacementIndex e bs r =
     (case first_invalid bs of
        Some i \<Rightarrow> Inr (i, r\<lparr>sr_bits := (sr_bits r)[i := sr_insert r]\<rparr>, e)
      | None \<Rightarrow> srrip_rounds (sr_max r + 1) bs r 0 e)"

definition srrip_updateReplacementIndex ::
  "repl_env \<Rightarrow> srrip \<Rightarrow> nat \<Rightarrow> (srrip \<times> repl_env) result" where
  "srrip_updateReplacementIndex e r a =
     (case env_increment e (sr_bits r ! a) of
        Inl er \<Rightarrow> Inl er
      | Inr e' \<Rightarrow>
          Inr (if 0 < sr_bits r ! a
               then r\<lparr>sr_bits := (sr_bits r)[a := sr_bits r ! a - 1]\<rparr> else r, e'))"

section \<open>Random and round robin\<close>

text \<open>
  Both policies call themselves again when the way they looked at may not be replaced, so
  they may not return: \<open>None\<close>.
\<close>

partial_function (option) random_getReplacementIndex ::
  "cache_block_info list \<Rightarrow> u32 \<Rightarrow> (nat \<times> u32) outcome" where
  "random_getReplacementIndex bs seed =
     (case first_invalid bs of
        Some i \<Rightarrow> Some (Inr (i, seed))
      | None \<Rightarrow>
          (case random_next 32768 seed of
             Inl er \<Rightarrow> Some (Inl er)
           | Inr (v, seed') \<Rightarrow>
               if length bs = 0 then Some (Inl Div_By_Zero)
               else
                 (let index = unat v mod length bs
                  in if isValidReplacement bs index then Some (Inr (index, seed'))
                     else random_getReplacementIndex bs seed')))"

definition CacheSetRoundRobin :: "nat \<Rightarrow> nat" where
  "CacheSetRoundRobin associativity = associativity - 1"

definition rr_pred :: "nat \<Rightarrow> nat \<Rightarrow> nat" where
  "rr_pred n i = (if i = 0 then n - 1 else i - 1)"

partial_function (option) rr_getReplacementIndex ::
  "cache_block_info list \<Rightarrow> nat \<Rightarrow> (nat \<times> nat) outcome" where
  "rr_getReplacementIndex bs cur =
     (let next = rr_pred (length bs) cur
      in if \<not> isValidReplacement bs next then rr_getReplacementIndex bs next
         else Some (Inr (cur, next)))"

section \<open>LRU counters form a permutation\<close>

definition lru_perm :: "nat \<Rightarrow> nat list \<Rightarrow> bool" where
  "lru_perm n bits \<longleftrightarrow> length bits = n \<and> distinct bits \<and> set bits = {..<n} \<and> n \<le> 256"

lemma lru_permD:
  assumes "lru_perm n bits"
  shows "length bits = n" and "distinct bits" and "set bits = {..<n}" and "n \<le> 256"
  using assms by (auto simp: lru_perm_def)

lemma lru_perm_nth_less: "lru_perm n bits \<Longrightarrow> i < n \<Longrightarrow> bits ! i < n"
  by (metis lessThan_iff lru_permD(1,3) nth_mem)

lemma lru_perm_init: "n \<le> 256 \<Longrightarrow> lru_perm n (map (\<lambda>i. i mod 256) [0..<n])"
proof -
  assume n: "n \<le> 256"
  then have "map (\<lambda>i. i mod 256) [0..<n] = [0..<n]" by (intro map_idI) auto
  with n show ?thesis by (auto simp: lru_perm_def)
qed

text \<open>What \<open>moveToMRU\<close> does to the counter values: a rotation of \<open>0..c\<close>.\<close>

definition rot :: "nat \<Rightarrow> nat \<Rightarrow> nat" where
  "rot c v = (if v = c then 0 else if v < c then v + 1 else v)"

lemma inj_rot: "inj (rot c)"
  by (rule injI) (auto simp: rot_def split: if_splits)

lemma rot_less: "c < n \<Longrightarrow> v < n \<Longrightarrow> rot c v < n"
  by (auto simp: rot_def)

lemma moveToMRU_rot:
  assumes "lru_perm n bits" and "a < n"
  shows "moveToMRU bits a = map (rot (bits ! a)) bits"
proof (rule nth_equalityI)
  show "length (moveToMRU bits a) = length (map (rot (bits ! a)) bits)"
    by (simp add: moveToMRU_def)
  fix i assume "i < length (moveToMRU bits a)"
  then have i: "i < n" using lru_permD(1) [OF assms(1)] by (simp add: moveToMRU_def)
  have "bits ! i = bits ! a \<longleftrightarrow> i = a"
    using lru_permD(1,2) [OF assms(1)] i assms(2) by (simp add: nth_eq_iff_index_eq)
  moreover have "bits ! a < 256" using lru_perm_nth_less [OF assms] lru_permD(4) [OF assms(1)] by simp
  ultimately show "moveToMRU bits a ! i = map (rot (bits ! a)) bits ! i"
    using i assms(2) lru_permD(1) [OF assms(1)]
    by (auto simp: moveToMRU_def rot_def nth_list_update)
qed

lemma lru_perm_moveToMRU:
  assumes "lru_perm n bits" and "a < n"
  shows "lru_perm n (moveToMRU bits a)"
proof -
  note d = lru_permD [OF assms(1)]
  have c: "bits ! a < n" by (rule lru_perm_nth_less [OF assms])
  have "rot (bits ! a) ` {..<n} = {..<n}"
    by (intro endo_inj_surj) (auto intro: rot_less c inj_on_subset [OF inj_rot])
  then show ?thesis
    using d inj_on_subset [OF inj_rot]
    by (simp add: moveToMRU_rot [OF assms] lru_perm_def distinct_map)
qed

section \<open>LRU refines the recency stack\<close>

text \<open>
  The abstract policy is a list of ways, most recently used first: an access moves its
  way to the front, the victim is the last way.
\<close>

definition lru_order :: "nat list \<Rightarrow> nat list" where
  "lru_order bits = map (\<lambda>k. the (first_idx (\<lambda>i. bits ! i = k) (length bits))) [0..<length bits]"

definition touch :: "'a \<Rightarrow> 'a list \<Rightarrow> 'a list" where
  "touch a ws = a # removeAll a ws"

lemma lru_order_nth:
  assumes "lru_perm n bits" and "i < n"
  shows "lru_order bits ! (bits ! i) = i"
proof -
  note d = lru_permD [OF assms(1)]
  have b: "bits ! i < n" by (rule lru_perm_nth_less [OF assms])
  obtain j where j: "first_idx (\<lambda>j. bits ! j = bits ! i) n = Some j"
    using first_idx_Some_ex [of i n "\<lambda>j. bits ! j = bits ! i"] assms(2) by blast
  then have "j < n" "bits ! j = bits ! i" using first_idx_SomeD [OF j] by auto
  then have "j = i" using d assms(2) by (simp add: nth_eq_iff_index_eq)
  then show ?thesis using j b d(1) by (simp add: lru_order_def)
qed

lemma length_lru_order [simp]: "length (lru_order bits) = length bits"
  by (simp add: lru_order_def)

lemma lru_order_eqI:
  assumes "lru_perm n bits" and "length ws = n" and "\<And>i. i < n \<Longrightarrow> ws ! (bits ! i) = i"
  shows "lru_order bits = ws"
proof (rule nth_equalityI)
  show "length (lru_order bits) = length ws" using assms(2) lru_permD(1) [OF assms(1)] by simp
  fix k assume "k < length (lru_order bits)"
  then have "k \<in> set bits" using lru_permD(1,3) [OF assms(1)] by auto
  then obtain i where "i < n" "bits ! i = k" using lru_permD(1) [OF assms(1)] by (auto simp: in_set_conv_nth)
  then show "lru_order bits ! k = ws ! k" using assms lru_order_nth by metis
qed

lemma lru_order_distinct:
  assumes "lru_perm n bits" shows "distinct (lru_order bits)" and "set (lru_order bits) = {..<n}"
proof -
  note d = lru_permD [OF assms]
  have "set (lru_order bits) \<supseteq> {..<n}"
    using lru_order_nth [OF assms] lru_perm_nth_less [OF assms] d(1) by (metis (no_types, lifting) lessThan_iff length_lru_order nth_mem subsetI)
  then have c: "n \<le> card (set (lru_order bits))" by (metis List.finite_set card_lessThan card_mono)
  then show dis: "distinct (lru_order bits)"
    using card_length [of "lru_order bits"] d(1) by (intro card_distinct) simp
  show "set (lru_order bits) = {..<n}"
    using \<open>{..<n} \<subseteq> set (lru_order bits)\<close> card_length [of "lru_order bits"] d(1)
    by (metis List.finite_set card_lessThan card_seteq length_lru_order)
qed

lemma removeAll_nth_split:
  assumes "distinct ws" and "c < length ws"
  shows "removeAll (ws ! c) ws = take c ws @ drop (Suc c) ws"
proof -
  have split: "ws = take c ws @ ws ! c # drop (Suc c) ws" using assms(2) by (rule id_take_nth_drop)
  with assms(1) have "ws ! c \<notin> set (take c ws)" "ws ! c \<notin> set (drop (Suc c) ws)"
    by (metis distinct.simps(2) distinct_append not_distinct_conv_prefix)+
  then show ?thesis by (subst split) simp
qed

text \<open>
  C17. LRU refines the recency stack: on every permutation of counters, \<open>moveToMRU\<close>
  moves the accessed way to the front of the recency order and keeps the order of all
  other ways.
\<close>

theorem lru_touch_refines:
  assumes "lru_perm n bits" and "a < n"
  shows "lru_order (moveToMRU bits a) = touch a (lru_order bits)"
proof (rule lru_order_eqI [OF lru_perm_moveToMRU [OF assms]])
  let ?ws = "lru_order bits" and ?c = "bits ! a"
  note d = lru_permD [OF assms(1)] and o = lru_order_distinct [OF assms(1)]
  have c: "?c < n" by (rule lru_perm_nth_less [OF assms])
  have wa: "?ws ! ?c = a" by (rule lru_order_nth [OF assms])
  have rm: "removeAll a ?ws = take ?c ?ws @ drop (Suc ?c) ?ws"
    using removeAll_nth_split [OF o(1), of ?c] c d(1) by (simp add: wa)
  show "length (touch a ?ws) = n" using c d(1) by (simp add: touch_def rm)
  fix i assume i: "i < n"
  have b: "bits ! i < n" by (rule lru_perm_nth_less [OF assms(1) i])
  have "?ws ! (bits ! i) = i" by (rule lru_order_nth [OF assms(1) i])
  moreover have "moveToMRU bits a ! i = rot ?c (bits ! i)"
    using moveToMRU_rot [OF assms] i d(1) by simp
  moreover have "(a # take ?c ?ws @ drop (Suc ?c) ?ws) ! rot ?c v = ?ws ! v" if "v < n" for v
    using that c d(1) wa by (auto simp: rot_def nth_append min_def)
  ultimately show "touch a ?ws ! (moveToMRU bits a ! i) = i"
    using b by (simp add: touch_def rm)
qed

lemma lru_touch_refines_witness:
  "lru_perm 4 [2, 0, 3, 1] \<and> lru_order [2, 0, 3, 1] = [1, 3, 0, 2] \<and>
   lru_order (moveToMRU [2, 0, 3, 1] 0) = touch 0 [1, 3, 0, 2] \<and> touch 0 [1, 3, 0, 2] = [0, 1, 3, 2::nat]"
proof -
  have p: "lru_perm 4 [2, 0, 3, 1]" by (auto simp: lru_perm_def)
  have o: "lru_order [2, 0, 3, 1] = [1, 3, 0, 2]" by code_simp
  from lru_touch_refines [OF p, of 0] p o show ?thesis by (simp add: touch_def)
qed

text \<open>The scan for the victim keeps the greatest counter seen among replaceable ways.\<close>

lemma lru_scan_inv:
  fixes bits :: "nat list"
  assumes "fold (\<lambda>i (index, mx). if bits ! i > mx \<and> isValidReplacement bs i then (i, bits ! i)
             else (index, mx)) [0..<k] (0, 0) = (index, mx)"
  shows "(index = 0 \<and> mx = 0 \<or> index < k \<and> isValidReplacement bs index \<and> bits ! index = mx \<and> 0 < mx) \<and>
         (\<forall>j<k. isValidReplacement bs j \<longrightarrow> bits ! j \<le> mx)"
  using assms
proof (induction k arbitrary: index mx)
  case 0
  then show ?case by simp
next
  case (Suc k)
  obtain i0 m0 where s: "fold (\<lambda>i (index, mx). if bits ! i > mx \<and> isValidReplacement bs i then (i, bits ! i)
             else (index, mx)) [0..<k] (0, 0) = (i0, m0)" by fastforce
  from Suc.prems s have "(index, mx) = (if bits ! k > m0 \<and> isValidReplacement bs k then (k, bits ! k) else (i0, m0))"
    by simp
  with Suc.IH [OF s] show ?case by (auto simp: less_Suc_eq split: if_splits)
qed


definition line :: "intptr \<Rightarrow> cstate_t \<Rightarrow> cache_block_info" where
  "line t c = \<lparr>m_tag = t, m_cstate = c, m_owner = 0, m_used = 0, m_options = 0, m_cached_loc_bitvec = None\<rparr>"

lemma line_simps [simp]: "m_tag (line t c) = t" "m_cstate (line t c) = c"
  by (simp_all add: line_def)


text \<open>
  When only the most recently used way may be replaced, the scan falls back to way 0
  without the check that guards every other choice: a line in the middle of an upgrade is
  selected although another way is replaceable.
\<close>

theorem lru_victim_upgrading:
  "\<exists>bs bits. lru_perm 2 bits \<and> length bs = 2 \<and> isValidReplacement bs 1 \<and>
     lru_victim bs bits = 0 \<and> \<not> isValidReplacement bs (lru_victim bs bits)"
proof -
  let ?bs = "[line 1 SHARED_UPGRADING, line 2 SHARED]"
  have "lru_perm 2 [1, 0]" by (auto simp: lru_perm_def)
  moreover have "lru_victim ?bs [1, 0] = 0"
    by (simp add: lru_victim_def isValidReplacement_def upt_rec)
  ultimately show ?thesis
    by (intro exI [of _ ?bs] exI [of _ "[1, 0]"]) (simp add: isValidReplacement_def)
qed

section \<open>Circular scans\<close>

lemma next_pointer_eq: "p < n \<Longrightarrow> n \<le> 256 \<Longrightarrow> next_pointer n p = (p + 1) mod n"
  by (simp add: next_pointer_def order_less_le_trans [OF mod_less_divisor])

lemma next_pointer_less: "p < n \<Longrightarrow> n \<le> 256 \<Longrightarrow> next_pointer n p < n"
  by (simp add: next_pointer_eq)

lemma ptr_scan_SomeD:
  assumes "ptr_scan k P n p = Some (i, q)" and "p < n" and "n \<le> 256"
  shows "i < n \<and> P i \<and> q < n"
  using assms
  by (induction k arbitrary: p) (auto simp: next_pointer_less split: if_splits)

lemma ptr_scan_None:
  assumes "ptr_scan k P n p = None" and "p < n" and "n \<le> 256" and "m < k"
  shows "\<not> P ((p + m) mod n)"
  using assms
proof (induction k arbitrary: p m)
  case 0
  then show ?case by simp
next
  case (Suc k)
  from Suc.prems(1) have np: "\<not> P p" and rest: "ptr_scan k P n (next_pointer n p) = None"
    by (auto split: if_splits)
  show ?case
  proof (cases m)
    case 0
    then show ?thesis using np Suc.prems(2) by simp
  next
    case (Suc m')
    have "\<not> P ((next_pointer n p + m') mod n)"
      using Suc.IH [OF rest next_pointer_less] Suc.prems Suc by simp
    moreover have "(next_pointer n p + m') mod n = (p + m) mod n"
      using Suc Suc.prems(2,3) by (simp add: next_pointer_eq mod_add_left_eq)
    ultimately show ?thesis by simp
  qed
qed

lemma ptr_scan_complete:
  assumes "p < n" and "n \<le> 256" and "j < n" and "P j"
  shows "\<exists>i q. ptr_scan n P n p = Some (i, q)"
proof (rule ccontr)
  assume "\<nexists>i q. ptr_scan n P n p = Some (i, q)"
  then have none: "ptr_scan n P n p = None" by (cases "ptr_scan n P n p") auto
  have "(p + (j + n - p) mod n) mod n = (p + (j + n - p)) mod n" by (simp add: mod_add_right_eq)
  also have "\<dots> = j" using assms(1,3) by simp
  finally have "(p + (j + n - p) mod n) mod n = j" .
  with ptr_scan_None [OF none assms(1,2), of "(j + n - p) mod n"] assms(3,4) show False by simp
qed

section \<open>NRU\<close>

definition nru_ok :: "nat \<Rightarrow> nru \<Rightarrow> bool" where
  "nru_ok n r \<longleftrightarrow> length (nru_bits r) = n \<and> nru_pointer r < n \<and> n \<le> 256"

lemma nru_ok_update: "nru_ok n r \<Longrightarrow> nru_ok n (nru_updateReplacementIndex r a)"
  by (simp add: nru_ok_def nru_updateReplacementIndex_def Let_def)

lemma nru_get_ok:
  assumes "nru_ok n r" and "length bs = n" and "nru_getReplacementIndex bs r = Inr (i, r')"
  shows "i < n \<and> nru_ok n r'"
proof (cases "first_invalid bs")
  case None
  from assms(1) have p: "nru_pointer r < n" "n \<le> 256" by (simp_all add: nru_ok_def)
  from assms(2,3) None obtain P q where "ptr_scan n P n (nru_pointer r) = Some (i, q)"
    and r': "r' = nru_updateReplacementIndex (r\<lparr>nru_pointer := q\<rparr>) i"
    by (auto simp: nru_getReplacementIndex_def Let_def split: option.splits)
  with p have "i < n" "q < n" using ptr_scan_SomeD by blast+
  with assms(1) show ?thesis unfolding r' by (intro conjI nru_ok_update) (simp_all add: nru_ok_def)
next
  case (Some j)
  with assms show ?thesis
    by (auto simp: nru_getReplacementIndex_def first_invalid_def nru_ok_update dest: first_idx_SomeD(1))
qed

text \<open>
  NRU always finds a victim when some way may be replaced, and it takes a way whose
  reference bit is clear whenever a replaceable one exists.
\<close>

theorem nru_victim_unreferenced:
  assumes "nru_ok n r" and "length bs = n" and "first_invalid bs = None"
    and "j < n" and "isValidReplacement bs j"
  shows "\<exists>i r'. nru_getReplacementIndex bs r = Inr (i, r') \<and> i < n \<and> isValidReplacement bs i \<and>
     ((\<exists>k<n. nru_bits r ! k = 0 \<and> isValidReplacement bs k) \<longrightarrow> nru_bits r ! i = 0)"
proof -
  let ?z = "\<exists>k\<in>set [0..<n]. nru_bits r ! k = 0 \<and> isValidReplacement bs k"
  let ?P = "\<lambda>p. (nru_bits r ! p = 0 \<or> \<not> ?z) \<and> isValidReplacement bs p"
  from assms(1) have p: "nru_pointer r < n" "n \<le> 256" by (simp_all add: nru_ok_def)
  obtain k where "k < n" "?P k"
  proof (cases ?z)
    case True
    then obtain k where "k < n" "nru_bits r ! k = 0" "isValidReplacement bs k" by auto
    then show ?thesis using that [of k] by blast
  next
    case False
    then show ?thesis using that [of j] assms(4,5) by blast
  qed
  then obtain i q where s: "ptr_scan n ?P n (nru_pointer r) = Some (i, q)"
    using ptr_scan_complete [OF p, of k ?P] by blast
  then have "i < n" "?P i" using ptr_scan_SomeD [OF s p] by auto
  moreover have "nru_getReplacementIndex bs r =
      Inr (i, nru_updateReplacementIndex (r\<lparr>nru_pointer := q\<rparr>) i)"
    using s assms(2,3) by (simp add: nru_getReplacementIndex_def Let_def)
  moreover have "?z \<longleftrightarrow> (\<exists>k<n. nru_bits r ! k = 0 \<and> isValidReplacement bs k)" by auto
  ultimately show ?thesis by blast
qed

lemma nru_victim_unreferenced_witness:
  "nru_ok 2 \<lparr>nru_bits = [1, 0], nru_num_bits_set = 1, nru_pointer = 0\<rparr> \<and>
   (\<exists>i r'. nru_getReplacementIndex [line 1 SHARED, line 2 SHARED]
             \<lparr>nru_bits = [1, 0], nru_num_bits_set = 1, nru_pointer = 0\<rparr> = Inr (i, r') \<and> i = 1)"
proof -
  let ?r = "\<lparr>nru_bits = [1, 0], nru_num_bits_set = 1, nru_pointer = 0\<rparr>"
  let ?bs = "[line 1 SHARED, line 2 SHARED]"
  have ok: "nru_ok 2 ?r" by (simp add: nru_ok_def)
  have "first_invalid ?bs = None"
    by (simp add: first_invalid_def isValid_def less_Suc_eq)
  moreover have "isValidReplacement ?bs 1" by (simp add: isValidReplacement_def)
  ultimately obtain i r' where r: "nru_getReplacementIndex ?bs ?r = Inr (i, r')" "i < 2"
    and z: "(\<exists>k<2. nru_bits ?r ! k = 0 \<and> isValidReplacement ?bs k) \<longrightarrow> nru_bits ?r ! i = 0"
    using nru_victim_unreferenced [OF ok, of ?bs 1] by auto
  have "\<exists>k<2. nru_bits ?r ! k = 0 \<and> isValidReplacement ?bs k"
    by (intro exI [of _ 1]) (simp add: isValidReplacement_def)
  with z r(2) have "i = 1" by (auto simp: less_2_cases_iff)
  with ok r(1) show ?thesis by blast
qed

text \<open>
  NRU clears the reference bits too early: the counter counts accesses and not set
  bits, so two hits on the same way of a two-way set clear every bit although the other
  way was never referenced. The comment in the source speaks of all bits being set.
\<close>

theorem nru_early_reset:
  "nru_bits (nru_updateReplacementIndex (CacheSetNRU 2) 0) = [1, 0] \<and>
   nru_bits (nru_updateReplacementIndex (nru_updateReplacementIndex (CacheSetNRU 2) 0) 0) = [0, 0]"
  by (simp add: CacheSetNRU_def nru_updateReplacementIndex_def Let_def numeral_2_eq_2)

end
