(* ===== verification/Replacement_Policies.thy ===== *)
theory Replacement_Policies
  imports Replacement
begin

text \<open>
  Lemmas about the remaining policies of the theory Replacement: round robin and random
  (which may not return), static re-reference interval prediction, and tree pseudo-LRU.
\<close>

lemma first_invalid_SomeD:
  assumes "first_invalid bs = Some i"
  shows "i < length bs" and "\<not> isValid (bs ! i)"
  using assms first_idx_SomeD(1,2) unfolding first_invalid_def by blast+

section \<open>Round robin\<close>

lemma rr_pred_less: "i < n \<Longrightarrow> rr_pred n i < n"
  by (auto simp: rr_pred_def)

lemma rr_pred_iterate:
  assumes "i < n" and "m \<le> i + n"
  shows "(rr_pred n ^^ m) i = (if m \<le> i then i - m else i + n - m)"
  using assms(2)
proof (induction m)
  case 0
  then show ?case by simp
next
  case (Suc m)
  then have "(rr_pred n ^^ Suc m) i = rr_pred n (if m \<le> i then i - m else i + n - m)" by simp
  also have "\<dots> = (if Suc m \<le> i then i - Suc m else i + n - Suc m)"
    using Suc.prems assms(1) by (auto simp: rr_pred_def)
  finally show ?case .
qed

lemma rr_reaches:
  assumes "i < n" and "j < n"
  shows "\<exists>m. (rr_pred n ^^ Suc m) i = j"
proof -
  let ?d = "if j < i then i - j else i + n - j"
  have "(rr_pred n ^^ ?d) i = j" "0 < ?d"
    using rr_pred_iterate [OF assms(1), of ?d] assms by (auto split: if_splits)
  then show ?thesis by (metis gr0_implies_Suc)
qed

lemma rr_returns_at:
  assumes "i < length bs" and "isValidReplacement bs ((rr_pred (length bs) ^^ Suc m) i)"
  shows "\<exists>k q. rr_getReplacementIndex bs i = Some (Inr (k, q)) \<and> k < length bs \<and>
           q = rr_pred (length bs) k \<and> isValidReplacement bs q"
  using assms
proof (induction m arbitrary: i)
  case 0
  then show ?case by (subst rr_getReplacementIndex.simps) (simp add: Let_def)
next
  case (Suc m)
  let ?p = "rr_pred (length bs) i"
  show ?case
  proof (cases "isValidReplacement bs ?p")
    case True
    with Suc.prems show ?thesis by (subst rr_getReplacementIndex.simps) (simp add: Let_def)
  next
    case False
    have "isValidReplacement bs ((rr_pred (length bs) ^^ Suc m) ?p)"
      using Suc.prems(2) by (simp add: funpow_swap1)
    from Suc.IH [OF rr_pred_less [OF Suc.prems(1)] this] False show ?thesis
      by (subst rr_getReplacementIndex.simps) (simp add: Let_def)
  qed
qed

text \<open>
  C21. Round robin returns whenever some way may be replaced; the way it returns is
  followed, one step down the ring, by a replaceable way, which becomes the next position.
\<close>

theorem rr_returns:
  assumes "i < length bs" and "j < length bs" and "isValidReplacement bs j"
  shows "\<exists>k q. rr_getReplacementIndex bs i = Some (Inr (k, q)) \<and> k < length bs \<and>
           q = rr_pred (length bs) k \<and> isValidReplacement bs q"
  using rr_reaches [OF assms(1,2)] rr_returns_at [OF assms(1)] assms(3) by metis

lemma rr_returns_witness:
  "\<exists>k q. rr_getReplacementIndex [line 1 SHARED_UPGRADING, line 2 SHARED] 0 = Some (Inr (k, q)) \<and>
     k < 2 \<and> q = 1"
  using rr_returns [of 0 "[line 1 SHARED_UPGRADING, line 2 SHARED]" 1]
  by (auto simp: isValidReplacement_def rr_pred_def split: if_splits)

text \<open>
  Round robin checks the wrong way: the test is on the next position, so a line in the
  middle of an upgrade is returned although a replaceable way exists.
\<close>

theorem rr_returns_upgrading:
  "\<exists>bs. length bs = 2 \<and> isValidReplacement bs 0 \<and> \<not> isValidReplacement bs 1 \<and>
     rr_getReplacementIndex bs (CacheSetRoundRobin 2) = Some (Inr (1, 0))"
proof -
  let ?bs = "[line 1 SHARED, line 2 SHARED_UPGRADING]"
  have "rr_getReplacementIndex ?bs (CacheSetRoundRobin 2) = Some (Inr (1, 0))"
    by (subst rr_getReplacementIndex.simps)
      (simp add: Let_def rr_pred_def CacheSetRoundRobin_def isValidReplacement_def)
  then show ?thesis by (intro exI [of _ ?bs]) (simp add: isValidReplacement_def)
qed

section \<open>Random\<close>

definition random_ok :: "cache_block_info list \<Rightarrow> (nat \<times> u32) result \<Rightarrow> bool" where
  "random_ok bs r \<longleftrightarrow> (case r of Inl _ \<Rightarrow> True
     | Inr (i, s) \<Rightarrow> i < length bs \<and> (\<not> isValid (bs ! i) \<or> isValidReplacement bs i))"

lemma random_ok_result:
  assumes "random_getReplacementIndex bs seed = Some r"
  shows "random_ok bs r"
proof (rule random_getReplacementIndex.raw_induct [where P = "\<lambda>bs seed r. random_ok bs r", OF _ assms])
  fix f bs seed r
  assume IH: "\<And>bs seed r. f bs seed = Some r \<Longrightarrow> random_ok bs r"
    and step: "(case first_invalid bs of
        Some i \<Rightarrow> Some (Inr (i, seed))
      | None \<Rightarrow>
          (case random_next 32768 seed of
             Inl er \<Rightarrow> Some (Inl er)
           | Inr (v, seed') \<Rightarrow>
               if length bs = 0 then Some (Inl Div_By_Zero)
               else
                 (let index = unat v mod length bs
                  in if isValidReplacement bs index then Some (Inr (index, seed'))
                     else f bs seed'))) = Some r"
  show "random_ok bs r"
  proof (cases "first_invalid bs")
    case (Some j)
    with step show ?thesis using first_invalid_SomeD [OF Some] by (auto simp: random_ok_def)
  next
    case None
    show ?thesis
    proof (cases "random_next 32768 seed")
      case (Inl er)
      with None step show ?thesis by (auto simp: random_ok_def)
    next
      case (Inr vs)
      obtain v seed' where vs: "vs = (v, seed')" by fastforce
      show ?thesis
      proof (cases "bs = [] \<or> isValidReplacement bs (unat v mod length bs)")
        case True
        with None Inr vs step show ?thesis by (auto simp: random_ok_def Let_def split: if_splits)
      next
        case False
        with None Inr vs step have "f bs seed' = Some r" by (simp add: Let_def)
        then show ?thesis by (rule IH)
      qed
    qed
  qed
qed

lemma random_result:
  assumes "random_getReplacementIndex bs seed = Some (Inr (i, seed'))"
  shows "i < length bs" and "\<not> isValid (bs ! i) \<or> isValidReplacement bs i"
  using random_ok_result [OF assms] by (simp_all add: random_ok_def)

section \<open>SRRIP\<close>

definition srrip_ok :: "nat \<Rightarrow> srrip \<Rightarrow> bool" where
  "srrip_ok n r \<longleftrightarrow> length (sr_bits r) = n \<and> sr_pointer r < n \<and> n \<le> 256 \<and>
     (\<forall>i<n. sr_bits r ! i \<le> sr_max r) \<and> sr_insert r \<le> sr_max r"

text \<open>The histogram accepts the first attempt.\<close>

definition attempt_ok :: "repl_env \<Rightarrow> bool" where
  "attempt_ok e \<longleftrightarrow> (case re_info e of None \<Rightarrow> False
     | Some si \<Rightarrow> (case si_attempts si of None \<Rightarrow> True | Some as \<Rightarrow> as \<noteq> []))"

lemma attempt_ok_incr: "attempt_ok e \<Longrightarrow> \<exists>e'. env_incrementAttempt e 0 = Inr e'"
  by (auto simp: attempt_ok_def env_incrementAttempt_def si_incrementAttempt_def split: option.splits)

lemma qbs_query_single [simp]: "num \<le> 1 \<Longrightarrow> qbs_query e num attempt b = Inr False"
  by (simp add: qbs_query_def)

lemma srrip_scan_single:
  assumes "sr_num_attempts r \<le> 1" and "\<forall>i<length bs. isValidReplacement bs i" and "attempt_ok e"
    and "sr_pointer r < length bs" and "length bs \<le> 256"
  shows "srrip_scan k bs r 0 e =
    (case ptr_scan k (\<lambda>p. sr_max r \<le> sr_bits r ! p) (length bs) (sr_pointer r) of
       None \<Rightarrow> Inr (Inr (r\<lparr>sr_pointer := (next_pointer (length bs) ^^ k) (sr_pointer r)\<rparr>, 0, e))
     | Some (i, q) \<Rightarrow> Inr (Inl (i, r\<lparr>sr_pointer := q, sr_bits := (sr_bits r)[i := sr_insert r]\<rparr>,
                                 projr (env_incrementAttempt e 0))))"
  using assms
proof (induction k arbitrary: r)
  case 0
  then show ?case by simp
next
  case (Suc k)
  show ?case
  proof (cases "sr_max r \<le> sr_bits r ! sr_pointer r")
    case True
    with Suc.prems attempt_ok_incr [OF Suc.prems(3)] show ?thesis by (auto simp: Let_def)
  next
    case False
    let ?r = "r\<lparr>sr_pointer := next_pointer (length bs) (sr_pointer r)\<rparr>"
    have "srrip_scan (Suc k) bs r 0 e = srrip_scan k bs ?r 0 e" using False by simp
    also note Suc.IH [of ?r]
    finally show ?thesis using False Suc.prems
      by (simp add: funpow_swap1 next_pointer_less split: option.splits prod.splits)
  qed
qed

lemma srrip_rounds_victim:
  assumes "length bs = n" and "srrip_ok n r" and "sr_num_attempts r \<le> 1"
    and "\<forall>i<n. isValidReplacement bs i" and "attempt_ok e"
    and "k < n" and "\<forall>j<n. sr_bits r ! j \<le> sr_bits r ! k"
    and "sr_max r - sr_bits r ! k < rounds"
  shows "\<exists>i r' e'. srrip_rounds rounds bs r 0 e = Inr (i, r', e') \<and> i < n \<and>
           sr_bits r ! i = sr_bits r ! k \<and> srrip_ok n r'"
  using assms(2,3,6-8)
proof (induction rounds arbitrary: r)
  case 0
  then show ?case by simp
next
  case (Suc j)
  let ?P = "\<lambda>p. sr_max r \<le> sr_bits r ! p"
  from Suc.prems(1) have p: "sr_pointer r < n" "n \<le> 256" and len: "length (sr_bits r) = n"
    and le: "\<forall>i<n. sr_bits r ! i \<le> sr_max r" by (simp_all add: srrip_ok_def)
  have scan: "srrip_scan n bs r 0 e =
    (case ptr_scan n ?P n (sr_pointer r) of
       None \<Rightarrow> Inr (Inr (r\<lparr>sr_pointer := (next_pointer n ^^ n) (sr_pointer r)\<rparr>, 0, e))
     | Some (i, q) \<Rightarrow> Inr (Inl (i, r\<lparr>sr_pointer := q, sr_bits := (sr_bits r)[i := sr_insert r]\<rparr>,
                                 projr (env_incrementAttempt e 0))))"
    by (rule srrip_scan_single [OF Suc.prems(2), of bs e n, unfolded assms(1), OF assms(4,5) p])
  show ?case
  proof (cases "ptr_scan n ?P n (sr_pointer r)")
    case (Some iq)
    then obtain i q where iq: "ptr_scan n ?P n (sr_pointer r) = Some (i, q)" by (cases iq) auto
    from ptr_scan_SomeD [OF iq p] have i: "i < n" "sr_max r \<le> sr_bits r ! i" "q < n" by auto
    with le have "sr_bits r ! i = sr_max r" by (simp add: le_antisym)
    moreover from this i Suc.prems(3,4) le have "sr_bits r ! i = sr_bits r ! k" by (metis le_antisym)
    moreover have "srrip_ok n (r\<lparr>sr_pointer := q, sr_bits := (sr_bits r)[i := sr_insert r]\<rparr>)"
      using Suc.prems(1) i by (auto simp: srrip_ok_def nth_list_update)
    ultimately show ?thesis using i iq scan assms(1) by simp
  next
    case None
    then have notmax: "sr_bits r ! m < sr_max r" if "m < n" for m
      using ptr_scan_complete [OF p that, of ?P] by (metis not_le option.distinct(1))
    let ?r = "srrip_age (r\<lparr>sr_pointer := (next_pointer n ^^ n) (sr_pointer r)\<rparr>)"
    have "(next_pointer n ^^ m) (sr_pointer r) < n" for m
      by (induction m) (use p next_pointer_less in auto)
    then have ok: "srrip_ok n ?r"
      using Suc.prems(1) Suc_leI [OF notmax] by (auto simp: srrip_ok_def srrip_age_def)
    have bits: "sr_bits ?r ! m = Suc (sr_bits r ! m)" if "m < n" for m
      using notmax [OF that] that len by (simp add: srrip_age_def)
    have "\<exists>i r' e'. srrip_rounds j bs ?r 0 e = Inr (i, r', e') \<and> i < n \<and>
           sr_bits ?r ! i = sr_bits ?r ! k \<and> srrip_ok n r'"
      using Suc.prems bits notmax [of k]
      by (intro Suc.IH [OF ok]) (auto simp: srrip_age_def)
    with bits Suc.prems(3) scan None assms(1) show ?thesis by auto
  qed
qed



definition qbs_demo_env :: repl_env where
  "qbs_demo_env =
     \<lparr>re_info = Some (CacheSetInfoLRU 4 3),
      re_cntlr = Some \<lparr>isInLowerLevelCache = (\<lambda>b. True), qbs_lookups = 0\<rparr>\<rparr>"

text \<open>
  With query-based selection SRRIP can fail in a full set: each rejection costs two of
  the \<^verbatim>\<open>m_associativity\<close> iterations of the last round, so with three attempts a
  four-way set of recently used lines ends in the error branch without a victim.
\<close>

theorem srrip_qbs_fails:
  "srrip_getReplacementIndex qbs_demo_env
     [line 1 SHARED, line 2 SHARED, line 3 SHARED, line 4 SHARED]
     ((CacheSetSRRIP 2 4 3)\<lparr>sr_bits := [0, 0, 0, 0]\<rparr>) = Inl Log_Error" (is "?X = _")
proof -
  have "case ?X of Inl er \<Rightarrow> er = Log_Error | Inr r \<Rightarrow> False" by code_simp
  then show ?thesis by (auto split: sum.splits)
qed

section \<open>Tree pseudo-LRU\<close>

text \<open>The sequence of victims when nothing else touches the set.\<close>

fun plru_victims :: "(nat list \<Rightarrow> nat) \<Rightarrow> (nat list \<Rightarrow> nat \<Rightarrow> nat list) \<Rightarrow> nat \<Rightarrow> nat list \<Rightarrow> nat list" where
  "plru_victims v u 0 b = []"
| "plru_victims v u (Suc k) b = v b # plru_victims v u k (u b (v b))"

fun plru_evictions :: "nat \<Rightarrow> cache_block_info list \<Rightarrow> plru \<Rightarrow> nat list result" where
  "plru_evictions 0 bs r = Inr []"
| "plru_evictions (Suc k) bs r =
     (case plru_getReplacementIndex bs r of
        Inl er \<Rightarrow> Inl er
      | Inr (i, r') \<Rightarrow> (case plru_evictions k bs r' of Inl er \<Rightarrow> Inl er | Inr is \<Rightarrow> Inr (i # is)))"

definition plru_wf :: "plru \<Rightarrow> bool" where
  "plru_wf r \<longleftrightarrow> (plru_associativity r = 4 \<or> plru_associativity r = 8) \<and> length (plru_b r) = 8"

lemma list_update_numeral [simp]: "(x # xs)[numeral v := y] = x # xs[pred_numeral v := y]"
  by (simp add: numeral_eq_Suc)

lemma length_8E:
  assumes "length b = 8"
  obtains b0 b1 b2 b3 b4 b5 b6 b7 where "b = [b0, b1, b2, b3, b4, b5, b6, b7]"
  using assms by (auto simp: numeral_eq_Suc length_Suc_conv)

lemma plru_victims_num:
  "plru_victims v u (numeral k) b = v b # plru_victims v u (pred_numeral k) (u b (v b))"
  by (simp add: numeral_eq_Suc)

lemma length_plru_update [simp]:
  "length (plru_update4 b a) = length b" "length (plru_update8 b a) = length b"
  by (simp_all add: plru_update4_def plru_update8_def)

lemma plru_victim_less: "plru_victim4 b < 4" "plru_victim8 b < 8"
  by (simp_all add: plru_victim4_def plru_victim8_def)

lemma set_plru_victims_subset: "(\<And>b. v b < n) \<Longrightarrow> set (plru_victims v u k b) \<subseteq> {..<n}"
  by (induction k arbitrary: b) auto

lemma length_plru_victims [simp]: "length (plru_victims v u k b) = k"
  by (induction k arbitrary: b) auto

lemma plru_victims4_distinct:
  assumes "length b = 8"
  shows "distinct (plru_victims plru_victim4 plru_update4 4 b)"
proof -
  obtain b0 b1 b2 b3 b4 b5 b6 b7 where b: "b = [b0, b1, b2, b3, b4, b5, b6, b7]"
    using assms by (rule length_8E)
  show ?thesis unfolding b
    by (cases "b0 = 0"; cases "b1 = 0"; cases "b2 = 0")
      (simp_all add: plru_victims_num plru_victim4_def plru_update4_def)
qed

lemma plru_victims8_distinct:
  assumes "length b = 8"
  shows "distinct (plru_victims plru_victim8 plru_update8 8 b)"
proof -
  obtain b0 b1 b2 b3 b4 b5 b6 b7 where b: "b = [b0, b1, b2, b3, b4, b5, b6, b7]"
    using assms by (rule length_8E)
  show ?thesis unfolding b
    by (cases "b0 = 0"; cases "b1 = 0"; cases "b2 = 0"; cases "b3 = 0"; cases "b4 = 0";
        cases "b5 = 0"; cases "b6 = 0")
      (simp_all add: plru_victims_num plru_victim8_def plru_update8_def)
qed

lemma plru_evictions4:
  assumes "first_invalid bs = None" and "\<forall>i<4. isValidReplacement bs i" and "plru_associativity r = 4"
  shows "plru_evictions k bs r = Inr (plru_victims plru_victim4 plru_update4 k (plru_b r))"
  using assms(3)
proof (induction k arbitrary: r)
  case 0
  then show ?case by simp
next
  case (Suc k)
  from Suc.IH [of "r\<lparr>plru_b := plru_update4 (plru_b r) (plru_victim4 (plru_b r))\<rparr>"] Suc.prems
  show ?case using assms(1,2) plru_victim_less(1)
    by (simp add: plru_getReplacementIndex_def plru_updateReplacementIndex_def Let_def)
qed

lemma plru_evictions8:
  assumes "first_invalid bs = None" and "\<forall>i<8. isValidReplacement bs i" and "plru_associativity r = 8"
  shows "plru_evictions k bs r = Inr (plru_victims plru_victim8 plru_update8 k (plru_b r))"
  using assms(3)
proof (induction k arbitrary: r)
  case 0
  then show ?case by simp
next
  case (Suc k)
  from Suc.IH [of "r\<lparr>plru_b := plru_update8 (plru_b r) (plru_victim8 (plru_b r))\<rparr>"] Suc.prems
  show ?case using assms(1,2) plru_victim_less(2)
    by (simp add: plru_getReplacementIndex_def plru_updateReplacementIndex_def Let_def)
qed

lemma plru_victims_all:
  assumes "\<And>b. v b < n" and "distinct (plru_victims v u n b)"
  shows "set (plru_victims v u n b) = {..<n}"
  using set_plru_victims_subset [OF assms(1)] assms(2)
  by (intro card_subset_eq) (auto simp: distinct_card)

text \<open>
  C20. Tree pseudo-LRU spreads evictions over the whole set: from any state of the tree,
  as many evictions in a row as there are ways evict every way exactly once.
\<close>

theorem plru_evicts_every_way:
  assumes "plru_wf r" and "length bs = plru_associativity r" and "first_invalid bs = None"
    and "\<forall>i<length bs. isValidReplacement bs i"
  shows "\<exists>is. plru_evictions (length bs) bs r = Inr is \<and> distinct is \<and> set is = {..<length bs}"
proof -
  from assms(1,2) consider "length bs = 4" | "length bs = 8" by (auto simp: plru_wf_def)
  then show ?thesis
  proof cases
    case 1
    with assms have "plru_evictions (length bs) bs r = Inr (plru_victims plru_victim4 plru_update4 4 (plru_b r))"
      by (simp add: plru_evictions4)
    moreover have "distinct (plru_victims plru_victim4 plru_update4 4 (plru_b r))"
      using assms(1) by (intro plru_victims4_distinct) (simp add: plru_wf_def)
    ultimately show ?thesis
      using plru_victims_all [OF plru_victim_less(1)] 1 by auto
  next
    case 2
    with assms have "plru_evictions (length bs) bs r = Inr (plru_victims plru_victim8 plru_update8 8 (plru_b r))"
      by (simp add: plru_evictions8)
    moreover have "distinct (plru_victims plru_victim8 plru_update8 8 (plru_b r))"
      using assms(1) by (intro plru_victims8_distinct) (simp add: plru_wf_def)
    ultimately show ?thesis
      using plru_victims_all [OF plru_victim_less(2)] 2 by auto
  qed
qed

lemma plru_evicts_every_way_witness:
  "\<exists>is. plru_evictions 4 [line 1 SHARED, line 2 SHARED, line 3 MODIFIED, line 4 SHARED]
       (projr (CacheSetPLRU 4)) = Inr is \<and> distinct is \<and> set is = {..<4}"
proof -
  let ?bs = "[line 1 SHARED, line 2 SHARED, line 3 MODIFIED, line 4 SHARED]"
  have "first_invalid ?bs = None" by (simp add: first_invalid_def isValid_def less_Suc_eq)
  moreover have "\<forall>i<length ?bs. isValidReplacement ?bs i"
    by (simp add: isValidReplacement_def less_Suc_eq)
  moreover have "plru_wf (projr (CacheSetPLRU 4))" "length ?bs = plru_associativity (projr (CacheSetPLRU 4))"
    by (simp_all add: plru_wf_def CacheSetPLRU_def)
  moreover have len: "length ?bs = 4" by simp
  ultimately show ?thesis
    using plru_evicts_every_way [of "projr (CacheSetPLRU 4)" ?bs] unfolding len by blast
qed

end
