(* ===== verification/Cache_Set.thy ===== *)
theory Cache_Set
  imports Replacement_Policies
begin

text \<open>
  The set-associative cache: the abstract class \<^verbatim>\<open>CacheSet\<close>
  (\<^verbatim>\<open>cache/cache_set.cc\<close>), whose two pure virtual methods are parameters of the
  operations here, and the dynamic dispatch over the replacement policies that
  \<^verbatim>\<open>CacheSet::createCacheSet\<close> sets up.

  The locale \<open>replacement_policy\<close> is the contract between \<^verbatim>\<open>CacheSet\<close> and its
  subclasses; every subclass and the dispatcher are shown to satisfy it.
\<close>

section \<open>Byte arrays\<close>

text \<open>\<^verbatim>\<open>memcpy(dst + doff, src + soff, n)\<close>\<close>

definition mem_copy :: "byte list \<Rightarrow> nat \<Rightarrow> byte list \<Rightarrow> nat \<Rightarrow> nat \<Rightarrow> byte list" where
  "mem_copy dst doff src soff n =
     take doff dst @ take n (drop soff src) @ drop (doff + n) dst"

section \<open>The class CacheSet\<close>

text \<open>
  \<open>cs_lines\<close> is \<^verbatim>\<open>m_cache_block_info_array\<close>, whose length is
  \<^verbatim>\<open>m_associativity\<close>; \<open>cs_blocks\<close> is \<^verbatim>\<open>m_blocks\<close>, which exists only with fault
  injection; \<open>cs_policy\<close> is the state of the subclass.
\<close>

record 'r cache_set =
  cs_lines :: "cache_block_info list"
  cs_blocks :: "byte list option"
  cs_blocksize :: u32
  cs_policy :: 'r

definition CacheSet :: "bool \<Rightarrow> cache_t \<Rightarrow> u32 \<Rightarrow> u32 \<Rightarrow> 'r \<Rightarrow> 'r cache_set result" where
  "CacheSet fault_injection cache_type associativity blocksize policy =
     (case (if associativity = 0 then Inr []
            else case CacheBlockInfo_create cache_type of
                   Inl er \<Rightarrow> Inl er
                 | Inr b \<Rightarrow> Inr (replicate (unat associativity) b)) of
        Inl er \<Rightarrow> Inl er
      | Inr lines \<Rightarrow>
          Inr \<lparr>cs_lines = lines,
               cs_blocks = (if fault_injection
                            then Some (replicate (unat (associativity * blocksize)) 0) else None),
               cs_blocksize = blocksize,
               cs_policy = policy\<rparr>)"

definition getDataPtr :: "'r cache_set \<Rightarrow> nat \<Rightarrow> u32 \<Rightarrow> nat" where
  "getDataPtr s line_index offset = unat (of_nat line_index * cs_blocksize s + offset)"

text \<open>
  \<^verbatim>\<open>find\<close> scans from the last way down; its two results are the index and the line
  there, so the index is enough.
\<close>

definition CacheSet_find :: "'r cache_set \<Rightarrow> intptr \<Rightarrow> nat option" where
  "CacheSet_find s tag = last_idx (\<lambda>i. m_tag (cs_lines s ! i) = tag) (length (cs_lines s))"

definition CacheSet_invalidate :: "'r cache_set \<Rightarrow> intptr \<Rightarrow> bool \<times> 'r cache_set" where
  "CacheSet_invalidate s tag =
     (case last_idx (\<lambda>i. m_tag (cs_lines s ! i) = tag) (length (cs_lines s)) of
        Some i \<Rightarrow> (True, s\<lparr>cs_lines := (cs_lines s)[i := invalidate_block (cs_lines s ! i)]\<rparr>)
      | None \<Rightarrow> (False, s))"

text \<open>
  \<open>upd\<close> is the virtual \<^verbatim>\<open>updateReplacementIndex\<close>. A buffer is \<open>None\<close> for a null
  pointer; \<open>read_line\<close> returns the buffer it wrote to.
\<close>

definition update_policy ::
  "(repl_env \<Rightarrow> 'r \<Rightarrow> nat \<Rightarrow> ('r \<times> repl_env) result) \<Rightarrow> repl_env \<Rightarrow> 'r cache_set \<Rightarrow> nat \<Rightarrow> bool
     \<Rightarrow> ('r cache_set \<times> repl_env) result" where
  "update_policy upd e s line_index update_replacement =
     (if update_replacement
      then (case upd e (cs_policy s) line_index of
              Inl er \<Rightarrow> Inl er
            | Inr (p, e') \<Rightarrow> Inr (s\<lparr>cs_policy := p\<rparr>, e'))
      else Inr (s, e))"

definition CacheSet_read_line ::
  "(repl_env \<Rightarrow> 'r \<Rightarrow> nat \<Rightarrow> ('r \<times> repl_env) result) \<Rightarrow> repl_env \<Rightarrow> 'r cache_set
     \<Rightarrow> nat \<Rightarrow> u32 \<Rightarrow> byte list option \<Rightarrow> u32 \<Rightarrow> bool
     \<Rightarrow> (byte list option \<times> 'r cache_set \<times> repl_env) result" where
  "CacheSet_read_line upd e s line_index offset out_buff bytes update_replacement =
     (if \<not> offset + bytes \<le> cs_blocksize s then Inl Assert_Failed
      else
        let out = (case (out_buff, cs_blocks s) of
                     (Some b, Some d) \<Rightarrow>
                       Some (mem_copy b 0 d (getDataPtr s line_index offset) (unat bytes))
                   | _ \<Rightarrow> out_buff)
        in case update_policy upd e s line_index update_replacement of
             Inl er \<Rightarrow> Inl er
           | Inr (s', e') \<Rightarrow> Inr (out, s', e'))"

definition CacheSet_write_line ::
  "(repl_env \<Rightarrow> 'r \<Rightarrow> nat \<Rightarrow> ('r \<times> repl_env) result) \<Rightarrow> repl_env \<Rightarrow> 'r cache_set
     \<Rightarrow> nat \<Rightarrow> u32 \<Rightarrow> byte list option \<Rightarrow> u32 \<Rightarrow> bool \<Rightarrow> ('r cache_set \<times> repl_env) result" where
  "CacheSet_write_line upd e s line_index offset in_buff bytes update_replacement =
     (if \<not> offset + bytes \<le> cs_blocksize s then Inl Assert_Failed
      else
        let s' = (case (in_buff, cs_blocks s) of
                    (Some b, Some d) \<Rightarrow>
                      s\<lparr>cs_blocks := Some (mem_copy d (getDataPtr s line_index offset) b 0 (unat bytes))\<rparr>
                  | _ \<Rightarrow> s)
        in update_policy upd e s' line_index update_replacement)"

text \<open>
  \<^verbatim>\<open>insert\<close>: \<open>gri\<close> is the virtual \<^verbatim>\<open>getReplacementIndex\<close>. The results are the
  eviction flag, the caller's \<^verbatim>\<open>evict_block_info\<close> and \<^verbatim>\<open>evict_buff\<close> after the call,
  and the new states.
\<close>

definition CacheSet_insert ::
  "(repl_env \<Rightarrow> cache_block_info list \<Rightarrow> 'r \<Rightarrow> (nat \<times> 'r \<times> repl_env) outcome) \<Rightarrow> repl_env
     \<Rightarrow> 'r cache_set \<Rightarrow> cache_block_info \<Rightarrow> byte list option \<Rightarrow> cache_block_info \<Rightarrow> byte list option
     \<Rightarrow> (bool \<times> cache_block_info \<times> byte list option \<times> 'r cache_set \<times> repl_env) outcome" where
  "CacheSet_insert gri e s cbi fill_buff evict_info evict_buff =
     (case gri e (cs_lines s) (cs_policy s) of
        None \<Rightarrow> None
      | Some (Inl er) \<Rightarrow> Some (Inl er)
      | Some (Inr (index, p, e')) \<Rightarrow>
          if \<not> index < length (cs_lines s) then Some (Inl Assert_Failed)
          else
            let old = cs_lines s ! index;
                at = getDataPtr s index 0;
                n = unat (cs_blocksize s);
                eviction = isValid old;
                evict_info' = (if eviction then clone_block evict_info old else evict_info);
                evict_buff' = (case (evict_buff, cs_blocks s) of
                                 (Some b, Some d) \<Rightarrow>
                                   if eviction then Some (mem_copy b 0 d at n) else Some b
                               | _ \<Rightarrow> evict_buff);
                blocks' = (case (fill_buff, cs_blocks s) of
                             (Some b, Some d) \<Rightarrow> Some (mem_copy d at b 0 n)
                           | _ \<Rightarrow> cs_blocks s)
            in Some (Inr (eviction, evict_info', evict_buff',
                 s\<lparr>cs_lines := (cs_lines s)[index := clone_block old cbi],
                   cs_blocks := blocks', cs_policy := p\<rparr>, e')))"

section \<open>Dynamic dispatch\<close>

datatype policy_t =
    ROUND_ROBIN | LRU | LRU_QBS | NRU | MRU | NMRU | PLRU | SRRIP | SRRIP_QBS | RANDOM

definition parsePolicyType :: "string \<Rightarrow> policy_t result" where
  "parsePolicyType policy =
     (if policy = ''round_robin'' then Inr ROUND_ROBIN
      else if policy = ''lru'' then Inr LRU
      else if policy = ''lru_qbs'' then Inr LRU_QBS
      else if policy = ''nru'' then Inr NRU
      else if policy = ''mru'' then Inr MRU
      else if policy = ''nmru'' then Inr NMRU
      else if policy = ''plru'' then Inr PLRU
      else if policy = ''srrip'' then Inr SRRIP
      else if policy = ''srrip_qbs'' then Inr SRRIP_QBS
      else if policy = ''random'' then Inr RANDOM
      else Inl Log_Error)"

text \<open>\<open>attempts\<close> is the configuration value \<^verbatim>\<open>qbs/attempts\<close>, stored in eight bits.\<close>

definition getNumQBSAttempts :: "policy_t \<Rightarrow> nat \<Rightarrow> nat" where
  "getNumQBSAttempts policy attempts =
     (case policy of LRU_QBS \<Rightarrow> attempts mod 256 | SRRIP_QBS \<Rightarrow> attempts mod 256 | _ \<Rightarrow> 1)"

definition createCacheSetInfo :: "policy_t \<Rightarrow> nat \<Rightarrow> u32 \<Rightarrow> set_info option" where
  "createCacheSetInfo policy attempts associativity =
     (if policy \<in> {LRU, LRU_QBS, SRRIP, SRRIP_QBS}
      then Some (CacheSetInfoLRU (unat associativity) (getNumQBSAttempts policy attempts))
      else None)"

text \<open>The state of an object of one of the subclasses.\<close>

datatype repl =
    Repl_RoundRobin nat
  | Repl_LRU lru
  | Repl_NRU nru
  | Repl_MRU "nat list"
  | Repl_NMRU nmru
  | Repl_PLRU plru
  | Repl_SRRIP srrip
  | Repl_Random u32

text \<open>
  Configuration of \<^verbatim>\<open>createCacheSet\<close>: the two integers read from the configuration file
  and the seed, which is the time of day.
\<close>

record repl_config =
  rc_attempts :: nat
  rc_srrip_bits :: nat
  rc_time :: u32

definition createPolicy :: "repl_config \<Rightarrow> policy_t \<Rightarrow> u32 \<Rightarrow> repl result" where
  "createPolicy cfg policy associativity =
     (let n = unat associativity
      in case policy of
           ROUND_ROBIN \<Rightarrow> Inr (Repl_RoundRobin (CacheSetRoundRobin n))
         | LRU \<Rightarrow> Inr (Repl_LRU (CacheSetLRU n (getNumQBSAttempts policy (rc_attempts cfg))))
         | LRU_QBS \<Rightarrow> Inr (Repl_LRU (CacheSetLRU n (getNumQBSAttempts policy (rc_attempts cfg))))
         | NRU \<Rightarrow> Inr (Repl_NRU (CacheSetNRU n))
         | MRU \<Rightarrow> Inr (Repl_MRU (CacheSetMRU n))
         | NMRU \<Rightarrow> Inr (Repl_NMRU (CacheSetNMRU n))
         | PLRU \<Rightarrow> (case CacheSetPLRU n of Inl er \<Rightarrow> Inl er | Inr r \<Rightarrow> Inr (Repl_PLRU r))
         | SRRIP \<Rightarrow> Inr (Repl_SRRIP (CacheSetSRRIP (rc_srrip_bits cfg) n
                                      (getNumQBSAttempts policy (rc_attempts cfg))))
         | SRRIP_QBS \<Rightarrow> Inr (Repl_SRRIP (CacheSetSRRIP (rc_srrip_bits cfg) n
                                      (getNumQBSAttempts policy (rc_attempts cfg))))
         | RANDOM \<Rightarrow> Inr (Repl_Random (rc_time cfg)))"

definition createCacheSet ::
  "repl_config \<Rightarrow> bool \<Rightarrow> policy_t \<Rightarrow> cache_t \<Rightarrow> u32 \<Rightarrow> u32 \<Rightarrow> repl cache_set result" where
  "createCacheSet cfg fault_injection policy cache_type associativity blocksize =
     (case createPolicy cfg policy associativity of
        Inl er \<Rightarrow> Inl er
      | Inr r \<Rightarrow> CacheSet fault_injection cache_type associativity blocksize r)"

text \<open>The return value of each class's method as an outcome with the common shape.\<close>

definition returns :: "('r \<Rightarrow> repl) \<Rightarrow> (nat \<times> 'r \<times> repl_env) result \<Rightarrow> (nat \<times> repl \<times> repl_env) outcome" where
  "returns C x = Some (case x of Inl er \<Rightarrow> Inl er | Inr (i, r, e) \<Rightarrow> Inr (i, C r, e))"

definition pure_result :: "repl_env \<Rightarrow> (nat \<times> 'r) result \<Rightarrow> (nat \<times> 'r \<times> repl_env) result" where
  "pure_result e x = (case x of Inl er \<Rightarrow> Inl er | Inr (i, r) \<Rightarrow> Inr (i, r, e))"

definition getReplacementIndex ::
  "repl_env \<Rightarrow> cache_block_info list \<Rightarrow> repl \<Rightarrow> (nat \<times> repl \<times> repl_env) outcome" where
  "getReplacementIndex e bs r =
     (case r of
        Repl_RoundRobin i \<Rightarrow>
          (case rr_getReplacementIndex bs i of
             None \<Rightarrow> None | Some x \<Rightarrow> returns Repl_RoundRobin (pure_result e x))
      | Repl_LRU p \<Rightarrow> returns Repl_LRU (lru_getReplacementIndex e bs p)
      | Repl_NRU p \<Rightarrow> returns Repl_NRU (pure_result e (nru_getReplacementIndex bs p))
      | Repl_MRU p \<Rightarrow> returns Repl_MRU (pure_result e (mru_getReplacementIndex bs p))
      | Repl_NMRU p \<Rightarrow> returns Repl_NMRU (pure_result e (nmru_getReplacementIndex bs p))
      | Repl_PLRU p \<Rightarrow> returns Repl_PLRU (pure_result e (plru_getReplacementIndex bs p))
      | Repl_SRRIP p \<Rightarrow> returns Repl_SRRIP (srrip_getReplacementIndex e bs p)
      | Repl_Random seed \<Rightarrow>
          (case random_getReplacementIndex bs seed of
             None \<Rightarrow> None | Some x \<Rightarrow> returns Repl_Random (pure_result e x)))"

definition updateReplacementIndex :: "repl_env \<Rightarrow> repl \<Rightarrow> nat \<Rightarrow> (repl \<times> repl_env) result" where
  "updateReplacementIndex e r a =
     (case r of
        Repl_RoundRobin i \<Rightarrow> Inr (r, e)
      | Repl_LRU p \<Rightarrow>
          (case lru_updateReplacementIndex e p a of
             Inl er \<Rightarrow> Inl er | Inr (p', e') \<Rightarrow> Inr (Repl_LRU p', e'))
      | Repl_NRU p \<Rightarrow> Inr (Repl_NRU (nru_updateReplacementIndex p a), e)
      | Repl_MRU p \<Rightarrow> Inr (Repl_MRU (moveToMRU p a), e)
      | Repl_NMRU p \<Rightarrow> Inr (Repl_NMRU (nmru_updateReplacementIndex p a), e)
      | Repl_PLRU p \<Rightarrow>
          (case plru_updateReplacementIndex p a of
             Inl er \<Rightarrow> Inl er | Inr p' \<Rightarrow> Inr (Repl_PLRU p', e))
      | Repl_SRRIP p \<Rightarrow>
          (case srrip_updateReplacementIndex e p a of
             Inl er \<Rightarrow> Inl er | Inr (p', e') \<Rightarrow> Inr (Repl_SRRIP p', e'))
      | Repl_Random seed \<Rightarrow> Inr (r, e))"

end
