(* ===== verification/Policy_Contract.thy ===== *)
theory Policy_Contract
  imports Cache_Set
begin

text \<open>
  The contract between \<^verbatim>\<open>CacheSet\<close> and the replacement policies, as two locales, and the
  proof that every policy class and the dynamic dispatch meet it.
\<close>

section \<open>The contract\<close>

text \<open>
  What \<^verbatim>\<open>CacheSet\<close> relies on: the index is a way of the set, and both virtual methods keep
  the policy's own invariant for a set of \<open>n\<close> ways.
\<close>

locale replacement_policy =
  fixes gri :: "repl_env \<Rightarrow> cache_block_info list \<Rightarrow> 'r \<Rightarrow> (nat \<times> 'r \<times> repl_env) outcome"
    and upd :: "repl_env \<Rightarrow> 'r \<Rightarrow> nat \<Rightarrow> ('r \<times> repl_env) result"
    and inv :: "nat \<Rightarrow> 'r \<Rightarrow> bool"
  assumes gri_ok: "inv (length bs) r \<Longrightarrow> gri e bs r = Some (Inr (i, r', e')) \<Longrightarrow>
      i < length bs \<and> inv (length bs) r'"
    and upd_ok: "inv n r \<Longrightarrow> a < n \<Longrightarrow> upd e r a = Inr (r', e') \<Longrightarrow> inv n r'"

text \<open>All policies but round robin also promise to use up the invalid ways first.\<close>

locale fills_invalid = replacement_policy +
  assumes gri_invalid: "inv (length bs) r \<Longrightarrow> first_invalid bs = Some i \<Longrightarrow>
      \<exists>r'. gri e bs r = Some (Inr (i, r', e))"

section \<open>Invariants of the policies\<close>

lemma lru_attempts_ok:
  assumes "lru_attempts num as bs bits e = Inr (i, bits', e')" and "lru_perm (length bs) bits"
  shows "i < length bs \<and> lru_perm (length bs) bits'"
  using assms
proof (induction num as bs bits e arbitrary: i bits' e' rule: lru_attempts.induct)
  case (1 num bs bits e)
  then show ?case by simp
next
  case (2 num attempt rest bs bits e)
  let ?i = "lru_victim bs bits"
  from "2.prems"(1) have i: "?i < length bs"
    by (auto simp: Let_def split: if_splits)
  have perm: "lru_perm (length bs) (moveToMRU bits ?i)"
    by (rule lru_perm_moveToMRU [OF "2.prems"(2) i])
  from "2.prems"(1) i obtain rej where q: "qbs_query e num attempt (bs ! ?i) = Inr rej"
    by (auto simp: Let_def split: sum.splits)
  show ?case
  proof (cases rej)
    case True
    with "2.prems"(1) i q have
      "lru_attempts num rest bs (moveToMRU bits ?i) (env_qbs_cost e) = Inr (i, bits', e')"
      by (simp add: Let_def)
    from "2.IH" [OF refl _ q True this perm] i show ?thesis by blast
  next
    case False
    with "2.prems"(1) i q perm show ?thesis by (auto simp: Let_def split: sum.splits)
  qed
qed

lemma lru_get_ok:
  assumes "lru_perm (length bs) (lru_bits r)" and "lru_getReplacementIndex e bs r = Inr (i, r', e')"
  shows "i < length bs \<and> lru_perm (length bs) (lru_bits r')"
proof (cases "first_invalid bs")
  case None
  with assms show ?thesis
    by (auto simp: lru_getReplacementIndex_def split: sum.splits dest!: lru_attempts_ok)
next
  case (Some j)
  with assms first_invalid_SomeD(1) [OF Some] show ?thesis
    by (auto simp: lru_getReplacementIndex_def lru_perm_moveToMRU)
qed

lemma mru_get_ok:
  assumes "lru_perm (length bs) bits" and "mru_getReplacementIndex bs bits = Inr (i, bits')"
  shows "i < length bs \<and> lru_perm (length bs) bits'"
proof -
  have search: "mru_search bs bits ts = Some k \<Longrightarrow> k < length bs" for ts k
    by (induction ts) (auto split: option.splits dest: first_idx_SomeD(1))
  have "i < length bs \<and> bits' = moveToMRU bits i"
    using assms(2) first_invalid_SomeD(1)
    by (auto simp: mru_getReplacementIndex_def split: option.splits dest: search)
  with assms(1) show ?thesis by (simp add: lru_perm_moveToMRU)
qed

definition nmru_ok :: "nat \<Rightarrow> nmru \<Rightarrow> bool" where
  "nmru_ok n r \<longleftrightarrow> lru_perm n (nmru_bits r) \<and> nmru_pointer r < n"

lemma nmru_get_ok:
  assumes "nmru_ok (length bs) r" and "nmru_getReplacementIndex bs r = Inr (i, r')"
  shows "i < length bs \<and> nmru_ok (length bs) r'"
proof (cases "first_invalid bs")
  case None
  from assms(1) have p: "nmru_pointer r < length bs" "length bs \<le> 256"
    by (auto simp: nmru_ok_def dest: lru_permD(4))
  from assms(2) None obtain P q where "ptr_scan (length bs) P (length bs) (nmru_pointer r) = Some (i, q)"
    and r': "r' = r\<lparr>nmru_bits := moveToMRU (nmru_bits r) i, nmru_pointer := q\<rparr>"
    by (auto simp: nmru_getReplacementIndex_def split: option.splits)
  with p have "i < length bs" "q < length bs" using ptr_scan_SomeD by blast+
  with assms(1) show ?thesis by (simp add: r' nmru_ok_def lru_perm_moveToMRU)
next
  case (Some j)
  with assms first_invalid_SomeD(1) [OF Some] show ?thesis
    by (auto simp: nmru_getReplacementIndex_def nmru_ok_def lru_perm_moveToMRU)
qed

definition plru_ok :: "nat \<Rightarrow> plru \<Rightarrow> bool" where
  "plru_ok n r \<longleftrightarrow> plru_wf r \<and> plru_associativity r = n"

lemma plru_update_ok: "plru_ok n r \<Longrightarrow> plru_updateReplacementIndex r a = Inr r' \<Longrightarrow> plru_ok n r'"
  by (auto simp: plru_ok_def plru_wf_def plru_updateReplacementIndex_def split: if_splits)

lemma plru_get_ok:
  assumes "plru_ok (length bs) r" and "plru_getReplacementIndex bs r = Inr (i, r')"
  shows "i < length bs \<and> plru_ok (length bs) r'"
proof -
  have "i < length bs \<and> plru_updateReplacementIndex r i = Inr r'"
    using assms first_invalid_SomeD(1) plru_victim_less
    by (auto simp: plru_getReplacementIndex_def plru_ok_def Let_def split: option.splits sum.splits if_splits)
  with plru_update_ok [OF assms(1)] show ?thesis by blast
qed

text \<open>A scan ends in a victim or in the state for the next round.\<close>

definition srrip_scan_ok :: "nat \<Rightarrow> (nat \<times> srrip \<times> repl_env) + (srrip \<times> nat \<times> repl_env) \<Rightarrow> bool" where
  "srrip_scan_ok n x \<longleftrightarrow>
     (case x of Inl (i, r, e) \<Rightarrow> i < n \<and> srrip_ok n r | Inr (r, attempt, e) \<Rightarrow> srrip_ok n r)"

lemma srrip_scan_keeps:
  assumes "srrip_scan k bs r attempt e = Inr x" and "srrip_ok (length bs) r"
  shows "srrip_scan_ok (length bs) x"
  using assms
proof (induction k arbitrary: r attempt e)
  case 0
  then show ?case by (auto simp: srrip_scan_ok_def)
next
  case (Suc k)
  let ?p = "sr_pointer r" and ?n = "length bs"
  from Suc.prems(2) have p: "?p < ?n" "?n \<le> 256" by (simp_all add: srrip_ok_def)
  have bits: "srrip_ok ?n (r\<lparr>sr_bits := (sr_bits r)[?p := v]\<rparr>)" if "v \<le> sr_max r" for v
    using Suc.prems(2) that by (auto simp: srrip_ok_def nth_list_update)
  have ptr: "srrip_ok ?n (r'\<lparr>sr_pointer := next_pointer ?n ?p\<rparr>)" if "srrip_ok ?n r'" for r'
    using that next_pointer_less [OF p] by (simp add: srrip_ok_def)
  have found: "srrip_ok ?n (r\<lparr>sr_pointer := next_pointer ?n ?p, sr_bits := (sr_bits r)[?p := sr_insert r]\<rparr>)"
    using Suc.prems(2) next_pointer_less [OF p] by (auto simp: srrip_ok_def nth_list_update)
  show ?case
  proof (cases "sr_max r \<le> sr_bits r ! ?p")
    case False
    with Suc.prems show ?thesis by (intro Suc.IH [OF _ ptr]) auto
  next
    case True
    show ?thesis
    proof (cases "qbs_query e (sr_num_attempts r) attempt (bs ! ?p) = Inr True")
      case rej: True
      with True Suc.prems show ?thesis by (intro Suc.IH [OF _ bits]) (auto simp: Let_def)
    next
      case False
      with True Suc.prems found p(1) show ?thesis
        by (auto simp: Let_def srrip_scan_ok_def split: sum.splits bool.splits if_splits)
    qed
  qed
qed

lemma srrip_age_ok: "srrip_ok n r \<Longrightarrow> srrip_ok n (srrip_age r)"
  by (auto simp: srrip_ok_def srrip_age_def)

lemma srrip_rounds_ok:
  assumes "srrip_rounds j bs r attempt e = Inr (i, r', e')" and "srrip_ok (length bs) r"
  shows "i < length bs \<and> srrip_ok (length bs) r'"
  using assms
proof (induction j arbitrary: r attempt e)
  case 0
  then show ?case by simp
next
  case (Suc j)
  from Suc.prems(1) obtain x where x: "srrip_scan (length bs) bs r attempt e = Inr x"
    by (auto split: sum.splits)
  note ok = srrip_scan_keeps [OF x Suc.prems(2)]
  show ?case
  proof (cases x)
    case (Inl found)
    with Suc.prems(1) x ok show ?thesis by (auto simp: srrip_scan_ok_def)
  next
    case (Inr c)
    with Suc.prems(1) x ok show ?thesis
      by (cases c) (auto simp: srrip_scan_ok_def dest: Suc.IH intro: srrip_age_ok)
  qed
qed

lemma srrip_get_ok:
  assumes "srrip_ok (length bs) r" and "srrip_getReplacementIndex e bs r = Inr (i, r', e')"
  shows "i < length bs \<and> srrip_ok (length bs) r'"
proof (cases "first_invalid bs")
  case None
  with assms(2) have "srrip_rounds (sr_max r + 1) bs r 0 e = Inr (i, r', e')"
    unfolding srrip_getReplacementIndex_def by (simp del: srrip_rounds.simps)
  from srrip_rounds_ok [OF this assms(1)] show ?thesis .
next
  case (Some j)
  with assms first_invalid_SomeD(1) [OF Some] show ?thesis
    by (auto simp: srrip_getReplacementIndex_def srrip_ok_def nth_list_update)
qed

lemma srrip_update_ok:
  "srrip_ok n r \<Longrightarrow> srrip_updateReplacementIndex e r a = Inr (r', e') \<Longrightarrow> srrip_ok n r'"
  by (auto simp: srrip_ok_def srrip_updateReplacementIndex_def nth_list_update_If
      intro!: le_trans [OF diff_le_self] split: sum.splits if_splits)

definition rr_ok :: "nat \<Rightarrow> nat \<Rightarrow> bool" where
  "rr_ok n i \<longleftrightarrow> i < n"

text \<open>The call recurses with the position moved down the ring, which stays inside it.\<close>

definition rr_result_ok :: "cache_block_info list \<Rightarrow> nat \<Rightarrow> (nat \<times> nat) result \<Rightarrow> bool" where
  "rr_result_ok bs i x \<longleftrightarrow> i < length bs \<longrightarrow>
     (case x of Inl er \<Rightarrow> False | Inr (k, q) \<Rightarrow> k < length bs \<and> q < length bs)"

lemma rr_get_ok:
  assumes "rr_getReplacementIndex bs i = Some x"
  shows "rr_result_ok bs i x"
proof (rule rr_getReplacementIndex.raw_induct [where P = rr_result_ok, OF _ assms])
  fix f bs i x
  assume IH: "\<And>bs i x. f bs i = Some x \<Longrightarrow> rr_result_ok bs i x"
    and step: "(let next = rr_pred (length bs) i
      in if \<not> isValidReplacement bs next then f bs next else Some (Inr (i, next))) = Some x"
  show "rr_result_ok bs i x"
  proof (cases "isValidReplacement bs (rr_pred (length bs) i)")
    case True
    with step rr_pred_less show ?thesis by (auto simp: rr_result_ok_def Let_def)
  next
    case False
    with step have "rr_result_ok bs (rr_pred (length bs) i) x" by (intro IH) (simp add: Let_def)
    with rr_pred_less show ?thesis by (auto simp: rr_result_ok_def)
  qed
qed

section \<open>Every policy meets the contract\<close>

text \<open>A method that does not touch the shared statistics, and never fails to return.\<close>

definition pure_gri ::
  "(cache_block_info list \<Rightarrow> 'r \<Rightarrow> (nat \<times> 'r) result)
     \<Rightarrow> repl_env \<Rightarrow> cache_block_info list \<Rightarrow> 'r \<Rightarrow> (nat \<times> 'r \<times> repl_env) outcome" where
  "pure_gri f e bs r = Some (pure_result e (f bs r))"

definition total_gri ::
  "(repl_env \<Rightarrow> cache_block_info list \<Rightarrow> 'r \<Rightarrow> (nat \<times> 'r \<times> repl_env) result)
     \<Rightarrow> repl_env \<Rightarrow> cache_block_info list \<Rightarrow> 'r \<Rightarrow> (nat \<times> 'r \<times> repl_env) outcome" where
  "total_gri f e bs r = Some (f e bs r)"

lemma pure_result_Inr [simp]: "pure_result e x = Inr (i, r, e') \<longleftrightarrow> x = Inr (i, r) \<and> e' = e"
  by (auto simp: pure_result_def split: sum.splits)

lemma pure_gri_Inr [simp]:
  "pure_gri f e bs r = Some (Inr (i, r', e')) \<longleftrightarrow> f bs r = Inr (i, r') \<and> e' = e"
  by (simp add: pure_gri_def)

text \<open>An invalid way is taken first.\<close>

lemma policy_fills:
  assumes "first_invalid bs = Some i"
  shows "\<exists>p'. lru_getReplacementIndex e bs p = Inr (i, p', e)"
    and "\<exists>q'. mru_getReplacementIndex bs q = Inr (i, q')"
    and "\<exists>m'. nmru_getReplacementIndex bs m = Inr (i, m')"
    and "\<exists>r'. nru_getReplacementIndex bs r = Inr (i, r')"
    and "plru_ok n t \<Longrightarrow> \<exists>t'. plru_getReplacementIndex bs t = Inr (i, t')"
    and "\<exists>s'. srrip_getReplacementIndex e bs s = Inr (i, s', e)"
    and "random_getReplacementIndex bs seed = Some (Inr (i, seed))"
  using assms
  by (auto simp: lru_getReplacementIndex_def mru_getReplacementIndex_def nmru_getReplacementIndex_def
      nru_getReplacementIndex_def plru_getReplacementIndex_def srrip_getReplacementIndex_def
      plru_ok_def plru_wf_def plru_updateReplacementIndex_def random_getReplacementIndex.simps)

text \<open>The update methods keep the invariants.\<close>

lemma policy_update_ok:
  "lru_perm n (lru_bits p) \<Longrightarrow> a < n \<Longrightarrow> lru_updateReplacementIndex e p a = Inr (p', e') \<Longrightarrow>
     lru_perm n (lru_bits p')"
  "nmru_ok n m \<Longrightarrow> a < n \<Longrightarrow> nmru_ok n (nmru_updateReplacementIndex m a)"
  by (auto simp: lru_updateReplacementIndex_def nmru_updateReplacementIndex_def nmru_ok_def
      lru_perm_moveToMRU split: sum.splits)

definition plru_upd :: "repl_env \<Rightarrow> plru \<Rightarrow> nat \<Rightarrow> (plru \<times> repl_env) result" where
  "plru_upd e r a = (case plru_updateReplacementIndex r a of Inl er \<Rightarrow> Inl er | Inr r' \<Rightarrow> Inr (r', e))"

interpretation lru_policy:
  fills_invalid "total_gri lru_getReplacementIndex" lru_updateReplacementIndex "\<lambda>n r. lru_perm n (lru_bits r)"
  by unfold_locales (auto simp: total_gri_def dest: lru_get_ok policy_update_ok(1) policy_fills(1))

interpretation mru_policy:
  fills_invalid "pure_gri mru_getReplacementIndex" "\<lambda>e r a. Inr (moveToMRU r a, e)" lru_perm
  by unfold_locales (auto dest: mru_get_ok policy_fills(2) intro: lru_perm_moveToMRU)

interpretation nmru_policy:
  fills_invalid "pure_gri nmru_getReplacementIndex" "\<lambda>e r a. Inr (nmru_updateReplacementIndex r a, e)" nmru_ok
  by unfold_locales (auto dest: nmru_get_ok policy_fills(3) policy_update_ok(2))

interpretation nru_policy:
  fills_invalid "pure_gri nru_getReplacementIndex" "\<lambda>e r a. Inr (nru_updateReplacementIndex r a, e)" nru_ok
  by unfold_locales (auto dest: nru_get_ok [OF _ refl] policy_fills(4) nru_ok_update)

interpretation plru_policy:
  fills_invalid "pure_gri plru_getReplacementIndex" plru_upd plru_ok
  by unfold_locales (auto simp: plru_upd_def split: sum.splits
      dest: plru_get_ok plru_update_ok policy_fills(5))

interpretation srrip_policy:
  fills_invalid "total_gri srrip_getReplacementIndex" srrip_updateReplacementIndex srrip_ok
  by unfold_locales (auto simp: total_gri_def dest: srrip_get_ok srrip_update_ok policy_fills(6))

definition random_gri ::
  "repl_env \<Rightarrow> cache_block_info list \<Rightarrow> u32 \<Rightarrow> (nat \<times> u32 \<times> repl_env) outcome" where
  "random_gri e bs seed = map_option (pure_result e) (random_getReplacementIndex bs seed)"

definition rr_gri ::
  "repl_env \<Rightarrow> cache_block_info list \<Rightarrow> nat \<Rightarrow> (nat \<times> nat \<times> repl_env) outcome" where
  "rr_gri e bs i = map_option (pure_result e) (rr_getReplacementIndex bs i)"

interpretation random_policy:
  fills_invalid random_gri "\<lambda>e r a. Inr (r, e)" "\<lambda>n r. True"
  by unfold_locales (auto simp: random_gri_def policy_fills(7) dest: random_result(1))

interpretation rr_policy:
  replacement_policy rr_gri "\<lambda>e r a. Inr (r, e)" rr_ok
  by unfold_locales (auto simp: rr_gri_def rr_ok_def rr_result_ok_def dest!: rr_get_ok)

section \<open>The dispatcher meets the contract\<close>

definition repl_ok :: "nat \<Rightarrow> repl \<Rightarrow> bool" where
  "repl_ok n r \<longleftrightarrow>
     (case r of
        Repl_RoundRobin i \<Rightarrow> rr_ok n i
      | Repl_LRU p \<Rightarrow> lru_perm n (lru_bits p)
      | Repl_NRU p \<Rightarrow> nru_ok n p
      | Repl_MRU p \<Rightarrow> lru_perm n p
      | Repl_NMRU p \<Rightarrow> nmru_ok n p
      | Repl_PLRU p \<Rightarrow> plru_ok n p
      | Repl_SRRIP p \<Rightarrow> srrip_ok n p
      | Repl_Random seed \<Rightarrow> True)"

definition is_round_robin :: "repl \<Rightarrow> bool" where
  "is_round_robin r \<longleftrightarrow> (case r of Repl_RoundRobin i \<Rightarrow> True | _ \<Rightarrow> False)"

lemma returns_Inr:
  "returns C x = Some (Inr (i, r, e)) \<longleftrightarrow> (\<exists>p. x = Inr (i, p, e) \<and> r = C p)"
  by (auto simp: returns_def split: sum.splits)

lemma dispatch_get_ok:
  assumes "repl_ok (length bs) r" and "getReplacementIndex e bs r = Some (Inr (i, r', e'))"
  shows "i < length bs \<and> repl_ok (length bs) r'"
proof (cases r)
  case (Repl_RoundRobin x1)
  with assms show ?thesis
    by (auto simp: getReplacementIndex_def repl_ok_def returns_Inr rr_ok_def rr_result_ok_def
        split: option.splits dest!: rr_get_ok)
next
  case (Repl_Random x8)
  with assms show ?thesis
    by (auto simp: getReplacementIndex_def repl_ok_def returns_Inr split: option.splits
        dest!: random_result(1))
qed (use assms in \<open>auto simp: getReplacementIndex_def repl_ok_def returns_Inr
      dest: lru_get_ok nru_get_ok [OF _ refl] mru_get_ok nmru_get_ok plru_get_ok srrip_get_ok\<close>)

lemma dispatch_update_ok:
  assumes "repl_ok n r" and "a < n" and "updateReplacementIndex e r a = Inr (r', e')"
  shows "repl_ok n r'"
  using assms
  by (cases r) (auto simp: updateReplacementIndex_def repl_ok_def split: sum.splits
      intro: lru_perm_moveToMRU nru_ok_update dest: policy_update_ok plru_update_ok srrip_update_ok)

interpretation dispatch: replacement_policy getReplacementIndex updateReplacementIndex repl_ok
  by unfold_locales (auto dest: dispatch_get_ok dispatch_update_ok)

lemma dispatch_fills:
  assumes "repl_ok (length bs) r" and "\<not> is_round_robin r" and "first_invalid bs = Some i"
  shows "\<exists>r'. getReplacementIndex e bs r = Some (Inr (i, r', e))"
  using assms(1,2) policy_fills [OF assms(3)]
  by (cases r) (auto simp: getReplacementIndex_def repl_ok_def is_round_robin_def returns_Inr)

text \<open>The policies that look for an invalid way first stay what they are.\<close>

definition fills_ok :: "nat \<Rightarrow> repl \<Rightarrow> bool" where
  "fills_ok n r \<longleftrightarrow> repl_ok n r \<and> \<not> is_round_robin r"

lemma dispatch_class:
  "getReplacementIndex e bs r = Some (Inr (i, r', e')) \<Longrightarrow> is_round_robin r' = is_round_robin r"
  "updateReplacementIndex e r a = Inr (r', e') \<Longrightarrow> is_round_robin r' = is_round_robin r"
  by (cases r; auto simp: getReplacementIndex_def updateReplacementIndex_def is_round_robin_def
      returns_Inr split: option.splits sum.splits)+

interpretation dispatch_fill: fills_invalid getReplacementIndex updateReplacementIndex fills_ok
  by unfold_locales (auto simp: fills_ok_def dispatch_class dispatch_fills
      dest: dispatch_get_ok dispatch_update_ok)

text \<open>
  \<^verbatim>\<open>createCacheSet\<close> establishes the invariant for at most 256 ways; SRRIP needs between
  one and eight bits.
\<close>

lemma createPolicy_ok:
  assumes "createPolicy cfg policy associativity = Inr r"
    and "0 < unat associativity" and "unat associativity \<le> 256"
    and "policy = SRRIP \<or> policy = SRRIP_QBS \<Longrightarrow> 0 < rc_srrip_bits cfg \<and> rc_srrip_bits cfg \<le> 8"
  shows "repl_ok (unat associativity) r"
proof -
  have srrip: "srrip_ok n (CacheSetSRRIP b n att)" if "0 < b" "b \<le> 8" "0 < n" "n \<le> 256" for b n att
  proof -
    have "(2::nat) ^ b \<le> 2 ^ 8" by (rule power_increasing [OF that(2)]) simp
    moreover have "(2::nat) ^ 1 \<le> 2 ^ b" by (rule power_increasing) (use that(1) in simp_all)
    ultimately show ?thesis using that(3,4)
      by (auto simp: srrip_ok_def CacheSetSRRIP_def Let_def mod_if)
  qed
  show ?thesis
    using assms srrip lru_perm_init [OF assms(3)]
    by (cases policy) (auto simp: createPolicy_def Let_def repl_ok_def rr_ok_def CacheSetRoundRobin_def
      CacheSetLRU_def CacheSetMRU_def nmru_ok_def CacheSetNMRU_def nru_ok_def CacheSetNRU_def
      plru_ok_def plru_wf_def CacheSetPLRU_def split: sum.splits if_splits)
qed

end
