(* ===== verification/Cache_Set_Spec.thy ===== *)
theory Cache_Set_Spec
  imports Policy_Contract
begin

text \<open>
  What a cache set promises: an abstract view of the set as a finite map from tags to
  lines, and the proof that lookup, invalidation and insertion implement the map operations
  for every replacement policy that meets the contract. The proofs of insertion are made
  once, in the locale \<open>replacement_policy\<close>.
\<close>

section \<open>Abstract view\<close>

definition is_l2 :: "cache_block_info \<Rightarrow> bool" where
  "is_l2 b \<longleftrightarrow> m_cached_loc_bitvec b \<noteq> None"

text \<open>No two valid lines have the same tag, and all objects are of the same class.\<close>

definition lines_ok :: "bool \<Rightarrow> cache_block_info list \<Rightarrow> bool" where
  "lines_ok l2 ls \<longleftrightarrow>
     (\<forall>i<length ls. \<forall>j<length ls. isValid (ls ! i) \<and> m_tag (ls ! i) = m_tag (ls ! j) \<longrightarrow> i = j) \<and>
     (\<forall>i<length ls. is_l2 (ls ! i) = l2)"

definition contents :: "cache_block_info list \<Rightarrow> intptr \<Rightarrow> cache_block_info option" where
  "contents ls t = (if t = - 1 then None else find (\<lambda>b. m_tag b = t) ls)"

lemma lines_okD:
  "lines_ok l2 ls \<Longrightarrow> i < length ls \<Longrightarrow> j < length ls \<Longrightarrow> isValid (ls ! i) \<Longrightarrow>
     m_tag (ls ! i) = m_tag (ls ! j) \<Longrightarrow> i = j"
  "lines_ok l2 ls \<Longrightarrow> i < length ls \<Longrightarrow> is_l2 (ls ! i) = l2"
  by (auto simp: lines_ok_def)

lemma contents_SomeD:
  assumes "contents ls t = Some b"
  shows "m_tag b = t" and "isValid b" and "\<exists>i<length ls. ls ! i = b"
  using assms by (auto simp: contents_def isValid_def find_Some_iff split: if_splits)

lemma contents_None: "contents ls t = None \<longleftrightarrow> t = - 1 \<or> (\<forall>i<length ls. m_tag (ls ! i) \<noteq> t)"
  by (auto simp: contents_def find_None_iff in_set_conv_nth)

lemma contents_nth:
  assumes "lines_ok l2 ls" and "i < length ls" and "isValid (ls ! i)"
  shows "contents ls (m_tag (ls ! i)) = Some (ls ! i)"
proof -
  obtain b where b: "contents ls (m_tag (ls ! i)) = Some b"
    using contents_None [of ls "m_tag (ls ! i)"] assms(2,3) by (auto simp: isValid_def)
  then obtain j where j: "j < length ls" "ls ! j = b" "m_tag b = m_tag (ls ! i)"
    using contents_SomeD by blast
  have "i = j" by (rule lines_okD(1) [OF assms(1,2) j(1) assms(3)]) (simp only: j(2,3))
  then have "b = ls ! i" using j(2) by (simp only:)
  with b show ?thesis by (simp only:)
qed

lemma contents_eqI:
  assumes "lines_ok l2 ls"
    and "\<And>i. i < length ls \<Longrightarrow> isValid (ls ! i) \<Longrightarrow> m (m_tag (ls ! i)) = Some (ls ! i)"
    and "\<And>t b. m t = Some b \<Longrightarrow> \<exists>i<length ls. ls ! i = b \<and> m_tag b = t \<and> isValid b"
  shows "contents ls = m"
proof
  fix t
  show "contents ls t = m t"
  proof (cases "m t")
    case (Some b)
    from assms(3) [OF this] obtain i where i: "i < length ls" "ls ! i = b" "m_tag b = t" "isValid b"
      by blast
    from contents_nth [OF assms(1) i(1)] i(4) Some show ?thesis by (simp only: i(2,3))
  next
    case None
    have "contents ls t \<noteq> Some b" for b
    proof
      assume b: "contents ls t = Some b"
      then obtain i where i: "i < length ls" "ls ! i = b" using contents_SomeD(3) by blast
      from assms(2) [OF i(1)] contents_SomeD(1,2) [OF b] None show False by (simp only: i(2)) simp
    qed
    with None show ?thesis by auto
  qed
qed

section \<open>Lookup and invalidation\<close>

lemma find_contents:
  assumes "lines_ok l2 (cs_lines s)" and "t \<noteq> - 1"
  shows "map_option ((!) (cs_lines s)) (CacheSet_find s t) = contents (cs_lines s) t"
proof (cases "CacheSet_find s t")
  case None
  then have "contents (cs_lines s) t = None" by (simp add: CacheSet_find_def contents_None)
  with None show ?thesis by simp
next
  case (Some i)
  then have i: "i < length (cs_lines s)" "m_tag (cs_lines s ! i) = t"
    using last_idx_SomeD by (auto simp: CacheSet_find_def)
  with assms(2) have "isValid (cs_lines s ! i)" by (simp add: isValid_def)
  with contents_nth [OF assms(1) i(1)] i Some show ?thesis by simp
qed

lemma invalidate_block_simps [simp]:
  "m_tag (invalidate_block b) = - 1" "\<not> isValid (invalidate_block b)"
  "is_l2 (invalidate_block b) = is_l2 b"
  by (auto simp: invalidate_block_def isValid_def is_l2_def)

lemma lines_ok_update:
  assumes "lines_ok l2 ls" and "is_l2 b = l2"
    and "\<And>j. j < length ls \<Longrightarrow> isValid b \<Longrightarrow> m_tag (ls ! j) = m_tag b \<Longrightarrow> j = i"
  shows "lines_ok l2 (ls[i := b])"
proof -
  have "i' = j'" if ij: "i' < length ls" "j' < length ls" "isValid (ls[i := b] ! i')"
    "m_tag (ls[i := b] ! i') = m_tag (ls[i := b] ! j')" for i' j'
  proof (cases "i' = i"; cases "j' = i")
    assume "i' = i" "j' \<noteq> i"
    with ij assms(3) [of j'] show ?thesis by simp
  next
    assume "i' \<noteq> i" "j' = i"
    with ij assms(3) [of i'] show ?thesis by (simp add: isValid_def)
  next
    assume "i' \<noteq> i" "j' \<noteq> i"
    with ij lines_okD(1) [OF assms(1) ij(1,2)] show ?thesis by simp
  qed simp
  moreover have "is_l2 (ls[i := b] ! j) = l2" if "j < length ls" for j
    using that assms(1,2) by (simp add: nth_list_update_If lines_okD(2))
  ultimately show ?thesis by (auto simp: lines_ok_def)
qed

text \<open>Writing one line replaces the tag that was there by the tag of the new line.\<close>

definition replace_line ::
  "(intptr \<Rightarrow> cache_block_info option) \<Rightarrow> cache_block_info \<Rightarrow> cache_block_info \<Rightarrow>
     (intptr \<Rightarrow> cache_block_info option)" where
  "replace_line m old new =
     (let m' = (if isValid old then m(m_tag old := None) else m)
      in if isValid new then m'(m_tag new := Some new) else m')"

lemma contents_update:
  assumes "lines_ok l2 ls" and "i < length ls" and "is_l2 b = l2"
    and "\<And>j. j < length ls \<Longrightarrow> isValid b \<Longrightarrow> m_tag (ls ! j) = m_tag b \<Longrightarrow> j = i"
  shows "contents (ls[i := b]) = replace_line (contents ls) (ls ! i) b"
proof (rule contents_eqI)
  show "lines_ok l2 (ls[i := b])" using assms by (intro lines_ok_update)
next
  fix j assume j: "j < length (ls[i := b])" "isValid (ls[i := b] ! j)"
  show "replace_line (contents ls) (ls ! i) b (m_tag (ls[i := b] ! j)) = Some (ls[i := b] ! j)"
  proof (cases "j = i")
    case True
    with j assms(2) show ?thesis by (simp add: replace_line_def)
  next
    case False
    with j have v: "isValid (ls ! j)" "j < length ls" by auto
    from False v assms(2) lines_okD(1) [OF assms(1) v(2) assms(2) v(1)] assms(4) [of j]
      contents_nth [OF assms(1) v(2,1)]
    show ?thesis by (auto simp: replace_line_def Let_def)
  qed
next
  fix t c assume r: "replace_line (contents ls) (ls ! i) b t = Some c"
  show "\<exists>j<length (ls[i := b]). ls[i := b] ! j = c \<and> m_tag c = t \<and> isValid c"
  proof (cases "isValid b \<and> t = m_tag b")
    case True
    with r assms(2) show ?thesis by (intro exI [of _ i]) (auto simp: replace_line_def Let_def)
  next
    case False
    with r have c: "contents ls t = Some c" and t: "isValid (ls ! i) \<Longrightarrow> t \<noteq> m_tag (ls ! i)"
      by (auto simp: replace_line_def Let_def split: if_splits)
    from contents_SomeD [OF c] obtain j where j: "j < length ls" "ls ! j = c" "m_tag c = t" "isValid c"
      by blast
    then have "j \<noteq> i" using t by blast
    with j show ?thesis by (intro exI [of _ j]) simp
  qed
qed

lemma invalidate_contents:
  assumes "lines_ok l2 (cs_lines s)" and "t \<noteq> - 1" and "CacheSet_invalidate s t = (found, s')"
  shows "found \<longleftrightarrow> contents (cs_lines s) t \<noteq> None"
    and "contents (cs_lines s') = (contents (cs_lines s))(t := None)"
    and "lines_ok l2 (cs_lines s')" and "cs_blocks s' = cs_blocks s" and "cs_policy s' = cs_policy s"
    and "length (cs_lines s') = length (cs_lines s)" and "cs_blocksize s' = cs_blocksize s"
proof -
  let ?ls = "cs_lines s" and ?i = "last_idx (\<lambda>i. m_tag (cs_lines s ! i) = t) (length (cs_lines s))"
  have "(found \<longleftrightarrow> contents ?ls t \<noteq> None) \<and> contents (cs_lines s') = (contents ?ls)(t := None) \<and>
      lines_ok l2 (cs_lines s') \<and> cs_blocks s' = cs_blocks s \<and> cs_policy s' = cs_policy s \<and>
      length (cs_lines s') = length ?ls \<and> cs_blocksize s' = cs_blocksize s"
  proof (cases ?i)
    case None
    then have "contents ?ls t = None" by (simp add: contents_None)
    with assms None show ?thesis by (auto simp: CacheSet_invalidate_def)
  next
    case (Some i)
    let ?b = "invalidate_block (?ls ! i)"
    have i: "i < length ?ls" "m_tag (?ls ! i) = t" using last_idx_SomeD [OF Some] by simp_all
    with assms(2) have v: "isValid (?ls ! i)" by (simp add: isValid_def)
    have "lines_ok l2 (?ls[i := ?b])"
      using assms(1) i(1) by (intro lines_ok_update) (simp_all add: lines_okD(2))
    moreover have "contents (?ls[i := ?b]) = (contents ?ls)(t := None)"
      using contents_update [OF assms(1) i(1), of ?b] i v assms(1)
      by (simp add: replace_line_def lines_okD(2))
    moreover have "contents ?ls t \<noteq> None" using contents_nth [OF assms(1) i(1) v] i(2) by simp
    ultimately show ?thesis using assms(3) Some by (auto simp: CacheSet_invalidate_def)
  qed
  then show "found \<longleftrightarrow> contents (cs_lines s) t \<noteq> None"
    "contents (cs_lines s') = (contents (cs_lines s))(t := None)"
    "lines_ok l2 (cs_lines s')" "cs_blocks s' = cs_blocks s" "cs_policy s' = cs_policy s"
    "length (cs_lines s') = length (cs_lines s)" "cs_blocksize s' = cs_blocksize s" by blast+
qed

section \<open>Insertion\<close>

lemma clone_block_same: "is_l2 dst = is_l2 src \<Longrightarrow> clone_block dst src = src"
  by (cases src) (auto simp: clone_block_def is_l2_def split: option.splits)

lemma m_tag_clone_block [simp]: "m_tag (clone_block dst src) = m_tag src"
  by (simp add: clone_block_def)

text \<open>
  The data bytes of way \<open>i\<close>, and the size invariant of \<^verbatim>\<open>m_blocks\<close>: the array has one
  block per way and its size fits in 32 bits.
\<close>

definition line_data :: "'r cache_set \<Rightarrow> nat \<Rightarrow> byte list option" where
  "line_data s i = map_option (\<lambda>d. take (unat (cs_blocksize s)) (drop (i * unat (cs_blocksize s)) d)) (cs_blocks s)"

definition blocks_ok :: "'r cache_set \<Rightarrow> bool" where
  "blocks_ok s \<longleftrightarrow> length (cs_lines s) * unat (cs_blocksize s) < 2 ^ 32 \<and>
     (\<forall>d. cs_blocks s = Some d \<longrightarrow> length d = length (cs_lines s) * unat (cs_blocksize s))"

definition set_ok :: "(nat \<Rightarrow> 'r \<Rightarrow> bool) \<Rightarrow> bool \<Rightarrow> 'r cache_set \<Rightarrow> bool" where
  "set_ok pinv l2 s \<longleftrightarrow> lines_ok l2 (cs_lines s) \<and> blocks_ok s \<and> pinv (length (cs_lines s)) (cs_policy s)"

lemma length_mem_copy:
  "doff + n \<le> length dst \<Longrightarrow> soff + n \<le> length src \<Longrightarrow> length (mem_copy dst doff src soff n) = length dst"
  by (simp add: mem_copy_def)

lemma nth_mem_copy:
  assumes "doff + n \<le> length dst" and "soff + n \<le> length src" and "k < length dst"
  shows "mem_copy dst doff src soff n ! k =
           (if doff \<le> k \<and> k < doff + n then src ! (soff + (k - doff)) else dst ! k)"
proof -
  have "min (length (drop soff src)) n = n" "min (length dst) doff = doff" using assms by simp_all
  with assms show ?thesis by (auto simp: mem_copy_def nth_append simp del: length_drop)
qed

lemma getDataPtr_eq:
  assumes "blocks_ok s" and "i < length (cs_lines s)" and "unat off < unat (cs_blocksize s) \<or> off = 0"
  shows "getDataPtr s i off = i * unat (cs_blocksize s) + unat off"
proof -
  let ?n = "unat (cs_blocksize s)"
  have "i * ?n + ?n \<le> length (cs_lines s) * ?n"
    using mult_le_mono1 [of "Suc i" "length (cs_lines s)" ?n] assms(2) by simp
  then have lt: "i * ?n + unat off < 2 ^ 32" using assms(1,3) by (auto simp: blocks_ok_def)
  have "of_nat i * cs_blocksize s + off = of_nat (i * ?n + unat off)" by simp
  moreover have "unat (of_nat (i * ?n + unat off) :: u32) = i * ?n + unat off"
    by (rule unat_of_nat_eq) (use lt in simp)
  ultimately show ?thesis unfolding getDataPtr_def by (simp only:)
qed

lemma block_range:
  assumes "blocks_ok s" and "cs_blocks s = Some d" and "i < length (cs_lines s)"
  shows "i * unat (cs_blocksize s) + unat (cs_blocksize s) \<le> length d"
  using mult_le_mono1 [of "Suc i" "length (cs_lines s)" "unat (cs_blocksize s)"] assms
  by (simp add: blocks_ok_def)

text \<open>Overwriting part of one block leaves the other blocks alone.\<close>

lemma take_drop_mem_copy_other:
  assumes "i * n + off + m \<le> length d" and "off + m \<le> n" and "so + m \<le> length b" and "j \<noteq> i"
  shows "take n (drop (j * n) (mem_copy d (i * n + off) b so m)) = take n (drop (j * n) d)"
proof (rule nth_equalityI)
  have len: "length (mem_copy d (i * n + off) b so m) = length d"
    using assms by (intro length_mem_copy) simp_all
  then show "length (take n (drop (j * n) (mem_copy d (i * n + off) b so m))) = length (take n (drop (j * n) d))"
    by simp
  fix k assume "k < length (take n (drop (j * n) (mem_copy d (i * n + off) b so m)))"
  with len have k: "k < n" "j * n + k < length d" by auto
  have "j * n + k < i * n \<or> i * n + n \<le> j * n + k"
  proof (cases "j < i")
    case True
    then have "Suc j * n \<le> i * n" by (intro mult_le_mono1) simp
    with k show ?thesis by simp
  next
    case False
    with assms(4) have "Suc i * n \<le> j * n" by (intro mult_le_mono1) simp
    then show ?thesis by simp
  qed
  then have "mem_copy d (i * n + off) b so m ! (j * n + k) = d ! (j * n + k)"
    using nth_mem_copy [of "i * n + off" m d so b "j * n + k"] assms k by auto
  with k len show "take n (drop (j * n) (mem_copy d (i * n + off) b so m)) ! k = take n (drop (j * n) d) ! k"
    by simp
qed

lemma take_drop_mem_copy_same:
  assumes "p + n \<le> length d" and "length b = n"
  shows "take n (drop p (mem_copy d p b 0 n)) = b"
  using assms by (simp add: mem_copy_def)

text \<open>The data array after an insertion at way \<open>i\<close>.\<close>

definition fill_blocks :: "'r cache_set \<Rightarrow> nat \<Rightarrow> byte list option \<Rightarrow> byte list option" where
  "fill_blocks s i fill =
     (case (fill, cs_blocks s) of
        (Some b, Some d) \<Rightarrow> Some (mem_copy d (getDataPtr s i 0) b 0 (unat (cs_blocksize s)))
      | _ \<Rightarrow> cs_blocks s)"

lemma CacheSet_insertD:
  assumes "CacheSet_insert gri e s cbi fill evict_info evict_buff = Some (Inr (ev, ei, eb, s', e'))"
  obtains i p where "gri e (cs_lines s) (cs_policy s) = Some (Inr (i, p, e'))"
    and "i < length (cs_lines s)" and "ev = isValid (cs_lines s ! i)"
    and "ei = (if ev then clone_block evict_info (cs_lines s ! i) else evict_info)"
    and "s' = s\<lparr>cs_lines := (cs_lines s)[i := clone_block (cs_lines s ! i) cbi],
               cs_blocks := fill_blocks s i fill, cs_policy := p\<rparr>"
  using assms
  by (auto simp: CacheSet_insert_def Let_def fill_blocks_def split: option.splits sum.splits if_splits)

definition fill_ok :: "'r cache_set \<Rightarrow> byte list option \<Rightarrow> bool" where
  "fill_ok s fill \<longleftrightarrow> (\<forall>b. fill = Some b \<longrightarrow> length b = unat (cs_blocksize s))"

lemma fill_blocks_ok:
  assumes "blocks_ok s" and "i < length (cs_lines s)" and "fill_ok s fill"
    and "length ls = length (cs_lines s)"
  shows "blocks_ok (s\<lparr>cs_lines := ls, cs_blocks := fill_blocks s i fill, cs_policy := p\<rparr>)"
  using assms block_range [OF assms(1) _ assms(2)] getDataPtr_eq [OF assms(1,2), of 0]
  by (auto simp: blocks_ok_def fill_blocks_def fill_ok_def length_mem_copy split: option.splits)

lemma fill_line_data:
  fixes s :: "'r cache_set" and ls :: "cache_block_info list" and p :: 'r
  assumes "blocks_ok s" and "i < length (cs_lines s)" and "fill_ok s fill"
  defines "s' \<equiv> s\<lparr>cs_lines := ls, cs_blocks := fill_blocks s i fill, cs_policy := p\<rparr>"
  shows "fill \<noteq> None \<Longrightarrow> cs_blocks s \<noteq> None \<Longrightarrow> line_data s' i = fill"
    and "j \<noteq> i \<Longrightarrow> line_data s' j = line_data s j"
proof -
  let ?n = "unat (cs_blocksize s)"
  note at = getDataPtr_eq [OF assms(1,2), of 0, simplified]
  show "line_data s' i = fill" if "fill \<noteq> None" "cs_blocks s \<noteq> None"
    using that assms(3) block_range [OF assms(1) _ assms(2)]
    by (auto simp: s'_def line_data_def fill_blocks_def fill_ok_def at take_drop_mem_copy_same)
  show "line_data s' j = line_data s j" if "j \<noteq> i"
    using that assms(3) block_range [OF assms(1) _ assms(2)]
      take_drop_mem_copy_other [of i ?n 0 ?n _ 0 _ j]
    by (auto simp: s'_def line_data_def fill_blocks_def fill_ok_def at split: option.splits)
qed

text \<open>A store that stays inside the block, into way \<open>i\<close>.\<close>

definition store_ok :: "'r cache_set \<Rightarrow> u32 \<Rightarrow> byte list option \<Rightarrow> u32 \<Rightarrow> bool" where
  "store_ok s off buff bytes \<longleftrightarrow> unat off + unat bytes \<le> unat (cs_blocksize s) \<and>
     (unat off < unat (cs_blocksize s) \<or> off = 0) \<and>
     (\<forall>b. buff = Some b \<longrightarrow> unat bytes \<le> length b)"

definition store_blocks :: "'r cache_set \<Rightarrow> nat \<Rightarrow> u32 \<Rightarrow> byte list option \<Rightarrow> u32 \<Rightarrow> 'r cache_set" where
  "store_blocks s i off buff bytes =
     (case (buff, cs_blocks s) of
        (Some b, Some d) \<Rightarrow> s\<lparr>cs_blocks := Some (mem_copy d (getDataPtr s i off) b 0 (unat bytes))\<rparr>
      | _ \<Rightarrow> s)"

lemma write_line_store:
  "CacheSet_write_line upd e s i off buff bytes u = Inr (s', e') \<Longrightarrow>
     update_policy upd e (store_blocks s i off buff bytes) i u = Inr (s', e')"
  by (auto simp: CacheSet_write_line_def store_blocks_def Let_def split: if_splits)

lemma store_blocks_simps [simp]:
  "cs_lines (store_blocks s i off buff bytes) = cs_lines s"
  "cs_policy (store_blocks s i off buff bytes) = cs_policy s"
  "cs_blocksize (store_blocks s i off buff bytes) = cs_blocksize s"
  by (auto simp: store_blocks_def split: option.splits)

lemma store_range:
  assumes "blocks_ok s" and "i < length (cs_lines s)" and "store_ok s off buff bytes"
    and "cs_blocks s = Some d"
  shows "getDataPtr s i off + unat bytes \<le> length d"
  using block_range [OF assms(1,4,2)] getDataPtr_eq [OF assms(1,2), of off] assms(3)
  by (auto simp: store_ok_def)

lemma store_blocks_ok:
  assumes "blocks_ok s" and "i < length (cs_lines s)" and "store_ok s off buff bytes"
  shows "blocks_ok (store_blocks s i off buff bytes)"
  using assms store_range [OF assms]
  by (auto simp: blocks_ok_def store_blocks_def store_ok_def length_mem_copy split: option.splits)

lemma store_other_line:
  assumes "blocks_ok s" and "i < length (cs_lines s)" and "store_ok s off buff bytes" and "j \<noteq> i"
  shows "line_data (store_blocks s i off buff bytes) j = line_data s j"
proof -
  let ?n = "unat (cs_blocksize s)"
  have at: "getDataPtr s i off = i * ?n + unat off"
    using assms(3) by (intro getDataPtr_eq [OF assms(1,2)]) (simp add: store_ok_def)
  have "take ?n (drop (j * ?n) (mem_copy d (i * ?n + unat off) b 0 (unat bytes))) = take ?n (drop (j * ?n) d)"
    if "buff = Some b" "cs_blocks s = Some d" for b d
    using store_range [OF assms(1-3) that(2)] assms(3,4) that
    by (intro take_drop_mem_copy_other) (auto simp: at store_ok_def)
  then show ?thesis by (auto simp: line_data_def store_blocks_def at split: option.splits)
qed

text \<open>A load of the same range returns the bytes that were stored.\<close>

lemma load_after_store:
  assumes "blocks_ok s" and "i < length (cs_lines s)" and "store_ok s off (Some b) bytes"
    and "cs_blocks s \<noteq> None" and "cs_blocks s' = cs_blocks (store_blocks s i off (Some b) bytes)"
    and "cs_blocksize s' = cs_blocksize s"
    and "CacheSet_read_line upd e s' i off (Some out) bytes u = Inr (out', s'', e')"
  shows "out' = Some (take (unat bytes) b @ drop (unat bytes) out)"
proof -
  from assms(4) obtain d where d: "cs_blocks s = Some d" by auto
  have at: "getDataPtr s' i off = getDataPtr s i off" by (simp add: getDataPtr_def assms(6))
  let ?p = "getDataPtr s i off" and ?m = "unat bytes"
  have m: "?m \<le> length b" using assms(3) by (simp add: store_ok_def)
  have "take ?m (drop ?p (mem_copy d ?p b 0 ?m)) = take ?m b"
    using store_range [OF assms(1-3) d] m by (simp add: mem_copy_def)
  with assms(5,7) d show ?thesis
    by (auto simp: CacheSet_read_line_def store_blocks_def Let_def at mem_copy_def [of out] 
        split: if_splits sum.splits)
qed

context replacement_policy
begin

text \<open>
  Insertion of a line whose tag is not in the set: the new line is found under its tag, the
  line that was replaced is the one reported as evicted, everything else is unchanged.
\<close>

lemma insert_refines:
  assumes "set_ok inv l2 s" and "is_l2 cbi = l2" and "isValid cbi"
    and "contents (cs_lines s) (m_tag cbi) = None" and "fill_ok s fill"
    and "CacheSet_insert gri e s cbi fill evict_info evict_buff = Some (Inr (ev, ei, eb, s', e'))"
  shows "\<exists>i<length (cs_lines s).
     contents (cs_lines s') = replace_line (contents (cs_lines s)) (cs_lines s ! i) cbi \<and>
     ev = isValid (cs_lines s ! i) \<and>
     ei = (if ev then clone_block evict_info (cs_lines s ! i) else evict_info) \<and>
     cs_lines s' = (cs_lines s)[i := cbi] \<and> set_ok inv l2 s' \<and>
     (fill \<noteq> None \<longrightarrow> cs_blocks s \<noteq> None \<longrightarrow> line_data s' i = fill) \<and>
     (\<forall>j. j \<noteq> i \<longrightarrow> line_data s' j = line_data s j)"
proof -
  note ok = assms(1) [unfolded set_ok_def]
  from assms(6) obtain i p where g: "gri e (cs_lines s) (cs_policy s) = Some (Inr (i, p, e'))"
    and i: "i < length (cs_lines s)" and ev: "ev = isValid (cs_lines s ! i)"
    and ei: "ei = (if ev then clone_block evict_info (cs_lines s ! i) else evict_info)"
    and s': "s' = s\<lparr>cs_lines := (cs_lines s)[i := clone_block (cs_lines s ! i) cbi],
               cs_blocks := fill_blocks s i fill, cs_policy := p\<rparr>"
    by (rule CacheSet_insertD)
  have cl: "clone_block (cs_lines s ! i) cbi = cbi"
    using ok assms(2) i by (intro clone_block_same) (simp add: lines_okD(2))
  have fresh: "j = i" if "j < length (cs_lines s)" "isValid cbi" "m_tag (cs_lines s ! j) = m_tag cbi" for j
    using assms(3,4) that by (auto simp: contents_None isValid_def)
  have "lines_ok l2 ((cs_lines s)[i := cbi])"
    using ok assms(2) fresh by (intro lines_ok_update) simp_all
  moreover have "inv (length (cs_lines s)) p" using gri_ok [OF _ g] ok by blast
  moreover have "blocks_ok s'"
    unfolding s' using ok i assms(5) by (intro fill_blocks_ok) simp_all
  ultimately have "set_ok inv l2 s'" by (simp add: set_ok_def s' cl)
  moreover have ls: "cs_lines s' = (cs_lines s)[i := cbi]" by (simp add: s' cl)
  moreover have "contents (cs_lines s') = replace_line (contents (cs_lines s)) (cs_lines s ! i) cbi"
    unfolding ls by (rule contents_update [OF conjunct1 [OF ok] i assms(2) fresh])
  moreover have "fill \<noteq> None \<Longrightarrow> cs_blocks s \<noteq> None \<Longrightarrow> line_data s' i = fill"
    "j \<noteq> i \<Longrightarrow> line_data s' j = line_data s j" for j
    unfolding s' using ok by (intro fill_line_data [OF _ i assms(5)]; simp)+
  ultimately show ?thesis using i ev ei by blast
qed

text \<open>Hits: reading or writing a line keeps the invariant and the lines of the set.\<close>

lemma update_policy_ok:
  assumes "set_ok inv l2 s" and "i < length (cs_lines s)" and "update_policy upd e s i u = Inr (s', e')"
  shows "set_ok inv l2 s' \<and> cs_lines s' = cs_lines s \<and> cs_blocks s' = cs_blocks s \<and>
     cs_blocksize s' = cs_blocksize s"
  using assms upd_ok
  by (auto simp: update_policy_def set_ok_def blocks_ok_def split: if_splits sum.splits)

lemma write_line_ok:
  assumes "set_ok inv l2 s" and "i < length (cs_lines s)" and "store_ok s off buff bytes"
    and "CacheSet_write_line upd e s i off buff bytes u = Inr (s', e')"
  shows "set_ok inv l2 s' \<and> cs_lines s' = cs_lines s \<and> cs_blocksize s' = cs_blocksize s \<and>
     cs_blocks s' = cs_blocks (store_blocks s i off buff bytes)"
proof -
  have "set_ok inv l2 (store_blocks s i off buff bytes)"
    using assms(1) store_blocks_ok [OF _ assms(2,3)] by (simp add: set_ok_def)
  from update_policy_ok [OF this _ write_line_store [OF assms(4)]] assms(2) show ?thesis by simp
qed

lemma read_line_ok:
  assumes "set_ok inv l2 s" and "i < length (cs_lines s)"
    and "CacheSet_read_line upd e s i off buff bytes u = Inr (out, s', e')"
  shows "set_ok inv l2 s' \<and> cs_lines s' = cs_lines s \<and> cs_blocksize s' = cs_blocksize s \<and>
     cs_blocks s' = cs_blocks s"
proof -
  from assms(3) have "update_policy upd e s i u = Inr (s', e')"
    by (auto simp: CacheSet_read_line_def Let_def split: if_splits sum.splits)
  from update_policy_ok [OF assms(1,2) this] show ?thesis by blast
qed

text \<open>Bytes written to a line are read back from it.\<close>

lemma read_after_write:
  assumes "set_ok inv l2 s" and "i < length (cs_lines s)" and "store_ok s off (Some b) bytes"
    and "cs_blocks s \<noteq> None"
    and "CacheSet_write_line upd e s i off (Some b) bytes u = Inr (s', e')"
    and "CacheSet_read_line upd e' s' i off (Some out) bytes u' = Inr (out', s'', e'')"
  shows "out' = Some (take (unat bytes) b @ drop (unat bytes) out)"
  using write_line_ok [OF assms(1,2,3,5)] assms(1)
  by (intro load_after_store [OF _ assms(2-4) _ _ assms(6)]) (simp_all add: set_ok_def)

end

context fills_invalid
begin

text \<open>With an invalid way left, insertion succeeds and evicts nothing.\<close>

lemma insert_no_eviction:
  assumes "set_ok inv l2 s" and "is_l2 cbi = l2" and "isValid cbi"
    and "contents (cs_lines s) (m_tag cbi) = None" and "fill_ok s fill"
    and "i < length (cs_lines s)" and "\<not> isValid (cs_lines s ! i)"
  shows "\<exists>eb s'. CacheSet_insert gri e s cbi fill evict_info evict_buff =
       Some (Inr (False, evict_info, eb, s', e)) \<and>
     contents (cs_lines s') = (contents (cs_lines s))(m_tag cbi := Some cbi)"
proof -
  from assms(6,7) obtain k where k: "first_invalid (cs_lines s) = Some k"
    using first_idx_Some_ex [of i "length (cs_lines s)" "\<lambda>i. \<not> isValid (cs_lines s ! i)"]
    by (auto simp: first_invalid_def)
  note k' = first_invalid_SomeD [OF k]
  from assms(1) have "inv (length (cs_lines s)) (cs_policy s)" by (simp add: set_ok_def)
  from gri_invalid [OF this k, of e] obtain p where
    "gri e (cs_lines s) (cs_policy s) = Some (Inr (k, p, e))" by blast
  with k' obtain eb s' where ins:
    "CacheSet_insert gri e s cbi fill evict_info evict_buff = Some (Inr (False, evict_info, eb, s', e))"
    and ls: "cs_lines s' = (cs_lines s)[k := clone_block (cs_lines s ! k) cbi]"
    by (simp add: CacheSet_insert_def Let_def)
  from insert_refines [OF assms(1-5) ins] obtain j where j: "j < length (cs_lines s)"
    "contents (cs_lines s') = replace_line (contents (cs_lines s)) (cs_lines s ! j) cbi"
    "\<not> isValid (cs_lines s ! j)" by auto
  then have "contents (cs_lines s') = (contents (cs_lines s))(m_tag cbi := Some cbi)"
    using assms(3) by (simp add: replace_line_def)
  with ins show ?thesis by blast
qed

end

end
