(* ===== verification/Fault_Injection.thy ===== *)
theory Fault_Injection
  imports Bits
begin

text \<open>
  \<^verbatim>\<open>common/fault_injection\<close>: the fault masks that are applied to data read from a cache,
  and the injector that flips a random bit before a read.
\<close>

section \<open>Model\<close>

datatype fault_type_t = FAULT_TYPE_TOGGLE | FAULT_TYPE_SET0 | FAULT_TYPE_SET1

datatype fault_injector_t = FAULT_INJECTOR_NONE | FAULT_INJECTOR_RANDOM

text \<open>\<open>None\<close> inside the result is the null manager of the type \<^verbatim>\<open>none\<close>.\<close>

definition FaultinjectionManager_create ::
  "string \<Rightarrow> string \<Rightarrow> (fault_type_t \<times> fault_injector_t) option result" where
  "FaultinjectionManager_create s_type s_injector =
     (let injector =
            (if s_injector = ''none'' then Inr FAULT_INJECTOR_NONE
             else if s_injector = ''random'' then Inr FAULT_INJECTOR_RANDOM
             else Inl Log_Error);
          with_type = (\<lambda>t. case injector of Inl er \<Rightarrow> Inl er | Inr i \<Rightarrow> Inr (Some (t, i)))
      in if s_type = ''toggle'' then with_type FAULT_TYPE_TOGGLE
         else if s_type = ''set0'' then with_type FAULT_TYPE_SET0
         else if s_type = ''set1'' then with_type FAULT_TYPE_SET1
         else if s_type = ''none'' then Inr None
         else Inl Log_Error)"

fun fault_byte :: "fault_type_t \<Rightarrow> byte \<Rightarrow> byte \<Rightarrow> byte" where
  "fault_byte FAULT_TYPE_TOGGLE d f = d XOR f"
| "fault_byte FAULT_TYPE_SET0 d f = d AND NOT f"
| "fault_byte FAULT_TYPE_SET1 d f = d OR f"

text \<open>
  The loop over the first \<^verbatim>\<open>data_size\<close> bytes of the two buffers; reading past either
  buffer is reported as out of range.
\<close>

definition applyFault :: "fault_type_t \<Rightarrow> nat \<Rightarrow> byte list \<Rightarrow> byte list \<Rightarrow> byte list result" where
  "applyFault t data_size data fault =
     (if length data < data_size \<or> length fault < data_size then Inl Out_Of_Range
      else Inr (map2 (fault_byte t) (take data_size data) (take data_size fault) @ drop data_size data))"

text \<open>
  The injector objects. \<open>FaultInjector\<close> is the base class, whose two methods do nothing;
  \<open>FaultInjectorRandom\<close> carries \<^verbatim>\<open>m_active\<close> and \<^verbatim>\<open>m_rng\<close>.
\<close>

datatype fault_injector =
    FaultInjector
  | FaultInjectorRandom bool u64

definition getFaultInjector :: "fault_injector_t \<Rightarrow> bool \<Rightarrow> fault_injector" where
  "getFaultInjector m_injector is_l1_dcache =
     (case m_injector of
        FAULT_INJECTOR_NONE \<Rightarrow> FaultInjector
      | FAULT_INJECTOR_RANDOM \<Rightarrow> FaultInjectorRandom is_l1_dcache (rng_seed 0))"

text \<open>
  \<^verbatim>\<open>preRead(addr, location, data_size, fault, time)\<close>: \<open>mem\<close> is the array that
  \<^verbatim>\<open>fault\<close> points into and \<open>at\<close> the position it points to.
\<close>

definition preRead ::
  "fault_injector \<Rightarrow> u32 \<Rightarrow> byte list option \<Rightarrow> nat \<Rightarrow> (fault_injector \<times> byte list option) result" where
  "preRead fi data_size mem at =
     (case fi of
        FaultInjector \<Rightarrow> Inr (fi, mem)
      | FaultInjectorRandom m_active m_rng \<Rightarrow>
          if \<not> m_active then Inr (fi, mem)
          else
            let (r, rng1) = rng_next m_rng
            in if r mod 0xffff \<noteq> 0 then Inr (FaultInjectorRandom m_active rng1, mem)
               else if data_size = 0 then Inl Div_By_Zero
               else
                 let (r2, rng2) = rng_next rng1;
                     bit_location = unat (r2 mod ucast data_size);
                     k = at + bit_location div 8
                 in case mem of
                      None \<Rightarrow> Inl Null_Pointer
                    | Some d \<Rightarrow>
                        if \<not> k < length d then Inl Out_Of_Range
                        else Inr (FaultInjectorRandom m_active rng2,
                               Some (d[k := d ! k OR push_bit (bit_location mod 8) 1])))"

definition postWrite ::
  "fault_injector \<Rightarrow> u32 \<Rightarrow> byte list option \<Rightarrow> nat \<Rightarrow> (fault_injector \<times> byte list option) result" where
  "postWrite fi data_size mem at = Inr (fi, mem)"

section \<open>Properties\<close>

lemma bit_fault_byte:
  "i < 8 \<Longrightarrow> bit (fault_byte t d f) i =
     (if bit f i then (case t of FAULT_TYPE_TOGGLE \<Rightarrow> \<not> bit d i | FAULT_TYPE_SET0 \<Rightarrow> False | FAULT_TYPE_SET1 \<Rightarrow> True)
      else bit d i)"
  by (cases t) (auto simp: bit_xor_iff bit_and_iff bit_not_iff bit_or_iff)

text \<open>
  C22. The random injector reaches only the first eighth of the data: \<^verbatim>\<open>data_size\<close> is a
  number of bytes, but the position is drawn as a bit number below it. For every state of
  the generator, a read of \<open>n\<close> bytes leaves all bytes from \<open>n / 8\<close> (rounded up) on
  unchanged, and the injection itself never fails for a positive size inside the array.
\<close>

theorem preRead_first_eighth:
  assumes "0 < unat data_size" and "at + unat data_size \<le> length d"
  shows "\<exists>fi' d'. preRead fi data_size (Some d) at = Inr (fi', Some d') \<and> length d' = length d \<and>
     (\<forall>k<length d. \<not> (at \<le> k \<and> k < at + (unat data_size + 7) div 8) \<longrightarrow> d' ! k = d ! k)"
proof (cases fi)
  case FaultInjector
  then show ?thesis by (simp add: preRead_def)
next
  case (FaultInjectorRandom act rng)
  obtain r rng1 where r: "rng_next rng = (r, rng1)" by fastforce
  obtain r2 rng2 where r2: "rng_next rng1 = (r2, rng2)" by fastforce
  let ?b = "unat (r2 mod ucast data_size)"
  have b: "?b < unat data_size" using assms(1) by (simp add: unat_mod_distrib)
  then have k: "?b div 8 < (unat data_size + 7) div 8" by simp
  have nz: "data_size \<noteq> 0" using assms(1) by auto
  have len: "at + ?b div 8 < length d" using b assms(2) by (meson add_less_cancel_left div_le_dividend le_less_trans less_le_trans)
  show ?thesis
  proof (cases "act \<and> r mod 0xffff = 0")
    case True
    with nz len FaultInjectorRandom r r2 have "preRead fi data_size (Some d) at =
        Inr (FaultInjectorRandom act rng2, Some (d[at + ?b div 8 := d ! (at + ?b div 8) OR push_bit (?b mod 8) 1]))"
      by (simp add: preRead_def Let_def)
    with k show ?thesis by (auto simp: nth_list_update_If)
  next
    case False
    with FaultInjectorRandom r show ?thesis by (auto simp: preRead_def Let_def)
  qed
qed

lemma preRead_first_eighth_witness:
  "\<exists>fi' d'. preRead (FaultInjectorRandom True 0) 8 (Some (replicate 8 0)) 0 = Inr (fi', Some d') \<and>
     d' ! 7 = 0"
  using preRead_first_eighth [of 8 0 "replicate 8 0" "FaultInjectorRandom True 0"] by auto

end
