(* ===== verification/Cache.thy ===== *)
theory Cache
  imports Cache_Set_Spec Fault_Injection
begin

text \<open>
  The class \<^verbatim>\<open>Cache\<close> (\<^verbatim>\<open>cache/cache.cc\<close>): an array of cache sets behind the address
  decoding of \<^verbatim>\<open>CacheBase\<close>. A pointer to a line is its position: the set and the way.
\<close>

section \<open>Model\<close>

record cache =
  c_base :: cache_base
  c_enabled :: bool
  c_num_accesses :: u64
  c_num_hits :: u64
  c_cache_type :: cache_t
  c_sets :: "repl cache_set list"
  c_set_info :: "set_info option"
  c_fault_injector :: "fault_injector option"

type_synonym line_ptr = "nat \<times> nat"

text \<open>
  The constructor. \<open>faults\<close> says whether the simulator has a fault injection manager,
  which decides in \<^verbatim>\<open>CacheSet\<close> whether data is kept. All sets are built alike.
\<close>

definition Cache ::
  "repl_config \<Rightarrow> bool \<Rightarrow> u32 \<Rightarrow> u32 \<Rightarrow> u32 \<Rightarrow> string \<Rightarrow> cache_t \<Rightarrow> hash_t \<Rightarrow> fault_injector option
     \<Rightarrow> address_home_lookup option \<Rightarrow> cache result" where
  "Cache cfg faults num_sets associativity cache_block_size policy_name cache_type hash
         fault_injector ahl =
     (case CacheBase num_sets associativity cache_block_size hash ahl of
        Inl er \<Rightarrow> Inl er
      | Inr cb \<Rightarrow>
          (case parsePolicyType policy_name of
             Inl er \<Rightarrow> Inl er
           | Inr policy \<Rightarrow>
               (case createCacheSet cfg faults policy cache_type associativity cache_block_size of
                  Inl er \<Rightarrow> Inl er
                | Inr s \<Rightarrow>
                    Inr \<lparr>c_base = cb, c_enabled = False, c_num_accesses = 0, c_num_hits = 0,
                         c_cache_type = cache_type,
                         c_sets = replicate (unat num_sets) s,
                         c_set_info = createCacheSetInfo policy (rc_attempts cfg) associativity,
                         c_fault_injector = fault_injector\<rparr>)))"

definition deref :: "cache \<Rightarrow> line_ptr \<Rightarrow> cache_block_info" where
  "deref c p = cs_lines (c_sets c ! fst p) ! snd p"

text \<open>Assignment through a line pointer, as done by the callers' setters.\<close>

definition assign_line :: "cache \<Rightarrow> line_ptr \<Rightarrow> cache_block_info \<Rightarrow> cache" where
  "assign_line c p b =
     c\<lparr>c_sets := (c_sets c)[fst p := (c_sets c ! fst p)
         \<lparr>cs_lines := (cs_lines (c_sets c ! fst p))[snd p := b]\<rparr>]\<rparr>"

text \<open>\<^verbatim>\<open>getSetLock\<close>: the lock is named by the set it belongs to.\<close>

definition getSetLock :: "cache \<Rightarrow> intptr \<Rightarrow> nat result" where
  "getSetLock c addr =
     (case splitAddress (c_base c) addr of
        Inl er \<Rightarrow> Inl er
      | Inr (tag, set_index) \<Rightarrow>
          if set_index < cb_num_sets (c_base c) then Inr (unat set_index) else Inl Assert_Failed)"

definition invalidateSingleLine :: "cache \<Rightarrow> intptr \<Rightarrow> (bool \<times> cache) result" where
  "invalidateSingleLine c addr =
     (case splitAddress (c_base c) addr of
        Inl er \<Rightarrow> Inl er
      | Inr (tag, set_index) \<Rightarrow>
          if \<not> set_index < cb_num_sets (c_base c) then Inl Assert_Failed
          else
            let si = unat set_index;
                (found, s') = CacheSet_invalidate (c_sets c ! si) tag
            in Inr (found, c\<lparr>c_sets := (c_sets c)[si := s']\<rparr>))"

text \<open>\<^verbatim>\<open>m_sets[set_index]\<close>; the callers below do not check the index.\<close>

definition get_set :: "cache \<Rightarrow> u32 \<Rightarrow> repl cache_set result" where
  "get_set c set_index =
     (if unat set_index < length (c_sets c) then Inr (c_sets c ! unat set_index) else Inl Out_Of_Range)"

definition cache_env :: "cache \<Rightarrow> cache_cntlr option \<Rightarrow> repl_env" where
  "cache_env c cntlr = \<lparr>re_info = c_set_info c, re_cntlr = cntlr\<rparr>"

definition put_set :: "cache \<Rightarrow> u32 \<Rightarrow> repl cache_set \<Rightarrow> repl_env \<Rightarrow> cache" where
  "put_set c set_index s e =
     c\<lparr>c_sets := (c_sets c)[unat set_index := s], c_set_info := re_info e\<rparr>"

text \<open>The two call-backs of the fault injector on the data of one set.\<close>

definition with_injector ::
  "(fault_injector \<Rightarrow> u32 \<Rightarrow> byte list option \<Rightarrow> nat \<Rightarrow> (fault_injector \<times> byte list option) result)
     \<Rightarrow> cache \<Rightarrow> repl cache_set \<Rightarrow> nat \<Rightarrow> u32 \<Rightarrow> u32
     \<Rightarrow> (fault_injector option \<times> repl cache_set) result" where
  "with_injector callback c s line_index offset bytes =
     (case c_fault_injector c of
        None \<Rightarrow> Inr (None, s)
      | Some fi \<Rightarrow>
          (case callback fi bytes (cs_blocks s) (getDataPtr s line_index offset) of
             Inl er \<Rightarrow> Inl er
           | Inr (fi', mem) \<Rightarrow> Inr (Some fi', s\<lparr>cs_blocks := mem\<rparr>)))"

text \<open>
  \<^verbatim>\<open>accessSingleLine\<close>: the results are the line found (\<open>None\<close> for the null pointer), the
  caller's buffer after the call, and the cache.
\<close>

definition accessSingleLine ::
  "cache \<Rightarrow> intptr \<Rightarrow> access_t \<Rightarrow> byte list option \<Rightarrow> u32 \<Rightarrow> bool
     \<Rightarrow> (line_ptr option \<times> byte list option \<times> cache) result" where
  "accessSingleLine c addr access_type buff bytes update_replacement =
     (case splitAddress_offset (c_base c) addr of
        Inl er \<Rightarrow> Inl er
      | Inr (tag, set_index, block_offset) \<Rightarrow>
     (case get_set c set_index of
        Inl er \<Rightarrow> Inl er
      | Inr s \<Rightarrow>
     (case CacheSet_find s tag of
        None \<Rightarrow> Inr (None, buff, c)
      | Some line_index \<Rightarrow>
          let p = Some (unat set_index, line_index); e = cache_env c None
          in case access_type of
               LOAD \<Rightarrow>
                 (case with_injector preRead c s line_index block_offset bytes of
                    Inl er \<Rightarrow> Inl er
                  | Inr (fi, s1) \<Rightarrow>
                      (case CacheSet_read_line updateReplacementIndex e s1 line_index block_offset
                              buff bytes update_replacement of
                         Inl er \<Rightarrow> Inl er
                       | Inr (out, s2, e') \<Rightarrow>
                           Inr (p, out, (put_set c set_index s2 e')\<lparr>c_fault_injector := fi\<rparr>)))
             | STORE \<Rightarrow>
                 (case CacheSet_write_line updateReplacementIndex e s line_index block_offset
                         buff bytes update_replacement of
                    Inl er \<Rightarrow> Inl er
                  | Inr (s1, e') \<Rightarrow>
                      (case with_injector postWrite c s1 line_index block_offset bytes of
                         Inl er \<Rightarrow> Inl er
                       | Inr (fi, s2) \<Rightarrow>
                           Inr (p, buff, (put_set c set_index s2 e')\<lparr>c_fault_injector := fi\<rparr>))))))"

text \<open>
  \<^verbatim>\<open>insertSingleLine\<close>: (eviction, evicted address, evicted line, evicted data, cache,
  controller).
\<close>

definition insertSingleLine ::
  "cache \<Rightarrow> intptr \<Rightarrow> byte list option \<Rightarrow> cache_block_info \<Rightarrow> byte list option \<Rightarrow> cache_cntlr option
     \<Rightarrow> (bool \<times> intptr \<times> cache_block_info \<times> byte list option \<times> cache \<times> cache_cntlr option) outcome" where
  "insertSingleLine c addr fill_buff evict_block_info evict_buff cntlr =
     (case splitAddress (c_base c) addr of
        Inl er \<Rightarrow> Some (Inl er)
      | Inr (tag, set_index) \<Rightarrow>
     (case CacheBlockInfo_create (c_cache_type c) of
        Inl er \<Rightarrow> Some (Inl er)
      | Inr b \<Rightarrow>
     (case get_set c set_index of
        Inl er \<Rightarrow> Some (Inl er)
      | Inr s \<Rightarrow>
     (case CacheSet_insert getReplacementIndex (cache_env c cntlr) s (b\<lparr>m_tag := tag\<rparr>) fill_buff
             evict_block_info evict_buff of
        None \<Rightarrow> None
      | Some (Inl er) \<Rightarrow> Some (Inl er)
      | Some (Inr (eviction, evict_info, evict_data, s1, e')) \<Rightarrow>
          let evict_addr = tagToAddress (c_base c) (m_tag evict_info)
          in case CacheSet_find s1 tag of
               None \<Rightarrow>
                 if c_fault_injector c \<noteq> None then Some (Inl Assert_Failed)
                 else Some (Inr (eviction, evict_addr, evict_info, evict_data,
                              put_set c set_index s1 e', re_cntlr e'))
             | Some line_index \<Rightarrow>
                 (case with_injector postWrite c s1 line_index 0 (cs_blocksize s1) of
                    Inl er \<Rightarrow> Some (Inl er)
                  | Inr (fi, s2) \<Rightarrow>
                      Some (Inr (eviction, evict_addr, evict_info, evict_data,
                        (put_set c set_index s2 e')\<lparr>c_fault_injector := fi\<rparr>, re_cntlr e')))))))"

definition peekSingleLine :: "cache \<Rightarrow> intptr \<Rightarrow> line_ptr option result" where
  "peekSingleLine c addr =
     (case splitAddress (c_base c) addr of
        Inl er \<Rightarrow> Inl er
      | Inr (tag, set_index) \<Rightarrow>
     (case get_set c set_index of
        Inl er \<Rightarrow> Inl er
      | Inr s \<Rightarrow> Inr (map_option (Pair (unat set_index)) (CacheSet_find s tag))))"

definition updateCounters :: "cache \<Rightarrow> bool \<Rightarrow> cache" where
  "updateCounters c cache_hit =
     (if c_enabled c
      then c\<lparr>c_num_accesses := c_num_accesses c + 1,
             c_num_hits := (if cache_hit then c_num_hits c + 1 else c_num_hits c)\<rparr>
      else c)"

definition updateHits :: "cache \<Rightarrow> u64 \<Rightarrow> cache" where
  "updateHits c hits =
     (if c_enabled c
      then c\<lparr>c_num_accesses := c_num_accesses c + hits, c_num_hits := c_num_hits c + hits\<rparr>
      else c)"

definition enable_cache :: "cache \<Rightarrow> cache" where
  "enable_cache c = c\<lparr>c_enabled := True\<rparr>"

definition disable_cache :: "cache \<Rightarrow> cache" where
  "disable_cache c = c\<lparr>c_enabled := False\<rparr>"

end
