(* ===== verification/Cache_Spec.thy ===== *)
theory Cache_Spec
  imports Cache
begin

text \<open>
  The cache as a map from addresses to lines: what \<^verbatim>\<open>peekSingleLine\<close>,
  \<^verbatim>\<open>accessSingleLine\<close>, \<^verbatim>\<open>insertSingleLine\<close> and \<^verbatim>\<open>invalidateSingleLine\<close> do to it, for every
  replacement policy, through the interpretation of the policy contract on the dispatcher.
\<close>

section \<open>Invariant and abstract view\<close>

definition cache_set_ok :: "cache \<Rightarrow> repl cache_set \<Rightarrow> bool" where
  "cache_set_ok c s \<longleftrightarrow> set_ok repl_ok (c_cache_type c = PR_L2_CACHE) s \<and>
     cs_blocksize s = cb_blocksize (c_base c) \<and>
     length (cs_lines s) = unat (cb_associativity (c_base c))"

definition base_ok :: "cache_base \<Rightarrow> bool" where
  "base_ok cb \<longleftrightarrow>
     CacheBase (cb_num_sets cb) (cb_associativity cb) (cb_blocksize cb) (cb_hash cb) (cb_ahl cb) = Inr cb \<and>
     (cb_hash cb = HASH_XOR_MOD \<longrightarrow> (\<exists>k. unat (cb_num_sets cb) = 2 ^ k)) \<and>
     2 \<le> unat (cb_blocksize cb)"

definition cache_ok :: "cache \<Rightarrow> bool" where
  "cache_ok c \<longleftrightarrow> base_ok (c_base c) \<and> length (c_sets c) = unat (cb_num_sets (c_base c)) \<and>
     c_cache_type c \<noteq> INVALID_CACHE_TYPE \<and> (\<forall>s\<in>set (c_sets c). cache_set_ok c s)"

definition lookup :: "cache \<Rightarrow> intptr \<Rightarrow> cache_block_info option" where
  "lookup c addr =
     (case splitAddress (c_base c) addr of
        Inl er \<Rightarrow> None
      | Inr (tag, si) \<Rightarrow> contents (cs_lines (c_sets c ! unat si)) tag)"

lemma base_ok_index:
  assumes "base_ok cb" and "splitAddress cb addr = Inr (tag, si)"
  shows "unat si < unat (cb_num_sets cb)"
proof -
  from assms(1) obtain k where
    base: "CacheBase (cb_num_sets cb) (cb_associativity cb) (cb_blocksize cb) (cb_hash cb) (cb_ahl cb) = Inr cb"
    and "cb_hash cb = HASH_XOR_MOD \<Longrightarrow> unat (cb_num_sets cb) = 2 ^ k"
    unfolding base_ok_def by blast
  then show ?thesis by (rule set_index_less [OF _ _ assms(2)])
qed

lemma base_ok_tag:
  assumes "base_ok cb" and "splitAddress cb addr = Inr (tag, si)"
  shows "tag \<noteq> - 1"
proof
  assume m: "tag = - 1"
  let ?b = "cb_blocksize cb"
  have b: "?b \<noteq> 0" "2 \<le> unat ?b" using assms(1) by (auto simp: base_ok_def)
  have "cb_log_blocksize cb = word_of_int (floorLog2 ?b)"
    using assms(1) CacheBase_fields(7) unfolding base_ok_def by blast
  then have log: "unat (cb_log_blocksize cb) = nat (floorLog2 ?b)" by (simp add: unat_log b(1))
  have "nat (floorLog2 ?b) \<noteq> 0"
  proof
    assume "nat (floorLog2 ?b) = 0"
    with floorLog2_bounds(3) [OF b(1)] b(2) show False by simp
  qed
  then have "1 \<le> nat (floorLog2 ?b)" by simp
  then have "(2::nat) ^ 1 \<le> 2 ^ nat (floorLog2 ?b)" by (rule power_increasing) simp
  moreover have "unat tag = unat addr div 2 ^ nat (floorLog2 ?b)"
    unfolding splitAddress_tag [OF assms(2)] log by (rule unat_drop_bit)
  ultimately have "unat tag \<le> unat addr div 2" by (simp add: div_le_mono2)
  moreover have "unat (- 1 :: u64) = 2 ^ 64 - 1" by (simp add: unsigned_minus_1_eq_mask mask_eq_exp_minus_1)
  ultimately show False using unat_u64_less [of addr] m by simp
qed

lemma get_set_Inr: "get_set c si = Inr s \<longleftrightarrow> unat si < length (c_sets c) \<and> s = c_sets c ! unat si"
  by (auto simp: get_set_def)

lemma cache_okD:
  assumes "cache_ok c" and "splitAddress (c_base c) addr = Inr (tag, si)"
  shows "unat si < length (c_sets c)" and "cache_set_ok c (c_sets c ! unat si)" and "tag \<noteq> - 1"
  using assms(1) base_ok_index [OF _ assms(2)] base_ok_tag [OF _ assms(2)] by (simp_all add: cache_ok_def)

lemma lines_of_set_ok: "cache_set_ok c s \<Longrightarrow> lines_ok (c_cache_type c = PR_L2_CACHE) (cs_lines s)"
  by (simp add: cache_set_ok_def set_ok_def)

lemma lookup_split: "splitAddress (c_base c) addr = Inr (tag, si) \<Longrightarrow>
    lookup c addr = contents (cs_lines (c_sets c ! unat si)) tag"
  by (simp add: lookup_def)

text \<open>Replacing the set an operation worked on.\<close>

lemma cache_ok_set_update:
  assumes "cache_ok c" and "cache_set_ok c s'" and "c_base c' = c_base c"
    and "c_cache_type c' = c_cache_type c" and "c_sets c' = (c_sets c)[i := s']"
  shows "cache_ok c'"
proof -
  have "cache_set_ok c' s \<longleftrightarrow> cache_set_ok c s" for s using assms(3,4) by (simp add: cache_set_ok_def)
  moreover have "set (c_sets c') \<subseteq> insert s' (set (c_sets c))"
    unfolding assms(5) by (rule set_update_subset_insert)
  ultimately show ?thesis using assms by (auto simp: cache_ok_def)
qed

lemma lookup_set_update:
  assumes "cache_ok c" and "c_base c' = c_base c" and "c_sets c' = (c_sets c)[unat si := s']"
    and "splitAddress (c_base c) addr = Inr (tag, sj)"
  shows "lookup c' addr = (if sj = si then contents (cs_lines s') tag else lookup c addr)"
  using assms(2-) cache_okD(1) [OF assms(1,4)]
  by (auto simp: lookup_def word_unat_eq_iff)

section \<open>Lookup\<close>

lemma peek_lookup:
  assumes "cache_ok c" and "peekSingleLine c addr = Inr p"
  shows "map_option (deref c) p = lookup c addr"
proof -
  from assms(2) obtain tag si where sp: "splitAddress (c_base c) addr = Inr (tag, si)"
    and p: "p = map_option (Pair (unat si)) (CacheSet_find (c_sets c ! unat si) tag)"
    by (auto simp: peekSingleLine_def get_set_def split: sum.splits prod.splits if_splits)
  note ok = cache_okD [OF assms(1) sp]
  have "map_option (deref c) p = map_option ((!) (cs_lines (c_sets c ! unat si))) (CacheSet_find (c_sets c ! unat si) tag)"
    by (simp add: p option.map_comp comp_def deref_def)
  also have "\<dots> = lookup c addr"
    using find_contents [OF lines_of_set_ok [OF ok(2)] ok(3)] lookup_split [OF sp] by simp
  finally show ?thesis .
qed

text \<open>Lookup, insertion and invalidation agree on when an address is present.\<close>

lemma peek_total:
  assumes "cache_ok c" and "splitAddress (c_base c) addr = Inr (tag, si)"
  shows "\<exists>p. peekSingleLine c addr = Inr p"
  using assms cache_okD(1) [OF assms] by (simp add: peekSingleLine_def get_set_def)

section \<open>Invalidation\<close>

lemma invalidate_ok:
  assumes "cache_ok c" and "invalidateSingleLine c addr = Inr (found, c')"
  shows "cache_ok c'" and "found \<longleftrightarrow> lookup c addr \<noteq> None"
    and "lookup c' b = (if splitAddress (c_base c) b = splitAddress (c_base c) addr then None else lookup c b)"
proof -
  from assms(2) obtain tag si s' where sp: "splitAddress (c_base c) addr = Inr (tag, si)"
    and inv: "CacheSet_invalidate (c_sets c ! unat si) tag = (found, s')"
    and c': "c' = c\<lparr>c_sets := (c_sets c)[unat si := s']\<rparr>"
    by (auto simp: invalidateSingleLine_def Let_def split: sum.splits prod.splits if_splits)
  note ok = cache_okD [OF assms(1) sp]
  note i = invalidate_contents [OF lines_of_set_ok [OF ok(2)] ok(3) inv]
  have "cache_set_ok c s'"
    using ok(2) i(3) unfolding cache_set_ok_def set_ok_def blocks_ok_def i(4-7) by blast
  then show "cache_ok c'" by (rule cache_ok_set_update [OF assms(1)]) (simp_all add: c')
  show "found \<longleftrightarrow> lookup c addr \<noteq> None" using i(1) lookup_split [OF sp] by simp
  show "lookup c' b = (if splitAddress (c_base c) b = splitAddress (c_base c) addr then None else lookup c b)"
  proof (cases "splitAddress (c_base c) b")
    case (Inl er)
    then show ?thesis by (simp add: lookup_def c')
  next
    case (Inr tb)
    obtain t sj where tb: "tb = (t, sj)" by fastforce
    with Inr have b: "splitAddress (c_base c) b = Inr (t, sj)" by simp
    have "lookup c' b = (if sj = si then contents (cs_lines s') t else lookup c b)"
      by (rule lookup_set_update [OF assms(1) _ _ b]) (simp_all add: c')
    with i(2) lookup_split [OF b] b sp show ?thesis by auto
  qed
qed

section \<open>Insertion\<close>

lemma with_injector_postWrite [simp]:
  "with_injector postWrite c s i off n = Inr (c_fault_injector c, s)"
  by (simp add: with_injector_def postWrite_def split: option.splits)

text \<open>The line that \<^verbatim>\<open>insertSingleLine\<close> creates.\<close>

definition new_line :: "cache \<Rightarrow> intptr \<Rightarrow> cache_block_info" where
  "new_line c tag = (projr (CacheBlockInfo_create (c_cache_type c)))\<lparr>m_tag := tag\<rparr>"

lemma new_line_simps:
  assumes "c_cache_type c \<noteq> INVALID_CACHE_TYPE"
  shows "m_tag (new_line c tag) = tag" and "m_cstate (new_line c tag) = INVALID"
    and "is_l2 (new_line c tag) = (c_cache_type c = PR_L2_CACHE)"
    and "\<exists>b. CacheBlockInfo_create (c_cache_type c) = Inr b \<and> new_line c tag = b\<lparr>m_tag := tag\<rparr>"
  using assms by (cases "c_cache_type c"; simp add: new_line_def CacheBlockInfo_create_def is_l2_def)+

lemma insertSingleLineD:
  assumes "insertSingleLine c addr fill ei0 eb0 cntlr = Some (Inr (ev, ea, ei, eb, c', cn))"
    and "c_cache_type c \<noteq> INVALID_CACHE_TYPE"
  obtains tag si s1 e' where "splitAddress (c_base c) addr = Inr (tag, si)"
    and "CacheSet_insert getReplacementIndex (cache_env c cntlr) (c_sets c ! unat si) (new_line c tag)
           fill ei0 eb0 = Some (Inr (ev, ei, eb, s1, e'))"
    and "ea = tagToAddress (c_base c) (m_tag ei)" and "c' = put_set c si s1 e'"
proof -
  from assms(1) obtain tag si where sp: "splitAddress (c_base c) addr = Inr (tag, si)"
    by (auto simp: insertSingleLine_def split: sum.splits prod.splits)
  from new_line_simps(4) [OF assms(2), of tag] obtain b where
    b: "CacheBlockInfo_create (c_cache_type c) = Inr b" "new_line c tag = b\<lparr>m_tag := tag\<rparr>" by blast
  from assms(1) sp b(1) have "unat si < length (c_sets c)"
    by (auto simp: insertSingleLine_def get_set_def split: if_splits)
  with assms(1) sp b have r: "case CacheSet_insert getReplacementIndex (cache_env c cntlr) (c_sets c ! unat si)
      (new_line c tag) fill ei0 eb0 of
        Some (Inr (ev2, ei2, eb2, s1, e')) \<Rightarrow> ev2 = ev \<and> ei2 = ei \<and> eb2 = eb \<and>
          ea = tagToAddress (c_base c) (m_tag ei) \<and> c' = put_set c si s1 e'
      | _ \<Rightarrow> False"
    by (auto simp: insertSingleLine_def get_set_def Let_def put_set_def split: option.splits sum.splits if_splits)
  then show thesis by (auto split: option.splits sum.splits intro!: that [OF sp])
qed

text \<open>
  What an insertion does to the whole cache: \<open>tag\<close> and \<open>si\<close> are where the address belongs.
\<close>

lemma insert_ok:
  assumes "cache_ok c" and "lookup c addr = None"
    and "\<And>b. fill = Some b \<Longrightarrow> length b = unat (cb_blocksize (c_base c))"
    and "insertSingleLine c addr fill ei0 eb0 cntlr = Some (Inr (ev, ea, ei, eb, c', cn))"
    and "splitAddress (c_base c) addr = Inr (tag, si)"
  shows "cache_ok c'" and "lookup c' addr = Some (new_line c tag)"
    and "ev \<Longrightarrow> \<exists>old. contents (cs_lines (c_sets c ! unat si)) (m_tag ei) = Some old \<and>
           ei = clone_block ei0 old \<and> ea = tagToAddress (c_base c) (m_tag ei)"
    and "\<not> ev \<Longrightarrow> ei = ei0"
    and "splitAddress (c_base c) b = Inr (tb, sb) \<Longrightarrow> (tb, sb) \<noteq> (tag, si) \<Longrightarrow>
           lookup c' b = (if ev \<and> sb = si \<and> tb = m_tag ei then None else lookup c b)"
proof -
  have ct: "c_cache_type c \<noteq> INVALID_CACHE_TYPE" using assms(1) by (simp add: cache_ok_def)
  let ?s = "c_sets c ! unat si" and ?new = "new_line c tag"
  from assms(4) ct obtain tag' si' s1 e' where sp: "splitAddress (c_base c) addr = Inr (tag', si')"
    and ins': "CacheSet_insert getReplacementIndex (cache_env c cntlr) (c_sets c ! unat si') (new_line c tag')
           fill ei0 eb0 = Some (Inr (ev, ei, eb, s1, e'))"
    and ea: "ea = tagToAddress (c_base c) (m_tag ei)" and c': "c' = put_set c si' s1 e'"
    by (rule insertSingleLineD)
  from sp assms(5) have eq: "tag' = tag" "si' = si" by simp_all
  note ins = ins' [unfolded eq] and nl = new_line_simps(1-3) [OF ct, of tag]
  note ok = cache_okD [OF assms(1,5)]
  have "set_ok repl_ok (c_cache_type c = PR_L2_CACHE) ?s" "fill_ok ?s fill"
    using ok(2) assms(3) by (auto simp: cache_set_ok_def fill_ok_def)
  moreover have valid: "isValid ?new" using ok(3) nl(1) by (simp add: isValid_def)
  moreover have "contents (cs_lines ?s) (m_tag ?new) = None"
    using assms(2) lookup_split [OF assms(5)] nl(1) by simp
  ultimately obtain i where i: "i < length (cs_lines ?s)"
    and cont: "contents (cs_lines s1) = replace_line (contents (cs_lines ?s)) (cs_lines ?s ! i) ?new"
    and ev: "ev = isValid (cs_lines ?s ! i)" and ei: "ei = (if ev then clone_block ei0 (cs_lines ?s ! i) else ei0)"
    and ls: "cs_lines s1 = (cs_lines ?s)[i := ?new]" and sok: "set_ok repl_ok (c_cache_type c = PR_L2_CACHE) s1"
    using dispatch.insert_refines [OF _ nl(3) _ _ _ ins] by blast
  have "cs_blocksize s1 = cs_blocksize ?s" using ins by (rule CacheSet_insertD) simp
  then have "cache_set_ok c s1" using ok(2) sok ls by (simp add: cache_set_ok_def)
  then show "cache_ok c'" by (rule cache_ok_set_update [OF assms(1)]) (simp_all add: c' put_set_def eq)
  have look: "lookup c' b = (if sb = si then contents (cs_lines s1) tb else lookup c b)"
    if "splitAddress (c_base c) b = Inr (tb, sb)" for b tb sb
    by (rule lookup_set_update [OF assms(1) _ _ that]) (simp_all add: c' put_set_def eq)
  show "lookup c' addr = Some ?new" using look [OF assms(5)] cont valid nl(1) by (simp add: replace_line_def Let_def)
  show "\<exists>old. contents (cs_lines ?s) (m_tag ei) = Some old \<and> ei = clone_block ei0 old \<and>
      ea = tagToAddress (c_base c) (m_tag ei)" if ev
    using contents_nth [OF lines_of_set_ok [OF ok(2)] i] ev ei ea that by auto
  show "\<not> ev \<Longrightarrow> ei = ei0" using ei by simp
  show "lookup c' b = (if ev \<and> sb = si \<and> tb = m_tag ei then None else lookup c b)"
    if b: "splitAddress (c_base c) b = Inr (tb, sb)" and ne: "(tb, sb) \<noteq> (tag, si)"
    using look [OF b] lookup_split [OF b] cont valid nl(1) ne ev ei by (auto simp: replace_line_def Let_def)
qed

section \<open>Access\<close>

text \<open>The access stays inside the block and inside the caller's buffer.\<close>

definition access_fits :: "cache \<Rightarrow> intptr \<Rightarrow> byte list option \<Rightarrow> u32 \<Rightarrow> bool" where
  "access_fits c addr buff bytes \<longleftrightarrow>
     (case splitAddress_offset (c_base c) addr of
        Inl er \<Rightarrow> True
      | Inr (tag, si, off) \<Rightarrow> unat off + unat bytes \<le> unat (cb_blocksize (c_base c))) \<and>
     (case buff of None \<Rightarrow> True | Some b \<Rightarrow> unat bytes \<le> length b)"

lemma splitAddress_offsetD:
  assumes "splitAddress_offset cb addr = Inr (tag, si, off)"
  shows "splitAddress cb addr = Inr (tag, si)" and "base_ok cb \<Longrightarrow> unat off < unat (cb_blocksize cb)"
proof -
  from assms show "splitAddress cb addr = Inr (tag, si)"
    by (auto simp: splitAddress_offset_def Let_def split: sum.splits)
  from assms have off: "off = ucast (addr AND ucast (cb_blocksize cb - 1))"
    by (auto simp: splitAddress_offset_def Let_def split: sum.splits)
  assume "base_ok cb"
  then have "cb_blocksize cb \<noteq> 0" by (auto simp: base_ok_def)
  then have "unat (cb_blocksize cb - 1) < unat (cb_blocksize cb)"
    by (simp add: unat_minus_one unat_gt_0)
  moreover have "unat (addr AND ucast (cb_blocksize cb - 1)) \<le> unat (cb_blocksize cb - 1)"
    using word_and_le1 [of addr "ucast (cb_blocksize cb - 1)"] by (simp add: word_le_nat_alt)
  moreover have "unat off \<le> unat (addr AND ucast (cb_blocksize cb - 1))"
    unfolding off unat_ucast_u64_u32 by (rule mod_less_eq_dividend)
  ultimately show "unat off < unat (cb_blocksize cb)" by linarith
qed

lemma preRead_length:
  "preRead fi n mem at = Inr (fi', mem') \<Longrightarrow> map_option length mem' = map_option length mem"
  by (auto simp: preRead_def Let_def split: fault_injector.splits prod.splits if_splits option.splits)

lemma with_injector_preRead:
  assumes "with_injector preRead c s i off n = Inr (fi, s1)"
  shows "cs_lines s1 = cs_lines s" and "cs_policy s1 = cs_policy s" and "cs_blocksize s1 = cs_blocksize s"
    and "map_option length (cs_blocks s1) = map_option length (cs_blocks s)"
  using assms
  by (auto simp: with_injector_def split: option.splits sum.splits dest: preRead_length)

lemma set_ok_same_length:
  assumes "set_ok pinv l2 s" and "cs_lines s1 = cs_lines s" and "cs_policy s1 = cs_policy s"
    and "cs_blocksize s1 = cs_blocksize s"
    and "map_option length (cs_blocks s1) = map_option length (cs_blocks s)"
  shows "set_ok pinv l2 s1"
  using assms by (cases "cs_blocks s") (auto simp: set_ok_def blocks_ok_def)

text \<open>One access: either a miss that changes nothing, or a hit on the line found.\<close>

lemma access_cases:
  assumes "accessSingleLine c addr t buff bytes u = Inr (p, out, c')"
  obtains (miss) "p = None" and "out = buff" and "c' = c" and "peekSingleLine c addr = Inr None"
  | (load) tag si off i fi s1 s2 e' where "t = LOAD" and "p = Some (unat si, i)"
      and "splitAddress_offset (c_base c) addr = Inr (tag, si, off)"
      and "unat si < length (c_sets c)" and "CacheSet_find (c_sets c ! unat si) tag = Some i"
      and "with_injector preRead c (c_sets c ! unat si) i off bytes = Inr (fi, s1)"
      and "CacheSet_read_line updateReplacementIndex (cache_env c None) s1 i off buff bytes u = Inr (out, s2, e')"
      and "c' = (put_set c si s2 e')\<lparr>c_fault_injector := fi\<rparr>"
  | (store) tag si off i s1 e' where "t = STORE" and "p = Some (unat si, i)" and "out = buff"
      and "splitAddress_offset (c_base c) addr = Inr (tag, si, off)"
      and "unat si < length (c_sets c)" and "CacheSet_find (c_sets c ! unat si) tag = Some i"
      and "CacheSet_write_line updateReplacementIndex (cache_env c None) (c_sets c ! unat si) i off buff bytes u
             = Inr (s1, e')"
      and "c' = put_set c si s1 e'"
proof -
  from assms obtain tag si off where sp: "splitAddress_offset (c_base c) addr = Inr (tag, si, off)"
    by (auto simp: accessSingleLine_def split: sum.splits prod.splits)
  from assms sp have si: "unat si < length (c_sets c)"
    by (auto simp: accessSingleLine_def get_set_def split: if_splits)
  then have gs: "get_set c si = Inr (c_sets c ! unat si)" by (simp add: get_set_def)
  show thesis
  proof (cases "CacheSet_find (c_sets c ! unat si) tag")
    case None
    with assms sp gs splitAddress_offsetD(1) [OF sp] show ?thesis
      by (intro miss) (simp_all add: accessSingleLine_def peekSingleLine_def)
  next
    case (Some i)
    show ?thesis
    proof (cases t)
      case LOAD
      with assms sp gs Some obtain fi s1 s2 e' where
        "with_injector preRead c (c_sets c ! unat si) i off bytes = Inr (fi, s1)"
        "CacheSet_read_line updateReplacementIndex (cache_env c None) s1 i off buff bytes u = Inr (out, s2, e')"
        "c' = (put_set c si s2 e')\<lparr>c_fault_injector := fi\<rparr>" "p = Some (unat si, i)"
        by (auto simp: accessSingleLine_def Let_def split: sum.splits)
      with LOAD sp si Some show ?thesis by (intro load) simp_all
    next
      case STORE
      with assms sp gs Some obtain s1 e' where
        "CacheSet_write_line updateReplacementIndex (cache_env c None) (c_sets c ! unat si) i off buff bytes u
           = Inr (s1, e')"
        "c' = put_set c si s1 e'" "p = Some (unat si, i)" "out = buff"
        by (auto simp: accessSingleLine_def Let_def put_set_def split: sum.splits)
      with STORE sp si Some show ?thesis by (intro store) simp_all
    qed
  qed
qed

lemma find_Some: "CacheSet_find s tag = Some i \<Longrightarrow> i < length (cs_lines s)"
  by (simp add: CacheSet_find_def last_idx_SomeD(1))

text \<open>
  Accesses change no line: the same addresses are present with the same line contents, and
  the pointer returned is the one \<^verbatim>\<open>peekSingleLine\<close> gives.
\<close>

lemma access_set_ok:
  assumes "cache_ok c" and "access_fits c addr buff bytes"
    and "accessSingleLine c addr t buff bytes u = Inr (p, out, c')"
  obtains "c' = c"
  | tag si s' where "splitAddress (c_base c) addr = Inr (tag, si)" and "c_base c' = c_base c"
      and "c_cache_type c' = c_cache_type c" and "c_sets c' = (c_sets c)[unat si := s']"
      and "cs_lines s' = cs_lines (c_sets c ! unat si)" and "cache_set_ok c s'"
  using assms(3)
proof (cases rule: access_cases)
  case miss
  then show ?thesis using that(1) by blast
next
  case (load tag si off i fi s1 s2 e')
  note sp = splitAddress_offsetD(1) [OF load(3)]
  note ok = cache_okD(2) [OF assms(1) sp, unfolded cache_set_ok_def]
  note w = with_injector_preRead [OF load(6)]
  have s1: "set_ok repl_ok (c_cache_type c = PR_L2_CACHE) s1"
    by (rule set_ok_same_length [OF conjunct1 [OF ok] w])
  have "i < length (cs_lines s1)" unfolding w(1) by (rule find_Some [OF load(5)])
  note r = dispatch.read_line_ok [OF s1 this load(7), unfolded w(1,3)]
  from r ok have "cache_set_ok c s2" unfolding cache_set_ok_def by metis
  moreover from load(8) have "c_base c' = c_base c" "c_cache_type c' = c_cache_type c"
    "c_sets c' = (c_sets c)[unat si := s2]" by (simp_all add: put_set_def)
  ultimately show ?thesis using that(2) [OF sp] r by blast
next
  case (store tag si off i s1 e')
  note sp = splitAddress_offsetD(1) [OF store(4)]
  note ok = cache_okD(2) [OF assms(1) sp, unfolded cache_set_ok_def]
  have "store_ok (c_sets c ! unat si) off buff bytes"
    using assms(1,2) store(4) splitAddress_offsetD(2) [OF store(4)] ok
    by (auto simp: access_fits_def store_ok_def cache_ok_def split: option.splits)
  note r = dispatch.write_line_ok [OF conjunct1 [OF ok] find_Some [OF store(6)] this store(7)]
  from r ok have "cache_set_ok c s1" unfolding cache_set_ok_def by metis
  moreover from store(8) have "c_base c' = c_base c" "c_cache_type c' = c_cache_type c"
    "c_sets c' = (c_sets c)[unat si := s1]" by (simp_all add: put_set_def)
  ultimately show ?thesis using that(2) [OF sp] r by blast
qed

lemma access_ok:
  assumes "cache_ok c" and "access_fits c addr buff bytes"
    and "accessSingleLine c addr t buff bytes u = Inr (p, out, c')"
  shows "cache_ok c'" and "lookup c' b = lookup c b"
proof -
  have "cache_ok c' \<and> lookup c' b = lookup c b"
    using assms
  proof (cases rule: access_set_ok)
    case 1
    with assms(1) show ?thesis by simp
  next
    case (2 tag si s')
    have "lookup c' b = lookup c b"
    proof (cases "splitAddress (c_base c) b")
      case (Inl er)
      then show ?thesis by (simp add: lookup_def 2(2))
    next
      case (Inr tb)
      obtain t sj where "tb = (t, sj)" by fastforce
      with Inr have b: "splitAddress (c_base c) b = Inr (t, sj)" by simp
      from lookup_set_update [OF assms(1) 2(2,4) b] lookup_split [OF b] 2(5) show ?thesis by simp
    qed
    with cache_ok_set_update [OF assms(1) 2(6,2,3,4)] show ?thesis by blast
  qed
  then show "cache_ok c'" "lookup c' b = lookup c b" by blast+
qed

section \<open>Construction and reachable caches\<close>

text \<open>
  The configurations the invariant needs: at most 256 ways (the policies' counters have
  eight bits), blocks of at least two bytes, data arrays below 4 GB, at least one bit per
  line for SRRIP, a power of two of sets for the XOR hash.
\<close>

definition config_ok :: "repl_config \<Rightarrow> u32 \<Rightarrow> u32 \<Rightarrow> u32 \<Rightarrow> hash_t \<Rightarrow> bool" where
  "config_ok cfg num_sets associativity blocksize hash \<longleftrightarrow>
     0 < unat associativity \<and> unat associativity \<le> 256 \<and> 2 \<le> unat blocksize \<and>
     unat associativity * unat blocksize < 2 ^ 32 \<and>
     0 < rc_srrip_bits cfg \<and> rc_srrip_bits cfg \<le> 8 \<and>
     (hash = HASH_XOR_MOD \<longrightarrow> isPower2 num_sets)"

lemma createCacheSet_ok:
  assumes "createCacheSet cfg faults policy ct assoc bs = Inr s"
    and "0 < unat assoc" and "unat assoc \<le> 256" and "unat assoc * unat bs < 2 ^ 32"
    and "0 < rc_srrip_bits cfg" and "rc_srrip_bits cfg \<le> 8"
  shows "set_ok repl_ok (ct = PR_L2_CACHE) s" and "cs_blocksize s = bs"
    and "length (cs_lines s) = unat assoc" and "ct \<noteq> INVALID_CACHE_TYPE"
    and "i < unat assoc \<Longrightarrow> \<not> isValid (cs_lines s ! i)"
proof -
  from assms(2) have nz: "assoc \<noteq> 0" by auto
  from assms(1) obtain r where r: "createPolicy cfg policy assoc = Inr r"
    and "CacheSet faults ct assoc bs r = Inr s"
    by (auto simp: createCacheSet_def split: sum.splits)
  then obtain b where b: "CacheBlockInfo_create ct = Inr b"
    and s: "s = \<lparr>cs_lines = replicate (unat assoc) b,
        cs_blocks = (if faults then Some (replicate (unat (assoc * bs)) 0) else None),
        cs_blocksize = bs, cs_policy = r\<rparr>"
    using nz by (auto simp: CacheSet_def split: sum.splits)
  from b have bt: "\<not> isValid b" "is_l2 b = (ct = PR_L2_CACHE)" "ct \<noteq> INVALID_CACHE_TYPE"
    by (auto simp: CacheBlockInfo_create_def Let_def isValid_def is_l2_def split: cache_t.splits)
  have "repl_ok (unat assoc) r" using createPolicy_ok [OF r assms(2,3)] assms(5,6) by blast
  moreover have "unat (assoc * bs) = unat assoc * unat bs"
    using assms(4) by (simp add: unat_word_ariths)
  ultimately show "set_ok repl_ok (ct = PR_L2_CACHE) s"
    using bt assms(4) by (auto simp: s set_ok_def lines_ok_def blocks_ok_def)
  show "cs_blocksize s = bs" "length (cs_lines s) = unat assoc" "ct \<noteq> INVALID_CACHE_TYPE"
    using bt by (simp_all add: s)
  show "i < unat assoc \<Longrightarrow> \<not> isValid (cs_lines s ! i)" using bt by (simp add: s)
qed

lemma isPower2_exp: "isPower2 n \<Longrightarrow> n \<noteq> 0 \<Longrightarrow> \<exists>k. unat n = 2 ^ k"
  using isPower2_iff [of n] by auto

lemma Cache_ok:
  assumes "Cache cfg faults ns assoc bs pol ct hash fi ahl = Inr c" and "config_ok cfg ns assoc bs hash"
  shows "cache_ok c" and "lookup c addr = None"
    and "s \<in> set (c_sets c) \<Longrightarrow> i < length (cs_lines s) \<Longrightarrow> \<not> isValid (cs_lines s ! i)"
proof -
  note cfg = assms(2) [unfolded config_ok_def]
  from assms(1) obtain cb policy s0 where cb: "CacheBase ns assoc bs hash ahl = Inr cb"
    and "parsePolicyType pol = Inr policy" and s0: "createCacheSet cfg faults policy ct assoc bs = Inr s0"
    and c: "c_base c = cb" "c_cache_type c = ct" "c_sets c = replicate (unat ns) s0"
    by (auto simp: Cache_def split: sum.splits)
  note f = CacheBase_fields [OF cb]
  note so = createCacheSet_ok [OF s0]
  show ok: "cache_ok c"
    using so cfg f cb isPower2_exp [of ns] by (auto simp: cache_ok_def base_ok_def cache_set_ok_def c)
  show inv: "\<not> isValid (cs_lines s ! i)" if "s \<in> set (c_sets c)" "i < length (cs_lines s)" for s i
    using so(5) [of i] that cfg so(3) by (auto simp: c)
  show "lookup c addr = None"
  proof (cases "splitAddress (c_base c) addr")
    case (Inl er)
    then show ?thesis by (simp add: lookup_def)
  next
    case (Inr p)
    obtain tag si where "p = (tag, si)" by fastforce
    with Inr have sp: "splitAddress (c_base c) addr = Inr (tag, si)" by simp
    have "c_sets c ! unat si \<in> set (c_sets c)" using cache_okD(1) [OF ok sp] by simp
    from inv [OF this] cache_okD(3) [OF ok sp] show ?thesis
      by (auto simp: lookup_split [OF sp] contents_None isValid_def)
  qed
qed

end
