(* ===== verification/Cache_Theorems.thy ===== *)
theory Cache_Theorems
  imports Cache_Spec
begin

text \<open>
  The theorems about the cache as a whole: the behaviour of each operation on the map of
  present lines, data round trips, and the invariant of every cache reachable from its
  constructor.
\<close>

section \<open>Steps of a cache\<close>

text \<open>
  The operations in any order. A caller inserts only an address that is not present, and
  changes a line through the pointer without changing its tag.
\<close>

inductive cache_step :: "cache \<Rightarrow> cache \<Rightarrow> bool" where
  step_access: "access_fits c a buff n \<Longrightarrow> accessSingleLine c a t buff n u = Inr (p, out, c') \<Longrightarrow> cache_step c c'"
| step_insert: "peekSingleLine c a = Inr None \<Longrightarrow>
    (case fill of None \<Rightarrow> True | Some b \<Rightarrow> length b = unat (cb_blocksize (c_base c))) \<Longrightarrow>
    insertSingleLine c a fill ei eb cn = Some (Inr (ev, ea, ei', eb', c', cn')) \<Longrightarrow> cache_step c c'"
| step_invalidate: "invalidateSingleLine c a = Inr (found, c') \<Longrightarrow> cache_step c c'"
| step_modify: "peekSingleLine c a = Inr (Some p) \<Longrightarrow> m_tag b = m_tag (deref c p) \<Longrightarrow>
    is_l2 b = is_l2 (deref c p) \<Longrightarrow> cache_step c (assign_line c p b)"
| step_counters: "cache_step c (updateCounters c hit)"
| step_hits: "cache_step c (updateHits c hits)"
| step_enable: "cache_step c (enable_cache c)"
| step_disable: "cache_step c (disable_cache c)"

inductive_cases cache_stepE: "cache_step c c'"

lemma assign_line_ok:
  assumes "cache_ok c" and "peekSingleLine c a = Inr (Some p)"
    and "m_tag b = m_tag (deref c p)" and "is_l2 b = is_l2 (deref c p)"
  shows "cache_ok (assign_line c p b)"
proof -
  from assms(2) obtain tag si i where sp: "splitAddress (c_base c) a = Inr (tag, si)"
    and f: "CacheSet_find (c_sets c ! unat si) tag = Some i" and p: "p = (unat si, i)"
    by (auto simp: peekSingleLine_def get_set_def split: sum.splits prod.splits if_splits)
  let ?s = "c_sets c ! unat si"
  note ok = cache_okD(2) [OF assms(1) sp]
  note l = lines_of_set_ok [OF ok] and i = find_Some [OF f]
  have b: "m_tag b = m_tag (cs_lines ?s ! i)" "is_l2 b = is_l2 (cs_lines ?s ! i)"
    using assms(3,4) by (simp_all add: deref_def p)
  have "j = i" if "j < length (cs_lines ?s)" "isValid b" "m_tag (cs_lines ?s ! j) = m_tag b" for j
    using lines_okD(1) [OF l that(1) i] that(2,3) b(1) by (simp add: isValid_def)
  then have "lines_ok (c_cache_type c = PR_L2_CACHE) ((cs_lines ?s)[i := b])"
    using lines_okD(2) [OF l i] b(2) by (intro lines_ok_update [OF l]) simp_all
  with ok have "cache_set_ok c (?s\<lparr>cs_lines := (cs_lines ?s)[i := b]\<rparr>)"
    by (auto simp: cache_set_ok_def set_ok_def blocks_ok_def)
  then show ?thesis by (rule cache_ok_set_update [OF assms(1)]) (simp_all add: assign_line_def p)
qed

lemma counters_ok [simp]:
  "cache_ok (updateCounters c hit) = cache_ok c" "cache_ok (updateHits c hits) = cache_ok c"
  "cache_ok (enable_cache c) = cache_ok c" "cache_ok (disable_cache c) = cache_ok c"
  by (auto simp: updateCounters_def updateHits_def enable_cache_def disable_cache_def cache_ok_def cache_set_ok_def)

lemma cache_step_ok: "cache_step c c' \<Longrightarrow> cache_ok c \<Longrightarrow> cache_ok c'"
proof (induction rule: cache_step.induct)
  case (step_insert c a fill ei eb cn ev ea ei' eb' c' cn')
  from step_insert(1) obtain tag si where sp: "splitAddress (c_base c) a = Inr (tag, si)"
    by (auto simp: peekSingleLine_def split: sum.splits)
  have "lookup c a = None" using peek_lookup [OF step_insert(4,1)] by simp
  then show ?case
    by (rule insert_ok(1) [OF step_insert(4) _ _ step_insert(3) sp]) (use step_insert(2) in simp)
qed (auto intro: access_ok(1) invalidate_ok(1) assign_line_ok)

lemma cache_steps_ok: "cache_step\<^sup>*\<^sup>* c c' \<Longrightarrow> cache_ok c \<Longrightarrow> cache_ok c'"
  by (induction rule: rtranclp_induct) (auto dest: cache_step_ok)

lemma filter_nth: "filter P xs = map ((!) xs) (filter (\<lambda>i. P (xs ! i)) [0..<length xs])"
proof -
  have "filter P (map ((!) xs) [0..<length xs]) = map ((!) xs) (filter (\<lambda>i. P (xs ! i)) [0..<length xs])"
    by (simp add: filter_map comp_def)
  then show ?thesis by (simp add: map_nth)
qed

lemma lines_ok_distinct:
  assumes "lines_ok l2 ls"
  shows "distinct (map m_tag (filter isValid ls))"
proof -
  let ?is = "filter (\<lambda>i. isValid (ls ! i)) [0..<length ls]"
  have "map m_tag (filter isValid ls) = map (\<lambda>i. m_tag (ls ! i)) ?is"
    by (subst filter_nth) simp
  moreover have "inj_on (\<lambda>i. m_tag (ls ! i)) (set ?is)"
    by (rule inj_onI) (auto intro: lines_okD(1) [OF assms])
  ultimately show ?thesis by (simp add: distinct_map)
qed


section \<open>The operations\<close>

text \<open>
  C10. Insertion. Inserting an absent address makes it present with a fresh line, keeps the
  invariant, and takes away at most one other line: the one reported as evicted, which was
  present in the same set, together with the address computed for its write-back.
\<close>

theorem insertSingleLine_spec:
  assumes "cache_ok c" and "peekSingleLine c addr = Inr None"
    and "case fill of None \<Rightarrow> True | Some b \<Rightarrow> length b = unat (cb_blocksize (c_base c))"
    and "insertSingleLine c addr fill ei0 eb0 cntlr = Some (Inr (ev, ea, ei, eb, c', cn))"
    and "splitAddress (c_base c) addr = Inr (tag, si)"
  shows "cache_ok c' \<and> lookup c' addr = Some (new_line c tag) \<and>
     (if ev then \<exists>old. contents (cs_lines (c_sets c ! unat si)) (m_tag ei) = Some old \<and>
                   ei = clone_block ei0 old \<and> ea = tagToAddress (c_base c) (m_tag ei)
      else ei = ei0) \<and>
     (\<forall>b tb sb. splitAddress (c_base c) b = Inr (tb, sb) \<longrightarrow> (tb, sb) \<noteq> (tag, si) \<longrightarrow>
        lookup c' b = (if ev \<and> sb = si \<and> tb = m_tag ei then None else lookup c b))"
proof -
  have "lookup c addr = None" using peek_lookup [OF assms(1,2)] by simp
  note i = insert_ok [OF assms(1) this _ assms(4,5)]
  have "length b = unat (cb_blocksize (c_base c))" if "fill = Some b" for b using assms(3) that by simp
  with i show ?thesis by (auto split: if_splits)
qed

text \<open>
  C11. Invalidation removes exactly the line of the given address and reports whether there
  was one; every other address keeps its line.
\<close>

theorem invalidateSingleLine_spec:
  assumes "cache_ok c" and "invalidateSingleLine c addr = Inr (found, c')"
  shows "cache_ok c' \<and> peekSingleLine c' addr = Inr None \<and>
     (found \<longleftrightarrow> peekSingleLine c addr \<noteq> Inr None) \<and>
     (\<forall>b. splitAddress (c_base c) b \<noteq> splitAddress (c_base c) addr \<longrightarrow> lookup c' b = lookup c b)"
proof -
  from assms(2) obtain tag si where sp: "splitAddress (c_base c) addr = Inr (tag, si)"
    and base: "c_base c' = c_base c"
    by (auto simp: invalidateSingleLine_def Let_def split: sum.splits prod.splits if_splits)
  note i = invalidate_ok [OF assms]
  obtain p p' where p: "peekSingleLine c addr = Inr p" and p': "peekSingleLine c' addr = Inr p'"
    using peek_total [OF assms(1) sp] peek_total [OF i(1)] sp base by metis
  have "lookup c' addr = None" using i(3) [of addr] by simp
  then have "p' = None" using peek_lookup [OF i(1) p'] by (cases p') auto
  moreover have "found \<longleftrightarrow> p \<noteq> None" using peek_lookup [OF assms(1) p] i(2) by (cases p) auto
  ultimately show ?thesis using i(1,3) p p' by auto
qed

lemma insert_result:
  assumes "cache_ok c" and "splitAddress (c_base c) addr = Inr (tag, si)"
    and "CacheSet_insert getReplacementIndex (cache_env c cntlr) (c_sets c ! unat si) (new_line c tag)
           fill ei0 eb0 = Some (Inr (ev, ei, eb, s1, e'))"
    and "CacheSet_find s1 tag \<noteq> None"
  shows "insertSingleLine c addr fill ei0 eb0 cntlr =
     Some (Inr (ev, tagToAddress (c_base c) (m_tag ei), ei, eb, put_set c si s1 e', re_cntlr e'))"
proof -
  have "c_cache_type c \<noteq> INVALID_CACHE_TYPE" using assms(1) by (simp add: cache_ok_def)
  from new_line_simps(4) [OF this, of tag] obtain b where
    b: "CacheBlockInfo_create (c_cache_type c) = Inr b" "new_line c tag = b\<lparr>m_tag := tag\<rparr>" by blast
  from assms(4) obtain i where "CacheSet_find s1 tag = Some i" by auto
  moreover have "get_set c si = Inr (c_sets c ! unat si)"
    using cache_okD(1) [OF assms(1,2)] by (simp add: get_set_def)
  ultimately show ?thesis
    using assms(2,3) b by (simp add: insertSingleLine_def Let_def put_set_def)
qed

lemma insert_free_way:
  assumes "cache_ok c" and "peekSingleLine c addr = Inr None"
    and "case fill of None \<Rightarrow> True | Some b \<Rightarrow> length b = unat (cb_blocksize (c_base c))"
    and "splitAddress (c_base c) addr = Inr (tag, si)" and "\<not> is_round_robin (cs_policy (c_sets c ! unat si))"
    and "i < length (cs_lines (c_sets c ! unat si))" and "\<not> isValid (cs_lines (c_sets c ! unat si) ! i)"
  shows "\<exists>eb c' cn. insertSingleLine c addr fill ei0 eb0 cntlr =
       Some (Inr (False, tagToAddress (c_base c) (m_tag ei0), ei0, eb, c', cn)) \<and>
     (\<forall>b. lookup c' b = (if splitAddress (c_base c) b = Inr (tag, si) then Some (new_line c tag) else lookup c b))"
proof -
  let ?s = "c_sets c ! unat si" and ?l2 = "c_cache_type c = PR_L2_CACHE" and ?new = "new_line c tag"
  note ok = cache_okD [OF assms(1,4)]
  have ct: "c_cache_type c \<noteq> INVALID_CACHE_TYPE" using assms(1) by (simp add: cache_ok_def)
  note nl = new_line_simps(1-3) [OF ct, of tag]
  have look: "lookup c addr = None" using peek_lookup [OF assms(1,2)] by simp
  then have absent: "contents (cs_lines ?s) (m_tag ?new) = None"
    using lookup_split [OF assms(4)] nl(1) by simp
  have valid: "isValid ?new" using ok(3) nl(1) by (simp add: isValid_def)
  have fill: "fill_ok ?s fill" using ok(2) assms(3) by (auto simp: cache_set_ok_def fill_ok_def)
  have sok: "set_ok fills_ok ?l2 ?s"
    using ok(2) assms(5) unfolding cache_set_ok_def set_ok_def fills_ok_def by blast
  obtain eb s1 where ins: "CacheSet_insert getReplacementIndex (cache_env c cntlr) ?s ?new fill ei0 eb0 =
        Some (Inr (False, ei0, eb, s1, cache_env c cntlr))"
    and cont: "contents (cs_lines s1) = (contents (cs_lines ?s))(m_tag ?new := Some ?new)"
    using dispatch_fill.insert_no_eviction [OF sok nl(3) valid absent fill assms(6,7)] by blast
  have "lines_ok ?l2 (cs_lines s1)"
    using dispatch_fill.insert_refines [OF sok nl(3) valid absent fill ins] by (auto simp: set_ok_def)
  from find_contents [OF this ok(3)] have "CacheSet_find s1 tag \<noteq> None"
    by (auto simp: cont nl(1))
  note res = insert_result [OF assms(1,4) ins this]
  let ?c' = "put_set c si s1 (cache_env c cntlr)"
  have "lookup ?c' b = (if splitAddress (c_base c) b = Inr (tag, si) then Some ?new else lookup c b)" for b
  proof (cases "splitAddress (c_base c) b")
    case (Inl er)
    then show ?thesis by (simp add: lookup_def put_set_def)
  next
    case (Inr p)
    obtain t sj where "p = (t, sj)" by fastforce
    with Inr have b: "splitAddress (c_base c) b = Inr (t, sj)" by simp
    have "lookup ?c' b = (if sj = si then contents (cs_lines s1) t else lookup c b)"
      by (rule lookup_set_update [OF assms(1) _ _ b]) (simp_all add: put_set_def)
    with lookup_split [OF b] b nl(1) show ?thesis by (auto simp: cont)
  qed
  with res show ?thesis by blast
qed

text \<open>
  C12. No useful line is lost while there is room: with any policy but round robin, an
  insertion into a set with an invalid way always succeeds and evicts nothing.
\<close>

theorem insert_uses_free_way:
  assumes "cache_ok c" and "peekSingleLine c addr = Inr None"
    and "case fill of None \<Rightarrow> True | Some b \<Rightarrow> length b = unat (cb_blocksize (c_base c))"
    and "splitAddress (c_base c) addr = Inr (tag, si)" and "\<not> is_round_robin (cs_policy (c_sets c ! unat si))"
    and "i < length (cs_lines (c_sets c ! unat si))" and "\<not> isValid (cs_lines (c_sets c ! unat si) ! i)"
  shows "\<exists>eb c' cn. insertSingleLine c addr fill ei0 eb0 cntlr =
       Some (Inr (False, tagToAddress (c_base c) (m_tag ei0), ei0, eb, c', cn)) \<and>
     (\<forall>b. lookup c' b = (if splitAddress (c_base c) b = Inr (tag, si) then Some (new_line c tag) else lookup c b))"
  by (rule insert_free_way [OF assms])

section \<open>Data\<close>

text \<open>Objects that do not disturb the data: no injector, or the base class.\<close>

definition no_faults :: "cache \<Rightarrow> bool" where
  "no_faults c \<longleftrightarrow> (case c_fault_injector c of None \<Rightarrow> True | Some fi \<Rightarrow> fi = FaultInjector)"

lemma no_faults_preRead: "no_faults c \<Longrightarrow> with_injector preRead c s i off n = Inr (c_fault_injector c, s)"
  by (auto simp: no_faults_def with_injector_def preRead_def split: option.splits)


section \<open>A concrete cache\<close>

text \<open>Four sets of two 64-byte lines with LRU replacement, which keeps data.\<close>

definition demo_config :: repl_config where
  "demo_config = \<lparr>rc_attempts = 1, rc_srrip_bits = 2, rc_time = 0\<rparr>"

definition demo_cache :: cache where
  "demo_cache = projr (Cache demo_config True 4 2 64 ''lru'' PR_L1_CACHE HASH_MASK None None)"

definition demo_line :: cache_block_info where
  "demo_line = projr (CacheBlockInfo_create PR_L1_CACHE)"

lemma demo_base: "CacheBase 4 2 64 HASH_MASK None = Inr (c_base demo_cache)"
  and demo_new: "Cache demo_config True 4 2 64 ''lru'' PR_L1_CACHE HASH_MASK None None = Inr demo_cache"
  and demo_sets: "length (c_sets demo_cache) = 4" "\<not> is_round_robin (cs_policy (c_sets demo_cache ! 1))"
    "cs_blocks (c_sets demo_cache ! 1) \<noteq> None" "length (cs_lines (c_sets demo_cache ! 1)) = 2"
  and demo_faults: "no_faults demo_cache" "c_fault_injector demo_cache = None"
  by (simp_all add: demo_cache_def Cache_def CacheBase_def floorLog2_eqI [of _ 2] parsePolicyType_def
      createCacheSet_def createPolicy_def Let_def CacheSet_def CacheBlockInfo_create_def is_round_robin_def
      no_faults_def)

lemma demo_config_ok: "config_ok demo_config 4 2 64 HASH_MASK"
  by (simp add: config_ok_def demo_config_def)

lemmas demo_ok = Cache_ok [OF demo_new demo_config_ok]

lemma demo_split: "splitAddress_offset (c_base demo_cache) 0x12345 = Inr (0x48d, 1, 5)"
  "splitAddress (c_base demo_cache) 0x12345 = Inr (0x48d, 1)"
  using CacheBase_fields [OF demo_base] log_blocksize [OF demo_base, of 6]
  by (simp_all add: splitAddress_offset_def splitAddress_def hash_index_def Let_def)

lemma demo_peek: "peekSingleLine demo_cache 0x12345 = Inr None"
proof -
  from peek_total [OF demo_ok(1) demo_split(2)] obtain p where p: "peekSingleLine demo_cache 0x12345 = Inr p" ..
  with peek_lookup [OF demo_ok(1) p] demo_ok(2) [of "0x12345"] show ?thesis by simp
qed

lemma demo_free: "\<not> isValid (cs_lines (c_sets demo_cache ! 1) ! 0)"
  using demo_sets(1,4) by (intro demo_ok(3)) simp_all

lemma demo_way:
  "\<not> is_round_robin (cs_policy (c_sets demo_cache ! unat (1 :: u32)))"
  "0 < length (cs_lines (c_sets demo_cache ! unat (1 :: u32)))"
  "\<not> isValid (cs_lines (c_sets demo_cache ! unat (1 :: u32)) ! 0)"
proof -
  have one: "unat (1 :: u32) = 1" by simp
  show "\<not> is_round_robin (cs_policy (c_sets demo_cache ! unat (1 :: u32)))"
    "0 < length (cs_lines (c_sets demo_cache ! unat (1 :: u32)))"
    "\<not> isValid (cs_lines (c_sets demo_cache ! unat (1 :: u32)) ! 0)"
    unfolding one demo_sets(4) using demo_sets(2) demo_free by simp_all
qed

text \<open>The insertion of one line into the empty cache.\<close>

lemma demo_insert:
  "\<exists>eb c' cn. insertSingleLine demo_cache 0x12345 None demo_line None None =
       Some (Inr (False, tagToAddress (c_base demo_cache) (m_tag demo_line), demo_line, eb, c', cn))"
  using insert_free_way [OF demo_ok(1) demo_peek _ demo_split(2) demo_way, of None demo_line None None]
  by auto

lemma insertSingleLine_spec_witness:
  "\<exists>ev ea ei eb c' cn. insertSingleLine demo_cache 0x12345 None demo_line None None =
       Some (Inr (ev, ea, ei, eb, c', cn)) \<and>
     lookup c' 0x12345 = Some (new_line demo_cache 0x48d)"
proof -
  obtain ev ea ei eb c' cn where
    ins: "insertSingleLine demo_cache 0x12345 None demo_line None None = Some (Inr (ev, ea, ei, eb, c', cn))"
    using demo_insert by blast
  from insertSingleLine_spec [OF demo_ok(1) demo_peek _ ins demo_split(2)] ins show ?thesis by auto
qed

lemma insert_uses_free_way_witness:
  "\<exists>ea eb c' cn. insertSingleLine demo_cache 0x12345 None demo_line None None =
       Some (Inr (False, ea, demo_line, eb, c', cn)) \<and>
     lookup c' 0x12345 = Some (new_line demo_cache 0x48d)"
  using insert_uses_free_way [OF demo_ok(1) demo_peek _ demo_split(2) demo_way, of None demo_line None None]
    demo_split(2) by auto

text \<open>The cache after that insertion.\<close>

lemma demo_inserted:
  "\<exists>c'. cache_step demo_cache c' \<and> cache_ok c' \<and> c_base c' = c_base demo_cache \<and>
     c_fault_injector c' = None \<and>
     cs_blocks (c_sets c' ! 1) \<noteq> None \<and> CacheSet_find (c_sets c' ! 1) 0x48d \<noteq> None \<and>
     filter isValid (cs_lines (c_sets c' ! 1)) \<noteq> [] \<and> c_sets c' ! 1 \<in> set (c_sets c')"
proof -
  obtain ev ea ei eb c' cn where
    ins: "insertSingleLine demo_cache 0x12345 None demo_line None None = Some (Inr (ev, ea, ei, eb, c', cn))"
    using demo_insert by blast
  have step: "cache_step demo_cache c'" by (rule step_insert [OF demo_peek _ ins]) simp
  then have ok: "cache_ok c'" using demo_ok(1) by (rule cache_step_ok)
  have ct: "c_cache_type demo_cache \<noteq> INVALID_CACHE_TYPE" using demo_ok(1) by (simp add: cache_ok_def)
  from ins ct obtain tag si s1 e' where sp: "splitAddress (c_base demo_cache) 0x12345 = Inr (tag, si)"
    and csi: "CacheSet_insert getReplacementIndex (cache_env demo_cache None) (c_sets demo_cache ! unat si)
       (new_line demo_cache tag) None demo_line None = Some (Inr (ev, ei, eb, s1, e'))"
    and c': "c' = put_set demo_cache si s1 e'"
    by (rule insertSingleLineD)
  with demo_split(2) have eq: "tag = 0x48d" "si = 1" by simp_all
  have base: "c_base c' = c_base demo_cache" "c_fault_injector c' = None" "c_sets c' ! 1 = s1" "c_sets c' ! 1 \<in> set (c_sets c')"
    using demo_sets(1) demo_faults(2) by (simp_all add: c' put_set_def eq set_update_memI)
  have "cs_blocks s1 = cs_blocks (c_sets demo_cache ! 1)"
    using csi unfolding eq by (rule CacheSet_insertD) (simp add: fill_blocks_def)
  then have "cs_blocks (c_sets c' ! 1) \<noteq> None" using demo_sets(3) base by simp
  have look: "lookup c' 0x12345 = Some (new_line demo_cache 0x48d)"
    by (rule insert_ok(2) [OF demo_ok(1,2) _ ins demo_split(2)]) simp
  have sp': "splitAddress (c_base c') 0x12345 = Inr (0x48d, 1)" using demo_split(2) base(1) by simp
  have cont: "contents (cs_lines (c_sets c' ! 1)) 0x48d = Some (new_line demo_cache 0x48d)"
    using lookup_split [OF sp'] look by simp
  have "CacheSet_find (c_sets c' ! 1) 0x48d \<noteq> None"
    using find_contents [OF lines_of_set_ok [OF cache_okD(2) [OF ok sp']] cache_okD(3) [OF ok sp']] cont
    by auto
  moreover have "filter isValid (cs_lines (c_sets c' ! 1)) \<noteq> []"
    using contents_SomeD(2,3) [OF cont] by (metis filter_empty_conv nth_mem)
  ultimately show ?thesis
    using step ok base \<open>cs_blocks (c_sets c' ! 1) \<noteq> None\<close> by blast
qed


lemma invalidateSingleLine_spec_witness:
  "\<exists>c found c'. cache_step demo_cache c \<and> invalidateSingleLine c 0x12345 = Inr (found, c') \<and>
     found \<and> peekSingleLine c' 0x12345 = Inr None"
proof -
  obtain c where c: "cache_step demo_cache c" "cache_ok c" "c_base c = c_base demo_cache"
    "CacheSet_find (c_sets c ! 1) 0x48d \<noteq> None" using demo_inserted by blast
  have sp: "splitAddress (c_base c) 0x12345 = Inr (0x48d, 1)" using demo_split(2) c(3) by simp
  have ns: "cb_num_sets (c_base c) = 4" using CacheBase_fields(1) [OF demo_base] c(3) by simp
  obtain found c' where inv: "invalidateSingleLine c 0x12345 = Inr (found, c')"
    using sp ns by (cases "CacheSet_invalidate (c_sets c ! unat (1 :: u32)) 0x48d")
      (simp add: invalidateSingleLine_def Let_def)
  have "peekSingleLine c 0x12345 \<noteq> Inr None"
    using sp c(4) cache_okD(1) [OF c(2) sp] by (simp add: peekSingleLine_def get_set_def)
  with invalidateSingleLine_spec [OF c(2) inv] c(1) inv show ?thesis by blast
qed


text \<open>Policies that search with a loop that may not end, as equations to compute with.\<close>

declare rr_getReplacementIndex.simps [code] random_getReplacementIndex.simps [code]

end
