(* ===== verification/Cache_View.thy ===== *)
theory Cache_View
  imports Cache_Theorems
begin

text \<open>
  A cache that keeps data, as a map from the addresses of lines to lines with their bytes, and what
  each operation of \<^verbatim>\<open>Cache\<close> does to the map. A cache keeps data when the simulator runs with
  fault injection; the view is for caches on which no injector is installed.
\<close>

section \<open>One set\<close>

definition set_view :: "'r cache_set \<Rightarrow> intptr \<Rightarrow> (cache_block_info \<times> byte list) option" where
  "set_view s t =
     (if t = - 1 then None
      else map_option (\<lambda>i. (cs_lines s ! i, the (line_data s i))) (CacheSet_find s t))"

lemma find_iff:
  assumes "lines_ok l2 (cs_lines s)" and "t \<noteq> - 1"
  shows "CacheSet_find s t = Some i \<longleftrightarrow> i < length (cs_lines s) \<and> m_tag (cs_lines s ! i) = t"
proof
  assume "CacheSet_find s t = Some i"
  then show "i < length (cs_lines s) \<and> m_tag (cs_lines s ! i) = t"
    using last_idx_SomeD by (auto simp: CacheSet_find_def)
next
  assume i: "i < length (cs_lines s) \<and> m_tag (cs_lines s ! i) = t"
  show "CacheSet_find s t = Some i"
  proof (cases "CacheSet_find s t")
    case None
    with find_contents [OF assms] have "contents (cs_lines s) t = None" by simp
    with i assms(2) show ?thesis by (auto simp: contents_None)
  next
    case (Some j)
    then have "j < length (cs_lines s)" "m_tag (cs_lines s ! j) = t"
      using last_idx_SomeD by (auto simp: CacheSet_find_def)
    with i assms(2) lines_okD(1) [OF assms(1), of i j] Some show ?thesis by (simp add: isValid_def)
  qed
qed

lemma set_view_Some_iff:
  assumes "lines_ok l2 (cs_lines s)"
  shows "set_view s t = Some v \<longleftrightarrow> t \<noteq> - 1 \<and>
     (\<exists>i<length (cs_lines s). m_tag (cs_lines s ! i) = t \<and> v = (cs_lines s ! i, the (line_data s i)))"
  using find_iff [OF assms] by (auto simp: set_view_def)

lemma set_view_None:
  assumes "lines_ok l2 (cs_lines s)"
  shows "set_view s t = None \<longleftrightarrow> contents (cs_lines s) t = None"
proof (cases "t = - 1")
  case False
  from find_contents [OF assms this] have "contents (cs_lines s) t = None \<longleftrightarrow> CacheSet_find s t = None"
    by (metis option.map_disc_iff)
  with False show ?thesis by (simp add: set_view_def)
qed (simp add: set_view_def contents_def)

lemma set_view_same:
  assumes "cs_lines s' = cs_lines s" and "cs_blocks s' = cs_blocks s" and "cs_blocksize s' = cs_blocksize s"
  shows "set_view s' = set_view s"
  using assms by (auto simp: set_view_def CacheSet_find_def line_data_def)

text \<open>Two sets that differ in one way.\<close>

lemma set_view_eqI:
  assumes "lines_ok l2 (cs_lines s')"
    and "\<And>i. i < length (cs_lines s') \<Longrightarrow> isValid (cs_lines s' ! i) \<Longrightarrow>
           m (m_tag (cs_lines s' ! i)) = Some (cs_lines s' ! i, the (line_data s' i))"
    and "\<And>t v. m t = Some v \<Longrightarrow> \<exists>i<length (cs_lines s'). t \<noteq> - 1 \<and> m_tag (cs_lines s' ! i) = t"
  shows "set_view s' = m"
proof
  fix t
  show "set_view s' t = m t"
  proof (cases "m t")
    case None
    have "set_view s' t \<noteq> Some v" for v
      using assms(2) None by (auto simp: set_view_Some_iff [OF assms(1)] isValid_def)
    with None show ?thesis by (cases "set_view s' t") auto
  next
    case (Some v)
    from assms(3) [OF this] obtain i where "i < length (cs_lines s')" "t \<noteq> - 1" "m_tag (cs_lines s' ! i) = t"
      by blast
    with assms(2) [of i] Some show ?thesis by (auto simp: set_view_Some_iff [OF assms(1)] isValid_def)
  qed
qed

lemma set_view_change:
  assumes "lines_ok l2 (cs_lines s)" and "CacheSet_find s t = Some i" and "t \<noteq> - 1"
    and "cs_lines s' = (cs_lines s)[i := b]" and "m_tag b = t" and "is_l2 b = l2"
    and "\<And>j. j \<noteq> i \<Longrightarrow> line_data s' j = line_data s j" and "the (line_data s' i) = d"
  shows "set_view s' = (set_view s)(t \<mapsto> (b, d))" and "lines_ok l2 (cs_lines s')"
proof -
  have i: "i < length (cs_lines s)" "m_tag (cs_lines s ! i) = t" using find_iff [OF assms(1,3)] assms(2) by auto
  have only: "j = i" if "j < length (cs_lines s)" "m_tag (cs_lines s ! j) = t" for j
    using that i assms(3) lines_okD(1) [OF assms(1), of i j] by (simp add: isValid_def)
  show l: "lines_ok l2 (cs_lines s')"
    unfolding assms(4) using assms(5,6) i only by (intro lines_ok_update [OF assms(1)]) auto
  show "set_view s' = (set_view s)(t \<mapsto> (b, d))"
  proof (rule set_view_eqI [OF l])
    fix j assume j: "j < length (cs_lines s')" "isValid (cs_lines s' ! j)"
    show "((set_view s)(t \<mapsto> (b, d))) (m_tag (cs_lines s' ! j)) = Some (cs_lines s' ! j, the (line_data s' j))"
    proof (cases "j = i")
      case True
      with j assms(4,5,8) i show ?thesis by simp
    next
      case False
      with j assms(4) have j': "j < length (cs_lines s)" "cs_lines s' ! j = cs_lines s ! j" by auto
      with False only have "m_tag (cs_lines s ! j) \<noteq> t" by blast
      with j' j(2) False assms(7) show ?thesis
        by (auto simp: set_view_Some_iff [OF assms(1)] isValid_def)
    qed
  next
    fix u v assume "((set_view s)(t \<mapsto> (b, d))) u = Some v"
    then show "\<exists>j<length (cs_lines s'). u \<noteq> - 1 \<and> m_tag (cs_lines s' ! j) = u"
      using assms(3-5) i by (cases "u = t") (auto simp: set_view_Some_iff [OF assms(1)] nth_list_update)
  qed
qed

lemma set_view_invalidate:
  assumes "lines_ok l2 (cs_lines s)" and "t \<noteq> - 1" and "CacheSet_invalidate s t = (found, s')"
  shows "set_view s' = (set_view s)(t := None)"
proof (rule set_view_eqI [OF invalidate_contents(3) [OF assms]])
  have d: "line_data s' = line_data s"
    using invalidate_contents(4,7) [OF assms] by (auto simp: line_data_def)
  fix j assume j: "j < length (cs_lines s')" "isValid (cs_lines s' ! j)"
  then have "contents (cs_lines s') (m_tag (cs_lines s' ! j)) = Some (cs_lines s' ! j)"
    by (rule contents_nth [OF invalidate_contents(3) [OF assms]])
  then have c: "m_tag (cs_lines s' ! j) \<noteq> t" by (auto simp: invalidate_contents(2) [OF assms])
  have "j < length (cs_lines s) \<and> cs_lines s' ! j = cs_lines s ! j"
    using j assms(3)
    by (auto simp: CacheSet_invalidate_def nth_list_update split: option.splits if_splits dest: last_idx_SomeD(1))
  with c j(2) d show "((set_view s)(t := None)) (m_tag (cs_lines s' ! j)) = Some (cs_lines s' ! j, the (line_data s' j))"
    by (auto simp: set_view_Some_iff [OF assms(1)] isValid_def)
next
  fix u v assume u: "((set_view s)(t := None)) u = Some v"
  then have "u \<noteq> t" and "set_view s u \<noteq> None" by (auto split: if_splits)
  then have "contents (cs_lines s') u \<noteq> None"
    by (simp add: invalidate_contents(2) [OF assms] set_view_None [OF assms(1)])
  then show "\<exists>j<length (cs_lines s'). u \<noteq> - 1 \<and> m_tag (cs_lines s' ! j) = u"
    by (auto simp: contents_None)
qed

text \<open>The bytes of a line after a store into it, and the bytes a load returns.\<close>

lemma line_data_length:
  assumes "blocks_ok s" and "i < length (cs_lines s)" and "cs_blocks s \<noteq> None"
  shows "length (the (line_data s i)) = unat (cs_blocksize s)"
  using block_range [OF assms(1) _ assms(2)] assms(3) by (auto simp: line_data_def)

lemma take_drop_mem_copy_inner:
  assumes "p + n \<le> length d" and "off + m \<le> n" and "m \<le> length b"
  shows "take n (drop p (mem_copy d (p + off) b 0 m)) = mem_copy (take n (drop p d)) off b 0 m"
proof (rule nth_equalityI)
  have len: "length (mem_copy d (p + off) b 0 m) = length d" using assms by (intro length_mem_copy) simp_all
  have len2: "length (mem_copy (take n (drop p d)) off b 0 m) = n"
    using assms by (subst length_mem_copy) simp_all
  from len len2 assms(1) show "length (take n (drop p (mem_copy d (p + off) b 0 m))) = length (mem_copy (take n (drop p d)) off b 0 m)"
    by simp
  fix k assume "k < length (take n (drop p (mem_copy d (p + off) b 0 m)))"
  with len assms(1) have k: "k < n" by simp
  with len assms show "take n (drop p (mem_copy d (p + off) b 0 m)) ! k = mem_copy (take n (drop p d)) off b 0 m ! k"
    by (simp add: nth_mem_copy)
qed

lemma store_line_data:
  assumes "blocks_ok s" and "i < length (cs_lines s)" and "store_ok s off (Some b) bytes" and "cs_blocks s \<noteq> None"
  shows "the (line_data (store_blocks s i off (Some b) bytes) i) = mem_copy (the (line_data s i)) (unat off) b 0 (unat bytes)"
proof -
  from assms(4) obtain d where d: "cs_blocks s = Some d" by auto
  have at: "getDataPtr s i off = i * unat (cs_blocksize s) + unat off"
    using assms(3) by (intro getDataPtr_eq [OF assms(1,2)]) (simp add: store_ok_def)
  show ?thesis
    using take_drop_mem_copy_inner [OF block_range [OF assms(1) d assms(2)], of "unat off" "unat bytes" b] assms(3)
    by (simp add: line_data_def store_blocks_def d at store_ok_def)
qed

lemma read_line_data:
  assumes "blocks_ok s" and "i < length (cs_lines s)" and "store_ok s off (Some b) bytes" and "cs_blocks s \<noteq> None"
    and "CacheSet_read_line upd e s i off (Some b) bytes u = Inr (out, s', e')"
  shows "out = Some (mem_copy b 0 (the (line_data s i)) (unat off) (unat bytes))"
proof -
  from assms(4) obtain d where d: "cs_blocks s = Some d" by auto
  have at: "getDataPtr s i off = i * unat (cs_blocksize s) + unat off"
    using assms(3) by (intro getDataPtr_eq [OF assms(1,2)]) (simp add: store_ok_def)
  have "min (unat bytes) (unat (cs_blocksize s) - unat off) = unat bytes"
    using assms(3) by (intro min_absorb1) (auto simp: store_ok_def)
  then have "take (unat bytes) (drop (unat off) (take (unat (cs_blocksize s)) (drop (i * unat (cs_blocksize s)) d)))
      = take (unat bytes) (drop (i * unat (cs_blocksize s) + unat off) d)"
    by (simp add: drop_take add.commute)
  with assms(5) d show ?thesis
    by (auto simp: CacheSet_read_line_def Let_def at mem_copy_def line_data_def split: if_splits sum.splits)
qed

lemma set_view_store:
  assumes "lines_ok l2 (cs_lines s)" and "blocks_ok s" and "CacheSet_find s t = Some i" and "t \<noteq> - 1"
    and "store_ok s off (Some b) bytes" and "cs_blocks s \<noteq> None" and "set_view s t = Some (l, d)"
  shows "set_view (store_blocks s i off (Some b) bytes) = (set_view s)(t \<mapsto> (l, mem_copy d (unat off) b 0 (unat bytes)))"
proof (rule set_view_change(1) [OF assms(1,3,4)])
  have i: "i < length (cs_lines s)" "m_tag (cs_lines s ! i) = t" using find_iff [OF assms(1,4)] assms(3) by auto
  from assms(3,4,7) have ld: "l = cs_lines s ! i" "d = the (line_data s i)" by (auto simp: set_view_def)
  show "cs_lines (store_blocks s i off (Some b) bytes) = (cs_lines s)[i := l]" by (simp add: ld)
  show "m_tag l = t" "is_l2 l = l2" using i lines_okD(2) [OF assms(1)] by (simp_all add: ld)
  show "line_data (store_blocks s i off (Some b) bytes) j = line_data s j" if "j \<noteq> i" for j
    by (rule store_other_line [OF assms(2) i(1) assms(5) that])
  show "the (line_data (store_blocks s i off (Some b) bytes) i) = mem_copy d (unat off) b 0 (unat bytes)"
    using store_line_data [OF assms(2) i(1) assms(5,6)] by (simp add: ld)
qed

lemma insert_evict_buff:
  assumes "CacheSet_insert gri e s cbi fill ei0 (Some b) = Some (Inr (True, ei, eb, s', e'))"
    and "gri e (cs_lines s) (cs_policy s) = Some (Inr (i, p, e''))"
    and "blocks_ok s" and "cs_blocks s \<noteq> None" and "length b = unat (cs_blocksize s)"
  shows "eb = line_data s i" and "i < length (cs_lines s)"
proof -
  from assms(1,2) show i: "i < length (cs_lines s)" by (auto simp: CacheSet_insert_def split: if_splits)
  from assms(4) obtain d where d: "cs_blocks s = Some d" by auto
  note at = getDataPtr_eq [OF assms(3) i, of 0, simplified]
  from assms(1,2,5) i d show "eb = line_data s i"
    by (auto simp: CacheSet_insert_def Let_def line_data_def mem_copy_def at split: if_splits)
qed

lemma set_view_replace:
  assumes "lines_ok l2 (cs_lines s)" and "i < length (cs_lines s)" and "set_view s t = None" and "t \<noteq> - 1"
    and "cs_lines s' = (cs_lines s)[i := b]" and "m_tag b = t" and "is_l2 b = l2"
    and "\<And>j. j \<noteq> i \<Longrightarrow> line_data s' j = line_data s j" and "line_data s' i = Some f"
  shows "set_view s' = (if isValid (cs_lines s ! i) then (set_view s)(m_tag (cs_lines s ! i) := None) else set_view s)(t \<mapsto> (b, f))"
    (is "_ = ?m(t \<mapsto> (b, f))")
proof (rule set_view_eqI)
  have no: "m_tag (cs_lines s ! j) \<noteq> t" if "j < length (cs_lines s)" for j
    using that assms(3,4) by (auto simp: set_view_None [OF assms(1)] contents_None)
  show "lines_ok l2 (cs_lines s')"
    unfolding assms(5) using assms(2,6,7) no by (intro lines_ok_update [OF assms(1)]) auto
  fix j assume j: "j < length (cs_lines s')" "isValid (cs_lines s' ! j)"
  show "(?m(t \<mapsto> (b, f))) (m_tag (cs_lines s' ! j)) = Some (cs_lines s' ! j, the (line_data s' j))"
  proof (cases "j = i")
    case True
    with assms show ?thesis by simp
  next
    case False
    with j assms(5) have j': "j < length (cs_lines s)" "cs_lines s' ! j = cs_lines s ! j" by auto
    with j have v: "set_view s (m_tag (cs_lines s ! j)) = Some (cs_lines s ! j, the (line_data s j))"
      by (auto simp: set_view_Some_iff [OF assms(1)] isValid_def)
    have "m_tag (cs_lines s ! j) \<noteq> m_tag (cs_lines s ! i)"
      using lines_okD(1) [OF assms(1) j'(1) assms(2)] j(2) j'(2) False by auto
    with v no [OF j'(1)] j'(2) assms(8) [OF False] show ?thesis by simp
  qed
next
  fix u v assume u: "(?m(t \<mapsto> (b, f))) u = Some v"
  show "\<exists>j<length (cs_lines s'). u \<noteq> - 1 \<and> m_tag (cs_lines s' ! j) = u"
  proof (cases "u = t")
    case True
    with assms(2,4-6) show ?thesis by (intro exI [of _ i]) simp
  next
    case False
    with u have "set_view s u = Some v" "isValid (cs_lines s ! i) \<Longrightarrow> u \<noteq> m_tag (cs_lines s ! i)"
      by (auto split: if_splits)
    then obtain j where j: "j < length (cs_lines s)" "u \<noteq> - 1" "m_tag (cs_lines s ! j) = u" "j \<noteq> i"
      by (auto simp: set_view_Some_iff [OF assms(1)] isValid_def)
    with assms(5) show ?thesis by (intro exI [of _ j]) simp
  qed
qed

lemma set_view_insert:
  assumes "lines_ok l2 (cs_lines s)" and "blocks_ok s" and "cs_blocks s \<noteq> None" and "set_view s t = None"
    and "t \<noteq> - 1" and "m_tag cbi = t" and "is_l2 cbi = l2" and "is_l2 ei0 = l2"
    and "length f = unat (cs_blocksize s)" and "length b = unat (cs_blocksize s)"
    and "CacheSet_insert gri e s cbi (Some f) ei0 (Some b) = Some (Inr (ev, ei, eb, s', e'))"
  shows "set_view s' = (if ev then (set_view s)(m_tag ei := None) else set_view s)(t \<mapsto> (cbi, f))"
    and "ev \<Longrightarrow> set_view s (m_tag ei) = Some (ei, the eb)"
    and "cs_blocks s' \<noteq> None"
proof -
  from assms(11) obtain i p where g: "gri e (cs_lines s) (cs_policy s) = Some (Inr (i, p, e'))"
    and i: "i < length (cs_lines s)" and ev: "ev = isValid (cs_lines s ! i)"
    and ei: "ei = (if ev then clone_block ei0 (cs_lines s ! i) else ei0)"
    and s': "s' = s\<lparr>cs_lines := (cs_lines s)[i := clone_block (cs_lines s ! i) cbi],
               cs_blocks := fill_blocks s i (Some f), cs_policy := p\<rparr>"
    by (rule CacheSet_insertD)
  have l2: "is_l2 (cs_lines s ! i) = l2" by (rule lines_okD(2) [OF assms(1) i])
  have cl: "clone_block (cs_lines s ! i) cbi = cbi" "clone_block ei0 (cs_lines s ! i) = cs_lines s ! i"
    using l2 assms(7,8) by (simp_all add: clone_block_same)
  have fo: "fill_ok s (Some f)" using assms(9) by (simp add: fill_ok_def)
  have ld: "line_data s' i = Some f" "\<And>j. j \<noteq> i \<Longrightarrow> line_data s' j = line_data s j"
    unfolding s' using fill_line_data [OF assms(2) i fo] assms(3) by blast+
  have "set_view s' = (if isValid (cs_lines s ! i) then (set_view s)(m_tag (cs_lines s ! i) := None) else set_view s)(t \<mapsto> (cbi, f))"
    by (rule set_view_replace [OF assms(1) i assms(4,5) _ assms(6,7) ld(2,1)]) (simp add: s' cl)
  then show "set_view s' = (if ev then (set_view s)(m_tag ei := None) else set_view s)(t \<mapsto> (cbi, f))"
    by (simp add: ei ev cl)
  show "set_view s (m_tag ei) = Some (ei, the eb)" if ev
  proof -
    from assms(11) that have "CacheSet_insert gri e s cbi (Some f) ei0 (Some b) = Some (Inr (True, ei, eb, s', e'))"
      by simp
    from insert_evict_buff(1) [OF this g assms(2,3,10)] have "eb = line_data s i" .
    with that ev ei cl(2) i show ?thesis
      by (auto simp: set_view_Some_iff [OF assms(1)] isValid_def)
  qed
  show "cs_blocks s' \<noteq> None" using assms(3) by (auto simp: s' fill_blocks_def)
qed

section \<open>Addresses of lines\<close>

unbundle bit_operations_syntax

lemma drop_push_drop: "drop_bit n (push_bit n (drop_bit n (a::u64))) = drop_bit n a"
  by (rule bit_word_eqI) (auto simp: bit_simps dest: bit_imp_le_length)

lemma push_drop: "take_bit n (a::u64) = 0 \<Longrightarrow> push_bit n (drop_bit n a) = a"
  using bits_ident [of n a] by simp

lemma take_push [simp]: "take_bit n (push_bit n (a::u64)) = 0"
  by (rule bit_word_eqI) (simp add: bit_simps)

lemma low_bits: "take_bit n (a::u64) = 0 \<Longrightarrow> k < n \<Longrightarrow> \<not> bit a k"
  by (metis bit_0_eq bit_take_bit_iff bot_apply bot_bool_def)

lemma high_bits:
  assumes "unat (off::u32) < 2 ^ n" and "n \<le> k"
  shows "\<not> bit off k"
proof -
  have "unat (take_bit n off) = unat off" using assms(1) by (simp only: unat_take_bit mod_less)
  then have "take_bit n off = off" by (simp only: word_unat_eq_iff)
  with assms(2) show ?thesis by (metis bit_take_bit_iff leD)
qed

lemma line_offset:
  assumes "take_bit n (a::u64) = 0" and "unat (off::u32) < 2 ^ n" 
  shows "drop_bit n (a + ucast off) = drop_bit n a" and "ucast (take_bit n (a + ucast off)) = off"
proof -
  have "\<not> bit a k \<or> \<not> bit off k" for k
    using low_bits [OF assms(1), of k] high_bits [OF assms(2), of k] by (cases "k < n") auto
  then have sum: "a + ucast off = a OR ucast off" by (intro disjunctive_add) (auto simp: bit_simps)
  show "drop_bit n (a + ucast off) = drop_bit n a"
    unfolding sum using high_bits [OF assms(2)] by (intro bit_word_eqI) (auto simp: bit_simps)
  show "ucast (take_bit n (a + ucast off)) = off"
    unfolding sum using high_bits [OF assms(2)] low_bits [OF assms(1)]
    by (intro bit_word_eqI) (auto simp: bit_simps not_less)
qed

section \<open>The cache\<close>

text \<open>
  Blocks have \<open>2 ^ n\<close> bytes. A line of a set has a tag that belongs to the set, so its address can be
  computed from its tag.
\<close>

definition data_cache :: "nat \<Rightarrow> cache \<Rightarrow> bool" where
  "data_cache n c \<longleftrightarrow> cache_ok c \<and> cb_ahl (c_base c) = None \<and> c_fault_injector c = None \<and>
     c_cache_type c = SHARED_CACHE \<and> unat (cb_blocksize (c_base c)) = 2 ^ n \<and>
     (\<forall>s\<in>set (c_sets c). cs_blocks s \<noteq> None) \<and>
     (\<forall>i<length (c_sets c). \<forall>t. set_view (c_sets c ! i) t \<noteq> None \<longrightarrow>
        splitAddress (c_base c) (push_bit n t) = Inr (t, of_nat i))"

definition line_view :: "nat \<Rightarrow> cache \<Rightarrow> intptr \<Rightarrow> (cache_block_info \<times> byte list) option" where
  "line_view n c a =
     (if take_bit n a = 0
      then case splitAddress (c_base c) a of
             Inl _ \<Rightarrow> None
           | Inr (t, si) \<Rightarrow> set_view (c_sets c ! unat si) t
      else None)"

lemma data_cacheD:
  assumes "data_cache n c"
  shows "cache_ok c" and "c_fault_injector c = None" and "c_cache_type c = SHARED_CACHE"
    and "unat (cb_blocksize (c_base c)) = 2 ^ n"
    and "s \<in> set (c_sets c) \<Longrightarrow> cs_blocks s \<noteq> None"
    and "i < length (c_sets c) \<Longrightarrow> set_view (c_sets c ! i) t \<noteq> None \<Longrightarrow>
           splitAddress (c_base c) (push_bit n t) = Inr (t, of_nat i)"
  using assms by (auto simp: data_cache_def)

lemma data_cache_log:
  assumes "data_cache n c"
  shows "unat (cb_log_blocksize (c_base c)) = n"
proof -
  from data_cacheD(1) [OF assms] have "CacheBase (cb_num_sets (c_base c)) (cb_associativity (c_base c))
      (cb_blocksize (c_base c)) (cb_hash (c_base c)) (cb_ahl (c_base c)) = Inr (c_base c)"
    by (simp add: cache_ok_def base_ok_def)
  from log_blocksize [OF this data_cacheD(4) [OF assms]] show ?thesis .
qed

lemma split_tag:
  assumes "data_cache n c" and "splitAddress (c_base c) a = Inr (t, si)"
  shows "t = drop_bit n a"
  using splitAddress_tag [OF assms(2)] data_cache_log [OF assms(1)] by simp

lemma split_same_block:
  assumes "data_cache n c" and "drop_bit n a = drop_bit n b"
  shows "splitAddress (c_base c) a = splitAddress (c_base c) b"
  using assms(1,2) data_cache_log [OF assms(1)] by (simp add: splitAddress_def data_cache_def)

lemma split_inj:
  assumes "data_cache n c" and "splitAddress (c_base c) a = Inr (t, si)" and "splitAddress (c_base c) b = Inr (t, sj)"
    and "take_bit n a = 0" and "take_bit n b = 0"
  shows "a = b"
  using split_tag [OF assms(1,2)] split_tag [OF assms(1,3)] push_drop [OF assms(4)] push_drop [OF assms(5)] by simp

lemma lines_of_data_cache:
  assumes "data_cache n c" and "splitAddress (c_base c) a = Inr (t, si)"
  shows "unat si < length (c_sets c)" and "lines_ok False (cs_lines (c_sets c ! unat si))"
    and "blocks_ok (c_sets c ! unat si)" and "t \<noteq> - 1" and "cs_blocks (c_sets c ! unat si) \<noteq> None"
    and "unat (cs_blocksize (c_sets c ! unat si)) = 2 ^ n" and "set_ok repl_ok False (c_sets c ! unat si)"
  using cache_okD [OF data_cacheD(1) [OF assms(1)] assms(2)] data_cacheD(3-5) [OF assms(1)]
  by (auto simp: cache_set_ok_def set_ok_def)

lemma line_view_split:
  assumes "splitAddress (c_base c) a = Inr (t, si)" and "take_bit n a = 0"
  shows "line_view n c a = set_view (c_sets c ! unat si) t"
  using assms by (simp add: line_view_def)

lemma line_view_length:
  assumes "data_cache n c" and "line_view n c a = Some (l, d)"
  shows "length d = 2 ^ n" and "take_bit n a = 0" and "is_l2 l = False"
proof -
  from assms(2) obtain t si where sp: "splitAddress (c_base c) a = Inr (t, si)"
    and v: "set_view (c_sets c ! unat si) t = Some (l, d)" and a: "take_bit n a = 0"
    by (auto simp: line_view_def split: if_splits sum.splits)
  note s = lines_of_data_cache [OF assms(1) sp]
  from v obtain i where i: "i < length (cs_lines (c_sets c ! unat si))" and d: "d = the (line_data (c_sets c ! unat si) i)"
    and l: "l = cs_lines (c_sets c ! unat si) ! i"
    by (auto simp: set_view_Some_iff [OF s(2)])
  show "length d = 2 ^ n" using line_data_length [OF s(3) i s(5)] s(6) d by simp
  show "is_l2 l = False" unfolding l by (rule lines_okD(2) [OF s(2) i])
  show "take_bit n a = 0" by (rule a)
qed

text \<open>An operation replaces the set of its address by \<open>s'\<close>.\<close>

definition replaces :: "cache \<Rightarrow> u32 \<Rightarrow> repl cache_set \<Rightarrow> cache \<Rightarrow> bool" where
  "replaces c si s' c' \<longleftrightarrow> c_base c' = c_base c \<and> c_cache_type c' = c_cache_type c \<and>
     c_fault_injector c' = c_fault_injector c \<and> c_sets c' = (c_sets c)[unat si := s'] \<and>
     cache_set_ok c s' \<and> cs_blocks s' \<noteq> None"

lemma replaces_data_cache:
  assumes "data_cache n c" and "splitAddress (c_base c) a = Inr (t, si)" and "replaces c si s' c'"
    and "\<And>x. set_view s' x \<noteq> None \<Longrightarrow> x = t \<or> set_view (c_sets c ! unat si) x \<noteq> None"
  shows "data_cache n c'"
proof -
  note r = assms(3) [unfolded replaces_def]
  have ok: "cache_ok c'" using cache_ok_set_update [OF data_cacheD(1) [OF assms(1)]] r by blast
  have at: "splitAddress (c_base c) (push_bit n t) = Inr (t, si)"
    using split_same_block [OF assms(1), of "push_bit n t" a] split_tag [OF assms(1,2)] assms(2)
    by (simp add: drop_push_drop)
  have "splitAddress (c_base c') (push_bit n x) = Inr (x, of_nat i)"
    if i: "i < length (c_sets c')" and x: "set_view (c_sets c' ! i) x \<noteq> None" for i x
  proof (cases "i = unat si \<and> x = t")
    case True
    with at r show ?thesis by simp
  next
    case False
    with i x r assms(4) [of x] have "set_view (c_sets c ! i) x \<noteq> None" by (cases "i = unat si") auto
    with data_cacheD(6) [OF assms(1), of i x] i r show ?thesis by simp
  qed
  moreover have "cs_blocks s \<noteq> None" if "s \<in> set (c_sets c')" for s
    using that r data_cacheD(5) [OF assms(1)] set_update_subset_insert [of "c_sets c" "unat si" s'] by auto
  ultimately show ?thesis using ok r assms(1) by (simp add: data_cache_def)
qed

lemma replaces_view:
  assumes "data_cache n c" and "splitAddress (c_base c) a = Inr (t, si)" and "replaces c si s' c'"
    and "take_bit n b = 0" and "splitAddress (c_base c) b = Inr (tb, sb)"
  shows "line_view n c' b = (if sb = si then set_view s' tb else line_view n c b)"
  using assms(3-5) lines_of_data_cache(1) [OF assms(1,5)]
  by (auto simp: line_view_def replaces_def word_unat_eq_iff)

lemma replaces_view_other:
  assumes "replaces c si s' c'" and "take_bit n b \<noteq> 0 \<or> (\<exists>e. splitAddress (c_base c) b = Inl e)"
  shows "line_view n c' b = None" and "line_view n c b = None"
  using assms by (auto simp: line_view_def replaces_def)

lemma replaces_update:
  assumes "data_cache n c" and "splitAddress (c_base c) a = Inr (t, si)" and "take_bit n a = 0"
    and "replaces c si s' c'" and "set_view s' = (set_view (c_sets c ! unat si))(t := v)"
  shows "data_cache n c'" and "line_view n c' = (line_view n c)(a := v)"
proof -
  show "data_cache n c'"
    using assms(5) by (intro replaces_data_cache [OF assms(1,2,4)]) (simp split: if_splits)
  show "line_view n c' = (line_view n c)(a := v)"
  proof
    fix b
    show "line_view n c' b = ((line_view n c)(a := v)) b"
    proof (cases "take_bit n b \<noteq> 0 \<or> (\<exists>e. splitAddress (c_base c) b = Inl e)")
      case True
      with assms(2,3) replaces_view_other [OF assms(4) True] show ?thesis by auto
    next
      case False
      then obtain tb sb where b: "take_bit n b = 0" "splitAddress (c_base c) b = Inr (tb, sb)"
        by (cases "splitAddress (c_base c) b") auto
      have "b = a \<longleftrightarrow> tb = t \<and> sb = si"
        using split_inj [OF assms(1) b(2) _ b(1) assms(3)] assms(2) b(2) by auto
      with replaces_view [OF assms(1,2,4) b] line_view_split [of c b tb sb n] b assms(5)
      show ?thesis by (auto simp: fun_upd_def)
    qed
  qed
qed

lemma replaces_same:
  assumes "data_cache n c" and "splitAddress (c_base c) a = Inr (t, si)"
    and "replaces c si s' c'" and "set_view s' = set_view (c_sets c ! unat si)"
  shows "data_cache n c'" and "line_view n c' = line_view n c"
proof -
  let ?a = "push_bit n (drop_bit n a)"
  have sp: "splitAddress (c_base c) ?a = Inr (t, si)"
    using split_same_block [OF assms(1), of ?a a] assms(2) by (simp add: drop_push_drop)
  have "line_view n c ?a = set_view (c_sets c ! unat si) t" by (rule line_view_split [OF sp]) simp
  then have "(line_view n c)(?a := set_view (c_sets c ! unat si) t) = line_view n c" by (simp add: fun_upd_idem)
  with replaces_update [OF assms(1) sp _ assms(3), of "set_view (c_sets c ! unat si) t"] assms(4)
  show "data_cache n c'" "line_view n c' = line_view n c" by simp_all
qed

section \<open>The operations on the view\<close>

lemma peekD:
  assumes "peekSingleLine c a = Inr p"
  obtains t si where "splitAddress (c_base c) a = Inr (t, si)" and "unat si < length (c_sets c)"
    and "p = map_option (Pair (unat si)) (CacheSet_find (c_sets c ! unat si) t)"
  using assms by (auto simp: peekSingleLine_def get_set_def split: sum.splits prod.splits if_splits)

lemma peek_view:
  assumes "data_cache n c" and "take_bit n a = 0" and "peekSingleLine c a = Inr p"
  shows "map_option (deref c) p = map_option fst (line_view n c a)"
proof -
  from assms(3) obtain t si where sp: "splitAddress (c_base c) a = Inr (t, si)" and "unat si < length (c_sets c)"
    and p: "p = map_option (Pair (unat si)) (CacheSet_find (c_sets c ! unat si) t)" by (rule peekD)
  with lines_of_data_cache(4) [OF assms(1) sp] show ?thesis
    by (simp add: line_view_split [OF sp assms(2)] set_view_def option.map_comp comp_def deref_def)
qed

lemma assign_view:
  assumes "data_cache n c" and "take_bit n a = 0" and "peekSingleLine c a = Inr (Some q)"
    and "line_view n c a = Some (l, d)" and "m_tag b = m_tag l" and "is_l2 b = is_l2 l"
  shows "data_cache n (assign_line c q b)" and "line_view n (assign_line c q b) = (line_view n c)(a \<mapsto> (b, d))"
proof -
  from assms(3) obtain t si i where sp: "splitAddress (c_base c) a = Inr (t, si)"
    and f: "CacheSet_find (c_sets c ! unat si) t = Some i" and q: "q = (unat si, i)"
    by (auto simp: peekSingleLine_def get_set_def split: sum.splits prod.splits if_splits)
  let ?s = "c_sets c ! unat si"
  let ?s' = "?s\<lparr>cs_lines := (cs_lines ?s)[i := b]\<rparr>"
  note s = lines_of_data_cache [OF assms(1) sp]
  from assms(4) f s(4) have l: "l = cs_lines ?s ! i" and d: "d = the (line_data ?s i)"
    by (auto simp: line_view_split [OF sp assms(2)] set_view_def)
  have i: "i < length (cs_lines ?s)" "m_tag (cs_lines ?s ! i) = t" using find_iff [OF s(2,4)] f by auto
  have b: "m_tag b = t" "is_l2 b = False" using assms(5,6) i lines_okD(2) [OF s(2) i(1)] by (simp_all add: l)
  have ch: "set_view ?s' = (set_view ?s)(t \<mapsto> (b, d))" "lines_ok False (cs_lines ?s')"
    by (rule set_view_change [OF s(2) f s(4) _ b]; simp add: line_data_def d)+
  have "cache_set_ok c ?s'"
    using cache_okD(2) [OF data_cacheD(1) [OF assms(1)] sp] ch(2) data_cacheD(3) [OF assms(1)]
    by (auto simp: cache_set_ok_def set_ok_def blocks_ok_def)
  then have "replaces c si ?s' (assign_line c q b)"
    using s(5) by (simp add: replaces_def assign_line_def q)
  from replaces_update [OF assms(1) sp assms(2) this ch(1)]
  show "data_cache n (assign_line c q b)" "line_view n (assign_line c q b) = (line_view n c)(a \<mapsto> (b, d))" .
qed

lemma invalidate_view:
  assumes "data_cache n c" and "take_bit n a = 0" and "invalidateSingleLine c a = Inr (found, c')"
  shows "data_cache n c'" and "line_view n c' = (line_view n c)(a := None)"
proof -
  from assms(3) obtain t si s' where sp: "splitAddress (c_base c) a = Inr (t, si)"
    and inv: "CacheSet_invalidate (c_sets c ! unat si) t = (found, s')"
    and c': "c' = c\<lparr>c_sets := (c_sets c)[unat si := s']\<rparr>"
    by (auto simp: invalidateSingleLine_def Let_def split: sum.splits prod.splits if_splits)
  note s = lines_of_data_cache [OF assms(1) sp]
  note ok = cache_okD(2) [OF data_cacheD(1) [OF assms(1)] sp]
  note i = invalidate_contents [OF lines_of_set_ok [OF ok] s(4) inv]
  have "cache_set_ok c s'"
    using ok i(3) unfolding cache_set_ok_def set_ok_def blocks_ok_def i(4-7) by blast
  then have "replaces c si s' c'" using s(5) i(4) by (simp add: replaces_def c')
  from replaces_update [OF assms(1) sp assms(2) this set_view_invalidate [OF s(2,4) inv]]
  show "data_cache n c'" "line_view n c' = (line_view n c)(a := None)" .
qed

lemma updateCounters_simps [simp]:
  "c_base (updateCounters c hit) = c_base c" "c_sets (updateCounters c hit) = c_sets c"
  "c_fault_injector (updateCounters c hit) = c_fault_injector c" "c_cache_type (updateCounters c hit) = c_cache_type c"
  by (simp_all add: updateCounters_def)

lemma counters_view [simp]:
  "data_cache n (updateCounters c hit) = data_cache n c" "line_view n (updateCounters c hit) = line_view n c"
  by (simp_all add: data_cache_def line_view_def fun_eq_iff split: sum.split)

text \<open>An access inside the line at \<open>a\<close>.\<close>

lemma split_offset:
  fixes off :: u32
  assumes "data_cache n c" and "take_bit n a = 0" and "unat off < 2 ^ n"
    and "splitAddress_offset (c_base c) (a + ucast off) = Inr (t, si, off')"
  shows "splitAddress (c_base c) a = Inr (t, si)" and "off' = off"
proof -
  note o = line_offset [OF assms(2,3)]
  from splitAddress_offsetD(1) [OF assms(4)] split_same_block [OF assms(1) o(1)]
  show "splitAddress (c_base c) a = Inr (t, si)" by simp
  from assms(4) have "off' = ucast ((a + ucast off) AND ucast (cb_blocksize (c_base c) - 1))"
    by (auto simp: splitAddress_offset_def Let_def split: sum.splits)
  also have "\<dots> = off"
    using o(2) by (simp add: ucast_pow2_minus_1 [OF data_cacheD(4) [OF assms(1)]] and_exp_minus_1)
  finally show "off' = off" .
qed

lemma peek_offset:
  fixes off :: u32
  assumes "data_cache n c" and "take_bit n a = 0" and "unat off < 2 ^ n"
  shows "peekSingleLine c (a + ucast off) = peekSingleLine c a"
  using split_same_block [OF assms(1) line_offset(1) [OF assms(2,3)]] by (simp add: peekSingleLine_def)

lemma load_view:
  fixes off :: u32
  assumes "data_cache n c" and "take_bit n a = 0" and "unat off < 2 ^ n" and "unat off + unat len \<le> 2 ^ n"
    and "unat len \<le> length buf"
    and "accessSingleLine c (a + ucast off) LOAD (Some buf) len u = Inr (p, out, c')"
  shows "data_cache n c'" and "line_view n c' = line_view n c"
    and "line_view n c a = None \<Longrightarrow> p = None \<and> out = Some buf"
    and "line_view n c a = Some (l, d) \<Longrightarrow> p \<noteq> None \<and> out = Some (mem_copy buf 0 d (unat off) (unat len))"
proof -
  have "data_cache n c' \<and> line_view n c' = line_view n c \<and> (line_view n c a = None \<longrightarrow> p = None \<and> out = Some buf) \<and>
      (line_view n c a = Some (l, d) \<longrightarrow> p \<noteq> None \<and> out = Some (mem_copy buf 0 d (unat off) (unat len)))" for l d
    using assms(6)
  proof (cases rule: access_cases)
    case miss
    with peek_offset [OF assms(1-3)] have "peekSingleLine c a = Inr None" by simp
    from peek_view [OF assms(1,2) this] miss assms(1) show ?thesis by simp
  next
    case (load t si off' i fi s1 s2 e')
    note sp = split_offset [OF assms(1-3) load(3)]
    note s = lines_of_data_cache [OF assms(1) sp(1)]
    let ?s = "c_sets c ! unat si"
    from load(6) data_cacheD(2) [OF assms(1)] have fi: "fi = None" "s1 = ?s" by (auto simp: with_injector_def)
    have i: "i < length (cs_lines ?s)" by (rule find_Some [OF load(5)])
    note rd = load(7) [unfolded fi sp(2)]
    note r = dispatch.read_line_ok [OF s(7) i rd]
    have "replaces c si s2 c'"
      using r s(5) cache_okD(2) [OF data_cacheD(1) [OF assms(1)] sp(1)] data_cacheD(2,3) [OF assms(1)]
      by (auto simp: replaces_def load(8) fi put_set_def cache_set_ok_def)
    note c' = replaces_same [OF assms(1) sp(1) this set_view_same]
    have st: "store_ok ?s off (Some buf) len" using s(6) assms(3-5) by (simp add: store_ok_def)
    have v: "line_view n c a = Some (cs_lines ?s ! i, the (line_data ?s i))"
      using load(5) s(4) by (simp add: line_view_split [OF sp(1) assms(2)] set_view_def)
    from c' r v load(2) read_line_data [OF s(3) i st s(5) rd] show ?thesis by simp
  qed simp
  then show "data_cache n c'" "line_view n c' = line_view n c"
    "line_view n c a = None \<Longrightarrow> p = None \<and> out = Some buf"
    "line_view n c a = Some (l, d) \<Longrightarrow> p \<noteq> None \<and> out = Some (mem_copy buf 0 d (unat off) (unat len))" by blast+
qed

lemma store_view:
  fixes off :: u32
  assumes "data_cache n c" and "take_bit n a = 0" and "unat off < 2 ^ n" and "unat off + unat len \<le> 2 ^ n"
    and "unat len \<le> length buf"
    and "accessSingleLine c (a + ucast off) STORE (Some buf) len u = Inr (p, out, c')"
  shows "line_view n c a = None \<Longrightarrow> p = None \<and> c' = c"
    and "line_view n c a = Some (l, d) \<Longrightarrow> data_cache n c' \<and>
           line_view n c' = (line_view n c)(a \<mapsto> (l, mem_copy d (unat off) buf 0 (unat len))) \<and>
           (\<exists>q. p = Some q \<and> deref c' q = l)"
    and "out = Some buf"
proof -
  have "(line_view n c a = None \<longrightarrow> p = None \<and> c' = c) \<and> (line_view n c a = Some (l, d) \<longrightarrow> data_cache n c' \<and>
           line_view n c' = (line_view n c)(a \<mapsto> (l, mem_copy d (unat off) buf 0 (unat len))) \<and>
           (\<exists>q. p = Some q \<and> deref c' q = l)) \<and> out = Some buf" for l d
    using assms(6)
  proof (cases rule: access_cases)
    case miss
    with peek_offset [OF assms(1-3)] have "peekSingleLine c a = Inr None" by simp
    from peek_view [OF assms(1,2) this] miss show ?thesis by simp
  next
    case (store t si off' i s1 e')
    note sp = split_offset [OF assms(1-3) store(4)]
    note s = lines_of_data_cache [OF assms(1) sp(1)]
    let ?s = "c_sets c ! unat si"
    have i: "i < length (cs_lines ?s)" by (rule find_Some [OF store(6)])
    have st: "store_ok ?s off (Some buf) len" using s(6) assms(3-5) by (simp add: store_ok_def)
    note w = dispatch.write_line_ok [OF s(7) i st store(7) [unfolded sp(2)]]
    have b: "cs_blocks s1 \<noteq> None" using w s(5) by (auto simp: store_blocks_def)
    have r: "replaces c si s1 c'"
      using w b cache_okD(2) [OF data_cacheD(1) [OF assms(1)] sp(1)] data_cacheD(3) [OF assms(1)]
      by (auto simp: replaces_def store(8) put_set_def cache_set_ok_def)
    have v: "line_view n c a = Some (cs_lines ?s ! i, the (line_data ?s i))"
      using store(6) s(4) by (simp add: line_view_split [OF sp(1) assms(2)] set_view_def)
    have "set_view ?s t = Some (cs_lines ?s ! i, the (line_data ?s i))"
      using store(6) s(4) by (simp add: set_view_def)
    from set_view_store [OF s(2,3) store(6) s(4) st s(5) this] w
    have "set_view s1 = (set_view ?s)(t \<mapsto> (cs_lines ?s ! i, mem_copy (the (line_data ?s i)) (unat off) buf 0 (unat len)))"
      by (simp add: set_view_same [of s1 "store_blocks ?s i off (Some buf) len"])
    note c' = replaces_update [OF assms(1) sp(1) assms(2) r this]
    have "deref c' (unat si, i) = cs_lines ?s ! i" using w s(1) r by (simp add: deref_def replaces_def)
    with c' v store(2,3) show ?thesis by simp
  qed simp
  then show "line_view n c a = None \<Longrightarrow> p = None \<and> c' = c"
    "line_view n c a = Some (l, d) \<Longrightarrow> data_cache n c' \<and>
           line_view n c' = (line_view n c)(a \<mapsto> (l, mem_copy d (unat off) buf 0 (unat len))) \<and>
           (\<exists>q. p = Some q \<and> deref c' q = l)"
    "out = Some buf" by blast+
qed

lemma replaces_insert:
  assumes "data_cache n c" and "splitAddress (c_base c) a = Inr (t, si)" and "take_bit n a = 0"
    and "replaces c si s' c'" and "set_view (c_sets c ! unat si) u \<noteq> None" and "u \<noteq> t"
    and "set_view s' = (set_view (c_sets c ! unat si))(u := None, t \<mapsto> v)"
  shows "data_cache n c'" and "line_view n c' = (line_view n c)(push_bit n u := None, a \<mapsto> v)"
    and "line_view n c (push_bit n u) = set_view (c_sets c ! unat si) u"
proof -
  let ?u = "push_bit n u"
  have spu: "splitAddress (c_base c) ?u = Inr (u, si)"
    using data_cacheD(6) [OF assms(1) lines_of_data_cache(1) [OF assms(1,2)] assms(5)] by simp
  show "line_view n c ?u = set_view (c_sets c ! unat si) u" by (rule line_view_split [OF spu]) simp
  show "data_cache n c'"
    using assms(7) by (intro replaces_data_cache [OF assms(1,2,4)]) (simp split: if_splits)
  show "line_view n c' = (line_view n c)(?u := None, a \<mapsto> v)"
  proof
    fix b
    show "line_view n c' b = ((line_view n c)(?u := None, a \<mapsto> v)) b"
    proof (cases "take_bit n b \<noteq> 0 \<or> (\<exists>e. splitAddress (c_base c) b = Inl e)")
      case True
      with assms(2,3) spu replaces_view_other [OF assms(4) True] show ?thesis by auto
    next
      case False
      then obtain tb sb where b: "take_bit n b = 0" "splitAddress (c_base c) b = Inr (tb, sb)"
        by (cases "splitAddress (c_base c) b") auto
      have "b = a \<longleftrightarrow> tb = t \<and> sb = si"
        using split_inj [OF assms(1) b(2) _ b(1) assms(3)] assms(2) b(2) by auto
      moreover have "b = ?u \<longleftrightarrow> tb = u \<and> sb = si"
      proof
        assume "b = ?u"
        with spu b(2) show "tb = u \<and> sb = si" by simp
      next
        assume "tb = u \<and> sb = si"
        then show "b = ?u" using split_inj [OF assms(1) _ spu b(1) take_push] b(2) by simp
      qed
      ultimately show ?thesis
        using assms(6) replaces_view [OF assms(1,2,4) b] line_view_split [of c b tb sb n] b assms(7)
        by simp
    qed
  qed
qed

lemma insert_view:
  assumes "data_cache n c" and "take_bit n a = 0" and "line_view n c a = None"
    and "length f = 2 ^ n" and "length b = 2 ^ n" and "is_l2 ei0 = False"
    and "insertSingleLine c a (Some f) ei0 (Some b) cntlr = Some (Inr (ev, ea, ei, eb, c', cn))"
  shows "data_cache n c'"
    and "line_view n c' =
           (if ev then (line_view n c)(ea := None) else line_view n c)(a \<mapsto> (new_line c (drop_bit n a), f))"
    and "ev \<Longrightarrow> line_view n c ea = Some (ei, the eb)"
proof -
  have ct: "c_cache_type c \<noteq> INVALID_CACHE_TYPE" using data_cacheD(3) [OF assms(1)] by simp
  from assms(7) ct obtain t si s1 e' where sp: "splitAddress (c_base c) a = Inr (t, si)"
    and ins: "CacheSet_insert getReplacementIndex (cache_env c cntlr) (c_sets c ! unat si) (new_line c t)
           (Some f) ei0 (Some b) = Some (Inr (ev, ei, eb, s1, e'))"
    and ea: "ea = tagToAddress (c_base c) (m_tag ei)" and c': "c' = put_set c si s1 e'"
    by (rule insertSingleLineD)
  let ?s = "c_sets c ! unat si"
  note s = lines_of_data_cache [OF assms(1) sp] and nl = new_line_simps(1-3) [OF ct, of t]
  have l2: "is_l2 (new_line c t) = False" using nl(3) data_cacheD(3) [OF assms(1)] by simp
  have none: "set_view ?s t = None" using assms(3) line_view_split [OF sp assms(2)] by simp
  note si = set_view_insert [OF s(2,3,5) none s(4) nl(1) l2 assms(6) _ _ ins, unfolded s(6), OF assms(4,5)]
  have "fill_ok ?s (Some f)" "isValid (new_line c t)" "contents (cs_lines ?s) (m_tag (new_line c t)) = None"
    using assms(4) s(4,6) nl(1) none set_view_None [OF s(2), of t] by (simp_all add: fill_ok_def isValid_def)
  with dispatch.insert_refines [OF s(7) l2 _ _ _ ins] have "set_ok repl_ok False s1" "length (cs_lines s1) = length (cs_lines ?s)"
    by auto
  moreover have "cs_blocksize s1 = cs_blocksize ?s" using ins by (rule CacheSet_insertD) simp
  ultimately have r: "replaces c si s1 c'"
    using si(3) cache_okD(2) [OF data_cacheD(1) [OF assms(1)] sp] data_cacheD(3) [OF assms(1)]
    by (auto simp: replaces_def c' put_set_def cache_set_ok_def)
  have t: "t = drop_bit n a" by (rule split_tag [OF assms(1) sp])
  have "data_cache n c' \<and> line_view n c' =
      (if ev then (line_view n c)(ea := None) else line_view n c)(a \<mapsto> (new_line c t, f)) \<and>
      (ev \<longrightarrow> line_view n c ea = Some (ei, the eb))"
  proof (cases ev)
    case False
    with si(1) have "set_view s1 = (set_view ?s)(t \<mapsto> (new_line c t, f))" by simp
    from replaces_update [OF assms(1) sp assms(2) r this] False show ?thesis by simp
  next
    case True
    note v = si(2) [OF True]
    have ea': "ea = push_bit n (m_tag ei)" using data_cache_log [OF assms(1)] by (simp add: ea tagToAddress_def)
    have "m_tag ei \<noteq> t" "set_view ?s (m_tag ei) \<noteq> None" using v none by auto
    with replaces_insert [OF assms(1) sp assms(2) r, of "m_tag ei" "(new_line c t, f)"] si(1) True v
    show ?thesis by (simp add: ea')
  qed
  then show "data_cache n c'" "line_view n c' =
      (if ev then (line_view n c)(ea := None) else line_view n c)(a \<mapsto> (new_line c (drop_bit n a), f))"
    "ev \<Longrightarrow> line_view n c ea = Some (ei, the eb)" by (simp_all add: t)
qed

text \<open>A new cache is empty.\<close>

lemma Cache_view:
  assumes "Cache cfg True ns assoc bs pol SHARED_CACHE hash None None = Inr c" and "config_ok cfg ns assoc bs hash"
    and "unat bs = 2 ^ n"
  shows "data_cache n c" and "line_view n c = Map.empty"
proof -
  note ok = Cache_ok [OF assms(1,2)]
  from assms(1) obtain cb policy s0 where cb: "CacheBase ns assoc bs hash None = Inr cb"
    and s0: "createCacheSet cfg True policy SHARED_CACHE assoc bs = Inr s0"
    and c: "c_base c = cb" "c_cache_type c = SHARED_CACHE" "c_sets c = replicate (unat ns) s0" "c_fault_injector c = None"
    by (auto simp: Cache_def split: sum.splits)
  have "cs_blocks s0 \<noteq> None"
    using s0 by (auto simp: createCacheSet_def CacheSet_def split: sum.splits if_splits)
  moreover have none: "set_view s t = None" if "s \<in> set (c_sets c)" for s t
  proof -
    have l: "lines_ok False (cs_lines s)"
      using that ok(1) c(2) lines_of_set_ok [of c s] by (simp add: cache_ok_def)
    show ?thesis
      using ok(3) [OF that] by (cases "set_view s t") (auto simp: set_view_Some_iff [OF l] isValid_def)
  qed
  ultimately show "data_cache n c"
    using ok(1) CacheBase_fields [OF cb] assms(3) c by (auto simp: data_cache_def)
  show "line_view n c = Map.empty"
    using none cache_okD(1) [OF ok(1)] by (auto simp: line_view_def fun_eq_iff split: sum.splits)
qed

text \<open>
  C14. Evictions lose no data. Inserting an absent line into a cache that keeps data stores the bytes
  it was given and changes no other line but the one it evicts; the address, the line and the bytes
  it reports for that one are those that the cache held, so that the caller can write them back.
\<close>

theorem evicted_data_reported:
  assumes "data_cache n c" and "take_bit n a = 0" and "peekSingleLine c a = Inr None"
    and "length f = 2 ^ n" and "length b = 2 ^ n" and "CacheBlockInfo_create SHARED_CACHE = Inr ei0"
    and "insertSingleLine c a (Some f) ei0 (Some b) cntlr = Some (Inr (ev, ea, ei, eb, c', cn))"
  shows "data_cache n c' \<and> map_option snd (line_view n c' a) = Some f \<and>
     (ev \<longrightarrow> line_view n c ea = Some (ei, the eb) \<and> line_view n c' ea = None) \<and>
     (\<forall>x. x \<noteq> a \<longrightarrow> (ev \<longrightarrow> x \<noteq> ea) \<longrightarrow> line_view n c' x = line_view n c x)"
proof -
  have none: "line_view n c a = None" using peek_view [OF assms(1-3)] by simp
  have "is_l2 ei0 = False" using assms(6) by (auto simp: CacheBlockInfo_create_def is_l2_def)
  note i = insert_view [OF assms(1,2) none assms(4,5) this assms(7)]
  have "ea \<noteq> a" if ev using i(3) [OF that] none by auto
  with i show ?thesis by auto
qed

text \<open>One set of one way with blocks of two bytes; the line at 4 is there, and the one at 8 replaces it.\<close>

definition small_cache :: cache where
  "small_cache = projr (Cache demo_config True 1 1 2 ''lru'' SHARED_CACHE HASH_MASK None None)"

definition small_line :: cache_block_info where
  "small_line = projr (CacheBlockInfo_create SHARED_CACHE)"

definition small_fill :: "cache \<Rightarrow> intptr \<Rightarrow> byte list \<Rightarrow>
    bool \<times> intptr \<times> cache_block_info \<times> byte list option \<times> cache \<times> cache_cntlr option" where
  "small_fill c a f = projr (the (insertSingleLine c a (Some f) small_line (Some [0, 0]) None))"

definition small_full :: cache where
  "small_full = fst (snd (snd (snd (snd (small_fill small_cache 4 [1, 2])))))"

lemma small_new: "Cache demo_config True 1 1 2 ''lru'' SHARED_CACHE HASH_MASK None None = Inr small_cache"
  by code_simp

lemma small_line: "CacheBlockInfo_create SHARED_CACHE = Inr small_line"
  by code_simp

lemma small_peek: "peekSingleLine small_full 8 = Inr None"
  by code_simp

lemma small_inserts:
  "case insertSingleLine small_cache 4 (Some [1, 2]) small_line (Some [0, 0]) None of Some (Inr _) \<Rightarrow> True | _ \<Rightarrow> False"
  "case insertSingleLine small_full 8 (Some [3, 4]) small_line (Some [0, 0]) None of
     Some (Inr (ev, ea, _, eb, _)) \<Rightarrow> ev \<and> ea = 4 \<and> eb = Some [1, 2] | _ \<Rightarrow> False"
  by code_simp+

lemma small_first:
  obtains ev ea ei eb cn where
    "insertSingleLine small_cache 4 (Some [1, 2]) small_line (Some [0, 0]) None = Some (Inr (ev, ea, ei, eb, small_full, cn))"
  using small_inserts(1)
  by (auto simp: small_full_def small_fill_def split: option.splits sum.splits)

lemma small_full_data: "data_cache 1 small_full"
proof -
  have "config_ok demo_config 1 1 2 HASH_MASK" by (simp add: config_ok_def demo_config_def)
  then have new: "data_cache 1 small_cache" "line_view 1 small_cache = Map.empty"
    using Cache_view [OF small_new, of 1] by simp_all
  from small_first obtain ev ea ei eb cn where
    ins: "insertSingleLine small_cache 4 (Some [1, 2]) small_line (Some [0, 0]) None = Some (Inr (ev, ea, ei, eb, small_full, cn))" .
  have "take_bit 1 (4 :: u64) = 0" "is_l2 small_line = False"
    by (simp_all add: small_line_def CacheBlockInfo_create_def is_l2_def)
  from insert_view(1) [OF new(1) this(1) _ _ _ this(2) ins] new(2) show ?thesis by simp
qed

theorem evicted_data_reported_witness:
  "\<exists>ei c'. line_view 1 small_full 4 = Some (ei, [1, 2]) \<and> line_view 1 c' 4 = None \<and>
     map_option snd (line_view 1 c' 8) = Some [3, 4]"
proof -
  from small_inserts(2) obtain ei c' cn where
    ins: "insertSingleLine small_full 8 (Some [3, 4]) small_line (Some [0, 0]) None = Some (Inr (True, 4, ei, Some [1, 2], c', cn))"
    by (auto split: option.splits sum.splits)
  have "take_bit 1 (8 :: u64) = 0" by simp
  from evicted_data_reported [OF small_full_data this small_peek _ _ small_line ins] show ?thesis by auto
qed

end
