(* ===== verification/Subsecond_Time.thy ===== *)
theory Subsecond_Time
  imports Bits
begin

text \<open>
  Simulated time (\<^verbatim>\<open>common/misc/subsecond_time.h\<close>): a 64-bit number of femtoseconds,
  with the conversions between time and cycles of a component, and the elapsed times of
  \<^verbatim>\<open>performance_model/shmem_perf_model.cc\<close>. Sums and products wrap as they do in the
  code.
\<close>

section \<open>Model\<close>

type_synonym subsecond = u64

definition ST_PS :: "u64 \<Rightarrow> subsecond" where "ST_PS ps = ps * 1000"
definition ST_NS :: "u64 \<Rightarrow> subsecond" where "ST_NS ns = ns * 1000000"
definition ST_US :: "u64 \<Rightarrow> subsecond" where "ST_US us = us * 1000000000"
definition ST_SEC :: "u64 \<Rightarrow> subsecond" where "ST_SEC sec = sec * 1000000000000000"
definition ST_getPS :: "subsecond \<Rightarrow> u64" where "ST_getPS t = t div 1000"
definition ST_getNS :: "subsecond \<Rightarrow> u64" where "ST_getNS t = t div 1000000"

abbreviation ST_MaxTime :: subsecond where
  "ST_MaxTime \<equiv> - 1"

definition div64 :: "u64 \<Rightarrow> u64 \<Rightarrow> u64 result" where
  "div64 a b = (if b = 0 then Inl Div_By_Zero else Inr (a div b))"

definition divideRounded :: "subsecond \<Rightarrow> subsecond \<Rightarrow> u64 result" where
  "divideRounded lhs rhs = div64 (lhs + ((rhs div 2) + 1)) rhs"

text \<open>A \<^verbatim>\<open>ComponentPeriod\<close> is its period.\<close>

definition fromFreqHz :: "u64 \<Rightarrow> subsecond result" where
  "fromFreqHz freq_in_hz = div64 (ST_SEC 1) freq_in_hz"

definition getPeriodInFreqMHz :: "subsecond \<Rightarrow> u64 result" where
  "getPeriodInFreqMHz m_period = div64 1000000000 m_period"

definition cyclesToSubsecondTime :: "subsecond \<Rightarrow> u64 \<Rightarrow> subsecond" where
  "cyclesToSubsecondTime m_period cycles = m_period * cycles"

definition subsecondTimeToCycles :: "subsecond \<Rightarrow> subsecond \<Rightarrow> u64 result" where
  "subsecondTimeToCycles m_period time = div64 time m_period"

text \<open>\<^verbatim>\<open>ComponentBandwidth\<close>: bits per microsecond.\<close>

definition bw_getLatency :: "u64 \<Rightarrow> u64 \<Rightarrow> subsecond result" where
  "bw_getLatency m_bw bits_transmitted = div64 (bits_transmitted * ST_US 1) m_bw"

definition bw_getRoundedLatency :: "u64 \<Rightarrow> u64 \<Rightarrow> subsecond result" where
  "bw_getRoundedLatency m_bw bits_transmitted =
     div64 ((bits_transmitted * ST_US 1) + (ST_US 1 div 2)) m_bw"

text \<open>\<^verbatim>\<open>ComponentBandwidthPerCycle\<close>: period and bits per cycle.\<close>

definition bwc_getLatency :: "subsecond \<Rightarrow> u64 \<Rightarrow> u64 \<Rightarrow> subsecond result" where
  "bwc_getLatency m_period m_bw bits_transmitted = div64 (bits_transmitted * m_period) m_bw"

definition bwc_getRoundedLatency :: "subsecond \<Rightarrow> u64 \<Rightarrow> u64 \<Rightarrow> subsecond result" where
  "bwc_getRoundedLatency m_period m_bw bits_transmitted =
     div64 ((bits_transmitted * m_period) + (m_period div 2)) m_bw"

text \<open>\<^verbatim>\<open>ComponentLatency\<close>: period and fixed number of cycles.\<close>

definition cl_getLatency :: "subsecond \<Rightarrow> u64 \<Rightarrow> subsecond" where
  "cl_getLatency m_period m_fixed_cycle_latency = m_period * m_fixed_cycle_latency"

text \<open>\<^verbatim>\<open>ComponentTime\<close>\<close>

record component_time =
  ct_period :: subsecond
  ct_time :: subsecond

definition ComponentTime :: "subsecond \<Rightarrow> component_time" where
  "ComponentTime base_period = \<lparr>ct_period = base_period, ct_time = 0\<rparr>"

definition addCycleLatency :: "component_time \<Rightarrow> u64 \<Rightarrow> component_time" where
  "addCycleLatency ct num_cycles = ct\<lparr>ct_time := ct_time ct + ct_period ct * num_cycles\<rparr>"

definition addLatency :: "component_time \<Rightarrow> subsecond \<Rightarrow> component_time" where
  "addLatency ct time_to_add = ct\<lparr>ct_time := ct_time ct + time_to_add\<rparr>"

definition reset_time :: "component_time \<Rightarrow> component_time" where
  "reset_time ct = ct\<lparr>ct_time := 0\<rparr>"

definition getCycleCount :: "component_time \<Rightarrow> u64 result" where
  "getCycleCount ct = divideRounded (ct_time ct) (ct_period ct)"

section \<open>Elapsed times of the memory subsystem\<close>

datatype spm_thread = USER_THREAD | SIM_THREAD

record shmem_perf_model =
  spm_user :: subsecond
  spm_sim :: subsecond
  spm_enabled :: bool
  spm_num_memory_accesses :: u64
  spm_total_memory_access_latency :: subsecond

definition ShmemPerfModel :: shmem_perf_model where
  "ShmemPerfModel = \<lparr>spm_user = 0, spm_sim = 0, spm_enabled = False,
     spm_num_memory_accesses = 0, spm_total_memory_access_latency = 0\<rparr>"

definition spm_getElapsedTime :: "shmem_perf_model \<Rightarrow> spm_thread \<Rightarrow> subsecond" where
  "spm_getElapsedTime m thread_num = (case thread_num of USER_THREAD \<Rightarrow> spm_user m | SIM_THREAD \<Rightarrow> spm_sim m)"

definition spm_setElapsedTime :: "shmem_perf_model \<Rightarrow> spm_thread \<Rightarrow> subsecond \<Rightarrow> shmem_perf_model" where
  "spm_setElapsedTime m thread_num time =
     (case thread_num of USER_THREAD \<Rightarrow> m\<lparr>spm_user := time\<rparr> | SIM_THREAD \<Rightarrow> m\<lparr>spm_sim := time\<rparr>)"

definition spm_updateElapsedTime :: "shmem_perf_model \<Rightarrow> subsecond \<Rightarrow> spm_thread \<Rightarrow> shmem_perf_model" where
  "spm_updateElapsedTime m time thread_num =
     (if spm_getElapsedTime m thread_num < time then spm_setElapsedTime m thread_num time else m)"

definition spm_incrElapsedTime ::
  "shmem_perf_model \<Rightarrow> subsecond \<Rightarrow> spm_thread \<Rightarrow> shmem_perf_model result" where
  "spm_incrElapsedTime m time thread_num =
     (let i_elapsed_time = spm_getElapsedTime m thread_num;
          t_elapsed_time = i_elapsed_time + time
      in bindR (assertR (t_elapsed_time \<ge> i_elapsed_time)) (\<lambda>_.
           Inr (spm_setElapsedTime m thread_num t_elapsed_time)))"

definition spm_incrTotalMemoryAccessLatency :: "shmem_perf_model \<Rightarrow> subsecond \<Rightarrow> shmem_perf_model" where
  "spm_incrTotalMemoryAccessLatency m shmem_time =
     (if spm_enabled m
      then m\<lparr>spm_num_memory_accesses := spm_num_memory_accesses m + 1,
             spm_total_memory_access_latency := spm_total_memory_access_latency m + shmem_time\<rparr>
      else m)"

section \<open>Properties\<close>

lemma unat_mult_u64: "unat a * unat b < 2 ^ 64 \<Longrightarrow> unat (a * b :: u64) = unat a * unat b"
  by (simp add: unat_word_ariths)

lemma unat_add_u64: "unat a + unat b < 2 ^ 64 \<Longrightarrow> unat (a + b :: u64) = unat a + unat b"
  by (simp add: unat_word_ariths)

lemma div64_Inr: "div64 a b = Inr q \<longleftrightarrow> b \<noteq> 0 \<and> q = a div b"
  by (auto simp: div64_def)

text \<open>
  C30. Cycles to time and back: converting a number of cycles to time and back returns the
  number of cycles, unless the product exceeds 64 bits.
\<close>

theorem cycles_time_cycles:
  assumes "m_period \<noteq> 0" and "unat m_period * unat cycles < 2 ^ 64"
  shows "subsecondTimeToCycles m_period (cyclesToSubsecondTime m_period cycles) = Inr cycles"
proof -
  have "0 < unat m_period" using assms(1) by (simp add: unat_gt_0)
  then have "unat ((m_period * cycles) div m_period) = unat cycles"
    using unat_mult_u64 [OF assms(2)] by (simp add: unat_div_distrib)
  then show ?thesis
    using assms(1) by (simp add: subsecondTimeToCycles_def cyclesToSubsecondTime_def div64_def word_unat_eq_iff)
qed

lemma cycles_time_cycles_witness:
  "subsecondTimeToCycles 500000 (cyclesToSubsecondTime 500000 42) = Inr 42"
  by (rule cycles_time_cycles) simp_all

text \<open>
  \<^verbatim>\<open>divideRounded\<close>, which counts the cycles of a component, is exact on whole cycles
  only for a period of at least three femtoseconds: the rounding term is one more than half
  the period, so for periods of one and two femtoseconds a whole number of cycles is counted
  as one cycle more.
\<close>

theorem divideRounded_exact_iff:
  assumes "P \<noteq> 0" and "unat k * unat P + unat P + 1 < 2 ^ 64"
  shows "divideRounded (k * P) P = Inr k \<longleftrightarrow> 3 \<le> unat P"
proof -
  let ?p = "unat P" and ?k = "unat k"
  have p: "0 < ?p" using assms(1) by (simp add: unat_gt_0)
  have half: "unat (P div 2 + 1) = ?p div 2 + 1"
    by (subst unat_add_u64) (use assms(2) in \<open>auto simp: unat_div_distrib\<close>)
  have prod: "unat (k * P) = ?k * ?p" by (rule unat_mult_u64) (use assms(2) in simp)
  have "?p div 2 \<le> ?p" by simp
  then have "unat (k * P + (P div 2 + 1)) = ?k * ?p + (?p div 2 + 1)"
    by (subst unat_add_u64) (use assms(2) in \<open>simp_all add: half prod\<close>)
  then have "unat ((k * P + (P div 2 + 1)) div P) = ?k + (?p div 2 + 1) div ?p"
    using p div_mult_self4 [of ?p ?k "?p div 2 + 1"]
    by (simp only: unat_div_distrib) (simp add: mult.commute)
  then have "divideRounded (k * P) P = Inr k \<longleftrightarrow> (?p div 2 + 1) div ?p = 0"
    using assms(1) by (auto simp: divideRounded_def div64_def word_unat_eq_iff)
  also have "\<dots> \<longleftrightarrow> ?p div 2 + 1 < ?p" using p by (simp add: div_eq_0_iff)
  also have "\<dots> \<longleftrightarrow> 3 \<le> ?p" by auto
  finally show ?thesis .
qed

lemma divideRounded_exact_iff_witness:
  "divideRounded (7 * 500000) 500000 = Inr 7 \<and> divideRounded (7 * 2) 2 \<noteq> Inr 7"
  using divideRounded_exact_iff [of 500000 7] divideRounded_exact_iff [of 2 7] by simp

end
