(* ===== verification/Moving_Average.thy ===== *)
theory Moving_Average
  imports Subsecond_Time
begin

text \<open>
  The moving averages of \<^verbatim>\<open>common/misc/moving_average.h\<close>: a ring buffer indexed by
  the modular numbers of \<^verbatim>\<open>common/misc/modulo_num.cc\<close>, shown to hold the most recent
  values in the order they arrived.
\<close>

section \<open>Modular numbers\<close>

record modulo_num =
  mn_value :: u32
  mn_max_value :: u32

definition ModuloNum :: "u32 \<Rightarrow> u32 \<Rightarrow> modulo_num" where
  "ModuloNum max_value value = \<lparr>mn_value = value, mn_max_value = max_value\<rparr>"

definition mod32 :: "u32 \<Rightarrow> u32 \<Rightarrow> u32 result" where
  "mod32 a b = (if b = 0 then Inl Div_By_Zero else Inr (a mod b))"

definition mn_plus :: "modulo_num \<Rightarrow> modulo_num \<Rightarrow> modulo_num result" where
  "mn_plus a num =
     bindR (assertR (mn_max_value a = mn_max_value num)) (\<lambda>_.
     bindR (mod32 (mn_value a + mn_value num) (mn_max_value a)) (\<lambda>v.
     Inr (ModuloNum (mn_max_value a) v)))"

definition mn_minus :: "modulo_num \<Rightarrow> modulo_num \<Rightarrow> modulo_num result" where
  "mn_minus a num =
     bindR (assertR (mn_max_value a = mn_max_value num)) (\<lambda>_.
     Inr (ModuloNum (mn_max_value a)
       (if mn_value a \<ge> mn_value num then mn_value a - mn_value num
        else mn_max_value a - mn_value num + mn_value a)))"

definition mn_plus_int :: "modulo_num \<Rightarrow> u32 \<Rightarrow> modulo_num result" where
  "mn_plus_int a value =
     bindR (mod32 value (mn_max_value a)) (\<lambda>v. mn_plus a (ModuloNum (mn_max_value a) v))"

definition mn_minus_int :: "modulo_num \<Rightarrow> u32 \<Rightarrow> modulo_num result" where
  "mn_minus_int a value =
     bindR (mod32 value (mn_max_value a)) (\<lambda>v. mn_minus a (ModuloNum (mn_max_value a) v))"

section \<open>Moving averages\<close>

datatype avg_type = ARITHMETIC_MEAN | GEOMETRIC_MEAN | MEDIAN

text \<open>The class hierarchy as one record; \<open>ma_sum\<close> belongs to the arithmetic mean.\<close>

record moving_average =
  ma_type :: avg_type
  ma_num_list :: "u64 list"
  ma_max_window_size :: u32
  ma_front :: modulo_num
  ma_back :: modulo_num
  ma_sum :: u64

definition parseAvgType :: "string \<Rightarrow> avg_type result" where
  "parseAvgType avg_type =
     (if avg_type = ''arithmetic_mean'' then Inr ARITHMETIC_MEAN
      else if avg_type = ''geometric_mean'' then Inr GEOMETRIC_MEAN
      else if avg_type = ''median'' then Inr MEDIAN
      else Inl Log_Error)"

definition createAvgType :: "avg_type \<Rightarrow> u32 \<Rightarrow> moving_average" where
  "createAvgType avg_type max_window_size =
     \<lparr>ma_type = avg_type, ma_num_list = replicate (unat (max_window_size + 1)) 0,
      ma_max_window_size = max_window_size,
      ma_front = ModuloNum (max_window_size + 1) 0,
      ma_back = ModuloNum (max_window_size + 1) 0, ma_sum = 0\<rparr>"

definition ma_at :: "moving_average \<Rightarrow> modulo_num \<Rightarrow> u64 result" where
  "ma_at m i = (if unat (mn_value i) < length (ma_num_list m)
     then Inr (ma_num_list m ! unat (mn_value i)) else Inl Out_Of_Range)"

definition addToWindow :: "moving_average \<Rightarrow> u64 \<Rightarrow> moving_average result" where
  "addToWindow m next_num =
     bindR (ma_at m (ma_back m)) (\<lambda>_.
     bindR (mn_plus_int (ma_back m) 1) (\<lambda>back.
     let m' = m\<lparr>ma_num_list := (ma_num_list m)[unat (mn_value (ma_back m)) := next_num], ma_back := back\<rparr>
     in if back = ma_front m
        then bindR (mn_plus_int (ma_front m) 1) (\<lambda>front. Inr (m'\<lparr>ma_front := front\<rparr>))
        else Inr m'))"

definition curr_window_size :: "moving_average \<Rightarrow> u32 result" where
  "curr_window_size m = bindR (mn_minus (ma_back m) (ma_front m)) (\<lambda>d. Inr (mn_value d))"

definition ma_update :: "moving_average \<Rightarrow> u64 \<Rightarrow> moving_average result" where
  "ma_update m next_num =
     (case ma_type m of
        ARITHMETIC_MEAN \<Rightarrow>
          bindR (curr_window_size m) (\<lambda>n.
          bindR (if n = ma_max_window_size m
                 then bindR (ma_at m (ma_front m)) (\<lambda>x. Inr (ma_sum m - x))
                 else Inr (ma_sum m)) (\<lambda>sum.
          addToWindow (m\<lparr>ma_sum := sum + next_num\<rparr>) next_num))
      | _ \<Rightarrow> addToWindow m next_num)"

text \<open>
  The product of the window from one modular number up to another, as the loop of the
  geometric mean computes it. The number of iterations is bounded by the size of the ring.
\<close>

fun window_product :: "nat \<Rightarrow> moving_average \<Rightarrow> modulo_num \<Rightarrow> u64 \<Rightarrow> u64 result" where
  "window_product 0 m curr_num acc = Inr acc"
| "window_product (Suc k) m curr_num acc =
     (if curr_num = ma_back m then Inr acc
      else bindR (ma_at m curr_num) (\<lambda>x.
           bindR (mn_plus_int curr_num 1) (\<lambda>curr_num'.
           window_product k m curr_num' (acc * x))))"

text \<open>\<open>root\<close> is the floating-point \<^verbatim>\<open>pow(x, 1.0/n)\<close> of the C library.\<close>

definition ma_compute :: "(u64 \<Rightarrow> u32 \<Rightarrow> u64) \<Rightarrow> moving_average \<Rightarrow> u64 result" where
  "ma_compute root m =
     bindR (curr_window_size m) (\<lambda>n.
     case ma_type m of
       ARITHMETIC_MEAN \<Rightarrow> div64 (ma_sum m) (ucast n)
     | GEOMETRIC_MEAN \<Rightarrow>
         bindR (window_product (length (ma_num_list m)) m (ma_front m) 1) (\<lambda>p. Inr (root p n))
     | MEDIAN \<Rightarrow>
         bindR (mn_plus_int (ma_front m) (n div 2)) (\<lambda>median_index. ma_at m median_index))"

definition ma_compute_next ::
  "(u64 \<Rightarrow> u32 \<Rightarrow> u64) \<Rightarrow> moving_average \<Rightarrow> u64 \<Rightarrow> (u64 \<times> moving_average) result" where
  "ma_compute_next root m next_num =
     bindR (ma_update m next_num) (\<lambda>m'. bindR (ma_compute root m') (\<lambda>a. Inr (a, m')))"

text \<open>\<^verbatim>\<open>QueueModelBasic\<close>: the reference time is the moving average, if there is one.\<close>

record queue_model_basic =
  qb_queue_time :: subsecond
  qb_moving_average :: "moving_average option"

definition QueueModelBasic :: "bool \<Rightarrow> u32 \<Rightarrow> string \<Rightarrow> queue_model_basic result" where
  "QueueModelBasic moving_avg_enabled moving_avg_window_size moving_avg_type_str =
     (if moving_avg_enabled
      then bindR (parseAvgType moving_avg_type_str) (\<lambda>ty.
           Inr \<lparr>qb_queue_time = 0, qb_moving_average = Some (createAvgType ty moving_avg_window_size)\<rparr>)
      else Inr \<lparr>qb_queue_time = 0, qb_moving_average = None\<rparr>)"

definition qb_computeQueueDelay ::
  "(u64 \<Rightarrow> u32 \<Rightarrow> u64) \<Rightarrow> queue_model_basic \<Rightarrow> subsecond \<Rightarrow> subsecond \<Rightarrow>
     (subsecond \<times> queue_model_basic) result" where
  "qb_computeQueueDelay root q pkt_time processing_time =
     bindR (case qb_moving_average q of
              Some m \<Rightarrow> bindR (ma_compute_next root m pkt_time) (\<lambda>(a, m'). Inr (a, Some m'))
            | None \<Rightarrow> Inr (pkt_time, None)) (\<lambda>(ref_time, avg).
     let queue_delay = (if qb_queue_time q > ref_time then qb_queue_time q - ref_time else 0)
     in Inr (queue_delay,
             \<lparr>qb_queue_time = max (qb_queue_time q) ref_time + processing_time,
              qb_moving_average = avg\<rparr>))"

fun ma_updates :: "moving_average \<Rightarrow> u64 list \<Rightarrow> moving_average result" where
  "ma_updates m [] = Inr m"
| "ma_updates m (x # xs) = bindR (ma_update m x) (\<lambda>m'. ma_updates m' xs)"

section \<open>The ring buffer holds the most recent values\<close>

abbreviation front_pos :: "moving_average \<Rightarrow> nat" where
  "front_pos m \<equiv> unat (mn_value (ma_front m))"

abbreviation back_pos :: "moving_average \<Rightarrow> nat" where
  "back_pos m \<equiv> unat (mn_value (ma_back m))"

definition ring_ok :: "moving_average \<Rightarrow> bool" where
  "ring_ok m \<longleftrightarrow> unat (ma_max_window_size m) + 1 < 2 ^ 32 \<and>
     length (ma_num_list m) = unat (ma_max_window_size m) + 1 \<and>
     mn_max_value (ma_front m) = ma_max_window_size m + 1 \<and>
     mn_max_value (ma_back m) = ma_max_window_size m + 1 \<and>
     front_pos m < length (ma_num_list m) \<and> back_pos m < length (ma_num_list m)"

definition win_size :: "moving_average \<Rightarrow> nat" where
  "win_size m = ring_size (length (ma_num_list m)) (front_pos m) (back_pos m)"

definition window :: "moving_average \<Rightarrow> u64 list" where
  "window m = ring (ma_num_list m) (front_pos m) (win_size m)"

lemma unat_Suc_u32: "unat n + 1 < 2 ^ 32 \<Longrightarrow> unat (n + 1 :: u32) = unat n + 1"
  by (simp add: unat_word_ariths)

lemma mn_plus_int_eq:
  assumes "unat (mn_max_value a) = M" and "0 < M" and "unat (mn_value a) + unat v mod M < 2 ^ 32"
  shows "\<exists>w. mn_plus_int a v = Inr (ModuloNum (mn_max_value a) w) \<and>
    unat w = (unat (mn_value a) + unat v) mod M"
proof -
  have nz: "mn_max_value a \<noteq> 0" using assms(1,2) by auto
  have "unat (mn_value a + v mod mn_max_value a) = unat (mn_value a) + unat v mod M"
    using assms(1,3) by (simp add: unat_word_ariths unat_mod_distrib)
  then have "unat ((mn_value a + v mod mn_max_value a) mod mn_max_value a)
      = (unat (mn_value a) + unat v) mod M"
    using assms(1) by (simp add: unat_mod_distrib mod_add_right_eq)
  then show ?thesis using nz by (simp add: mn_plus_int_def mn_plus_def mod32_def ModuloNum_def)
qed

lemma mn_step:
  assumes "unat (mn_max_value a) = M" and "unat (mn_value a) < M"
  shows "\<exists>w. mn_plus_int a 1 = Inr (ModuloNum (mn_max_value a) w) \<and>
    unat w = Suc (unat (mn_value a)) mod M"
proof -
  have M: "M < 2 ^ 32" using assms(1) unat_u32_less by metis
  have "unat (mn_value a) + 1 mod M \<le> M"
    using assms(2) by (cases "M = 1") (simp_all add: mod_less_eq_dividend)
  then show ?thesis using mn_plus_int_eq [of a M 1] assms M by simp
qed

lemma ring_okD:
  assumes "ring_ok m"
  shows "0 < length (ma_num_list m)" and "length (ma_num_list m) < 2 ^ 32"
    and "unat (mn_max_value (ma_front m)) = length (ma_num_list m)"
    and "unat (mn_max_value (ma_back m)) = length (ma_num_list m)"
    and "front_pos m < length (ma_num_list m)" and "back_pos m < length (ma_num_list m)"
    and "mn_max_value (ma_back m) = mn_max_value (ma_front m)"
  using assms by (auto simp: ring_ok_def unat_Suc_u32)

lemma curr_window_size_eq:
  assumes "ring_ok m"
  shows "\<exists>n. curr_window_size m = Inr n \<and> unat n = win_size m"
proof -
  note r = ring_okD [OF assms]
  let ?v = "if mn_value (ma_back m) \<ge> mn_value (ma_front m)
    then mn_value (ma_back m) - mn_value (ma_front m)
    else mn_max_value (ma_back m) - mn_value (ma_front m) + mn_value (ma_back m)"
  have "unat ?v = win_size m"
  proof (cases "mn_value (ma_front m) \<le> mn_value (ma_back m)")
    case True
    then have le: "front_pos m \<le> back_pos m" by (simp add: word_le_nat_alt)
    then have "win_size m = back_pos m - front_pos m"
      unfolding win_size_def using r(6) by (rule ring_size_le)
    then show ?thesis using True le r by (simp add: unat_sub)
  next
    case False
    then have gt: "back_pos m < front_pos m" by (simp add: word_le_nat_alt)
    have "mn_value (ma_front m) \<le> mn_max_value (ma_back m)"
      using r by (simp add: word_le_nat_alt)
    then have "unat (mn_max_value (ma_back m) - mn_value (ma_front m))
        = length (ma_num_list m) - front_pos m" using r by (simp add: unat_sub)
    moreover have "length (ma_num_list m) - front_pos m + back_pos m < length (ma_num_list m)"
      using gt r by linarith
    ultimately have "unat (mn_max_value (ma_back m) - mn_value (ma_front m) + mn_value (ma_back m))
        = length (ma_num_list m) - front_pos m + back_pos m"
      using r(2) by (simp add: unat_word_ariths)
    moreover have "win_size m = length (ma_num_list m) - front_pos m + back_pos m"
      unfolding win_size_def using gt r(5) by (rule ring_size_gt)
    ultimately show ?thesis using False by simp
  qed
  then show ?thesis using r(7) by (simp add: curr_window_size_def mn_minus_def ModuloNum_def)
qed

lemma win_size_less: "ring_ok m \<Longrightarrow> win_size m < length (ma_num_list m)"
  unfolding win_size_def using ring_okD(1) by (rule ring_size_less)

lemma back_of_size:
  assumes "ring_ok m"
  shows "back_pos m = (front_pos m + win_size m) mod length (ma_num_list m)"
  using ring_size_end [OF ring_okD(5,6) [OF assms]] by (simp add: win_size_def)

lemma win_size_eqI:
  assumes "ring_ok m" and "back_pos m = (front_pos m + k) mod length (ma_num_list m)"
    and "k < length (ma_num_list m)"
  shows "win_size m = k"
  unfolding win_size_def using ring_size_eqI [OF ring_okD(5) [OF assms(1)] assms(2,3)] .

text \<open>The ring after writing one value behind the window.\<close>

lemma window_written:
  assumes "ring_ok m"
  shows "ring ((ma_num_list m)[back_pos m := x]) (front_pos m) (Suc (win_size m)) = window m @ [x]"
  using ring_write [OF win_size_less [OF assms]] by (simp add: window_def back_of_size [OF assms])

lemma addToWindow_room:
  assumes ok: "ring_ok m" and room: "win_size m < unat (ma_max_window_size m)"
  shows "\<exists>m'. addToWindow m x = Inr m' \<and> ring_ok m' \<and> window m' = window m @ [x] \<and>
    ma_type m' = ma_type m \<and> ma_sum m' = ma_sum m \<and> ma_max_window_size m' = ma_max_window_size m"
proof -
  note r = ring_okD [OF ok] and b = back_of_size [OF ok]
  let ?M = "length (ma_num_list m)"
  obtain w where w: "mn_plus_int (ma_back m) 1 = Inr (ModuloNum (mn_max_value (ma_back m)) w)"
    "unat w = Suc (back_pos m) mod ?M" using mn_step [OF r(4,6)] by blast
  have sM: "Suc (win_size m) < ?M" using ok room by (simp add: ring_ok_def)
  have uw: "unat w = (front_pos m + Suc (win_size m)) mod ?M"
    unfolding w(2) b by (simp add: mod_Suc_eq)
  have "unat w \<noteq> front_pos m"
    using mod_add_cancel [of "Suc (win_size m)" ?M 0 "front_pos m"] sM r(1,5)
    by (simp add: uw)
  then have "ModuloNum (mn_max_value (ma_back m)) w \<noteq> ma_front m"
    unfolding ModuloNum_def by (metis modulo_num.select_convs(1))
  then obtain m' where m': "addToWindow m x = Inr m'"
    "m' = m\<lparr>ma_num_list := (ma_num_list m)[back_pos m := x], ma_back := ModuloNum (mn_max_value (ma_back m)) w\<rparr>"
    using r(6) by (simp add: addToWindow_def ma_at_def w(1))
  have ok': "ring_ok m'" using ok r(1) by (auto simp: m'(2) ring_ok_def ModuloNum_def uw)
  have "win_size m' = Suc (win_size m)"
    by (rule win_size_eqI [OF ok']) (use uw sM in \<open>simp_all add: m'(2) ModuloNum_def\<close>)
  then have "window m' = window m @ [x]"
    unfolding window_def [of m'] window_written [OF ok, symmetric] by (simp add: m'(2))
  with m' ok' show ?thesis by simp
qed

lemma addToWindow_full:
  assumes ok: "ring_ok m" and full: "win_size m = unat (ma_max_window_size m)"
  shows "\<exists>m'. addToWindow m x = Inr m' \<and> ring_ok m' \<and> window m' = tl (window m @ [x]) \<and>
    ma_type m' = ma_type m \<and> ma_sum m' = ma_sum m \<and> ma_max_window_size m' = ma_max_window_size m"
proof -
  note r = ring_okD [OF ok] and b = back_of_size [OF ok]
  let ?M = "length (ma_num_list m)"
  obtain w where w: "mn_plus_int (ma_back m) 1 = Inr (ModuloNum (mn_max_value (ma_back m)) w)"
    "unat w = Suc (back_pos m) mod ?M" using mn_step [OF r(4,6)] by blast
  obtain v where v: "mn_plus_int (ma_front m) 1 = Inr (ModuloNum (mn_max_value (ma_front m)) v)"
    "unat v = Suc (front_pos m) mod ?M" using mn_step [OF r(3,5)] by blast
  have M: "?M = Suc (win_size m)" using ok full by (simp add: ring_ok_def)
  have "unat w = (front_pos m + ?M) mod ?M" unfolding w(2) b M by (simp add: mod_Suc_eq)
  then have "unat w = front_pos m" using r(5) by simp
  then have wf: "w = mn_value (ma_front m)" by (simp add: word_unat_eq_iff)
  then have "ModuloNum (mn_max_value (ma_back m)) w = ma_front m" using r(7) by (simp add: ModuloNum_def)
  then obtain m' where m': "addToWindow m x = Inr m'"
    "m' = m\<lparr>ma_num_list := (ma_num_list m)[back_pos m := x], ma_back := ma_front m,
      ma_front := ModuloNum (mn_max_value (ma_front m)) v\<rparr>"
    using r(6) by (simp add: addToWindow_def ma_at_def w(1) v(1))
  have ok': "ring_ok m'" using ok r(1) by (auto simp: m'(2) ring_ok_def ModuloNum_def v(2))
  have "front_pos m = (Suc (front_pos m) + win_size m) mod ?M"
    using r(5) mod_add_self2 [of "front_pos m" ?M] by (simp only: M) simp
  then have "win_size m' = win_size m"
    by (intro win_size_eqI [OF ok'])
      (simp_all add: m'(2) ModuloNum_def v(2) mod_add_left_eq M del: mod_Suc_eq)
  then have "window m' = tl (window m @ [x])"
    unfolding window_def [of m'] window_written [OF ok, symmetric] ring_advance
    by (simp add: m'(2) ModuloNum_def v(2))
  with m' ok' show ?thesis by simp
qed

section \<open>The averages\<close>

definition recent :: "nat \<Rightarrow> 'a list \<Rightarrow> 'a list" where
  "recent n xs = drop (length xs - n) xs"

lemma recent_snoc:
  "recent n (xs @ [x]) = (if length (recent n xs) = n then tl (recent n xs @ [x]) else recent n xs @ [x])"
proof (cases "n \<le> length xs")
  case True
  then have "length (xs @ [x]) - n = Suc (length xs - n)" by simp
  then have "recent n (xs @ [x]) = tl (drop (length xs - n) (xs @ [x]))"
    unfolding recent_def by (metis drop_Suc tl_drop)
  then show ?thesis using True by (simp add: recent_def)
next
  case False
  then show ?thesis by (simp add: recent_def)
qed

lemma length_window [simp]: "length (window m) = win_size m"
  by (simp add: window_def)

lemma window_nth: "i < win_size m \<Longrightarrow>
  window m ! i = ma_num_list m ! ((front_pos m + i) mod length (ma_num_list m))"
  by (simp add: window_def ring_nth)

definition recent_ok :: "moving_average \<Rightarrow> u64 list \<Rightarrow> bool" where
  "recent_ok m xs \<longleftrightarrow> ring_ok m \<and> window m = recent (unat (ma_max_window_size m)) xs \<and>
     (ma_type m = ARITHMETIC_MEAN \<longrightarrow> ma_sum m = sum_list (window m))"

lemma win_size_le: "ring_ok m \<Longrightarrow> win_size m \<le> unat (ma_max_window_size m)"
  using win_size_less [of m] by (simp add: ring_ok_def)

lemma addToWindow_recent:
  assumes ok: "ring_ok m" and w: "window m = recent (unat (ma_max_window_size m)) xs"
  shows "\<exists>m'. addToWindow m x = Inr m' \<and> ring_ok m' \<and>
    window m' = recent (unat (ma_max_window_size m)) (xs @ [x]) \<and>
    ma_type m' = ma_type m \<and> ma_sum m' = ma_sum m \<and> ma_max_window_size m' = ma_max_window_size m"
proof -
  have l: "length (recent (unat (ma_max_window_size m)) xs) = win_size m"
    using w length_window by metis
  show ?thesis
  proof (cases "win_size m = unat (ma_max_window_size m)")
    case True
    from addToWindow_full [OF ok True, of x] show ?thesis using w l True by (auto simp: recent_snoc)
  next
    case False
    then have "win_size m < unat (ma_max_window_size m)" using win_size_le [OF ok] by simp
    from addToWindow_room [OF ok this, of x] show ?thesis using w l False by (auto simp: recent_snoc)
  qed
qed

lemma ma_update_recent:
  assumes "recent_ok m xs" and "ma_max_window_size m \<noteq> 0"
  shows "\<exists>m'. ma_update m x = Inr m' \<and> recent_ok m' (xs @ [x]) \<and>
    ma_type m' = ma_type m \<and> ma_max_window_size m' = ma_max_window_size m"
proof (cases "ma_type m = ARITHMETIC_MEAN")
  case False
  have "ma_update m x = addToWindow m x" using False by (cases "ma_type m") (simp_all add: ma_update_def)
  then show ?thesis using False assms(1) addToWindow_recent [of m xs x]
    unfolding recent_ok_def by auto
next
  case True
  have ok: "ring_ok m" and w: "window m = recent (unat (ma_max_window_size m)) xs"
    and sum: "ma_sum m = sum_list (window m)" using assms(1) True by (simp_all add: recent_ok_def)
  obtain n where n: "curr_window_size m = Inr n" "unat n = win_size m"
    using curr_window_size_eq [OF ok] by blast
  let ?full = "n = ma_max_window_size m"
  have fulliff: "?full \<longleftrightarrow> length (window m) = unat (ma_max_window_size m)"
    using n(2) by (simp add: word_unat_eq_iff)
  let ?s = "(if ?full then ma_sum m - ma_num_list m ! front_pos m else ma_sum m) + x"
  have upd: "ma_update m x = addToWindow (m\<lparr>ma_sum := ?s\<rparr>) x"
    using True n(1) ring_okD(5) [OF ok] by (simp add: ma_update_def ma_at_def)
  have "0 < unat (ma_max_window_size m)" using assms(2) by (simp add: unat_gt_0)
  then have hd: "?full \<Longrightarrow> window m = ma_num_list m ! front_pos m # tl (window m)"
    using n(2) ring_okD(5) [OF ok] window_nth [of 0 m] by (cases "window m") (auto simp flip: length_window)
  have "?s = sum_list (recent (unat (ma_max_window_size m)) (xs @ [x]))"
  proof (cases ?full)
    case True
    have "sum_list (window m) = ma_num_list m ! front_pos m + sum_list (tl (window m))"
      using hd [OF True] by (metis sum_list.Cons)
    moreover have "tl (window m @ [x]) = tl (window m) @ [x]" using hd [OF True] by (metis append_Cons list.sel(3))
    ultimately show ?thesis using True fulliff sum by (simp add: recent_snoc flip: w)
  next
    case False
    then show ?thesis using fulliff sum by (simp add: recent_snoc flip: w)
  qed
  moreover have "ring_ok (m\<lparr>ma_sum := ?s\<rparr>)" "window (m\<lparr>ma_sum := ?s\<rparr>) = window m"
    using ok by (simp_all add: ring_ok_def window_def win_size_def)
  ultimately show ?thesis
    using addToWindow_recent [of "m\<lparr>ma_sum := ?s\<rparr>" xs x] w upd unfolding recent_ok_def by auto
qed

lemma ma_updates_recent:
  assumes "recent_ok m xs" and "ma_max_window_size m \<noteq> 0"
  shows "\<exists>m'. ma_updates m ys = Inr m' \<and> recent_ok m' (xs @ ys) \<and>
    ma_type m' = ma_type m \<and> ma_max_window_size m' = ma_max_window_size m"
  using assms
proof (induction ys arbitrary: m xs)
  case (Cons y ys)
  obtain m1 where m1: "ma_update m y = Inr m1" "recent_ok m1 (xs @ [y])"
    "ma_type m1 = ma_type m" "ma_max_window_size m1 = ma_max_window_size m"
    using ma_update_recent [OF Cons.prems, of y] by blast
  from Cons.IH [OF m1(2)] m1 Cons.prems(2) show ?case by simp
qed simp

lemma createAvgType_recent:
  assumes "unat n + 1 < 2 ^ 32"
  shows "recent_ok (createAvgType ty n) []"
  using assms unat_Suc_u32 [OF assms]
  by (simp add: recent_ok_def ring_ok_def createAvgType_def ModuloNum_def window_def win_size_def recent_def)

lemma window_product_eq:
  assumes ok: "ring_ok m"
  shows "\<lbrakk>j \<le> win_size m; win_size m - j < k; mn_max_value c = mn_max_value (ma_back m);
      unat (mn_value c) = (front_pos m + j) mod length (ma_num_list m)\<rbrakk>
    \<Longrightarrow> window_product k m c acc = Inr (acc * prod_list (drop j (window m)))"
proof (induction k arbitrary: j c acc)
  case (Suc k)
  note r = ring_okD [OF ok] and b = back_of_size [OF ok] and l = win_size_less [OF ok]
  have "c = ma_back m \<longleftrightarrow> unat (mn_value c) = back_pos m"
    using Suc.prems(3) by (metis modulo_num.equality old.unit.exhaust word_unat_eq_iff)
  also have "\<dots> \<longleftrightarrow> j = win_size m"
    unfolding Suc.prems(4) b using mod_add_cancel [of j _ "win_size m" "front_pos m"] l Suc.prems(1) by simp
  finally have iff: "c = ma_back m \<longleftrightarrow> j = win_size m" .
  show ?case
  proof (cases "j = win_size m")
    case True
    then show ?thesis using iff by simp
  next
    case False
    then have j: "j < win_size m" using Suc.prems(1) by simp
    have lt: "unat (mn_value c) < length (ma_num_list m)" using Suc.prems(4) r(1) by simp
    obtain w where w: "mn_plus_int c 1 = Inr (ModuloNum (mn_max_value c) w)"
      "unat w = Suc (unat (mn_value c)) mod length (ma_num_list m)"
      using mn_step [of c] Suc.prems(3) r(4) lt by auto
    have "unat w = (front_pos m + Suc j) mod length (ma_num_list m)"
      unfolding w(2) Suc.prems(4) by (simp add: mod_Suc_eq)
    then have "window_product k m (ModuloNum (mn_max_value c) w) a
        = Inr (a * prod_list (drop (Suc j) (window m)))" for a
      using j Suc.prems by (intro Suc.IH) (simp_all add: ModuloNum_def)
    moreover have "ma_at m c = Inr (window m ! j)"
      using lt Suc.prems(4) by (simp add: ma_at_def window_nth [OF j])
    moreover have "drop j (window m) = window m ! j # drop (Suc j) (window m)"
      using j by (simp add: Cons_nth_drop_Suc)
    ultimately show ?thesis using False iff w(1) by (simp add: mult.assoc)
  qed
qed simp

text \<open>
  C29. The moving averages average the most recent values: after any non-empty sequence of
  updates the arithmetic mean is the sum of the last \<open>n\<close> values (modulo $2^{64}$) divided by
  their number, the geometric mean takes the root of their product, and the median is the
  middle one in the order of arrival.
\<close>

theorem moving_average_recent:
  assumes "n \<noteq> 0" and "unat n < 2 ^ 31" and "xs \<noteq> []"
  shows "bindR (ma_updates (createAvgType ty n) xs) (ma_compute root) =
    (let w = recent (unat n) xs
     in Inr (case ty of ARITHMETIC_MEAN \<Rightarrow> sum_list w div of_nat (length w)
           | GEOMETRIC_MEAN \<Rightarrow> root (prod_list w) (of_nat (length w))
           | MEDIAN \<Rightarrow> w ! (length w div 2)))"
proof -
  have n31: "unat n + 1 < 2 ^ 32" using assms(2) by simp
  obtain m where m: "ma_updates (createAvgType ty n) xs = Inr m" "recent_ok m xs"
    "ma_type m = ty" "ma_max_window_size m = n"
    using ma_updates_recent [OF createAvgType_recent [OF n31, of ty], of xs] assms(1)
    by (auto simp: createAvgType_def)
  then have ok: "ring_ok m" and w: "window m = recent (unat n) xs"
    and sum: "ty = ARITHMETIC_MEAN \<Longrightarrow> ma_sum m = sum_list (window m)"
    by (simp_all add: recent_ok_def)
  note r = ring_okD [OF ok] and l = win_size_less [OF ok]
  obtain k where k: "curr_window_size m = Inr k" "unat k = win_size m"
    using curr_window_size_eq [OF ok] by blast
  have kk: "k = of_nat (win_size m)" "(ucast k :: u64) = of_nat (win_size m)"
    unfolding k(2) [symmetric] by simp_all
  have "0 < win_size m" using assms(1,3) w by (simp flip: length_window add: recent_def unat_gt_0)
  then have nz: "(of_nat (win_size m) :: u64) \<noteq> 0"
    using k(2) kk(2) by (metis unat_0 unat_ucast_u32_u64 less_irrefl)
  have half: "win_size m div 2 < win_size m" using \<open>0 < win_size m\<close> by simp
  have "2 * length (ma_num_list m) \<le> 2 ^ 32" using ok assms(2) m(4) by (simp add: ring_ok_def)
  then have "front_pos m + unat (k div 2) mod length (ma_num_list m) < 2 ^ 32"
    using r(1,5) mod_less_divisor [OF r(1), of "unat (k div 2)"] by linarith
  from mn_plus_int_eq [OF r(3,1) this] obtain v where v:
    "mn_plus_int (ma_front m) (k div 2) = Inr (ModuloNum (mn_max_value (ma_front m)) v)"
    "unat v = (front_pos m + win_size m div 2) mod length (ma_num_list m)"
    using k(2) by (auto simp: unat_div_distrib)
  have med: "ma_at m (ModuloNum (mn_max_value (ma_front m)) v) = Inr (window m ! (win_size m div 2))"
    using v(2) r(1) by (simp add: ma_at_def ModuloNum_def window_nth [OF half])
  have geo: "window_product (length (ma_num_list m)) m (ma_front m) 1 = Inr (prod_list (window m))"
    using window_product_eq [OF ok, of 0 "length (ma_num_list m)" "ma_front m" 1] l r by simp
  show ?thesis
    using m(1,3) sum w [symmetric] kk nz v(1) med geo
    by (cases ty) (simp_all add: ma_compute_def k(1) div64_def Let_def)
qed

lemma moving_average_recent_witness:
  "bindR (ma_updates (createAvgType ARITHMETIC_MEAN 2) [10, 20, 40]) (ma_compute (\<lambda>x n. x)) = Inr 30"
  using moving_average_recent [of 2 "[10, 20, 40]" ARITHMETIC_MEAN "\<lambda>x n. x"] by (simp add: recent_def)

text \<open>
  The moving median is not a median: of the window 9, 1, 2 it returns the value that
  arrived second, 1, and not the middle value 2.
\<close>

theorem median_not_sorted:
  "bindR (ma_updates (createAvgType MEDIAN 3) [9, 1, 2]) (ma_compute root) = Inr 1"
  by code_simp

end
