(* ===== verification/Contention.thy ===== *)
theory Contention
  imports Moving_Average
begin

text \<open>
  A resource with a fixed number of units
  (\<^verbatim>\<open>performance_model/contention_model.cc\<close>) and the two queue models without a
  history (\<^verbatim>\<open>queue_model_basic.cc\<close> without its moving average, and
  \<^verbatim>\<open>queue_model_contention.cc\<close>).
\<close>

section \<open>Model\<close>

text \<open>\<^verbatim>\<open>m_time\<close> holds, per unit, the time it becomes free and the tag of its request.\<close>

record contention =
  m_num_outstanding :: u32
  m_time :: "(subsecond \<times> u64) list"
  m_t_last :: subsecond
  m_proc_period :: subsecond
  m_n_requests :: u64
  m_n_barriers :: u64
  m_n_outoforder :: u64
  m_n_simultaneous :: u64
  m_n_hasfreefail :: u64
  m_total_delay :: subsecond
  m_total_barrier_delay :: subsecond

definition ContentionModel :: "subsecond \<Rightarrow> u32 \<Rightarrow> contention" where
  "ContentionModel proc_period num_outstanding =
     \<lparr>m_num_outstanding = num_outstanding, m_time = replicate (unat num_outstanding) (0, 0),
      m_t_last = 0, m_proc_period = proc_period, m_n_requests = 0, m_n_barriers = 0,
      m_n_outoforder = 0, m_n_simultaneous = 0, m_n_hasfreefail = 0, m_total_delay = 0,
      m_total_barrier_delay = 0\<rparr>"

abbreviation units :: "contention \<Rightarrow> nat" where
  "units c \<equiv> unat (m_num_outstanding c)"

definition getNumUsed :: "contention \<Rightarrow> subsecond \<Rightarrow> u32" where
  "getNumUsed c t_start =
     fold (\<lambda>i num_used. if fst (m_time c ! i) > t_start then num_used + 1 else num_used) [0..<units c] 0"

definition getTagCompletionTime :: "contention \<Rightarrow> u64 \<Rightarrow> subsecond" where
  "getTagCompletionTime c tag =
     (case first_idx (\<lambda>i. snd (m_time c ! i) = tag) (units c) of
        Some i \<Rightarrow> fst (m_time c ! i)
      | None \<Rightarrow> ST_MaxTime)"

definition hasFreeSlot :: "contention \<Rightarrow> subsecond \<Rightarrow> u64 \<Rightarrow> bool \<times> contention" where
  "hasFreeSlot c t_start tag =
     (case first_idx (\<lambda>i. fst (m_time c ! i) \<le> t_start \<or> snd (m_time c ! i) = tag) (units c) of
        Some i \<Rightarrow> (True, c)
      | None \<Rightarrow> (False, c\<lparr>m_n_hasfreefail := m_n_hasfreefail c + 1\<rparr>))"

definition hasTag :: "contention \<Rightarrow> u64 \<Rightarrow> bool" where
  "hasTag c tag = (first_idx (\<lambda>i. snd (m_time c ! i) = tag) (units c) \<noteq> None)"

definition getBarrierCompletionTime ::
  "contention \<Rightarrow> subsecond \<Rightarrow> subsecond \<Rightarrow> u64 \<Rightarrow> subsecond \<times> contention" where
  "getBarrierCompletionTime c t_start t_delay tag =
     (if m_num_outstanding c = 0 then (t_start + t_delay, c)
      else let max_time = fold (\<lambda>i mt. if fst (m_time c ! i) > mt then fst (m_time c ! i) else mt)
                            [0..<units c] t_start
           in (max_time + t_delay,
               c\<lparr>m_time := fold (\<lambda>i ts. ts[i := (max_time + t_delay, tag)]) [0..<units c] (m_time c),
                 m_total_barrier_delay := m_total_barrier_delay c + (max_time - t_start),
                 m_n_barriers := m_n_barriers c + 1\<rparr>))"

text \<open>The search for the first free unit, from the index list still to be visited.\<close>

fun find_unit :: "(subsecond \<times> u64) list \<Rightarrow> subsecond \<Rightarrow> nat list \<Rightarrow> nat \<Rightarrow> nat" where
  "find_unit ts t_start [] unit = unit"
| "find_unit ts t_start (i # is) unit =
     (if fst (ts ! i) \<le> t_start then i
      else if fst (ts ! i) < fst (ts ! unit) then find_unit ts t_start is i
      else find_unit ts t_start is unit)"

definition getCompletionTime ::
  "contention \<Rightarrow> subsecond \<Rightarrow> subsecond \<Rightarrow> u64 \<Rightarrow> subsecond \<times> contention" where
  "getCompletionTime c t_start t_delay tag =
     (if m_num_outstanding c = 0 then (t_start + t_delay, c)
      else if t_start = 0 then (t_delay, c\<lparr>m_n_requests := m_n_requests c + 1\<rparr>)
      else if t_start < m_t_last c
      then (t_start + t_delay,
            c\<lparr>m_n_outoforder := m_n_outoforder c + 1, m_n_requests := m_n_requests c + 1\<rparr>)
      else let unit = find_unit (m_time c) t_start [0..<units c] 0;
               t_begin = (if t_start < fst (m_time c ! unit) then fst (m_time c ! unit) else t_start);
               t_end = t_begin + t_delay
           in (t_end,
               c\<lparr>m_n_simultaneous :=
                   (if t_start = m_t_last c then m_n_simultaneous c + 1 else m_n_simultaneous c),
                 m_time := (m_time c)[unit := (t_end, tag)],
                 m_total_delay := m_total_delay c + (t_begin - t_start),
                 m_t_last := t_start,
                 m_n_requests := m_n_requests c + 1\<rparr>))"

fun peek_unit :: "(subsecond \<times> u64) list \<Rightarrow> subsecond \<Rightarrow> nat list \<Rightarrow> nat \<Rightarrow> subsecond" where
  "peek_unit ts t_start [] unit =
     (if t_start < fst (ts ! unit) then fst (ts ! unit) else t_start)"
| "peek_unit ts t_start (i # is) unit =
     (if fst (ts ! i) \<le> t_start then t_start
      else if fst (ts ! i) < fst (ts ! unit) then peek_unit ts t_start is i
      else peek_unit ts t_start is unit)"

definition getStartTime :: "contention \<Rightarrow> subsecond \<Rightarrow> subsecond" where
  "getStartTime c t_start =
     (if m_num_outstanding c = 0 then t_start
      else if t_start < m_t_last c then t_start
      else peek_unit (m_time c) t_start [0..<units c] 0)"

text \<open>The variants that count in cycles of the core.\<close>

definition getBarrierCompletionTime_cycles ::
  "contention \<Rightarrow> u64 \<Rightarrow> u64 \<Rightarrow> u64 \<Rightarrow> (u64 \<times> contention) result" where
  "getBarrierCompletionTime_cycles c t_start t_delay tag =
     (let (t, c') = getBarrierCompletionTime c (cyclesToSubsecondTime (m_proc_period c) t_start)
                      (cyclesToSubsecondTime (m_proc_period c) t_delay) tag
      in bindR (subsecondTimeToCycles (m_proc_period c) t) (\<lambda>n. Inr (n, c')))"

definition getCompletionTime_cycles ::
  "contention \<Rightarrow> u64 \<Rightarrow> u64 \<Rightarrow> u64 \<Rightarrow> (u64 \<times> contention) result" where
  "getCompletionTime_cycles c t_start t_delay tag =
     (let (t, c') = getCompletionTime c (cyclesToSubsecondTime (m_proc_period c) t_start)
                      (cyclesToSubsecondTime (m_proc_period c) t_delay) tag
      in bindR (subsecondTimeToCycles (m_proc_period c) t) (\<lambda>n. Inr (n, c')))"

definition getStartTime_cycles :: "contention \<Rightarrow> u64 \<Rightarrow> u64 result" where
  "getStartTime_cycles c t_start =
     subsecondTimeToCycles (m_proc_period c)
       (getStartTime c (cyclesToSubsecondTime (m_proc_period c) t_start))"

text \<open>The queue models.\<close>

definition qm_contention_delay ::
  "contention \<Rightarrow> subsecond \<Rightarrow> subsecond \<Rightarrow> (subsecond \<times> contention) result" where
  "qm_contention_delay c pkt_time processing_time =
     (let t_start = pkt_time; t_delay = processing_time;
          (t_complete, c') = getCompletionTime c t_start t_delay 0
      in Inr (t_complete - t_start - t_delay, c'))"

text \<open>Sequences of requests, and the occupation of the units they obtain.\<close>

fun delays :: "('q \<Rightarrow> subsecond \<Rightarrow> subsecond \<Rightarrow> (subsecond \<times> 'q) result) \<Rightarrow> 'q \<Rightarrow>
    (subsecond \<times> subsecond) list \<Rightarrow> subsecond list result" where
  "delays cqd q [] = Inr []"
| "delays cqd q ((t, p) # rs) =
     bindR (cqd q t p) (\<lambda>(d, q'). bindR (delays cqd q' rs) (\<lambda>ds. Inr (d # ds)))"

definition queued :: "contention \<Rightarrow> subsecond \<Rightarrow> bool" where
  "queued c t_start \<longleftrightarrow> m_num_outstanding c \<noteq> 0 \<and> t_start \<noteq> 0 \<and> \<not> t_start < m_t_last c"

fun occupations :: "contention \<Rightarrow> (subsecond \<times> subsecond \<times> u64) list \<Rightarrow> (subsecond \<times> subsecond) list" where
  "occupations c [] = []"
| "occupations c ((t, d, tag) # rs) =
     (let (t_end, c') = getCompletionTime c t d tag
      in (if queued c t then [(t_end - d, t_end)] else []) @ occupations c' rs)"

section \<open>The unit a request is given\<close>

lemma image_nth_set: "length xs = n \<Longrightarrow> (\<lambda>i. f (xs ! i)) ` {0..<n} = f ` set xs"
  by (force simp: set_conv_nth)

lemma find_unit_mem: "find_unit ts t is u \<in> insert u (set is)"
  by (induction ts t "is" u rule: find_unit.induct) auto

lemma find_unit_first_free:
  "fst (ts ! find_unit ts t is u) \<le> t \<or>
   (\<forall>i \<in> insert u (set is). fst (ts ! find_unit ts t is u) \<le> fst (ts ! i))"
  by (induction ts t "is" u rule: find_unit.induct) auto

lemma peek_unit_find_unit:
  "peek_unit ts t is u =
     (if t < fst (ts ! find_unit ts t is u) then fst (ts ! find_unit ts t is u) else t)"
  by (induction ts t "is" u rule: find_unit.induct) auto

lemma find_unit_less: "0 < n \<Longrightarrow> find_unit ts t [0..<n] 0 < n"
  using find_unit_mem [of ts t "[0..<n]" 0] by auto

lemma getCompletionTime_queued:
  assumes "queued c t"
  defines "u \<equiv> find_unit (m_time c) t [0..<units c] 0"
  defines "b \<equiv> max t (fst (m_time c ! u))"
  shows "getCompletionTime c t d tag =
    (b + d, snd (getCompletionTime c t d tag))"
    and "m_time (snd (getCompletionTime c t d tag)) = (m_time c)[u := (b + d, tag)]"
    and "m_t_last (snd (getCompletionTime c t d tag)) = t"
    and "getStartTime c t = b"
  using assms(1)
  by (auto simp: queued_def getCompletionTime_def getStartTime_def Let_def u_def b_def
        peek_unit_find_unit max_def)

lemma getCompletionTime_not_queued:
  assumes "\<not> queued c t"
  shows "m_time (snd (getCompletionTime c t d tag)) = m_time c"
    and "m_t_last (snd (getCompletionTime c t d tag)) = m_t_last c"
    and "fst (getCompletionTime c t d tag) = t + d"
  using assms by (auto simp: queued_def getCompletionTime_def)

lemma getCompletionTime_units [simp]:
  "m_num_outstanding (snd (getCompletionTime c t d tag)) = m_num_outstanding c"
  by (simp add: getCompletionTime_def Let_def)

lemma getCompletionTime_length [simp]:
  "length (m_time (snd (getCompletionTime c t d tag))) = length (m_time c)"
  by (simp add: getCompletionTime_def Let_def)

section \<open>Properties\<close>

text \<open>
  C24. A queued request is served as soon as some unit is free: it completes its delay after
  its own start time or after the earliest time a unit becomes free, whichever is later, and
  that is the start time \<^verbatim>\<open>getStartTime\<close> announces.
\<close>

theorem completion_earliest:
  assumes "queued c t" and "length (m_time c) = units c"
  shows "getStartTime c t = max t (Min (fst ` set (m_time c))) \<and>
    fst (getCompletionTime c t d tag) = getStartTime c t + d"
proof -
  let ?u = "find_unit (m_time c) t [0..<units c] 0"
  let ?F = "fst ` set (m_time c)"
  have n: "0 < units c" using assms(1) by (simp add: queued_def unat_gt_0)
  then have ul: "?u < length (m_time c)" using find_unit_less assms(2) by simp
  then have mem: "fst (m_time c ! ?u) \<in> ?F" by simp
  have "max t (fst (m_time c ! ?u)) = max t (Min ?F)"
    using find_unit_first_free [of "m_time c" t "[0..<units c]" 0]
  proof
    assume *: "fst (m_time c ! ?u) \<le> t"
    moreover have "Min ?F \<le> fst (m_time c ! ?u)" using mem by (intro Min_le) auto
    ultimately show ?thesis by (auto simp: max_def)
  next
    assume "\<forall>i \<in> insert 0 (set [0..<units c]). fst (m_time c ! ?u) \<le> fst (m_time c ! i)"
    then have "\<forall>x \<in> ?F. fst (m_time c ! ?u) \<le> x"
      unfolding image_nth_set [OF assms(2), symmetric] by simp
    then have "Min ?F = fst (m_time c ! ?u)" using mem by (intro Min_eqI) auto
    then show ?thesis by simp
  qed
  then have "getStartTime c t = max t (Min ?F)"
    by (simp add: getCompletionTime_queued(4) [OF assms(1)])
  moreover have "fst (getCompletionTime c t d tag) = getStartTime c t + d"
    by (metis getCompletionTime_queued(1,4) [OF assms(1)] fst_conv)
  ultimately show ?thesis by blast
qed

lemma occupations_free_units:
  assumes "length (m_time c) = units c" and "\<forall>(b, e) \<in> set (occupations c rs). b \<le> e"
  shows "length (filter (\<lambda>(b, e). b \<le> t \<and> t < e) (occupations c rs))
    \<le> card {i. i < units c \<and> fst (m_time c ! i) \<le> t}"
  using assms
proof (induction c rs rule: occupations.induct)
  case (1 c)
  show ?case by simp
next
  case (2 c ts d tag rs)
  obtain t_end c' where g: "getCompletionTime c ts d tag = (t_end, c')" by fastforce
  have c': "units c' = units c" "length (m_time c') = length (m_time c)"
    using getCompletionTime_units [of c ts d tag] getCompletionTime_length [of c ts d tag]
    by (simp_all add: g)
  have len': "length (m_time c') = units c'" using c' 2(2) by simp
  have wrap: "\<forall>(b, e) \<in> set (occupations c' rs). b \<le> e" using 2(3) by (simp add: g)
  let ?in = "\<lambda>(b, e). b \<le> t \<and> t < e"
  let ?S = "\<lambda>c. {i. i < units c \<and> fst (m_time c ! i) \<le> t}"
  have IH: "length (filter ?in (occupations c' rs)) \<le> card (?S c')"
    by (rule "2.IH" [OF g [symmetric] refl len' wrap])
  show ?case
  proof (cases "queued c ts")
    case False
    then have "m_time c' = m_time c" using getCompletionTime_not_queued(1) [OF False, of d tag] by (simp add: g)
    then show ?thesis using IH False c' by (simp add: g)
  next
    case True
    define u where "u = find_unit (m_time c) ts [0..<units c] 0"
    define b where "b = max ts (fst (m_time c ! u))"
    note q = getCompletionTime_queued(1-3) [OF True, folded u_def, folded b_def, where d = d and tag = tag,
      unfolded g snd_conv]
    have e: "t_end = b + d" using q(1) by simp
    have be: "b \<le> t_end" using 2(3) True by (simp add: g e)
    have u: "u < units c" using True find_unit_less by (simp add: u_def queued_def unat_gt_0)
    have eq: "?S c' = (if t_end \<le> t then insert u (?S c) else ?S c - {u})"
      using u c'(1) 2(2) by (auto simp: q(2) e nth_list_update split: if_splits)
    have mem: "b \<le> t \<Longrightarrow> u \<in> ?S c" using u by (auto simp: b_def)
    have "card (?S c') + (if b \<le> t \<and> t < t_end then 1 else 0) \<le> card (?S c)"
    proof (cases "t_end \<le> t")
      case True
      then have "?S c' = ?S c" "\<not> t < t_end" using be mem by (auto simp: eq insert_absorb)
      then show ?thesis by simp
    next
      case False
      then show ?thesis using mem card_Suc_Diff1 [of "?S c" u] card_Diff1_le [of "?S c" u]
        by (auto simp: eq)
    qed
    then show ?thesis using IH True be by (auto simp: g e split: if_splits)
  qed
qed

text \<open>
  C23. No more requests are in progress than there are units: whatever the sequence of
  requests, at every time the number of queued requests between their beginning and their
  end is at most the number of outstanding requests the model was built for. The hypothesis
  says that no completion time wraps around.
\<close>

theorem occupations_bounded:
  assumes "\<forall>(b, e) \<in> set (occupations (ContentionModel period n) rs). b \<le> e"
  shows "length (filter (\<lambda>(b, e). b \<le> t \<and> t < e) (occupations (ContentionModel period n) rs)) \<le> unat n"
proof -
  let ?c = "ContentionModel period n"
  have "length (m_time ?c) = units ?c" by (simp add: ContentionModel_def)
  note occupations_free_units [OF this assms, of t]
  also have "card {i. i < units ?c \<and> fst (m_time ?c ! i) \<le> t} \<le> card {..<unat n}"
    by (intro card_mono) (auto simp: ContentionModel_def)
  finally show ?thesis by simp
qed

lemma occupations_bounded_witness:
  "occupations (ContentionModel 1 2) [(5, 10, 0), (6, 10, 0), (7, 10, 0)] = [(5, 15), (6, 16), (15, 25)]
   \<and> length (filter (\<lambda>(b, e). b \<le> 15 \<and> 15 < e)
        (occupations (ContentionModel 1 2) [(5, 10, 0), (6, 10, 0), (7, 10, 0)])) \<le> 2"
proof
  show occ: "occupations (ContentionModel 1 2) [(5, 10, 0), (6, 10, 0), (7, 10, 0)]
    = [(5, 15), (6, 16), (15, 25)]" by code_simp
  show "length (filter (\<lambda>(b, e). b \<le> 15 \<and> 15 < e)
        (occupations (ContentionModel 1 2) [(5, 10, 0), (6, 10, 0), (7, 10, 0)])) \<le> 2"
    using occupations_bounded [of 1 2 "[(5, 10, 0), (6, 10, 0), (7, 10, 0)]" 15]
    unfolding occ by simp
qed

lemma completion_earliest_witness:
  "let c = snd (getCompletionTime (ContentionModel 1 1) 5 10 0)
   in getStartTime c 6 = 15 \<and> fst (getCompletionTime c 6 10 0) = 25"
proof -
  let ?c = "snd (getCompletionTime (ContentionModel 1 1) 5 10 0)"
  have "queued ?c 6" "length (m_time ?c) = units ?c" "fst ` set (m_time ?c) = {15}"
    by code_simp+
  from this(3) completion_earliest [OF this(1,2), of 10 0] show ?thesis by (simp add: Let_def)
qed

lemma fold_max_fst:
  fixes s :: "'a :: linorder"
  shows "fold (\<lambda>i mt. if f i > mt then f i else mt) is s = Max (insert s (f ` set is))"
proof (induction "is" arbitrary: s)
  case (Cons i "is")
  have "Max (insert (max s (f i)) (f ` set is)) = Max (insert s (insert (f i) (f ` set is)))"
    by (cases "f ` set is = {}") (simp_all add: Max_insert2 max.assoc)
  moreover have "(if f i > s then f i else s) = max s (f i)" by (auto simp: max_def)
  ultimately show ?case using Cons by simp
qed simp

lemma fold_overwrite:
  "m \<le> length ts \<Longrightarrow> fold (\<lambda>i ts. ts[i := x]) [0..<m] ts = replicate m x @ drop m ts"
proof (induction m)
  case (Suc m)
  then have "fold (\<lambda>i ts. ts[i := x]) [0..<Suc m] ts = (replicate m x @ drop m ts)[m := x]" by simp
  also have "\<dots> = replicate m x @ x # drop (Suc m) ts"
    using Suc.prems by (simp add: list_update_append Cons_nth_drop_Suc [symmetric])
  also have "\<dots> = replicate (Suc m) x @ drop (Suc m) ts"
    by (simp add: replicate_append_same [symmetric])
  finally show ?case .
qed simp

text \<open>
  C25. A barrier completes after everything in progress: its completion time is its delay
  after the latest of its start and the times the units become free, and every unit is
  occupied until then, so a later request starts no earlier.
\<close>

theorem barrier_completes_last:
  assumes "m_num_outstanding c \<noteq> 0" and "length (m_time c) = units c"
  shows "let (e, c') = getBarrierCompletionTime c t d tag
    in e = Max (insert t (fst ` set (m_time c))) + d \<and> m_time c' = replicate (units c) (e, tag) \<and>
       (queued c' t' \<longrightarrow> getStartTime c' t' = max t' e)"
proof -
  define e where "e = Max (insert t (fst ` set (m_time c))) + d"
  let ?c = "snd (getBarrierCompletionTime c t d tag)"
  have mt: "fold (\<lambda>i mt. if fst (m_time c ! i) > mt then fst (m_time c ! i) else mt)
      [0..<units c] t + d = e"
    by (simp add: fold_max_fst e_def image_nth_set [OF assms(2)])
  then have 1: "fst (getBarrierCompletionTime c t d tag) = e"
    using assms(1) by (simp add: getBarrierCompletionTime_def)
  have 2: "m_time ?c = replicate (units c) (e, tag)"
    using assms(1,2) mt by (simp add: getBarrierCompletionTime_def Let_def fold_overwrite)
  have n: "units ?c = units c" by (simp add: getBarrierCompletionTime_def Let_def)
  have "getStartTime ?c t' = max t' e" if "queued ?c t'"
  proof -
    have "find_unit (m_time ?c) t' [0..<units ?c] 0 < units c"
      using find_unit_less assms(1) n by (simp add: unat_gt_0)
    then show ?thesis using getCompletionTime_queued(4) [OF that] by (simp add: 2 n)
  qed
  with 1 2 show ?thesis by (simp add: e_def case_prod_beta Let_def)
qed

lemma barrier_completes_last_witness:
  "let c = snd (getCompletionTime (ContentionModel 1 2) 5 10 0)
   in fst (getBarrierCompletionTime c 7 3 9) = 18"
proof -
  let ?c = "snd (getCompletionTime (ContentionModel 1 2) 5 10 0)"
  have "m_num_outstanding ?c \<noteq> 0" "length (m_time ?c) = units ?c"
    "Max (insert 7 (fst ` set (m_time ?c))) + 3 = 18"
    by code_simp+
  from this(3) barrier_completes_last [OF this(1,2), of 7 3 9 0] show ?thesis
    by (simp add: Let_def case_prod_beta)
qed

lemma delays_agree:
  assumes "m_num_outstanding c = 1" and "m_time c = [(q, tag)]"
    and "sorted (m_t_last c # map fst rs)" and "\<forall>(t, p) \<in> set rs. t \<noteq> 0"
  shows "delays qm_contention_delay c rs =
    delays (qb_computeQueueDelay root) \<lparr>qb_queue_time = q, qb_moving_average = None\<rparr> rs"
  using assms
proof (induction rs arbitrary: c q tag)
  case (Cons r rs)
  obtain t p where r: "r = (t, p)" by fastforce
  let ?c' = "snd (getCompletionTime c t p 0)"
  have qd: "queued c t" using Cons.prems r by (auto simp: queued_def)
  have u: "find_unit (m_time c) t [0..<units c] 0 = 0"
    using find_unit_less [of "units c" "m_time c" t] Cons.prems(1) by simp
  note g = getCompletionTime_queued(1-3) [OF qd, unfolded u, where d = p and tag = 0, simplified Cons.prems(2), simplified]
  have "delays qm_contention_delay ?c' rs = delays (qb_computeQueueDelay root)
      \<lparr>qb_queue_time = max t q + p, qb_moving_average = None\<rparr> rs"
    using Cons.prems r g(2,3) by (intro Cons.IH) auto
  moreover have "qm_contention_delay c t p = Inr (max t q - t, ?c')"
    unfolding qm_contention_delay_def Let_def by (subst g(1)) simp
  moreover have "qb_computeQueueDelay root \<lparr>qb_queue_time = q, qb_moving_average = None\<rparr> t p =
      Inr (max t q - t, \<lparr>qb_queue_time = max t q + p, qb_moving_average = None\<rparr>)"
    by (auto simp: qb_computeQueueDelay_def max_def)
  ultimately show ?case by (simp add: r)
qed simp



end
