(* ===== verification/Queue_History.thy ===== *)
theory Queue_History
  imports Complex_Main Moving_Average
begin

text \<open>
  The queue models with a history: the free intervals of
  \<^verbatim>\<open>queue_model_history_list.cc\<close> and the sliding window of
  \<^verbatim>\<open>queue_model_windowed_mg1.cc\<close>. The counters that only feed the statistics output
  of the destructor and of \<^verbatim>\<open>getQueueUtilization\<close> are kept; the percentages computed
  from them are not modelled.
\<close>

section \<open>Model of the history list\<close>

record history_list =
  hl_min_processing_time :: subsecond
  hl_max_free_interval_list_size :: u32
  hl_free_interval_list :: "(subsecond \<times> subsecond) list"
  hl_utilized_time :: subsecond
  hl_total_queue_delay :: subsecond
  hl_average_delay :: moving_average
  hl_analytical_model_enabled :: bool
  hl_total_requests :: u64
  hl_total_requests_using_analytical_model :: u64

definition QueueModelHistoryList :: "bool \<Rightarrow> u32 \<Rightarrow> subsecond \<Rightarrow> history_list" where
  "QueueModelHistoryList analytical_model_enabled max_list_size min_processing_time =
     \<lparr>hl_min_processing_time = min_processing_time,
      hl_max_free_interval_list_size = max_list_size,
      hl_free_interval_list = [(0, push_bit 63 1)],
      hl_utilized_time = 0, hl_total_queue_delay = 0,
      hl_average_delay = createAvgType ARITHMETIC_MEAN max_list_size,
      hl_analytical_model_enabled = analytical_model_enabled,
      hl_total_requests = 0, hl_total_requests_using_analytical_model = 0\<rparr>"

text \<open>The loop over the free intervals: the delay and the updated list, or no interval.\<close>

fun hl_scan :: "subsecond \<Rightarrow> subsecond \<Rightarrow> subsecond \<Rightarrow> (subsecond \<times> subsecond) list \<Rightarrow>
    (subsecond \<times> (subsecond \<times> subsecond) list) option" where
  "hl_scan min_processing_time pkt_time processing_time [] = None"
| "hl_scan min_processing_time pkt_time processing_time ((a, b) # l) =
     (if pkt_time \<ge> a \<and> pkt_time + processing_time \<le> b
      then Some (0,
        (if pkt_time - a \<ge> min_processing_time then [(a, pkt_time)] else []) @
        (if b - (pkt_time + processing_time) \<ge> min_processing_time
         then [(pkt_time + processing_time, b)] else []) @ l)
      else if pkt_time < a
      then Some (a - pkt_time,
        (if b - (a + processing_time) \<ge> min_processing_time
         then [(a + processing_time, b)] else []) @ l)
      else map_option (\<lambda>(d, l'). (d, (a, b) # l')) (hl_scan min_processing_time pkt_time processing_time l))"

definition computeUsingHistoryList ::
  "history_list \<Rightarrow> subsecond \<Rightarrow> subsecond \<Rightarrow> (subsecond \<times> history_list) result" where
  "computeUsingHistoryList q pkt_time processing_time =
     bindR (assertR (length (hl_free_interval_list q) \<le> unat (hl_max_free_interval_list_size q))) (\<lambda>_.
     case hl_scan (hl_min_processing_time q) pkt_time processing_time (hl_free_interval_list q) of
       None \<Rightarrow> Inl Assert_Failed
     | Some (queue_delay, l) \<Rightarrow>
         bindR (assertR (queue_delay \<noteq> ST_MaxTime)) (\<lambda>_.
         Inr (queue_delay, q\<lparr>hl_free_interval_list :=
           (if length l > unat (hl_max_free_interval_list_size q) then tl l else l)\<rparr>)))"

definition hl_computeQueueDelay ::
  "history_list \<Rightarrow> subsecond \<Rightarrow> subsecond \<Rightarrow> (subsecond \<times> history_list) result" where
  "hl_computeQueueDelay q pkt_time processing_time =
     bindR (assertR (length (hl_free_interval_list q) \<ge> 1)) (\<lambda>_.
     bindR (if hl_analytical_model_enabled q \<and>
               pkt_time + processing_time \<le> fst (hd (hl_free_interval_list q))
            then bindR (ma_compute (\<lambda>x n. x) (hl_average_delay q)) (\<lambda>d.
                 Inr (d, q\<lparr>hl_total_requests_using_analytical_model :=
                   hl_total_requests_using_analytical_model q + 1\<rparr>))
            else bindR (computeUsingHistoryList q pkt_time processing_time) (\<lambda>(d, q').
                 bindR (ma_update (hl_average_delay q') d) (\<lambda>avg.
                 Inr (d, q'\<lparr>hl_average_delay := avg\<rparr>)))) (\<lambda>(queue_delay, q').
     Inr (queue_delay,
          q'\<lparr>hl_utilized_time := hl_utilized_time q' + processing_time,
             hl_total_requests := hl_total_requests q' + 1,
             hl_total_queue_delay := hl_total_queue_delay q' + queue_delay\<rparr>)))"

text \<open>The service slots of the requests the history list serves.\<close>

definition uses_history :: "history_list \<Rightarrow> subsecond \<Rightarrow> subsecond \<Rightarrow> bool" where
  "uses_history q pkt_time processing_time \<longleftrightarrow>
     \<not> (hl_analytical_model_enabled q \<and> pkt_time + processing_time \<le> fst (hd (hl_free_interval_list q)))"

fun hl_slots :: "history_list \<Rightarrow> (subsecond \<times> subsecond) list \<Rightarrow> (subsecond \<times> subsecond) list result" where
  "hl_slots q [] = Inr []"
| "hl_slots q ((t, p) # rs) =
     bindR (hl_computeQueueDelay q t p) (\<lambda>(d, q').
     bindR (hl_slots q' rs) (\<lambda>ss.
     Inr ((if uses_history q t p then [(t + d, t + d + p)] else []) @ ss)))"

definition apart :: "subsecond \<times> subsecond \<Rightarrow> subsecond \<times> subsecond \<Rightarrow> bool" where
  "apart s s' \<longleftrightarrow> {fst s..<snd s} \<inter> {fst s'..<snd s'} = {}"

abbreviation disjoint_slots :: "(subsecond \<times> subsecond) list \<Rightarrow> bool" where
  "disjoint_slots ss \<equiv> sorted_wrt apart ss"

section \<open>Model of the windowed M/G/1 queue\<close>

text \<open>The \<^verbatim>\<open>multimap\<close> is the list of its entries in the order of their keys.\<close>

record windowed_mg1 =
  mg_window_size :: subsecond
  mg_total_requests :: u64
  mg_total_utilized_time :: subsecond
  mg_total_queue_delay :: subsecond
  mg_window :: "(subsecond \<times> subsecond) list"
  mg_num_arrivals :: u64
  mg_service_time_sum :: u64
  mg_service_time_sum2 :: u64

definition QueueModelWindowedMG1 :: "u64 \<Rightarrow> windowed_mg1" where
  "QueueModelWindowedMG1 window_size =
     \<lparr>mg_window_size = ST_NS window_size, mg_total_requests = 0, mg_total_utilized_time = 0,
      mg_total_queue_delay = 0, mg_window = [], mg_num_arrivals = 0,
      mg_service_time_sum = 0, mg_service_time_sum2 = 0\<rparr>"

fun multimap_insert :: "subsecond \<Rightarrow> subsecond \<Rightarrow> (subsecond \<times> subsecond) list \<Rightarrow> (subsecond \<times> subsecond) list" where
  "multimap_insert k v [] = [(k, v)]"
| "multimap_insert k v ((k', v') # l) =
     (if k < k' then (k, v) # (k', v') # l else (k', v') # multimap_insert k v l)"

definition addItem :: "windowed_mg1 \<Rightarrow> subsecond \<Rightarrow> subsecond \<Rightarrow> windowed_mg1" where
  "addItem q pkt_time service_time =
     q\<lparr>mg_window := multimap_insert pkt_time service_time (mg_window q),
       mg_num_arrivals := mg_num_arrivals q + 1,
       mg_service_time_sum := mg_service_time_sum q + ST_getPS service_time,
       mg_service_time_sum2 := mg_service_time_sum2 q + ST_getPS service_time * ST_getPS service_time\<rparr>"

function removeItems :: "windowed_mg1 \<Rightarrow> subsecond \<Rightarrow> windowed_mg1" where
  "removeItems q earliest_time =
     (case mg_window q of
        [] \<Rightarrow> q
      | (k, v) # l \<Rightarrow>
          if k < earliest_time
          then removeItems
                 (q\<lparr>mg_num_arrivals := mg_num_arrivals q - 1,
                    mg_service_time_sum := mg_service_time_sum q - ST_getPS v,
                    mg_service_time_sum2 := mg_service_time_sum2 q - ST_getPS v * ST_getPS v,
                    mg_window := l\<rparr>) earliest_time
          else q)"
  by pat_completeness auto
termination
  by (relation "measure (\<lambda>(q, t). length (mg_window q))") auto

text \<open>
  The delay is computed in \<^verbatim>\<open>double\<close>. Every operation is the exact one followed by
  a rounding \<open>rnd\<close>; the conversion back to an integer is undefined when the value does not
  fit, and so is the division by a window of less than a picosecond.
\<close>

definition to_u64 :: "rat \<Rightarrow> u64 result" where
  "to_u64 x = (if 0 \<le> x \<and> x < 2 ^ 64 then Inr (of_int \<lfloor>x\<rfloor>) else Inl Out_Of_Range)"

definition mg_estimate :: "(rat \<Rightarrow> rat) \<Rightarrow> windowed_mg1 \<Rightarrow> subsecond result" where
  "mg_estimate rnd q =
     bindR (if ST_getPS (mg_window_size q) = 0 then Inl Div_By_Zero else Inr ()) (\<lambda>_.
     let window_ps = rnd (of_nat (unat (ST_getPS (mg_window_size q))));
         utilization = rnd (rnd (of_nat (unat (mg_service_time_sum q))) / window_ps);
         arrival_rate = rnd (rnd (of_nat (unat (mg_num_arrivals q))) / window_ps);
         service_time_Es2 = rnd (of_nat (unat (mg_service_time_sum2 q div mg_num_arrivals q)));
         utilization' = (if utilization > rnd (99 / 100) then rnd (99 / 100) else utilization)
     in bindR (to_u64 (rnd (rnd (arrival_rate * service_time_Es2) / rnd (2 * rnd (1 - utilization'))))) (\<lambda>ps.
        Inr (ST_PS ps)))"

definition mg_computeQueueDelay ::
  "(rat \<Rightarrow> rat) \<Rightarrow> subsecond \<Rightarrow> windowed_mg1 \<Rightarrow> subsecond \<Rightarrow> subsecond \<Rightarrow> (subsecond \<times> windowed_mg1) result" where
  "mg_computeQueueDelay rnd global_time q pkt_time processing_time =
     (let q1 = removeItems q (max (global_time - mg_window_size q) (pkt_time - 10 * mg_window_size q))
      in bindR (if mg_num_arrivals q1 > 1
                then bindR (mg_estimate rnd q1) (\<lambda>t.
                     Inr (if t > mg_window_size q1 then mg_window_size q1 else t))
                else Inr 0) (\<lambda>t_queue.
         let q2 = addItem q1 pkt_time processing_time
         in Inr (t_queue,
                 q2\<lparr>mg_total_requests := mg_total_requests q2 + 1,
                    mg_total_utilized_time := mg_total_utilized_time q2 + processing_time,
                    mg_total_queue_delay := mg_total_queue_delay q2 + t_queue\<rparr>)))"

declare removeItems.simps [simp del]

section \<open>The free intervals\<close>

definition free_times :: "(subsecond \<times> subsecond) list \<Rightarrow> subsecond set" where
  "free_times l = (\<Union>(a, b) \<in> set l. {a..<b})"

fun intervals_ok :: "subsecond \<Rightarrow> (subsecond \<times> subsecond) list \<Rightarrow> bool" where
  "intervals_ok m [] \<longleftrightarrow> True"
| "intervals_ok m ((a, b) # l) \<longleftrightarrow> a \<le> b \<and> m \<le> b - a \<and> (\<forall>(c, d) \<in> set l. b \<le> c) \<and> intervals_ok m l"

lemma free_times_simps [simp]:
  "free_times [] = {}" "free_times ((a, b) # l) = {a..<b} \<union> free_times l"
  "free_times (l @ l') = free_times l \<union> free_times l'"
  by (auto simp: free_times_def)

lemma free_times_above: "\<forall>(c, d) \<in> set l. b \<le> c \<Longrightarrow> t \<in> free_times l \<Longrightarrow> b \<le> t"
  by (fastforce simp: free_times_def)

lemma intervals_above: "intervals_ok m ((a, b) # l) \<Longrightarrow> (c, d) \<in> set l \<Longrightarrow> a \<le> b \<and> b \<le> c"
  by auto

lemma word_room:
  fixes a b p :: u64
  assumes "a \<le> b" and "p \<le> b - a"
  shows "a \<le> a + p" and "a + p \<le> b"
proof -
  have "unat p \<le> unat b - unat a" using assms by (simp add: word_le_nat_alt unat_sub)
  then have "unat a + unat p \<le> unat b" using assms(1) by (simp add: word_le_nat_alt)
  moreover from this have "unat (a + p) = unat a + unat p"
    using unat_u64_less [of b] by (intro unat_add_u64) linarith
  ultimately show "a \<le> a + p" "a + p \<le> b" by (simp_all add: word_le_nat_alt)
qed

text \<open>
  The facts about one request that the list is searched for: the slot it gets is free, and
  afterwards neither the slot nor anything that was not free before is free.
\<close>

definition slot_taken ::
  "subsecond \<Rightarrow> (subsecond \<times> subsecond) list \<Rightarrow> subsecond \<Rightarrow> subsecond \<Rightarrow> subsecond \<Rightarrow> (subsecond \<times> subsecond) list \<Rightarrow> bool" where
  "slot_taken m l t p d l' \<longleftrightarrow> intervals_ok m l' \<and> t + d \<le> t + d + p \<and>
     {t + d..<t + d + p} \<subseteq> free_times l \<and> free_times l' \<subseteq> free_times l - {t + d..<t + d + p} \<and>
     (\<forall>c. (\<forall>(a, b) \<in> set l. c \<le> a) \<longrightarrow> (\<forall>(a, b) \<in> set l'. c \<le> a))"

lemma hl_scan_slot:
  assumes "hl_scan m t p l = Some (d, l')" and "intervals_ok m l" and "p \<le> m" and "t \<le> t + p"
  shows "slot_taken m l t p d l'"
  using assms
proof (induction m t p l arbitrary: d l' rule: hl_scan.induct)
  case (2 m t p a b l)
  have ab: "a \<le> b" "m \<le> b - a" "\<forall>(c, d) \<in> set l. b \<le> c" "intervals_ok m l" using 2(3) by auto
  have above: "b \<le> x" if "x \<in> free_times l" for x using free_times_above [OF ab(3) that] .
  have ord: "\<forall>(c, d) \<in> set l. x \<le> c" if "x \<le> b" for x using ab(3) that by fastforce
  show ?case
  proof (cases "t \<ge> a \<and> t + p \<le> b")
    case True
    then show ?thesis using 2(2,5) ab above ord
      by (fastforce simp: slot_taken_def split: if_splits)
  next
    case F: False
    show ?thesis
    proof (cases "t < a")
      case True
      have ap: "a \<le> a + p" "a + p \<le> b" using word_room [OF ab(1), of p] ab(2) 2(4) by simp_all
      have "d = a - t" using 2(2) F True by simp
      then have "t + d = a" by simp
      then show ?thesis using 2(2) F True ap ab above ord
        by (fastforce simp: slot_taken_def split: if_splits)
    next
      case False
      then obtain l'' where l'': "hl_scan m t p l = Some (d, l'')" "l' = (a, b) # l''"
        using 2(2) F by auto
      have s: "slot_taken m l t p d l''" using 2(1) [OF F False l''(1) ab(4) 2(4,5)] .
      then have "\<forall>(c, d) \<in> set l''. b \<le> c" using ab(3) unfolding slot_taken_def by blast
      moreover have "{t + d..<t + d + p} \<inter> {a..<b} = {}"
        using s above unfolding slot_taken_def by fastforce
      ultimately show ?thesis using s ab l''(2) unfolding slot_taken_def by auto
    qed
  qed
qed simp

lemma tl_intervals: "intervals_ok m l \<Longrightarrow> intervals_ok m (tl l) \<and> free_times (tl l) \<subseteq> free_times l"
  by (cases "(m, l)" rule: intervals_ok.cases) auto

lemma hl_computeQueueDelay_step:
  assumes "hl_computeQueueDelay q t p = Inr (d, q')"
    and "intervals_ok (hl_min_processing_time q) (hl_free_interval_list q)"
    and "p \<le> hl_min_processing_time q" and "t \<le> t + p"
  shows "hl_min_processing_time q' = hl_min_processing_time q"
    and "intervals_ok (hl_min_processing_time q) (hl_free_interval_list q')"
    and "free_times (hl_free_interval_list q') \<subseteq> free_times (hl_free_interval_list q)"
    and "uses_history q t p \<Longrightarrow> {t + d..<t + d + p} \<subseteq> free_times (hl_free_interval_list q) \<and>
      free_times (hl_free_interval_list q') \<inter> {t + d..<t + d + p} = {}"
proof -
  have m: "hl_min_processing_time q' = hl_min_processing_time q"
    and h: "if uses_history q t p
     then \<exists>l'. hl_scan (hl_min_processing_time q) t p (hl_free_interval_list q) = Some (d, l') \<and>
       (hl_free_interval_list q' = l' \<or> hl_free_interval_list q' = tl l')
     else hl_free_interval_list q' = hl_free_interval_list q"
    using assms(1) unfolding hl_computeQueueDelay_def uses_history_def computeUsingHistoryList_def
    by (auto split: if_splits option.splits prod.splits)
  show "hl_min_processing_time q' = hl_min_processing_time q" by (rule m)
  let ?l = "hl_free_interval_list q" and ?l' = "hl_free_interval_list q'"
  have taken: "intervals_ok (hl_min_processing_time q) ?l' \<and> free_times ?l' \<subseteq> free_times ?l \<and>
      {t + d..<t + d + p} \<subseteq> free_times ?l \<and> free_times ?l' \<inter> {t + d..<t + d + p} = {}"
    if uh: "uses_history q t p"
  proof -
    obtain l' where l': "hl_scan (hl_min_processing_time q) t p ?l = Some (d, l')"
      "?l' = l' \<or> ?l' = tl l'" using h uh by auto
    have s: "slot_taken (hl_min_processing_time q) ?l t p d l'"
      by (rule hl_scan_slot [OF l'(1) assms(2-4)])
    then have "intervals_ok (hl_min_processing_time q) ?l' \<and> free_times ?l' \<subseteq> free_times l'"
      using l'(2) tl_intervals [of "hl_min_processing_time q" l'] unfolding slot_taken_def by auto
    then show ?thesis using s unfolding slot_taken_def by blast
  qed
  show "intervals_ok (hl_min_processing_time q) ?l'" "free_times ?l' \<subseteq> free_times ?l"
    using taken h assms(2) by (auto split: if_splits)
  show "uses_history q t p \<Longrightarrow> {t + d..<t + d + p} \<subseteq> free_times ?l \<and> free_times ?l' \<inter> {t + d..<t + d + p} = {}"
    using taken by blast
qed

lemma hl_slots_disjoint:
  assumes "hl_slots q rs = Inr ss"
    and "intervals_ok (hl_min_processing_time q) (hl_free_interval_list q)"
    and "\<forall>(t, p) \<in> set rs. p \<le> hl_min_processing_time q \<and> t \<le> t + p"
  shows "disjoint_slots ss \<and> (\<forall>s \<in> set ss. {fst s..<snd s} \<subseteq> free_times (hl_free_interval_list q))"
  using assms
proof (induction q rs arbitrary: ss rule: hl_slots.induct)
  case (2 q t p rs)
  obtain d q' ss' where s: "hl_computeQueueDelay q t p = Inr (d, q')" "hl_slots q' rs = Inr ss'"
    "ss = (if uses_history q t p then [(t + d, t + d + p)] else []) @ ss'"
    using 2(2) by auto
  have "p \<le> hl_min_processing_time q" "t \<le> t + p" using 2(4) by auto
  note st = hl_computeQueueDelay_step [OF s(1) 2(3) this]
  have IH: "disjoint_slots ss' \<and> (\<forall>s \<in> set ss'. {fst s..<snd s} \<subseteq> free_times (hl_free_interval_list q'))"
    using 2(1) [OF s(2)] st(1,2) 2(4) by auto
  then have "\<forall>s \<in> set ss'. {fst s..<snd s} \<subseteq> free_times (hl_free_interval_list q)" using st(3) by blast
  moreover have "uses_history q t p \<Longrightarrow> \<forall>s \<in> set ss'. apart (t + d, t + d + p) s"
    using IH st(4) unfolding apart_def fst_conv snd_conv by blast
  ultimately show ?case using IH st(4) s(3) by (simp split: if_splits)
qed simp

text \<open>
  C27. A history-list queue never serves two requests at once, as long as no request needs
  more than the minimum processing time the queue was built with: the service slots of all
  requests that are placed by the history list are pairwise disjoint.
\<close>

theorem history_slots_disjoint:
  assumes "hl_slots (QueueModelHistoryList analytical max_size min_time) rs = Inr ss"
    and "\<forall>(t, p) \<in> set rs. p \<le> min_time \<and> t \<le> t + p" and "min_time \<le> 2 ^ 63"
  shows "disjoint_slots ss"
  using hl_slots_disjoint [OF assms(1)] assms(2,3) by (simp add: QueueModelHistoryList_def)

lemma history_slots_disjoint_witness:
  "hl_slots (QueueModelHistoryList True 100 10) [(30, 10), (15, 10), (16, 10), (31, 10)]
     = Inr [(30, 40), (15, 25), (40, 50), (50, 60)] \<and>
   disjoint_slots [(30 :: subsecond, 40), (15, 25), (40, 50), (50, 60)]"
proof
  show run: "hl_slots (QueueModelHistoryList True 100 10) [(30, 10), (15, 10), (16, 10), (31, 10)]
     = Inr [(30, 40), (15, 25), (40, 50), (50, 60)]" by code_simp
  show "disjoint_slots [(30 :: subsecond, 40), (15, 25), (40, 50), (50, 60)]"
    by (rule history_slots_disjoint [OF run]) simp_all
qed

text \<open>
  With requests longer than the minimum processing time the history list books time
  twice: the length of a free interval that is too short underflows, an interval that ends
  before it begins is entered, and the third and fourth of these requests are placed inside
  the slot of the first.
\<close>

theorem history_double_booking:
  "hl_slots (QueueModelHistoryList False 100 5) [(30, 100), (15, 5), (16, 50), (30, 10)]
     = Inr [(30, 130), (15, 20), (20, 70), (70, 80)]"
  by code_simp

section \<open>The sliding window\<close>

definition mg_ok :: "windowed_mg1 \<Rightarrow> bool" where
  "mg_ok q \<longleftrightarrow> sorted (map fst (mg_window q)) \<and>
     mg_num_arrivals q = of_nat (length (mg_window q)) \<and>
     mg_service_time_sum q = (\<Sum>(k, v) \<leftarrow> mg_window q. ST_getPS v) \<and>
     mg_service_time_sum2 q = (\<Sum>(k, v) \<leftarrow> mg_window q. ST_getPS v * ST_getPS v)"

lemma mset_multimap_insert [simp]: "set (multimap_insert k v l) = insert (k, v) (set l)"
  by (induction k v l rule: multimap_insert.induct) auto

lemma sum_list_multimap_insert [simp]:
  fixes f :: "subsecond \<times> subsecond \<Rightarrow> 'a :: comm_monoid_add"
  shows "sum_list (map f (multimap_insert k v l)) = f (k, v) + sum_list (map f l)"
  by (induction k v l rule: multimap_insert.induct) (auto simp: ac_simps)

lemma length_multimap_insert [simp]: "length (multimap_insert k v l) = Suc (length l)"
  by (induction k v l rule: multimap_insert.induct) auto

lemma sorted_multimap_insert: "sorted (map fst l) \<Longrightarrow> sorted (map fst (multimap_insert k v l))"
  by (induction k v l rule: multimap_insert.induct) fastforce+

lemma addItem_ok: "mg_ok q \<Longrightarrow> mg_ok (addItem q t p)"
  by (simp add: mg_ok_def addItem_def sorted_multimap_insert add.commute)

lemma removeItems_ok: "mg_ok q \<Longrightarrow> mg_ok (removeItems q t)"
proof (induction q t rule: removeItems.induct)
  case (1 q t)
  show ?case
  proof (cases "mg_window q")
    case Nil
    then show ?thesis using 1(2) by (subst removeItems.simps) simp
  next
    case (Cons kv l)
    obtain k v where kv: "kv = (k, v)" by fastforce
    let ?q = "q\<lparr>mg_num_arrivals := mg_num_arrivals q - 1,
      mg_service_time_sum := mg_service_time_sum q - ST_getPS v,
      mg_service_time_sum2 := mg_service_time_sum2 q - ST_getPS v * ST_getPS v, mg_window := l\<rparr>"
    have "mg_ok ?q" using 1(2) Cons kv by (simp add: mg_ok_def)
    then have "k < t \<Longrightarrow> mg_ok (removeItems ?q t)" using 1(1) [OF Cons kv [symmetric]] by blast
    then show ?thesis using 1(2) Cons kv by (subst removeItems.simps) simp
  qed
qed

lemma removeItems_frame [simp]: "mg_window_size (removeItems q t) = mg_window_size q"
  by (induction q t rule: removeItems.induct) (subst removeItems.simps, auto split: list.splits)

lemma removeItems_window: "mg_window (removeItems q t) = dropWhile (\<lambda>(k, v). k < t) (mg_window q)"
  by (induction q t rule: removeItems.induct) (subst removeItems.simps, auto split: list.splits)

lemma dropWhile_filter_sorted:
  fixes t :: "'k :: linorder"
  shows "sorted (map fst l) \<Longrightarrow> dropWhile (\<lambda>(k, v). k < t) l = filter (\<lambda>(k, v). \<not> k < t) l"
proof (induction l)
  case (Cons x l)
  show ?case
  proof (cases "fst x < t")
    case False
    then have "\<forall>y \<in> set (x # l). \<not> fst y < t" using Cons.prems by force
    then show ?thesis using False by (simp add: case_prod_beta filter_True)
  qed (use Cons in \<open>simp add: case_prod_beta\<close>)
qed simp

text \<open>
  C28. The windowed M/G/1 queue keeps its sums in step with its window: after any request
  the number of arrivals and the sums of the service times and of their squares are those of
  the entries in the window, which are the entries not older than the bound of the request
  together with the request itself, and the delay is at most the window size.
\<close>

theorem mg1_window_sums:
  assumes "mg_ok q" and "mg_computeQueueDelay rnd global_time q t p = Inr (d, q')"
  shows "mg_ok q' \<and> d \<le> mg_window_size q \<and>
    mg_window q' = multimap_insert t p (filter (\<lambda>(k, v). \<not> k <
      max (global_time - mg_window_size q) (t - 10 * mg_window_size q)) (mg_window q))"
proof -
  let ?e = "max (global_time - mg_window_size q) (t - 10 * mg_window_size q)"
  let ?q1 = "removeItems q ?e"
  have q': "q' = (addItem ?q1 t p)\<lparr>mg_total_requests := mg_total_requests (addItem ?q1 t p) + 1,
      mg_total_utilized_time := mg_total_utilized_time (addItem ?q1 t p) + p,
      mg_total_queue_delay := mg_total_queue_delay (addItem ?q1 t p) + d\<rparr>"
    and d: "d \<le> mg_window_size q"
    using assms(2) by (auto simp: mg_computeQueueDelay_def Let_def split: if_splits)
  have "mg_ok (addItem ?q1 t p)" using assms(1) by (intro addItem_ok removeItems_ok)
  then have "mg_ok q'" by (simp add: q' mg_ok_def)
  moreover have "mg_window q' = multimap_insert t p (filter (\<lambda>(k, v). \<not> k < ?e) (mg_window q))"
    using assms(1) by (simp add: q' addItem_def removeItems_window dropWhile_filter_sorted mg_ok_def)
  ultimately show ?thesis using d by blast
qed

lemma mg1_window_sums_witness:
  "let q = addItem (addItem (QueueModelWindowedMG1 1000) 20000000 5000) 20000001 7000;
       r = mg_computeQueueDelay (\<lambda>x. x) 20000000 q 20000002 9000
   in mg_ok q \<and> (\<exists>d q'. r = Inr (d, q') \<and> mg_ok q' \<and> d \<le> 1000000000)"
proof -
  let ?q = "addItem (addItem (QueueModelWindowedMG1 1000) 20000000 5000) 20000001 7000"
  have ok: "mg_ok ?q" by (intro addItem_ok) (simp add: mg_ok_def QueueModelWindowedMG1_def)
  have "case mg_computeQueueDelay (\<lambda>x. x) 20000000 ?q 20000002 9000 of Inr r \<Rightarrow> True | Inl e \<Rightarrow> False"
    by code_simp
  then obtain d q' where r: "mg_computeQueueDelay (\<lambda>x. x) 20000000 ?q 20000002 9000 = Inr (d, q')"
    by (auto split: sum.splits)
  have "mg_window_size ?q = 1000000000" by (simp add: addItem_def QueueModelWindowedMG1_def ST_NS_def)
  with mg1_window_sums [OF ok r] ok r show ?thesis by (simp add: Let_def)
qed

text \<open>
  The first ten windows of simulated time have no queueing delay: the lower bound
  \<^verbatim>\<open>pkt_time - 10 * m_window_size\<close> wraps around to a time in the far future, the whole
  window is discarded, and the delay is zero whatever the load.
\<close>

theorem mg1_no_delay_at_start:
  assumes "mg_ok q" and "10 * unat (mg_window_size q) < 2 ^ 64"
    and "unat t < 10 * unat (mg_window_size q)"
    and "\<forall>(k, v) \<in> set (mg_window q). unat k < 2 ^ 64 - 10 * unat (mg_window_size q)"
  shows "\<exists>q'. mg_computeQueueDelay rnd global_time q t p = Inr (0, q') \<and> mg_window q' = [(t, p)]"
proof -
  let ?w = "10 * mg_window_size q"
  let ?e = "max (global_time - mg_window_size q) (t - ?w)"
  have w: "unat ?w = 10 * unat (mg_window_size q)"
    using unat_mult_u64 [of 10 "mg_window_size q"] assms(2) by simp
  have "t < ?w" using assms(3) w by (simp add: word_less_nat_alt)
  then have "unat (t - ?w) = 2 ^ 64 + unat t - unat ?w"
    by (simp add: unat_sub_if_size word_size word_le_nat_alt word_less_nat_alt)
  then have "2 ^ 64 - 10 * unat (mg_window_size q) \<le> unat (t - ?w)" using w by simp
  then have "\<forall>(k, v) \<in> set (mg_window q). k < t - ?w"
    using assms(4) by (fastforce simp: word_less_nat_alt)
  then have "\<forall>x \<in> set (mg_window q). case x of (k, v) \<Rightarrow> k < ?e"
    by (auto simp: less_max_iff_disj)
  then have empty: "mg_window (removeItems q ?e) = []"
    by (simp add: removeItems_window dropWhile_eq_Nil_conv)
  then have "mg_num_arrivals (removeItems q ?e) = 0"
    using removeItems_ok [OF assms(1), of ?e] by (simp add: mg_ok_def)
  then show ?thesis using empty by (simp add: mg_computeQueueDelay_def addItem_def Let_def)
qed

lemma mg1_no_delay_at_start_witness:
  "let q = addItem (addItem (QueueModelWindowedMG1 1000) 5000000 900000000) 5000001 900000000
   in length (mg_window q) = 2 \<and>
      (\<exists>q'. mg_computeQueueDelay (\<lambda>x. x) 0 q 5000002 900000000 = Inr (0, q') \<and> mg_window q' = [(5000002, 900000000)])"
proof -
  let ?q = "addItem (addItem (QueueModelWindowedMG1 1000) 5000000 900000000) 5000001 900000000"
  have ok: "mg_ok ?q" by (intro addItem_ok) (simp add: mg_ok_def QueueModelWindowedMG1_def)
  have w: "mg_window_size ?q = 1000000000" by (simp add: addItem_def QueueModelWindowedMG1_def ST_NS_def)
  have l: "mg_window ?q = [(5000000, 900000000), (5000001, 900000000)]" by code_simp
  from mg1_no_delay_at_start [OF ok, of 5000002 "\<lambda>x. x" 0 900000000]
  have "\<exists>q'. mg_computeQueueDelay (\<lambda>x. x) 0 ?q 5000002 900000000 = Inr (0, q') \<and>
    mg_window q' = [(5000002, 900000000)]" by (simp add: w l)
  with l show ?thesis by (simp add: Let_def)
qed

end
