(* ===== verification/Shmem_Perf.thy ===== *)
theory Shmem_Perf
  imports Subsecond_Time
begin

text \<open>
  The breakdown of the time of a memory access
  (\<^verbatim>\<open>pr_l1_pr_l2_dram_directory_msi/shmem_perf.cc\<close>): every interval is charged to one
  reason, so that the charges add up to the elapsed time.
\<close>

section \<open>Model\<close>

datatype shmem_times_type =
    NOC_BASE | NOC_QUEUE | TD_ACCESS | INV_IMBALANCE | REMOTE_CACHE_INV | REMOTE_CACHE_FWD
  | REMOTE_CACHE_WB | PENDING_HIT | NUCA_TAGS | NUCA_QUEUE | NUCA_BUS | NUCA_DATA | DRAM_CACHE
  | DRAM_CACHE_TAGS | DRAM_CACHE_QUEUE | DRAM_CACHE_BUS | DRAM_CACHE_DATA | DRAM_TIME
  | DRAM_QUEUE | DRAM_BUS | DRAM_DEVICE | UNKNOWN_TIME

definition all_reasons :: "shmem_times_type list" where
  "all_reasons = [NOC_BASE, NOC_QUEUE, TD_ACCESS, INV_IMBALANCE, REMOTE_CACHE_INV, REMOTE_CACHE_FWD,
     REMOTE_CACHE_WB, PENDING_HIT, NUCA_TAGS, NUCA_QUEUE, NUCA_BUS, NUCA_DATA, DRAM_CACHE,
     DRAM_CACHE_TAGS, DRAM_CACHE_QUEUE, DRAM_CACHE_BUS, DRAM_CACHE_DATA, DRAM_TIME, DRAM_QUEUE,
     DRAM_BUS, DRAM_DEVICE, UNKNOWN_TIME]"

definition shmem_reason_names :: "string list" where
  "shmem_reason_names = [''noc-base'', ''noc-queue'', ''td-access'', ''inv-imbalance'',
     ''remote-cache-inv'', ''remote-cache-fwd'', ''remote-cache-wb'', ''pending-hit'', ''nuca-tags'',
     ''nuca-bus'', ''nuca-queue'', ''nuca-data'', ''dram-cache'', ''dram-cache-tags'',
     ''dram-cache-queue'', ''dram-cache-bus'', ''dram-cache-data'', ''dram'', ''dram-queue'',
     ''dram-bus'', ''dram-device'', ''unknown'']"

text \<open>The name printed for a reason: the table is indexed by the position in the enumeration.\<close>

definition ShmemReasonString :: "shmem_times_type \<Rightarrow> string" where
  "ShmemReasonString reason =
     shmem_reason_names ! length (takeWhile (\<lambda>r. r \<noteq> reason) all_reasons)"

record shmem_perf =
  sp_core_id :: core_id
  sp_time_begin :: subsecond
  sp_time_last :: subsecond
  sp_times :: "shmem_times_type \<Rightarrow> subsecond"

definition ShmemPerf :: shmem_perf where
  "ShmemPerf = \<lparr>sp_core_id = INVALID_CORE_ID, sp_time_begin = 0, sp_time_last = 0, sp_times = (\<lambda>_. 0)\<rparr>"

definition sp_disable :: "shmem_perf \<Rightarrow> shmem_perf" where
  "sp_disable p = p\<lparr>sp_time_last := ST_MaxTime\<rparr>"

definition sp_reset :: "shmem_perf \<Rightarrow> subsecond \<Rightarrow> core_id \<Rightarrow> shmem_perf" where
  "sp_reset p time core =
     p\<lparr>sp_core_id := core, sp_time_begin := time, sp_time_last := time,
       sp_times := fold (\<lambda>r ts. ts(r := 0)) all_reasons (sp_times p)\<rparr>"

definition sp_updateTime :: "shmem_perf \<Rightarrow> subsecond \<Rightarrow> shmem_times_type \<Rightarrow> shmem_perf" where
  "sp_updateTime p time reason =
     (if time > sp_time_last p
      then p\<lparr>sp_times := (sp_times p)(reason := sp_times p reason + (time - sp_time_last p)),
             sp_time_last := time\<rparr>
      else p)"

text \<open>Of a packet only the arrival time and the queue delay matter.\<close>

definition sp_updatePacket :: "shmem_perf \<Rightarrow> subsecond \<Rightarrow> subsecond \<Rightarrow> shmem_perf" where
  "sp_updatePacket p packet_time packet_queue_delay =
     (if packet_time > sp_time_last p
      then sp_updateTime
        (p\<lparr>sp_times := (sp_times p)(NOC_QUEUE := sp_times p NOC_QUEUE + packet_queue_delay),
           sp_time_last := sp_time_last p + packet_queue_delay\<rparr>) packet_time NOC_BASE
      else p)"

definition sp_add :: "shmem_perf \<Rightarrow> shmem_perf \<Rightarrow> shmem_perf" where
  "sp_add p q = p\<lparr>sp_times := fold (\<lambda>r ts. ts(r := ts r + sp_times q r)) all_reasons (sp_times p)\<rparr>"

datatype perf_op = Update subsecond shmem_times_type | Packet subsecond subsecond

definition perf_op :: "perf_op \<Rightarrow> shmem_perf \<Rightarrow> shmem_perf" where
  "perf_op oper p = (case oper of
       Update time reason \<Rightarrow> sp_updateTime p time reason
     | Packet time delay \<Rightarrow> sp_updatePacket p time delay)"

section \<open>Properties\<close>

lemma all_reasons_enum: "set all_reasons = UNIV" "distinct all_reasons"
proof -
  have "r \<in> set all_reasons" for r by (cases r) (simp_all add: all_reasons_def)
  then show "set all_reasons = UNIV" by blast
qed (simp add: all_reasons_def)

definition total_time :: "shmem_perf \<Rightarrow> subsecond" where
  "total_time p = (\<Sum>r\<leftarrow>all_reasons. sp_times p r)"

lemma sum_list_fun_upd:
  fixes f :: "'a \<Rightarrow> 'b :: ab_group_add"
  assumes "distinct xs" and "r \<in> set xs"
  shows "(\<Sum>x\<leftarrow>xs. (f(r := f r + d)) x) = (\<Sum>x\<leftarrow>xs. f x) + d"
  using assms by (induction xs) (auto simp: algebra_simps intro!: arg_cong [where f = sum_list] map_cong)

lemma total_time_charge:
  "total_time (p\<lparr>sp_times := (sp_times p)(r := sp_times p r + d)\<rparr>) = total_time p + d"
  unfolding total_time_def using sum_list_fun_upd [of all_reasons r "sp_times p" d]
  by (simp add: all_reasons_enum del: fun_upd_apply)

definition charged :: "shmem_perf \<Rightarrow> bool" where
  "charged p \<longleftrightarrow> total_time p = sp_time_last p - sp_time_begin p"

lemma total_time_last [simp]: "total_time (p\<lparr>sp_time_last := t\<rparr>) = total_time p"
  by (simp add: total_time_def)

lemma charged_step:
  assumes "charged p"
  shows "charged (p\<lparr>sp_times := (sp_times p)(r := sp_times p r + d), sp_time_last := sp_time_last p + d\<rparr>)"
  using assms total_time_charge [of p r d] by (simp add: charged_def total_time_last)

lemma sp_updateTime_charged: "charged p \<Longrightarrow> charged (sp_updateTime p time reason)"
  using charged_step [where p = p and r = reason and d = "time - sp_time_last p"] by (simp add: sp_updateTime_def)

lemma sp_updatePacket_charged: "charged p \<Longrightarrow> charged (sp_updatePacket p time delay)"
  using charged_step [where p = p and r = NOC_QUEUE and d = delay] by (simp add: sp_updatePacket_def sp_updateTime_charged)

lemma sp_reset_charged: "charged (sp_reset p time core)"
proof -
  have "fold (\<lambda>r ts. ts(r := 0)) xs ts r = (if r \<in> set xs then 0 else ts r)"
    for xs :: "shmem_times_type list" and ts :: "shmem_times_type \<Rightarrow> subsecond" and r
    by (induction xs arbitrary: ts) auto
  then show ?thesis
    by (simp add: charged_def total_time_def sp_reset_def all_reasons_enum)
qed

text \<open>
  C34. The breakdown of a memory access is complete: after a reset and any sequence of
  updates by time or by packet, the charges to all reasons add up to the time between the
  beginning and the last update (as 64-bit numbers).
\<close>

theorem shmem_times_add_up:
  "let p = fold perf_op ops (sp_reset p0 time core)
   in total_time p = sp_time_last p - sp_time_begin p"
proof -
  have "charged p \<Longrightarrow> charged (fold perf_op ops p)" for p
    by (induction ops arbitrary: p)
      (simp_all add: perf_op_def sp_updateTime_charged sp_updatePacket_charged split: perf_op.split)
  from this [OF sp_reset_charged] show ?thesis by (simp add: charged_def Let_def)
qed

text \<open>The printed names of two reasons are exchanged.\<close>

lemma nuca_names_swapped:
  "ShmemReasonString NUCA_QUEUE = ''nuca-bus'' \<and> ShmemReasonString NUCA_BUS = ''nuca-queue''"
  by code_simp

end
