(* ===== verification/Nuca.thy ===== *)
theory Nuca
  imports Cache_Theorems Contention Queue_History
begin

text \<open>
  The creation of queue models (\<^verbatim>\<open>queue_model.cc\<close>) and the NUCA cache
  (\<^verbatim>\<open>parametric_dram_directory_msi/nuca_cache.cc\<close>): a slice of a shared last-level
  cache next to a tag directory.
\<close>

section \<open>Queue models behind one interface\<close>

datatype queue_model =
    QM_Basic queue_model_basic
  | QM_History history_list
  | QM_Contention contention
  | QM_MG1 windowed_mg1

text \<open>The entries of the configuration that the constructors read.\<close>

record queue_config =
  qc_moving_avg_enabled :: bool
  qc_moving_avg_window_size :: u32
  qc_moving_avg_type :: string
  qc_analytical_model_enabled :: bool
  qc_max_list_size :: u32
  qc_window_size :: u64
  qc_core_period :: subsecond

definition QueueModel_create :: "queue_config \<Rightarrow> string \<Rightarrow> subsecond \<Rightarrow> queue_model result" where
  "QueueModel_create cfg model_type min_processing_time =
     (if model_type = ''basic''
      then bindR (QueueModelBasic (qc_moving_avg_enabled cfg) (qc_moving_avg_window_size cfg)
             (qc_moving_avg_type cfg)) (\<lambda>q. Inr (QM_Basic q))
      else if model_type = ''history_list''
      then Inr (QM_History (QueueModelHistoryList (qc_analytical_model_enabled cfg)
             (qc_max_list_size cfg) min_processing_time))
      else if model_type = ''contention''
      then Inr (QM_Contention (ContentionModel (qc_core_period cfg) 1))
      else if model_type = ''windowed_mg1''
      then Inr (QM_MG1 (QueueModelWindowedMG1 (qc_window_size cfg)))
      else Inl Log_Error)"

text \<open>
  The virtual call. \<open>arith\<close> holds what the models take from outside: the root and the rounding
  of floating-point arithmetic and the global time of the clock skew minimisation server.
\<close>

record queue_arith =
  qa_root :: "u64 \<Rightarrow> u32 \<Rightarrow> u64"
  qa_rnd :: "rat \<Rightarrow> rat"
  qa_global_time :: subsecond

definition computeQueueDelay ::
  "queue_arith \<Rightarrow> queue_model \<Rightarrow> subsecond \<Rightarrow> subsecond \<Rightarrow> (subsecond \<times> queue_model) result" where
  "computeQueueDelay arith q pkt_time processing_time =
     (case q of
        QM_Basic b \<Rightarrow> bindR (qb_computeQueueDelay (qa_root arith) b pkt_time processing_time)
          (\<lambda>(d, b'). Inr (d, QM_Basic b'))
      | QM_History h \<Rightarrow> bindR (hl_computeQueueDelay h pkt_time processing_time)
          (\<lambda>(d, h'). Inr (d, QM_History h'))
      | QM_Contention c \<Rightarrow> bindR (qm_contention_delay c pkt_time processing_time)
          (\<lambda>(d, c'). Inr (d, QM_Contention c'))
      | QM_MG1 m \<Rightarrow> bindR (mg_computeQueueDelay (qa_rnd arith) (qa_global_time arith) m pkt_time processing_time)
          (\<lambda>(d, m'). Inr (d, QM_MG1 m')))"

section \<open>NucaCache\<close>

datatype where_t =
    L1I | L1_OWN | L2_OWN | L3_OWN | L4_OWN | MISS | NUCA_HIT | DRAM_CACHE_HIT | DRAM_HIT
  | DRAM_LOCAL | DRAM_REMOTE | CACHE_REMOTE | SIBLING | L1_SIBLING | L2_SIBLING | L3_SIBLING
  | L4_SIBLING | UNKNOWN | PREDICATE_FALSE | PREFETCH_NO_MAPPING

record nuca_cache =
  nc_core_id :: core_id
  nc_cache_block_size :: u32
  nc_data_access_time :: subsecond
  nc_tags_access_time :: subsecond
  nc_data_array_bandwidth :: u64
  nc_cache :: cache
  nc_queue_model :: "queue_model option"
  nc_reads :: u64
  nc_writes :: u64
  nc_read_misses :: u64
  nc_write_misses :: u64

record nuca_parameters =
  np_num_sets :: u32
  np_associativity :: u32
  np_replacement_policy :: string
  np_hash_function :: string
  np_data_access_time :: subsecond
  np_tags_access_time :: subsecond
  np_bandwidth :: u64
  np_queue_model :: "string option"

definition NucaCache ::
  "repl_config \<Rightarrow> bool \<Rightarrow> queue_config \<Rightarrow> core_id \<Rightarrow> address_home_lookup option \<Rightarrow> u32 \<Rightarrow> nuca_parameters
     \<Rightarrow> nuca_cache result" where
  "NucaCache rcfg faults qcfg core_id home_lookup cache_block_size parameters =
     bindR (parseAddressHash (np_hash_function parameters)) (\<lambda>hash.
     bindR (Cache rcfg faults (np_num_sets parameters) (np_associativity parameters) cache_block_size
       (np_replacement_policy parameters) PR_L1_CACHE hash None home_lookup) (\<lambda>c.
     bindR (case np_queue_model parameters of
              None \<Rightarrow> Inr None
            | Some ty \<Rightarrow>
                bindR (bw_getRoundedLatency (np_bandwidth parameters) (ucast (8 * cache_block_size))) (\<lambda>t.
                bindR (QueueModel_create qcfg ty t) (\<lambda>q. Inr (Some q)))) (\<lambda>qm.
     Inr \<lparr>nc_core_id = core_id, nc_cache_block_size = cache_block_size,
          nc_data_access_time = np_data_access_time parameters,
          nc_tags_access_time = np_tags_access_time parameters,
          nc_data_array_bandwidth = np_bandwidth parameters,
          nc_cache = c, nc_queue_model = qm,
          nc_reads = 0, nc_writes = 0, nc_read_misses = 0, nc_write_misses = 0\<rparr>)))"

definition accessDataArray ::
  "queue_arith \<Rightarrow> nuca_cache \<Rightarrow> subsecond \<Rightarrow> (subsecond \<times> nuca_cache) result" where
  "accessDataArray arith n t_start =
     bindR (case nc_queue_model n of
              None \<Rightarrow> Inr (0, None)
            | Some q \<Rightarrow>
                bindR (bw_getRoundedLatency (nc_data_array_bandwidth n) (ucast (8 * nc_cache_block_size n))) (\<lambda>processing_time.
                bindR (computeQueueDelay arith q t_start processing_time) (\<lambda>(d, q').
                Inr (processing_time + d, Some q')))) (\<lambda>(queue_delay, qm).
     Inr (queue_delay + nc_data_access_time n, n\<lparr>nc_queue_model := qm\<rparr>))"

definition nuca_read ::
  "queue_arith \<Rightarrow> nuca_cache \<Rightarrow> intptr \<Rightarrow> byte list option \<Rightarrow> subsecond \<Rightarrow> bool
     \<Rightarrow> (subsecond \<times> where_t \<times> byte list option \<times> nuca_cache) result" where
  "nuca_read arith n address data_buf now cnt =
     bindR (peekSingleLine (nc_cache n) address) (\<lambda>block_info.
     let latency = nc_tags_access_time n in
     bindR (case block_info of
              Some p \<Rightarrow>
                bindR (accessSingleLine (nc_cache n) address LOAD data_buf (nc_cache_block_size n) True)
                  (\<lambda>(_, out, c).
                bindR (accessDataArray arith (n\<lparr>nc_cache := c\<rparr>) (now + latency)) (\<lambda>(t, n').
                Inr (latency + t, NUCA_HIT, out, n')))
            | None \<Rightarrow>
                Inr (latency, MISS, data_buf,
                     if cnt then n\<lparr>nc_read_misses := nc_read_misses n + 1\<rparr> else n))
       (\<lambda>(latency, hit_where, out, n').
     Inr (latency, hit_where, out, if cnt then n'\<lparr>nc_reads := nc_reads n' + 1\<rparr> else n')))"

text \<open>
  \<^verbatim>\<open>write\<close>: \<open>eviction0\<close>, \<open>evict_address0\<close> and \<open>evict_buf0\<close> are what the caller's variables hold
  before the call; on a hit the call leaves them alone.
\<close>

definition nuca_write ::
  "queue_arith \<Rightarrow> nuca_cache \<Rightarrow> intptr \<Rightarrow> byte list option \<Rightarrow> bool \<Rightarrow> intptr \<Rightarrow> byte list option \<Rightarrow> subsecond \<Rightarrow> bool
     \<Rightarrow> (subsecond \<times> where_t \<times> bool \<times> intptr \<times> byte list option \<times> nuca_cache) result" where
  "nuca_write arith n address data_buf eviction0 evict_address0 evict_buf0 now cnt =
     bindR (peekSingleLine (nc_cache n) address) (\<lambda>block_info.
     let latency = nc_tags_access_time n in
     bindR (case block_info of
              Some p \<Rightarrow>
                let c = assign_line (nc_cache n) p ((deref (nc_cache n) p)\<lparr>m_cstate := MODIFIED\<rparr>) in
                bindR (accessSingleLine c address STORE data_buf (nc_cache_block_size n) True) (\<lambda>(_, _, c').
                bindR (accessDataArray arith (n\<lparr>nc_cache := c'\<rparr>) (now + latency)) (\<lambda>(t, n').
                Inr (latency + t, NUCA_HIT, eviction0, evict_address0, evict_buf0, n')))
            | None \<Rightarrow>
                bindR (CacheBlockInfo_create PR_L1_CACHE) (\<lambda>evict_block_info0.
                bindR (outcomeR (insertSingleLine (nc_cache n) address data_buf evict_block_info0 evict_buf0 None))
                  (\<lambda>(eviction, evict_address, evict_block_info, evict_buf, c', _).
                let n' = n\<lparr>nc_cache := c'\<rparr> in
                Inr (latency, MISS, eviction \<and> m_cstate evict_block_info = MODIFIED,
                     evict_address, evict_buf,
                     if cnt then n'\<lparr>nc_write_misses := nc_write_misses n' + 1\<rparr> else n'))))
       (\<lambda>(latency, hit_where, eviction, evict_address, evict_buf, n').
     Inr (latency, hit_where, eviction, evict_address, evict_buf,
          if cnt then n'\<lparr>nc_writes := nc_writes n' + 1\<rparr> else n')))"

section \<open>Presence in the NUCA cache\<close>

lemma peek_assign_line:
  assumes "cache_ok c" and "peekSingleLine c a = Inr (Some p)" and "m_tag b = m_tag (deref c p)"
  shows "peekSingleLine (assign_line c p b) a = Inr (Some p)" and "deref (assign_line c p b) p = b"
proof -
  from assms(2) obtain tag si i where sp: "splitAddress (c_base c) a = Inr (tag, si)"
    and f: "CacheSet_find (c_sets c ! unat si) tag = Some i" and p: "p = (unat si, i)"
    by (auto simp: peekSingleLine_def get_set_def split: sum.splits prod.splits if_splits)
  note si = cache_okD(1) [OF assms(1) sp] and i = find_Some [OF f]
  let ?s = "c_sets c ! unat si"
  let ?s' = "?s\<lparr>cs_lines := (cs_lines ?s)[i := b]\<rparr>"
  have "m_tag ((cs_lines ?s)[i := b] ! j) = m_tag (cs_lines ?s ! j)" if "j < length (cs_lines ?s)" for j
    using assms(3) that by (auto simp: p deref_def nth_list_update_If)
  then have "CacheSet_find ?s' tag = CacheSet_find ?s tag"
    by (auto simp: CacheSet_find_def last_idx_def intro!: find_cong)
  then show "peekSingleLine (assign_line c p b) a = Inr (Some p)"
    using sp f si by (simp add: peekSingleLine_def get_set_def assign_line_def p)
  show "deref (assign_line c p b) p = b" using si i by (simp add: deref_def assign_line_def p)
qed

lemma accessDataArray_cache [simp]:
  "wpR (accessDataArray arith n t) (\<lambda>(d, n'). nc_cache n' = nc_cache n \<and> nc_cache_block_size n' = nc_cache_block_size n)"
  by (auto simp: accessDataArray_def wpR_def)

lemma nuca_write_cases:
  assumes "nuca_write arith n a data ev0 ea0 eb0 now cnt = Inr (lat, w, ev, ea, eb, n')"
  obtains (hit) p c1 b out where "peekSingleLine (nc_cache n) a = Inr (Some p)" and "w = NUCA_HIT"
      and "c1 = assign_line (nc_cache n) p ((deref (nc_cache n) p)\<lparr>m_cstate := MODIFIED\<rparr>)"
      and "accessSingleLine c1 a STORE data (nc_cache_block_size n) True = Inr (b, out, nc_cache n')"
      and "ev = ev0"
  | (miss) ev1 ei ei0 cn where "peekSingleLine (nc_cache n) a = Inr None" and "w = MISS"
      and "insertSingleLine (nc_cache n) a data ei0 eb0 None = Some (Inr (ev1, ea, ei, eb, nc_cache n', cn))"
      and "ev \<longleftrightarrow> ev1 \<and> m_cstate ei = MODIFIED"
proof -
  from assms obtain q where q: "peekSingleLine (nc_cache n) a = Inr q" by (auto simp: nuca_write_def)
  show thesis
  proof (cases q)
    case None
    from assms q None show ?thesis
      by (auto simp: nuca_write_def Let_def outcomeR_def split: option.splits if_splits intro!: miss)
  next
    case (Some p)
    let ?c1 = "assign_line (nc_cache n) p ((deref (nc_cache n) p)\<lparr>m_cstate := MODIFIED\<rparr>)"
    from assms q Some obtain b out c' t n1 where
      acc: "accessSingleLine ?c1 a STORE data (nc_cache_block_size n) True = Inr (b, out, c')"
      and arr: "accessDataArray arith (n\<lparr>nc_cache := c'\<rparr>) (now + nc_tags_access_time n) = Inr (t, n1)"
      and r: "w = NUCA_HIT" "ev = ev0" "nc_cache n' = nc_cache n1"
      by (auto simp: nuca_write_def Let_def)
    have "nc_cache n1 = c'" using accessDataArray_cache [THEN wpR_D, OF arr] by simp
    then show ?thesis using hit [OF _ r(1) refl _ r(2)] q Some acc r(3) by simp
  qed
qed

text \<open>
  What a write leaves in the NUCA cache. After any write the address is present, so a
  read finds it; the line is marked \<open>MODIFIED\<close> when the write hit, but after a write that
  missed the new line is still \<open>INVALID\<close>: its eviction is not reported, and the data that
  was written is never sent to memory.
\<close>

theorem nuca_write_present:
  assumes "cache_ok (nc_cache n)" and "access_fits (nc_cache n) a data (nc_cache_block_size n)"
    and "nc_cache_block_size n = cb_blocksize (c_base (nc_cache n))"
    and "case data of None \<Rightarrow> True | Some b \<Rightarrow> length b = unat (nc_cache_block_size n)"
    and "nuca_write arith n a data ev0 ea0 eb0 now cnt = Inr (lat, w, ev, ea, eb, n')"
  shows "cache_ok (nc_cache n') \<and>
    (\<exists>b. lookup (nc_cache n') a = Some b \<and> m_cstate b = (if w = NUCA_HIT then MODIFIED else INVALID))"
  using assms(5)
proof (cases rule: nuca_write_cases)
  case (hit p c1 b out)
  let ?b = "(deref (nc_cache n) p)\<lparr>m_cstate := MODIFIED\<rparr>"
  have c1: "cache_ok c1" unfolding hit(3)
    by (rule assign_line_ok [OF assms(1) hit(1)]) (simp_all add: is_l2_def)
  have base: "c_base c1 = c_base (nc_cache n)" by (simp add: hit(3) assign_line_def)
  have fits: "access_fits c1 a data (nc_cache_block_size n)"
    using assms(2) unfolding access_fits_def base .
  have "lookup c1 a = Some ?b"
    using peek_lookup [OF c1, of a "Some p"] peek_assign_line [OF assms(1) hit(1), of ?b]
    by (simp add: hit(3))
  then show ?thesis using access_ok [OF c1 fits hit(4)] hit(2) by simp
next
  case (miss ev1 ei ei0 cn)
  obtain tag si where sp: "splitAddress (c_base (nc_cache n)) a = Inr (tag, si)"
    using miss(1) by (auto simp: peekSingleLine_def split: sum.splits)
  have look: "lookup (nc_cache n) a = None" using peek_lookup [OF assms(1) miss(1)] by simp
  have "\<And>b. data = Some b \<Longrightarrow> length b = unat (cb_blocksize (c_base (nc_cache n)))"
    using assms(3,4) by simp
  note i = insert_ok(1,2) [OF assms(1) look this miss(3) sp]
  have "c_cache_type (nc_cache n) \<noteq> INVALID_CACHE_TYPE" using assms(1) by (simp add: cache_ok_def)
  then show ?thesis using i new_line_simps(2) miss(2) by auto
qed

text \<open>One set with one line of 64 bytes: what the second write evicts was written by the first.\<close>

definition demo_nuca_parameters :: nuca_parameters where
  "demo_nuca_parameters = \<lparr>np_num_sets = 1, np_associativity = 1, np_replacement_policy = ''lru'',
     np_hash_function = ''mask'', np_data_access_time = 10, np_tags_access_time = 5, np_bandwidth = 0,
     np_queue_model = None\<rparr>"

definition demo_nuca :: nuca_cache where
  "demo_nuca = projr (NucaCache \<lparr>rc_attempts = 1, rc_srrip_bits = 2, rc_time = 0\<rparr> True
     \<lparr>qc_moving_avg_enabled = False, qc_moving_avg_window_size = 0, qc_moving_avg_type = [],
      qc_analytical_model_enabled = False, qc_max_list_size = 0, qc_window_size = 0, qc_core_period = 1\<rparr>
     0 None 64 demo_nuca_parameters)"

definition demo_arith :: queue_arith where
  "demo_arith = \<lparr>qa_root = (\<lambda>x n. x), qa_rnd = (\<lambda>x. x), qa_global_time = 0\<rparr>"

lemma nuca_lost_write:
  "case bindR (nuca_write demo_arith demo_nuca 0 (Some (replicate 64 7)) False 0 (Some (replicate 64 0)) 0 True)
     (\<lambda>(_, _, _, _, _, n). nuca_write demo_arith n 64 (Some (replicate 64 8)) False 0 (Some (replicate 64 0)) 0 True)
   of Inl er \<Rightarrow> False
   | Inr (_, _, eviction, evict_address, evict_buf, _) \<Rightarrow>
       \<not> eviction \<and> evict_address = 0 \<and> evict_buf = Some (replicate 64 7)"
  by code_simp

lemma demo_nuca_cache: "Cache \<lparr>rc_attempts = 1, rc_srrip_bits = 2, rc_time = 0\<rparr> True 1 1 64 ''lru'' PR_L1_CACHE HASH_MASK None None
    = Inr (nc_cache demo_nuca)" "nc_cache_block_size demo_nuca = 64"
  by (simp_all add: demo_nuca_def NucaCache_def demo_nuca_parameters_def parseAddressHash_def bindR_def Cache_def
      CacheBase_def floorLog2_eqI [of _ 0] parsePolicyType_def createCacheSet_def createPolicy_def Let_def CacheSet_def
      CacheBlockInfo_create_def)

lemma nuca_write_present_witness:
  "case nuca_write demo_arith demo_nuca 0 (Some (replicate 64 7)) False 0 (Some (replicate 64 0)) 0 True of
     Inl er \<Rightarrow> False
   | Inr (lat, w, ev, ea, eb, n) \<Rightarrow> \<exists>b. lookup (nc_cache n) 0 = Some b \<and> m_cstate b = INVALID"
proof -
  have "config_ok \<lparr>rc_attempts = 1, rc_srrip_bits = 2, rc_time = 0\<rparr> 1 1 64 HASH_MASK" by (simp add: config_ok_def)
  note ok = Cache_ok [OF demo_nuca_cache(1) this]
  have run: "case nuca_write demo_arith demo_nuca 0 (Some (replicate 64 7)) False 0 (Some (replicate 64 0)) 0 True of
     Inl er \<Rightarrow> False | Inr (lat, w, r) \<Rightarrow> w = MISS" by code_simp
  then obtain lat ev ea eb n where
    r: "nuca_write demo_arith demo_nuca 0 (Some (replicate 64 7)) False 0 (Some (replicate 64 0)) 0 True
      = Inr (lat, MISS, ev, ea, eb, n)" by (auto split: sum.splits)
  have base: "cb_blocksize (c_base (nc_cache demo_nuca)) = 64"
    "access_fits (nc_cache demo_nuca) 0 (Some (replicate 64 7)) 64" by code_simp+
  from nuca_write_present [OF ok(1) _ _ _ r] base show ?thesis by (simp add: r demo_nuca_cache(2))
qed

end
