(* ===== verification/Fifo.thy ===== *)
theory Fifo
  imports Bits
begin

text \<open>
  First-in first-out queues: the fixed-size ring of \<^verbatim>\<open>common/misc/circular_queue.h\<close> and
  the per-address request queues of \<^verbatim>\<open>cache/req_queue_list_template.h\<close>. What a queue
  promises is the locale \<open>fifo\<close>, interpreted on both.
\<close>

section \<open>CircularQueue\<close>

text \<open>The slots that were never written hold what \<open>new T[m_size]\<close> left there.\<close>

record 'a circular_queue =
  cq_size :: u32
  cq_first :: u32
  cq_last :: u32
  cq_queue :: "'a list"

definition CircularQueue :: "'a list \<Rightarrow> u32 \<Rightarrow> 'a circular_queue" where
  "CircularQueue memory n =
     \<lparr>cq_size = n + 1, cq_first = 0, cq_last = 0, cq_queue = take (unat (n + 1)) memory\<rparr>"

definition modR :: "u32 \<Rightarrow> u32 \<Rightarrow> u32 result" where
  "modR a b = (if b = 0 then Inl Div_By_Zero else Inr (a mod b))"

definition cq_full :: "'a circular_queue \<Rightarrow> bool result" where
  "cq_full q = bindR (modR (cq_first q + 1) (cq_size q)) (\<lambda>n. Inr (n = cq_last q))"

definition cq_empty :: "'a circular_queue \<Rightarrow> bool" where
  "cq_empty q \<longleftrightarrow> cq_first q = cq_last q"

definition cq_count :: "'a circular_queue \<Rightarrow> u32 result" where
  "cq_count q = modR (cq_first q + cq_size q - cq_last q) (cq_size q)"

definition cq_at :: "'a circular_queue \<Rightarrow> u32 \<Rightarrow> 'a result" where
  "cq_at q i = (if unat i < length (cq_queue q) then Inr (cq_queue q ! unat i) else Inl Out_Of_Range)"

definition cq_push :: "'a circular_queue \<Rightarrow> 'a \<Rightarrow> 'a circular_queue result" where
  "cq_push q t =
     bindR (cq_full q) (\<lambda>full. bindR (assertR (\<not> full)) (\<lambda>_.
     bindR (cq_at q (cq_first q)) (\<lambda>_. bindR (modR (cq_first q + 1) (cq_size q)) (\<lambda>first.
     Inr (q\<lparr>cq_queue := (cq_queue q)[unat (cq_first q) := t], cq_first := first\<rparr>)))))"

definition cq_pop :: "'a circular_queue \<Rightarrow> ('a \<times> 'a circular_queue) result" where
  "cq_pop q =
     bindR (assertR (\<not> cq_empty q)) (\<lambda>_.
     bindR (modR (cq_last q + 1) (cq_size q)) (\<lambda>last.
     bindR (cq_at q (cq_last q)) (\<lambda>x. Inr (x, q\<lparr>cq_last := last\<rparr>))))"

definition cq_pushCircular :: "'a circular_queue \<Rightarrow> 'a \<Rightarrow> 'a circular_queue result" where
  "cq_pushCircular q t =
     bindR (cq_full q) (\<lambda>full.
     if full then bindR (cq_pop q) (\<lambda>(_, q'). cq_push q' t) else cq_push q t)"

text \<open>\<^verbatim>\<open>next\<close> hands out the slot behind the last element: its index.\<close>

definition cq_next :: "'a circular_queue \<Rightarrow> (u32 \<times> 'a circular_queue) result" where
  "cq_next q =
     bindR (cq_full q) (\<lambda>full. bindR (assertR (\<not> full)) (\<lambda>_.
     bindR (modR (cq_first q + 1) (cq_size q)) (\<lambda>first. Inr (cq_first q, q\<lparr>cq_first := first\<rparr>))))"

definition cq_front :: "'a circular_queue \<Rightarrow> 'a result" where
  "cq_front q = bindR (assertR (\<not> cq_empty q)) (\<lambda>_. cq_at q (cq_last q))"

definition cq_back :: "'a circular_queue \<Rightarrow> 'a result" where
  "cq_back q =
     bindR (assertR (\<not> cq_empty q)) (\<lambda>_.
     bindR (modR (cq_first q + cq_size q - 1) (cq_size q)) (cq_at q))"

text \<open>\<^verbatim>\<open>operator[]\<close> and the checked \<^verbatim>\<open>at\<close>.\<close>

definition cq_index :: "'a circular_queue \<Rightarrow> u32 \<Rightarrow> 'a result" where
  "cq_index q idx = bindR (modR (cq_last q + idx) (cq_size q)) (cq_at q)"

definition cq_at_checked :: "'a circular_queue \<Rightarrow> u32 \<Rightarrow> 'a result" where
  "cq_at_checked q idx =
     bindR (cq_count q) (\<lambda>n. bindR (assertR (idx < n)) (\<lambda>_. cq_index q idx))"

section \<open>ReqQueueList\<close>

text \<open>
  A map from addresses to queues, where an address without a queue has the value \<open>None\<close>. The
  queues themselves are \<^verbatim>\<open>std::queue\<close>.
\<close>

type_synonym 'r req_queue_list = "intptr \<rightharpoonup> 'r list"

definition rq_enqueue :: "'r req_queue_list \<Rightarrow> intptr \<Rightarrow> 'r \<Rightarrow> 'r req_queue_list" where
  "rq_enqueue m address req =
     (let m' = (if m address = None then m(address \<mapsto> []) else m)
      in m'(address \<mapsto> the (m' address) @ [req]))"

definition rq_dequeue :: "'r req_queue_list \<Rightarrow> intptr \<Rightarrow> ('r \<times> 'r req_queue_list) result" where
  "rq_dequeue m address =
     (case m address of
        None \<Rightarrow> Inl Assert_Failed
      | Some [] \<Rightarrow> Inl Out_Of_Range
      | Some (r # rs) \<Rightarrow> Inr (r, if rs = [] then m(address := None) else m(address \<mapsto> rs)))"

definition rq_front :: "'r req_queue_list \<Rightarrow> intptr \<Rightarrow> 'r result" where
  "rq_front m address =
     (case m address of
        None \<Rightarrow> Inl Assert_Failed
      | Some [] \<Rightarrow> Inl Out_Of_Range
      | Some (r # rs) \<Rightarrow> Inr r)"

definition rq_back :: "'r req_queue_list \<Rightarrow> intptr \<Rightarrow> 'r result" where
  "rq_back m address =
     (case m address of
        None \<Rightarrow> Inl Assert_Failed
      | Some rs \<Rightarrow> if rs = [] then Inl Out_Of_Range else Inr (last rs))"

definition rq_size :: "'r req_queue_list \<Rightarrow> intptr \<Rightarrow> nat" where
  "rq_size m address = (case m address of None \<Rightarrow> 0 | Some rs \<Rightarrow> length rs)"

definition rq_empty :: "'r req_queue_list \<Rightarrow> intptr \<Rightarrow> bool" where
  "rq_empty m address \<longleftrightarrow> m address = None"

text \<open>A change of the request at the front, made through the pointer \<^verbatim>\<open>front\<close> returns.\<close>

definition rq_update_front :: "'r req_queue_list \<Rightarrow> intptr \<Rightarrow> ('r \<Rightarrow> 'r) \<Rightarrow> 'r req_queue_list" where
  "rq_update_front m address f =
     (case m address of Some (r # rs) \<Rightarrow> m(address \<mapsto> f r # rs) | _ \<Rightarrow> m)"

section \<open>The contract of a queue\<close>

primrec pushes :: "('q \<Rightarrow> 'a \<Rightarrow> 'q result) \<Rightarrow> 'q \<Rightarrow> 'a list \<Rightarrow> 'q result" where
  "pushes push q [] = Inr q"
| "pushes push q (x # xs) = bindR (push q x) (\<lambda>q'. pushes push q' xs)"

primrec pops :: "('q \<Rightarrow> ('a \<times> 'q) result) \<Rightarrow> nat \<Rightarrow> 'q \<Rightarrow> 'a list result" where
  "pops pop 0 q = Inr []"
| "pops pop (Suc n) q = bindR (pop q) (\<lambda>(x, q'). bindR (pops pop n q') (\<lambda>xs. Inr (x # xs)))"

locale fifo =
  fixes valid :: "'q \<Rightarrow> bool"
    and items :: "'q \<Rightarrow> 'a list"
    and room :: "'q \<Rightarrow> nat option"
    and push :: "'q \<Rightarrow> 'a \<Rightarrow> 'q result"
    and pop :: "'q \<Rightarrow> ('a \<times> 'q) result"
  assumes push_ok: "\<lbrakk>valid q; \<And>n. room q = Some n \<Longrightarrow> length (items q) < n\<rbrakk>
      \<Longrightarrow> \<exists>q'. push q x = Inr q' \<and> valid q' \<and> items q' = items q @ [x] \<and> room q' = room q"
    and pop_ok: "\<lbrakk>valid q; items q = x # xs\<rbrakk>
      \<Longrightarrow> \<exists>q'. pop q = Inr (x, q') \<and> valid q' \<and> items q' = xs \<and> room q' = room q"
begin

lemma pushes_ok:
  assumes "valid q" and "\<And>n. room q = Some n \<Longrightarrow> length (items q) + length xs \<le> n"
  shows "\<exists>q'. pushes push q xs = Inr q' \<and> valid q' \<and> items q' = items q @ xs"
  using assms
proof (induction xs arbitrary: q)
  case (Cons x xs)
  have "\<And>n. room q = Some n \<Longrightarrow> length (items q) < n" using Cons.prems(2) by fastforce
  from push_ok [OF Cons.prems(1) this, of x] obtain q1 where
    q1: "push q x = Inr q1" "valid q1" "items q1 = items q @ [x]" "room q1 = room q" by blast
  have "\<And>n. room q1 = Some n \<Longrightarrow> length (items q1) + length xs \<le> n"
    using Cons.prems(2) q1(3,4) by fastforce
  from Cons.IH [OF q1(2) this] show ?case using q1(1,3) by auto
qed simp

lemma pops_ok: "valid q \<Longrightarrow> n \<le> length (items q) \<Longrightarrow> pops pop n q = Inr (take n (items q))"
proof (induction n arbitrary: q)
  case (Suc n)
  then obtain x xs where i: "items q = x # xs" by (cases "items q") auto
  from pop_ok [OF Suc.prems(1) i] obtain q' where "pop q = Inr (x, q')" "valid q'" "items q' = xs"
    by blast
  then show ?case using Suc i by simp
qed simp

lemma first_in_first_out:
  assumes "valid q" and "items q = []" and "\<And>n. room q = Some n \<Longrightarrow> length xs \<le> n"
  shows "bindR (pushes push q xs) (pops pop (length xs)) = Inr xs"
  using pushes_ok [of q xs] pops_ok [of _ "length xs"] assms by fastforce

end

section \<open>The circular queue keeps the contract\<close>

definition cq_ok :: "'a circular_queue \<Rightarrow> bool" where
  "cq_ok q \<longleftrightarrow> unat (cq_size q) \<le> 2 ^ 31 \<and> length (cq_queue q) = unat (cq_size q) \<and>
     cq_first q < cq_size q \<and> cq_last q < cq_size q"

definition cq_items :: "'a circular_queue \<Rightarrow> 'a list" where
  "cq_items q = ring (cq_queue q) (unat (cq_last q))
     (ring_size (length (cq_queue q)) (unat (cq_last q)) (unat (cq_first q)))"

lemma cq_okD:
  assumes "cq_ok q"
  shows "length (cq_queue q) = unat (cq_size q)" and "unat (cq_first q) < unat (cq_size q)"
    and "unat (cq_last q) < unat (cq_size q)" and "unat (cq_size q) < 2 ^ 32" and "cq_size q \<noteq> 0"
  using assms by (auto simp: cq_ok_def word_less_nat_alt)

lemma modR_Suc:
  assumes "unat a < unat M"
  shows "\<exists>r. modR (a + 1) M = Inr r \<and> unat r = Suc (unat a) mod unat M \<and> r < M"
proof -
  have "unat (a + 1) = Suc (unat a)"
    using assms unat_u32_less [of M] by (simp add: unat_word_ariths)
  moreover have "M \<noteq> 0" using assms by auto
  ultimately show ?thesis
    using assms by (auto simp: modR_def unat_mod_distrib word_less_nat_alt)
qed

lemma cq_full_iff:
  assumes "cq_ok q"
  shows "cq_full q = Inr (length (cq_items q) + 1 = unat (cq_size q))"
proof -
  note d = cq_okD [OF assms]
  let ?M = "unat (cq_size q)" and ?l = "unat (cq_last q)" and ?f = "unat (cq_first q)"
  let ?s = "ring_size ?M ?l ?f"
  obtain r where r: "modR (cq_first q + 1) (cq_size q) = Inr r" "unat r = Suc ?f mod ?M"
    using modR_Suc [OF d(2)] by blast
  have f: "?f = (?l + ?s) mod ?M" using ring_size_end [OF d(3,2)] by simp
  have s: "?s < ?M" using d(3) by (intro ring_size_less) simp
  have "unat r = (?l + Suc ?s) mod ?M" unfolding r(2) by (subst f) (simp add: mod_Suc_eq)
  moreover have "(?l + Suc ?s) mod ?M = ?l \<longleftrightarrow> Suc ?s = ?M"
    using mod_add_cancel [of "Suc ?s" ?M 0 ?l] s d(3) by (cases "Suc ?s = ?M") auto
  ultimately show ?thesis by (simp add: cq_full_def r(1) cq_items_def d(1) word_unat_eq_iff)
qed

lemma cq_push_ok:
  assumes "cq_ok q" and "length (cq_items q) + 1 < unat (cq_size q)"
  shows "\<exists>q'. cq_push q x = Inr q' \<and> cq_ok q' \<and> cq_items q' = cq_items q @ [x] \<and> cq_size q' = cq_size q"
proof -
  note d = cq_okD [OF assms(1)]
  let ?M = "unat (cq_size q)" and ?l = "unat (cq_last q)" and ?f = "unat (cq_first q)"
  let ?s = "ring_size ?M ?l ?f"
  obtain r where r: "modR (cq_first q + 1) (cq_size q) = Inr r" "unat r = Suc ?f mod ?M" "r < cq_size q"
    using modR_Suc [OF d(2)] by blast
  let ?q = "q\<lparr>cq_queue := (cq_queue q)[?f := x], cq_first := r\<rparr>"
  have f: "?f = (?l + ?s) mod ?M" using ring_size_end [OF d(3,2)] by simp
  have s: "Suc ?s < ?M" using assms(2) by (simp add: cq_items_def d(1))
  have "unat r = (?l + Suc ?s) mod ?M" unfolding r(2) by (subst f) (simp add: mod_Suc_eq)
  then have "ring_size ?M ?l (unat r) = Suc ?s" using s d(3) by (intro ring_size_eqI)
  then have "cq_items ?q = cq_items q @ [x]"
    using ring_write [of ?s "cq_queue q" ?l x] s f d(1) by (simp add: cq_items_def)
  moreover have "cq_ok ?q" using assms(1) r(3) by (simp add: cq_ok_def)
  ultimately show ?thesis
    using cq_full_iff [OF assms(1)] assms(2) d(1,2) r(1) by (simp add: cq_push_def cq_at_def)
qed

lemma cq_pop_ok:
  assumes "cq_ok q" and "cq_items q = x # xs"
  shows "\<exists>q'. cq_pop q = Inr (x, q') \<and> cq_ok q' \<and> cq_items q' = xs \<and> cq_size q' = cq_size q"
proof -
  note d = cq_okD [OF assms(1)]
  let ?M = "unat (cq_size q)" and ?l = "unat (cq_last q)" and ?f = "unat (cq_first q)"
  let ?s = "ring_size ?M ?l ?f"
  obtain r where r: "modR (cq_last q + 1) (cq_size q) = Inr r" "unat r = Suc ?l mod ?M" "r < cq_size q"
    using modR_Suc [OF d(3)] by blast
  let ?q = "q\<lparr>cq_last := r\<rparr>"
  have len: "?s = Suc (length xs)" using assms(2) length_ring by (metis cq_items_def d(1) length_Cons)
  have f: "?f = (?l + ?s) mod ?M" using ring_size_end [OF d(3,2)] by simp
  have "?s < ?M" using d(3) by (intro ring_size_less) simp
  moreover have "?f = (unat r + length xs) mod ?M"
    by (subst f) (simp add: r(2) len mod_add_left_eq)
  ultimately have "ring_size ?M (unat r) ?f = length xs"
    using r(3) len by (intro ring_size_eqI) (simp_all add: word_less_nat_alt)
  then have "cq_items ?q = tl (cq_items q)"
    using ring_advance [of "cq_queue q" ?l "length xs"] len by (simp add: cq_items_def d(1) r(2))
  moreover have "cq_queue q ! ?l = x"
    using assms(2) ring_nth [of 0 ?s "cq_queue q" ?l] len d(1,3) by (simp add: cq_items_def)
  moreover have "cq_ok ?q" using assms(1) r(3) by (simp add: cq_ok_def)
  moreover have "\<not> cq_empty q"
    using len ring_size_eqI [of ?l ?M ?f 0] d(3) by (auto simp: cq_empty_def)
  ultimately show ?thesis using r(1) d(1,3) assms(2) by (simp add: cq_pop_def cq_at_def)
qed

interpretation cq: fifo cq_ok cq_items "\<lambda>q. Some (unat (cq_size q) - 1)" cq_push cq_pop
proof
  fix q :: "'a circular_queue" and x
  assume "cq_ok q" and "\<And>n. Some (unat (cq_size q) - 1) = Some n \<Longrightarrow> length (cq_items q) < n"
  then show "\<exists>q'. cq_push q x = Inr q' \<and> cq_ok q' \<and> cq_items q' = cq_items q @ [x] \<and>
      Some (unat (cq_size q') - 1) = Some (unat (cq_size q) - 1)"
    using cq_push_ok [of q x] by fastforce
next
  fix q :: "'a circular_queue" and x xs
  assume "cq_ok q" and "cq_items q = x # xs"
  then show "\<exists>q'. cq_pop q = Inr (x, q') \<and> cq_ok q' \<and> cq_items q' = xs \<and>
      Some (unat (cq_size q') - 1) = Some (unat (cq_size q) - 1)"
    using cq_pop_ok by fastforce
qed



section \<open>The request queues keep the contract\<close>

definition rq_items :: "'r req_queue_list \<Rightarrow> intptr \<Rightarrow> 'r list" where
  "rq_items m address = (case m address of None \<Rightarrow> [] | Some rs \<Rightarrow> rs)"

definition rq_ok :: "'r req_queue_list \<Rightarrow> bool" where
  "rq_ok m \<longleftrightarrow> (\<forall>address. m address \<noteq> Some [])"

lemma rq_items_enqueue:
  "rq_items (rq_enqueue m a x) b = (if b = a then rq_items m a @ [x] else rq_items m b)"
  by (auto simp: rq_items_def rq_enqueue_def Let_def split: option.splits)

lemma rq_ok_enqueue: "rq_ok m \<Longrightarrow> rq_ok (rq_enqueue m a x)"
  by (auto simp: rq_ok_def rq_enqueue_def Let_def)

lemma rq_ok_Map_empty [simp]: "rq_ok Map.empty"
  by (simp add: rq_ok_def)

lemma rq_size_items: "rq_size m a = length (rq_items m a)"
  by (simp add: rq_size_def rq_items_def split: option.splits)

lemma rq_empty_items: "rq_ok m \<Longrightarrow> rq_empty m a \<longleftrightarrow> rq_items m a = []"
  by (auto simp: rq_empty_def rq_items_def rq_ok_def split: option.splits)

lemma rq_front_Inr: "rq_front m a = Inr r \<longleftrightarrow> (\<exists>rs. rq_items m a = r # rs)"
  by (auto simp: rq_front_def rq_items_def split: option.splits list.splits)

lemma rq_dequeue_Inr:
  assumes "rq_dequeue m a = Inr (r, m')"
  shows "rq_items m a = r # rq_items m' a" and "b \<noteq> a \<Longrightarrow> rq_items m' b = rq_items m b"
    and "rq_ok m \<Longrightarrow> rq_ok m'"
  using assms by (auto simp: rq_dequeue_def rq_items_def rq_ok_def split: option.splits list.splits if_splits)

lemma rq_dequeue_ok: "rq_items m a = r # rs \<Longrightarrow> \<exists>m'. rq_dequeue m a = Inr (r, m')"
  by (auto simp: rq_dequeue_def rq_items_def split: option.splits list.splits)

lemma rq_items_update_front:
  "rq_items (rq_update_front m a f) b =
     (if b = a then (case rq_items m a of [] \<Rightarrow> [] | r # rs \<Rightarrow> f r # rs) else rq_items m b)"
  by (auto simp: rq_items_def rq_update_front_def split: option.splits list.splits)

lemma rq_ok_update_front: "rq_ok m \<Longrightarrow> rq_ok (rq_update_front m a f)"
  by (auto simp: rq_ok_def rq_update_front_def split: option.splits list.splits)

interpretation rq: fifo rq_ok "\<lambda>m. rq_items m a" "\<lambda>m. None" "\<lambda>m x. Inr (rq_enqueue m a x)" "\<lambda>m. rq_dequeue m a"
  for a :: intptr
proof
  fix q :: "'r req_queue_list" and x xs
  assume ok: "rq_ok q" and i: "rq_items q a = x # xs"
  from rq_dequeue_ok [OF i] obtain q' where "rq_dequeue q a = Inr (x, q')" by blast
  with rq_dequeue_Inr [OF this] ok i
  show "\<exists>q'. rq_dequeue q a = Inr (x, q') \<and> rq_ok q' \<and> rq_items q' a = xs \<and> None = None" by auto
qed (simp add: rq_items_enqueue rq_ok_enqueue)

end
