(* ===== verification/Directory.thy ===== *)
theory Directory
  imports Subsecond_Time
begin

text \<open>
  Directory entries and their storage: the entry classes of \<^verbatim>\<open>directory_schemes/\<close>, the
  table of entries (\<^verbatim>\<open>directory.cc\<close>) and the set-associative directory cache
  (\<^verbatim>\<open>dram_directory_cache.cc\<close>). A pointer to an entry is the place it is kept in: a slot of
  the table, or a position in the list of replaced entries.
\<close>

section \<open>Directory entries\<close>

datatype dstate = UNCACHED | DSHARED | DOWNED | DMODIFIED | DEXCLUSIVE

text \<open>
  The two entry classes: a limited number of sharers, with the seed of the generator that
  picks a victim, and the limitless scheme, with its software trap.
\<close>

datatype entry_kind =
    LimitedNoBroadcast u32
  | Limitless bool subsecond

record directory_entry =
  de_address :: intptr
  de_dstate :: dstate
  de_owner :: core_id
  de_forwarder :: core_id
  de_sharers :: "bool list"
  de_kind :: entry_kind

text \<open>\<open>m_forwarder_id\<close> is not initialised: \<open>forwarder0\<close> is what memory holds there.\<close>

definition DirectoryEntry :: "core_id \<Rightarrow> nat \<Rightarrow> entry_kind \<Rightarrow> directory_entry" where
  "DirectoryEntry forwarder0 num_bits kind =
     \<lparr>de_address = INVALID_ADDRESS, de_dstate = UNCACHED, de_owner = INVALID_CORE_ID,
      de_forwarder = forwarder0, de_sharers = replicate num_bits False, de_kind = kind\<rparr>"

definition hasSharer :: "directory_entry \<Rightarrow> core_id \<Rightarrow> bool result" where
  "hasSharer e sharer_id =
     (if 0 \<le> sharer_id \<and> nat sharer_id < length (de_sharers e)
      then Inr (de_sharers e ! nat sharer_id) else Inl Out_Of_Range)"

definition getNumSharers :: "directory_entry \<Rightarrow> nat" where
  "getNumSharers e = length (filter (\<lambda>b. b) (de_sharers e))"

text \<open>The list of sharers. The flag that asks for a broadcast is false in both classes.\<close>

definition getSharersList :: "directory_entry \<Rightarrow> core_id list" where
  "getSharersList e = map int (filter (\<lambda>j. de_sharers e ! j) [0..<length (de_sharers e)])"

definition addSharer :: "directory_entry \<Rightarrow> core_id \<Rightarrow> u32 \<Rightarrow> (bool \<times> directory_entry) result" where
  "addSharer e sharer_id max_hw_sharers =
     bindR (hasSharer e sharer_id) (\<lambda>has.
     bindR (assertR (\<not> has)) (\<lambda>_.
     case de_kind e of
       LimitedNoBroadcast seed \<Rightarrow>
         if getNumSharers e \<ge> unat max_hw_sharers then Inr (False, e)
         else Inr (True, e\<lparr>de_sharers := (de_sharers e)[nat sharer_id := True]\<rparr>)
     | Limitless trap penalty \<Rightarrow>
         Inr (True, e\<lparr>de_sharers := (de_sharers e)[nat sharer_id := True],
           de_kind := Limitless (trap \<or> length (de_sharers e) = unat max_hw_sharers) penalty\<rparr>)))"

definition removeSharer :: "directory_entry \<Rightarrow> core_id \<Rightarrow> directory_entry result" where
  "removeSharer e sharer_id =
     bindR (hasSharer e sharer_id) (\<lambda>has.
     bindR (assertR has) (\<lambda>_.
     Inr (e\<lparr>de_sharers := (de_sharers e)[nat sharer_id := False]\<rparr>)))"

definition setOwner :: "directory_entry \<Rightarrow> core_id \<Rightarrow> directory_entry result" where
  "setOwner e owner_id =
     bindR (if owner_id \<noteq> INVALID_CORE_ID
            then bindR (hasSharer e owner_id) assertR else Inr ()) (\<lambda>_.
     Inr (e\<lparr>de_owner := owner_id\<rparr>))"

definition getOneSharer :: "directory_entry \<Rightarrow> (core_id \<times> directory_entry) result" where
  "getOneSharer e =
     (case de_kind e of
        LimitedNoBroadcast seed \<Rightarrow>
          bindR (assertR (getSharersList e \<noteq> [])) (\<lambda>_.
          bindR (random_next (of_nat (length (getSharersList e))) seed) (\<lambda>(index, seed').
          Inr (getSharersList e ! unat index, e\<lparr>de_kind := LimitedNoBroadcast seed'\<rparr>)))
      | Limitless trap penalty \<Rightarrow>
          (case first_idx (\<lambda>j. de_sharers e ! j) (length (de_sharers e)) of
             Some j \<Rightarrow> Inr (int j, e)
           | None \<Rightarrow> Inl Assert_Failed))"

definition entry_getLatency :: "directory_entry \<Rightarrow> subsecond" where
  "entry_getLatency e = (case de_kind e of
       LimitedNoBroadcast seed \<Rightarrow> 0
     | Limitless trap penalty \<Rightarrow> if trap then penalty else 0)"

section \<open>The table of entries\<close>

datatype directory_type = FULL_MAP | LIMITED_NO_BROADCAST | LIMITLESS

record directory =
  dir_type :: directory_type
  dir_num_entries :: u32
  dir_num_entries_allocated :: u64
  dir_max_hw_sharers :: u32
  dir_use_max_hw_sharers :: u32
  dir_max_num_sharers :: u32
  dir_trap_penalty :: subsecond
  dir_entry_list :: "directory_entry option list"
  dir_forwarder0 :: core_id

definition parseDirectoryType :: "string \<Rightarrow> directory_type result" where
  "parseDirectoryType s =
     (if s = ''full_map'' then Inr FULL_MAP
      else if s = ''limited_no_broadcast'' then Inr LIMITED_NO_BROADCAST
      else if s = ''limitless'' then Inr LIMITLESS
      else Inl Log_Error)"

definition Directory :: "core_id \<Rightarrow> subsecond \<Rightarrow> string \<Rightarrow> u32 \<Rightarrow> u32 \<Rightarrow> u32 \<Rightarrow> directory result" where
  "Directory forwarder0 trap_penalty directory_type_str num_entries max_hw_sharers max_num_sharers =
     bindR (parseDirectoryType directory_type_str) (\<lambda>ty.
     Inr \<lparr>dir_type = ty, dir_num_entries = num_entries, dir_num_entries_allocated = 0,
          dir_max_hw_sharers = max_hw_sharers, dir_use_max_hw_sharers = max_hw_sharers,
          dir_max_num_sharers = max_num_sharers,
          dir_trap_penalty = (if ty = LIMITLESS then trap_penalty else 0),
          dir_entry_list = replicate (unat num_entries) None, dir_forwarder0 = forwarder0\<rparr>)"

text \<open>The number of bits of the class that keeps the sharers.\<close>

definition sharer_bits :: "u32 \<Rightarrow> nat" where
  "sharer_bits max_num_sharers =
     (if max_num_sharers \<le> 64 then 64 else if max_num_sharers \<le> 128 then 128
      else if max_num_sharers \<le> 256 then 256 else if max_num_sharers \<le> 1024 then 1024
      else unat max_num_sharers)"

definition createDirectoryEntry :: "directory \<Rightarrow> directory_entry \<times> directory" where
  "createDirectoryEntry d =
     (let new = DirectoryEntry (dir_forwarder0 d) (sharer_bits (dir_max_num_sharers d))
      in case dir_type d of
           FULL_MAP \<Rightarrow> (new (LimitedNoBroadcast 1), d\<lparr>dir_use_max_hw_sharers := dir_max_num_sharers d\<rparr>)
         | LIMITED_NO_BROADCAST \<Rightarrow> (new (LimitedNoBroadcast 1), d)
         | LIMITLESS \<Rightarrow> (new (Limitless False (dir_trap_penalty d)), d))"

definition dir_getDirectoryEntry :: "directory \<Rightarrow> u32 \<Rightarrow> (directory_entry \<times> directory) result" where
  "dir_getDirectoryEntry d entry_num =
     bindR (assertR (entry_num < dir_num_entries d)) (\<lambda>_.
     case dir_entry_list d ! unat entry_num of
       Some e \<Rightarrow> Inr (e, d)
     | None \<Rightarrow>
         let (e, d') = createDirectoryEntry d
         in Inr (e, d'\<lparr>dir_entry_list := (dir_entry_list d')[unat entry_num := Some e],
                       dir_num_entries_allocated := dir_num_entries_allocated d' + 1\<rparr>))"

definition dir_setDirectoryEntry :: "directory \<Rightarrow> u32 \<Rightarrow> directory_entry \<Rightarrow> directory" where
  "dir_setDirectoryEntry d entry_num e =
     d\<lparr>dir_entry_list := (dir_entry_list d)[unat entry_num := Some e]\<rparr>"

section \<open>DramDirectoryCache\<close>

datatype entry_ref = Slot u32 | Replaced nat

record directory_cache =
  dc_directory :: directory
  dc_replacement_ptrs :: "u32 list"
  dc_replaced :: "directory_entry list"
  dc_total_entries :: u32
  dc_associativity :: u32
  dc_num_sets :: u32
  dc_cache_block_size :: u32
  dc_log_num_sets :: u32
  dc_log_cache_block_size :: u32
  dc_access_time :: subsecond

text \<open>The replacement pointers are not initialised: \<open>ptrs0\<close> is what memory holds there.\<close>

definition DramDirectoryCache ::
  "core_id \<Rightarrow> u32 list \<Rightarrow> subsecond \<Rightarrow> string \<Rightarrow> u32 \<Rightarrow> u32 \<Rightarrow> u32 \<Rightarrow> u32 \<Rightarrow> u32 \<Rightarrow> subsecond \<Rightarrow> directory_cache result" where
  "DramDirectoryCache forwarder0 ptrs0 trap_penalty directory_type_str total_entries associativity
      cache_block_size max_hw_sharers max_num_sharers access_time =
     (if associativity = 0 then Inl Div_By_Zero
      else let num_sets = total_entries div associativity in
        bindR (Directory forwarder0 trap_penalty directory_type_str total_entries max_hw_sharers max_num_sharers) (\<lambda>d.
        Inr \<lparr>dc_directory = d, dc_replacement_ptrs = take (unat num_sets) ptrs0, dc_replaced = [],
             dc_total_entries = total_entries, dc_associativity = associativity, dc_num_sets = num_sets,
             dc_cache_block_size = cache_block_size,
             dc_log_num_sets = of_int (floorLog2 num_sets),
             dc_log_cache_block_size = of_int (floorLog2 cache_block_size),
             dc_access_time = access_time\<rparr>))"

definition dc_set_index :: "directory_cache \<Rightarrow> intptr \<Rightarrow> u32" where
  "dc_set_index dc address =
     ucast (drop_bit (unat (dc_log_cache_block_size dc)) address) AND (dc_num_sets dc - 1)"

text \<open>The entries of a set, in the order of the loops.\<close>

definition dc_slots :: "directory_cache \<Rightarrow> u32 \<Rightarrow> u32 list" where
  "dc_slots dc set_index =
     map (\<lambda>i. set_index * dc_associativity dc + of_nat i) [0..<unat (dc_associativity dc)]"

text \<open>A loop over slots that allocates every entry it looks at and stops at the first match.\<close>

fun scan_slots :: "(directory_entry \<Rightarrow> bool) \<Rightarrow> u32 list \<Rightarrow> directory \<Rightarrow> (u32 option \<times> directory) result" where
  "scan_slots P [] d = Inr (None, d)"
| "scan_slots P (k # ks) d =
     bindR (dir_getDirectoryEntry d k) (\<lambda>(e, d').
     if P e then Inr (Some k, d') else scan_slots P ks d')"

definition entry_at :: "directory_cache \<Rightarrow> entry_ref \<Rightarrow> directory_entry" where
  "entry_at dc r = (case r of
       Slot k \<Rightarrow> the (dir_entry_list (dc_directory dc) ! unat k)
     | Replaced i \<Rightarrow> dc_replaced dc ! i)"

definition put_entry :: "directory_cache \<Rightarrow> entry_ref \<Rightarrow> directory_entry \<Rightarrow> directory_cache" where
  "put_entry dc r e = (case r of
       Slot k \<Rightarrow> dc\<lparr>dc_directory := dir_setDirectoryEntry (dc_directory dc) k e\<rparr>
     | Replaced i \<Rightarrow> dc\<lparr>dc_replaced := (dc_replaced dc)[i := e]\<rparr>)"

definition dc_getDirectoryEntry ::
  "directory_cache \<Rightarrow> shmem_perf_model \<Rightarrow> intptr \<Rightarrow> bool
     \<Rightarrow> (entry_ref option \<times> directory_cache \<times> shmem_perf_model) result" where
  "dc_getDirectoryEntry dc m address modeled =
     bindR (if modeled then spm_incrElapsedTime m (dc_access_time dc) SIM_THREAD else Inr m) (\<lambda>m1.
     let slots = dc_slots dc (dc_set_index dc address) in
     bindR (scan_slots (\<lambda>e. de_address e = address) slots (dc_directory dc)) (\<lambda>(hit, d1).
     let dc1 = dc\<lparr>dc_directory := d1\<rparr> in
     case hit of
       Some k \<Rightarrow>
         bindR (if modeled then spm_incrElapsedTime m1 (entry_getLatency (entry_at dc1 (Slot k))) SIM_THREAD
                else Inr m1) (\<lambda>m2.
         Inr (Some (Slot k), dc1, m2))
     | None \<Rightarrow>
         bindR (scan_slots (\<lambda>e. de_address e = INVALID_ADDRESS) slots d1) (\<lambda>(free, d2).
         let dc2 = dc\<lparr>dc_directory := d2\<rparr> in
         case free of
           Some k \<Rightarrow>
             Inr (Some (Slot k), put_entry dc2 (Slot k) ((entry_at dc2 (Slot k))\<lparr>de_address := address\<rparr>), m1)
         | None \<Rightarrow>
             Inr (map_option Replaced
                    (first_idx (\<lambda>i. de_address (dc_replaced dc2 ! i) = address) (length (dc_replaced dc2))),
                  dc2, m1))))"

text \<open>The candidates are slots of one set, from the replacement pointer of the set on.\<close>

fun touch_slots :: "u32 list \<Rightarrow> directory \<Rightarrow> directory result" where
  "touch_slots [] d = Inr d"
| "touch_slots (k # ks) d = bindR (dir_getDirectoryEntry d k) (\<lambda>(e, d'). touch_slots ks d')"

definition getReplacementCandidates ::
  "directory_cache \<Rightarrow> shmem_perf_model \<Rightarrow> intptr \<Rightarrow> (u32 list \<times> directory_cache) result" where
  "getReplacementCandidates dc m address =
     bindR (dc_getDirectoryEntry dc m address False) (\<lambda>(r, dc1, _).
     bindR (assertR (r = None)) (\<lambda>_.
     let set_index = dc_set_index dc1 address in
     if unat set_index < length (dc_replacement_ptrs dc1) then
       let ptr = dc_replacement_ptrs dc1 ! unat set_index;
           slots = map (\<lambda>i. set_index * dc_associativity dc1 + (of_nat i + ptr) mod dc_associativity dc1)
                     [0..<unat (dc_associativity dc1)]
       in bindR (touch_slots slots (dc_directory dc1)) (\<lambda>d.
          Inr (slots, dc1\<lparr>dc_directory := d,
            dc_replacement_ptrs := (dc_replacement_ptrs dc1)[unat set_index := ptr + 1]\<rparr>))
     else Inl Out_Of_Range))"

definition replaceDirectoryEntry ::
  "directory_cache \<Rightarrow> shmem_perf_model \<Rightarrow> intptr \<Rightarrow> intptr \<Rightarrow> bool
     \<Rightarrow> (entry_ref \<times> directory_cache \<times> shmem_perf_model) result" where
  "replaceDirectoryEntry dc m replaced_address address modeled =
     bindR (if modeled then spm_incrElapsedTime m (dc_access_time dc) SIM_THREAD else Inr m) (\<lambda>m1.
     bindR (scan_slots (\<lambda>e. de_address e = replaced_address)
              (dc_slots dc (dc_set_index dc replaced_address)) (dc_directory dc)) (\<lambda>(hit, d1).
     case hit of
       None \<Rightarrow> Inl Log_Error
     | Some k \<Rightarrow>
         let old = the (dir_entry_list d1 ! unat k);
             (new, d2) = createDirectoryEntry d1
         in Inr (Slot k, dc\<lparr>dc_replaced := dc_replaced dc @ [old],
                   dc_directory := dir_setDirectoryEntry d2 k (new\<lparr>de_address := address\<rparr>)\<rparr>, m1)))"

definition invalidateDirectoryEntry :: "directory_cache \<Rightarrow> intptr \<Rightarrow> directory_cache result" where
  "invalidateDirectoryEntry dc address =
     (case first_idx (\<lambda>i. de_address (dc_replaced dc ! i) = address) (length (dc_replaced dc)) of
        Some i \<Rightarrow> Inr (dc\<lparr>dc_replaced := take i (dc_replaced dc) @ drop (Suc i) (dc_replaced dc)\<rparr>)
      | None \<Rightarrow> Inl Log_Error)"

end
