(* ===== verification/Dir_Cntlr.thy ===== *)
theory Dir_Cntlr
  imports Nuca Fifo Directory
begin

text \<open>
  The coherence messages (\<^verbatim>\<open>shmem_msg.cc\<close>, \<^verbatim>\<open>shmem_req.cc\<close>) and the tag directory controller
  (\<^verbatim>\<open>pr_l1_pr_l2_dram_directory_msi/dram_directory_cntlr.cc\<close>), handler by handler. Messages
  that a handler sends are appended to an outbox. The functions of the controller call each
  other: a handler that completes a request processes the next one of the same address, so
  the handlers take the function that processes the next request as an argument, and
  \<open>processNextReqFromL2Cache\<close> ties the knot with a bound on the number of requests. The
  time breakdown of \<^verbatim>\<open>ShmemPerf\<close> is a separate model and is not threaded through here.
\<close>

section \<open>Messages\<close>

datatype msg_t =
    INVALID_MSG_TYPE | EX_REQ | SH_REQ | UPGRADE_REQ | INV_REQ | FLUSH_REQ | WB_REQ
  | EX_REP | SH_REP | UPGRADE_REP | INV_REP | FLUSH_REP | WB_REP | NULLIFY_REQ
  | DRAM_READ_REQ | DRAM_WRITE_REQ | DRAM_READ_REP

datatype component_t =
    INVALID_MEM_COMPONENT | CORE | MC_L1_ICACHE | MC_L1_DCACHE | MC_L2_CACHE | MC_L3_CACHE | MC_L4_CACHE
  | MC_LAST_LEVEL_CACHE | TAG_DIR | MC_NUCA_CACHE | MC_DRAM_CACHE | MC_DRAM

record shmem_msg =
  sm_type :: msg_t
  sm_sender_component :: component_t
  sm_receiver_component :: component_t
  sm_requester :: core_id
  sm_where :: where_t
  sm_address :: intptr
  sm_data_buf :: "byte list option"
  sm_data_length :: u32

definition getModeledLength :: "shmem_msg \<Rightarrow> u32 result" where
  "getModeledLength msg =
     (case sm_type msg of
        EX_REQ \<Rightarrow> Inr 9 | SH_REQ \<Rightarrow> Inr 9 | INV_REQ \<Rightarrow> Inr 9 | FLUSH_REQ \<Rightarrow> Inr 9 | WB_REQ \<Rightarrow> Inr 9
      | UPGRADE_REP \<Rightarrow> Inr 9 | UPGRADE_REQ \<Rightarrow> Inr 9 | INV_REP \<Rightarrow> Inr 9 | DRAM_READ_REQ \<Rightarrow> Inr 9
      | EX_REP \<Rightarrow> Inr (9 + sm_data_length msg) | SH_REP \<Rightarrow> Inr (9 + sm_data_length msg)
      | FLUSH_REP \<Rightarrow> Inr (9 + sm_data_length msg) | WB_REP \<Rightarrow> Inr (9 + sm_data_length msg)
      | DRAM_WRITE_REQ \<Rightarrow> Inr (9 + sm_data_length msg) | DRAM_READ_REP \<Rightarrow> Inr (9 + sm_data_length msg)
      | _ \<Rightarrow> Inl Log_Error)"

record packet =
  pk_time :: subsecond
  pk_receiver :: core_id
  pk_msg :: shmem_msg

record shmem_req =
  sr_msg :: shmem_msg
  sr_time :: subsecond
  sr_wait_for_data :: bool
  sr_forwarding_from :: core_id

definition ShmemReq :: "shmem_msg \<Rightarrow> subsecond \<Rightarrow> shmem_req result" where
  "ShmemReq msg time =
     bindR (assertR (sm_data_buf msg = None)) (\<lambda>_.
     Inr \<lparr>sr_msg = msg, sr_time = time, sr_wait_for_data = False, sr_forwarding_from = INVALID_CORE_ID\<rparr>)"

definition sr_updateTime :: "subsecond \<Rightarrow> shmem_req \<Rightarrow> shmem_req" where
  "sr_updateTime time r = (if time > sr_time r then r\<lparr>sr_time := time\<rparr> else r)"

section \<open>State\<close>

datatype coherency_protocol = MSI | MESI | MESIF

text \<open>
  \<open>dd_uninit\<close> is what the local variables \<^verbatim>\<open>eviction\<close>, \<^verbatim>\<open>evict_address\<close> and the buffers on
  the stack hold before they are written; \<open>dd_arith\<close> is passed to the queue model of the NUCA cache.
\<close>

record dir_cntlr =
  dd_core_id :: core_id
  dd_cache_block_size :: u32
  dd_dram_home :: address_home_lookup
  dd_cache :: directory_cache
  dd_queue :: "shmem_req req_queue_list"
  dd_nuca :: "nuca_cache option"
  dd_spm :: shmem_perf_model
  dd_protocol :: coherency_protocol
  dd_evict :: "dstate \<Rightarrow> u64"
  dd_forward :: u64
  dd_forward_failed :: u64
  dd_outbox :: "packet list"
  dd_uninit :: "bool \<times> intptr \<times> byte list"
  dd_arith :: queue_arith

definition parse_protocol :: "string \<Rightarrow> coherency_protocol result" where
  "parse_protocol s =
     (if s = ''msi'' then Inr MSI else if s = ''mesi'' then Inr MESI
      else if s = ''mesif'' then Inr MESIF else Inl Log_Error)"

text \<open>The counter of evictions of uncached entries is not initialised: it holds \<open>evict0\<close>.\<close>

definition DramDirectoryCntlr ::
  "core_id \<Rightarrow> address_home_lookup \<Rightarrow> nuca_cache option \<Rightarrow> directory_cache \<Rightarrow> u32 \<Rightarrow> shmem_perf_model \<Rightarrow> string
     \<Rightarrow> u64 \<Rightarrow> (bool \<times> intptr \<times> byte list) \<Rightarrow> queue_arith \<Rightarrow> dir_cntlr result" where
  "DramDirectoryCntlr core_id dram_home nuca cache cache_block_size spm protocol evict0 uninit arith =
     bindR (parse_protocol protocol) (\<lambda>p.
     Inr \<lparr>dd_core_id = core_id, dd_cache_block_size = cache_block_size, dd_dram_home = dram_home,
          dd_cache = cache, dd_queue = Map.empty, dd_nuca = nuca, dd_spm = spm, dd_protocol = p,
          dd_evict = (\<lambda>_. 0)(UNCACHED := evict0), dd_forward = 0, dd_forward_failed = 0, dd_outbox = [],
          dd_uninit = uninit, dd_arith = arith\<rparr>)"

abbreviation dd_now :: "dir_cntlr \<Rightarrow> subsecond" where
  "dd_now s \<equiv> spm_getElapsedTime (dd_spm s) SIM_THREAD"

text \<open>\<^verbatim>\<open>sendMsg\<close> of the memory manager, called with the simulation thread.\<close>

definition sendMsg ::
  "dir_cntlr \<Rightarrow> msg_t \<Rightarrow> component_t \<Rightarrow> core_id \<Rightarrow> core_id \<Rightarrow> intptr \<Rightarrow> byte list option \<Rightarrow> u32 \<Rightarrow> where_t
     \<Rightarrow> dir_cntlr result" where
  "sendMsg s msg_type receiver_component requester receiver address data_buf data_length hit_where =
     bindR (assertR ((data_buf = None) = (data_length = 0))) (\<lambda>_.
     Inr (s\<lparr>dd_outbox := dd_outbox s @
       [\<lparr>pk_time = dd_now s, pk_receiver = receiver,
         pk_msg = \<lparr>sm_type = msg_type, sm_sender_component = TAG_DIR,
           sm_receiver_component = receiver_component, sm_requester = requester, sm_where = hit_where,
           sm_address = address, sm_data_buf = data_buf, sm_data_length = data_length\<rparr>\<rparr>]\<rparr>))"

definition sendToCache :: "dir_cntlr \<Rightarrow> msg_t \<Rightarrow> core_id \<Rightarrow> core_id \<Rightarrow> intptr \<Rightarrow> dir_cntlr result" where
  "sendToCache s msg_type requester receiver address =
     sendMsg s msg_type MC_L2_CACHE requester receiver address None 0 UNKNOWN"

primrec sendToAll :: "dir_cntlr \<Rightarrow> msg_t \<Rightarrow> core_id \<Rightarrow> core_id list \<Rightarrow> intptr \<Rightarrow> dir_cntlr result" where
  "sendToAll s msg_type requester [] address = Inr s"
| "sendToAll s msg_type requester (c # cs) address =
     bindR (sendToCache s msg_type requester c address) (\<lambda>s'. sendToAll s' msg_type requester cs address)"

text \<open>Access to the directory entry of an address.\<close>

definition getEntry :: "dir_cntlr \<Rightarrow> intptr \<Rightarrow> bool \<Rightarrow> (entry_ref option \<times> dir_cntlr) result" where
  "getEntry s address modeled =
     bindR (dc_getDirectoryEntry (dd_cache s) (dd_spm s) address modeled) (\<lambda>(r, dc, m).
     Inr (r, s\<lparr>dd_cache := dc, dd_spm := m\<rparr>))"

definition needEntry :: "dir_cntlr \<Rightarrow> intptr \<Rightarrow> (entry_ref \<times> dir_cntlr) result" where
  "needEntry s address =
     bindR (getEntry s address False) (\<lambda>(r, s').
     case r of None \<Rightarrow> Inl Assert_Failed | Some ref \<Rightarrow> Inr (ref, s'))"

abbreviation entry_of :: "dir_cntlr \<Rightarrow> entry_ref \<Rightarrow> directory_entry" where
  "entry_of s r \<equiv> entry_at (dd_cache s) r"

definition setEntry :: "dir_cntlr \<Rightarrow> entry_ref \<Rightarrow> directory_entry \<Rightarrow> dir_cntlr" where
  "setEntry s r e = s\<lparr>dd_cache := put_entry (dd_cache s) r e\<rparr>"

section \<open>Sending data to memory\<close>

definition sendDataToNUCA :: "dir_cntlr \<Rightarrow> intptr \<Rightarrow> byte list option \<Rightarrow> bool \<Rightarrow> dir_cntlr result" where
  "sendDataToNUCA s address data_buf cnt =
     (case dd_nuca s of
        None \<Rightarrow> Inr s
      | Some nuca \<Rightarrow>
          let (eviction0, evict_address0, buf0) = dd_uninit s in
          bindR (nuca_write (dd_arith s) nuca address data_buf eviction0 evict_address0 (Some buf0) (dd_now s) cnt)
            (\<lambda>(_, _, eviction, evict_address, evict_buf, nuca').
          let s' = s\<lparr>dd_nuca := Some nuca'\<rparr> in
          if eviction
          then bindR (getHome (dd_dram_home s) evict_address) (\<lambda>dram_node.
               sendMsg s' DRAM_WRITE_REQ MC_DRAM (dd_core_id s) dram_node evict_address evict_buf
                 (dd_cache_block_size s) UNKNOWN)
          else Inr s'))"

definition sendDataToDram :: "dir_cntlr \<Rightarrow> intptr \<Rightarrow> core_id \<Rightarrow> byte list option \<Rightarrow> dir_cntlr result" where
  "sendDataToDram s address requester data_buf =
     (if dd_nuca s \<noteq> None then sendDataToNUCA s address data_buf True
      else bindR (getHome (dd_dram_home s) address) (\<lambda>dram_node.
           sendMsg s DRAM_WRITE_REQ MC_DRAM requester dram_node address data_buf (dd_cache_block_size s) UNKNOWN))"

section \<open>Requests\<close>

type_synonym next_req = "dir_cntlr \<Rightarrow> intptr \<Rightarrow> dir_cntlr result"

definition processNullifyReq :: "next_req \<Rightarrow> dir_cntlr \<Rightarrow> shmem_req \<Rightarrow> dir_cntlr result" where
  "processNullifyReq next s req =
     (let address = sm_address (sr_msg req); requester = sm_requester (sr_msg req) in
      bindR (needEntry s address) (\<lambda>(r, s1).
      let e = entry_of s1 r in
      case de_dstate e of
        DEXCLUSIVE \<Rightarrow> sendToCache s1 FLUSH_REQ requester (de_owner e) address
      | DMODIFIED \<Rightarrow> sendToCache s1 FLUSH_REQ requester (de_owner e) address
      | DSHARED \<Rightarrow> sendToAll s1 INV_REQ requester (getSharersList e) address
      | UNCACHED \<Rightarrow>
          bindR (invalidateDirectoryEntry (dd_cache s1) address) (\<lambda>dc.
          next (s1\<lparr>dd_cache := dc\<rparr>) address)
      | DOWNED \<Rightarrow> Inl Log_Error))"

text \<open>The loop over the replacement candidates: the first one with the fewest sharers and no requests.\<close>

definition choose_candidate :: "dir_cntlr \<Rightarrow> u32 list \<Rightarrow> u32 option" where
  "choose_candidate s candidates =
     fold (\<lambda>k best.
       let e = entry_of s (Slot k) in
       if (case best of None \<Rightarrow> True
           | Some b \<Rightarrow> getNumSharers (entry_of s (Slot b)) > getNumSharers e)
          \<and> rq_size (dd_queue s) (de_address e) = 0
       then Some k else best) candidates None"

definition processDirectoryEntryAllocationReq ::
  "next_req \<Rightarrow> dir_cntlr \<Rightarrow> shmem_req \<Rightarrow> (entry_ref \<times> dir_cntlr) result" where
  "processDirectoryEntryAllocationReq next s req =
     (let address = sm_address (sr_msg req); requester = sm_requester (sr_msg req); msg_time = dd_now s in
      bindR (getReplacementCandidates (dd_cache s) (dd_spm s) address) (\<lambda>(candidates, dc1).
      let s1 = s\<lparr>dd_cache := dc1\<rparr> in
      case choose_candidate s1 candidates of
        None \<Rightarrow> Inl Assert_Failed
      | Some k \<Rightarrow>
          let victim = entry_of s1 (Slot k);
              s2 = s1\<lparr>dd_evict := (dd_evict s1)(de_dstate victim := dd_evict s1 (de_dstate victim) + 1)\<rparr>;
              replaced_address = de_address victim in
          bindR (replaceDirectoryEntry (dd_cache s2) (dd_spm s2) replaced_address address True) (\<lambda>(ref, dc3, m3).
          let s3 = s2\<lparr>dd_cache := dc3, dd_spm := m3\<rparr> in
          bindR (ShmemReq \<lparr>sm_type = NULLIFY_REQ, sm_sender_component = TAG_DIR, sm_receiver_component = TAG_DIR,
                   sm_requester = requester, sm_where = UNKNOWN, sm_address = replaced_address,
                   sm_data_buf = None, sm_data_length = 0\<rparr> msg_time) (\<lambda>nullify_req.
          let s4 = s3\<lparr>dd_queue := rq_enqueue (dd_queue s3) replaced_address nullify_req\<rparr> in
          bindR (assertR (rq_size (dd_queue s4) replaced_address = 1)) (\<lambda>_.
          bindR (processNullifyReq next s4 nullify_req) (\<lambda>s5.
          Inr (ref, s5)))))))"

text \<open>The entry of an address, allocated if there is none.\<close>

definition entryOrAllocate ::
  "next_req \<Rightarrow> dir_cntlr \<Rightarrow> shmem_req \<Rightarrow> (entry_ref \<times> dir_cntlr) result" where
  "entryOrAllocate next s req =
     bindR (getEntry s (sm_address (sr_msg req)) False) (\<lambda>(r, s').
     case r of Some ref \<Rightarrow> Inr (ref, s') | None \<Rightarrow> processDirectoryEntryAllocationReq next s' req)"

text \<open>
  The three sources of the data of a line: the NUCA cache, the cache that forwards it, and DRAM.
\<close>

definition readFromNuca :: "dir_cntlr \<Rightarrow> intptr \<Rightarrow> (byte list option option \<times> dir_cntlr) result" where
  "readFromNuca s address =
     (case dd_nuca s of
        None \<Rightarrow> Inr (None, s)
      | Some nuca \<Rightarrow>
          let (_, _, buf0) = dd_uninit s in
          bindR (nuca_read (dd_arith s) nuca address (Some buf0) (dd_now s) True)
            (\<lambda>(nuca_latency, hit_where, buf, nuca').
          bindR (spm_incrElapsedTime (dd_spm s) nuca_latency SIM_THREAD) (\<lambda>m.
          Inr (if hit_where \<noteq> MISS then Some buf else None,
               s\<lparr>dd_nuca := Some nuca', dd_spm := m\<rparr>))))"

definition requestData :: "dir_cntlr \<Rightarrow> entry_ref \<Rightarrow> core_id \<Rightarrow> intptr \<Rightarrow> dir_cntlr result" where
  "requestData s r receiver address =
     bindR (assertR (rq_size (dd_queue s) address > 0)) (\<lambda>_.
     bindR (rq_front (dd_queue s) address) (\<lambda>req.
     let e = entry_of s r in
     if dd_protocol s = MESIF \<and> sr_forwarding_from req = INVALID_CORE_ID
        \<and> de_dstate e = DSHARED \<and> de_forwarder e \<noteq> INVALID_CORE_ID
     then sendToCache
            (s\<lparr>dd_queue := rq_update_front (dd_queue s) address
                 (\<lambda>q. q\<lparr>sr_forwarding_from := de_forwarder e\<rparr>)\<rparr>)
            WB_REQ receiver (de_forwarder e) address
     else
       let s' = s\<lparr>dd_queue := rq_update_front (dd_queue s) address
                    (\<lambda>q. q\<lparr>sr_wait_for_data := True\<rparr>)\<rparr> in
       bindR (getHome (dd_dram_home s') address) (\<lambda>dram_node.
       sendMsg s' DRAM_READ_REQ MC_DRAM receiver dram_node address None 0 UNKNOWN)))"

definition retrieveDataAndSendToL2Cache ::
  "next_req \<Rightarrow> dir_cntlr \<Rightarrow> msg_t \<Rightarrow> core_id \<Rightarrow> intptr \<Rightarrow> byte list option \<Rightarrow> dir_cntlr result" where
  "retrieveDataAndSendToL2Cache next s reply_msg_type receiver address cached_data_buf =
     bindR (needEntry s address) (\<lambda>(r, s1).
     if cached_data_buf \<noteq> None then
       let s2 = setEntry s1 r ((entry_of s1 r)\<lparr>de_forwarder := receiver\<rparr>) in
       bindR (sendMsg s2 reply_msg_type MC_L2_CACHE receiver receiver address cached_data_buf
                (dd_cache_block_size s2) CACHE_REMOTE) (\<lambda>s3.
       next s3 address)
     else
       bindR (readFromNuca s1 address) (\<lambda>(nuca_data, s2).
       case nuca_data of
         Some buf \<Rightarrow>
           bindR (sendMsg s2 reply_msg_type MC_L2_CACHE receiver receiver address buf
                    (dd_cache_block_size s2) NUCA_HIT) (\<lambda>s3.
           next s3 address)
       | None \<Rightarrow> requestData s2 r receiver address))"

text \<open>Making the requester the only sharer and owner of an uncached entry.\<close>

definition takeOwnership :: "dir_cntlr \<Rightarrow> entry_ref \<Rightarrow> core_id \<Rightarrow> dstate \<Rightarrow> dir_cntlr result" where
  "takeOwnership s r requester new_state =
     bindR (addSharer (entry_of s r) requester (dir_use_max_hw_sharers (dc_directory (dd_cache s)))) (\<lambda>(added, e1).
     bindR (assertR added) (\<lambda>_.
     bindR (setOwner e1 requester) (\<lambda>e2.
     Inr (setEntry s r (e2\<lparr>de_dstate := new_state\<rparr>)))))"

definition processExReqFromL2Cache ::
  "next_req \<Rightarrow> dir_cntlr \<Rightarrow> shmem_req \<Rightarrow> byte list option \<Rightarrow> dir_cntlr result" where
  "processExReqFromL2Cache next s req cached_data_buf =
     (let address = sm_address (sr_msg req); requester = sm_requester (sr_msg req) in
      bindR (entryOrAllocate next s req) (\<lambda>(r, s1).
      let e = entry_of s1 r in
      case de_dstate e of
        DEXCLUSIVE \<Rightarrow>
          bindR (assertR (cached_data_buf = None)) (\<lambda>_.
          sendToCache s1 FLUSH_REQ requester (de_owner e) address)
      | DMODIFIED \<Rightarrow>
          bindR (assertR (cached_data_buf = None)) (\<lambda>_.
          sendToCache s1 FLUSH_REQ requester (de_owner e) address)
      | DSHARED \<Rightarrow>
          bindR (assertR (cached_data_buf = None)) (\<lambda>_.
          sendToAll s1 INV_REQ requester (getSharersList e) address)
      | UNCACHED \<Rightarrow>
          bindR (takeOwnership s1 r requester DMODIFIED) (\<lambda>s2.
          retrieveDataAndSendToL2Cache next s2 EX_REP requester address cached_data_buf)
      | DOWNED \<Rightarrow> Inl Log_Error))"

definition processShReqFromL2Cache ::
  "next_req \<Rightarrow> dir_cntlr \<Rightarrow> shmem_req \<Rightarrow> byte list option \<Rightarrow> dir_cntlr result" where
  "processShReqFromL2Cache next s req cached_data_buf =
     (let address = sm_address (sr_msg req); requester = sm_requester (sr_msg req) in
      bindR (entryOrAllocate next s req) (\<lambda>(r, s1).
      let e = entry_of s1 r in
      case de_dstate e of
        DEXCLUSIVE \<Rightarrow>
          bindR (assertR (requester \<noteq> de_owner e)) (\<lambda>_.
          bindR (assertR (cached_data_buf = None)) (\<lambda>_.
          sendToCache s1 WB_REQ requester (de_owner e) address))
      | DMODIFIED \<Rightarrow>
          bindR (assertR (cached_data_buf = None)) (\<lambda>_.
          sendToCache s1 WB_REQ requester (de_owner e) address)
      | DSHARED \<Rightarrow>
          bindR (hasSharer e requester) (\<lambda>has.
          if has then
            let s2 = s1\<lparr>dd_forward := dd_forward s1 + 1,
                        dd_forward_failed := (if cached_data_buf = None then dd_forward_failed s1 + 1
                                              else dd_forward_failed s1)\<rparr>
            in retrieveDataAndSendToL2Cache next s2 SH_REP requester address cached_data_buf
          else
            bindR (addSharer e requester (dir_use_max_hw_sharers (dc_directory (dd_cache s1)))) (\<lambda>(added, e1).
            if \<not> added then
              bindR (getOneSharer e1) (\<lambda>(sharer_id, e2).
              sendToCache (setEntry s1 r e2) INV_REQ requester sharer_id address)
            else retrieveDataAndSendToL2Cache next (setEntry s1 r e1) SH_REP requester address cached_data_buf))
      | UNCACHED \<Rightarrow>
          (if dd_protocol s1 = MSI
           then bindR (takeOwnership s1 r requester DSHARED) (\<lambda>s2.
                retrieveDataAndSendToL2Cache next s2 SH_REP requester address cached_data_buf)
           else bindR (takeOwnership s1 r requester DEXCLUSIVE) (\<lambda>s2.
                retrieveDataAndSendToL2Cache next s2 EX_REP requester address cached_data_buf))
      | DOWNED \<Rightarrow> Inl Log_Error))"

text \<open>
  The sharers other than the requester are invalidated. When the requester has no copy, the first
  of the list is flushed instead, to obtain the data.
\<close>

primrec invalidateOthers ::
  "dir_cntlr \<Rightarrow> core_id \<Rightarrow> bool \<Rightarrow> bool \<Rightarrow> core_id list \<Rightarrow> intptr \<Rightarrow> dir_cntlr result" where
  "invalidateOthers s requester requesterHasCopy first [] address = Inr s"
| "invalidateOthers s requester requesterHasCopy first (c # cs) address =
     bindR (if c \<noteq> requester
            then sendToCache s (if \<not> requesterHasCopy \<and> first then FLUSH_REQ else INV_REQ) requester c address
            else Inr s) (\<lambda>s'.
     invalidateOthers s' requester requesterHasCopy False cs address)"

definition processUpgradeReqFromL2Cache ::
  "next_req \<Rightarrow> dir_cntlr \<Rightarrow> shmem_req \<Rightarrow> byte list option \<Rightarrow> dir_cntlr result" where
  "processUpgradeReqFromL2Cache next s req cached_data_buf =
     (let address = sm_address (sr_msg req); requester = sm_requester (sr_msg req);
          upgraded = (\<lambda>s1 r e.
            bindR (sendToCache s1 UPGRADE_REP requester requester address) (\<lambda>s2.
            next (setEntry s2 r (e\<lparr>de_dstate := DMODIFIED\<rparr>)) address));
          exclusive = (\<lambda>s1 r e.
            if getSharersList e = [] then Inl Out_Of_Range
            else if hd (getSharersList e) = requester then
              bindR (assertR (de_owner e = requester)) (\<lambda>_. upgraded s1 r e)
            else sendToCache s1 FLUSH_REQ requester (de_owner e) address)
      in
      bindR (entryOrAllocate next s req) (\<lambda>(r, s1).
      let e = entry_of s1 r in
      case de_dstate e of
        DEXCLUSIVE \<Rightarrow> exclusive s1 r e
      | DMODIFIED \<Rightarrow> exclusive s1 r e
      | DSHARED \<Rightarrow>
          if getSharersList e = [requester] then
            bindR (setOwner e requester) (\<lambda>e1. upgraded s1 r e1)
          else
            bindR (hasSharer e requester) (\<lambda>requesterHasCopy.
            invalidateOthers s1 requester requesterHasCopy True (getSharersList e) address)
      | UNCACHED \<Rightarrow>
          bindR (assertR (getSharersList e = [])) (\<lambda>_.
          bindR (takeOwnership s1 r requester DMODIFIED) (\<lambda>s2.
          retrieveDataAndSendToL2Cache next s2 EX_REP requester address
            (if cached_data_buf = None then sm_data_buf (sr_msg req) else cached_data_buf)))
      | DOWNED \<Rightarrow> Inl Log_Error))"

section \<open>The next request\<close>

definition processReq :: "next_req \<Rightarrow> dir_cntlr \<Rightarrow> shmem_req \<Rightarrow> dir_cntlr result" where
  "processReq next s req =
     (case sm_type (sr_msg req) of
        EX_REQ \<Rightarrow> processExReqFromL2Cache next s req None
      | SH_REQ \<Rightarrow> processShReqFromL2Cache next s req None
      | UPGRADE_REQ \<Rightarrow> processUpgradeReqFromL2Cache next s req None
      | _ \<Rightarrow> Inl Log_Error)"

primrec processNextReqFromL2Cache :: "nat \<Rightarrow> dir_cntlr \<Rightarrow> intptr \<Rightarrow> dir_cntlr result" where
  "processNextReqFromL2Cache 0 s address = Inl No_Return"
| "processNextReqFromL2Cache (Suc n) s address =
     bindR (assertR (rq_size (dd_queue s) address \<ge> 1)) (\<lambda>_.
     bindR (rq_dequeue (dd_queue s) address) (\<lambda>(_, q).
     let s1 = s\<lparr>dd_queue := q\<rparr> in
     if rq_empty q address then Inr s1
     else
       bindR (rq_front q address) (\<lambda>req.
       processReq (processNextReqFromL2Cache n)
         (s1\<lparr>dd_spm := spm_setElapsedTime (dd_spm s1) SIM_THREAD (sr_time req)\<rparr>) req)))"

text \<open>
  The bound on the number of requests: one more than the requests queued for the address.
\<close>

abbreviation next_of :: "dir_cntlr \<Rightarrow> intptr \<Rightarrow> next_req" where
  "next_of s address \<equiv> processNextReqFromL2Cache (Suc (rq_size (dd_queue s) address))"

section \<open>Replies\<close>

definition processDRAMReply :: "dir_cntlr \<Rightarrow> core_id \<Rightarrow> shmem_msg \<Rightarrow> dir_cntlr result" where
  "processDRAMReply s sender msg =
     (let address = sm_address msg in
      bindR (assertR (rq_size (dd_queue s) address \<ge> 1)) (\<lambda>_.
      bindR (rq_front (dd_queue s) address) (\<lambda>req.
      bindR (needEntry s address) (\<lambda>(r, s1).
      let curr_dstate = de_dstate (entry_of s1 r) in
      bindR (case sm_type (sr_msg req) of
               SH_REQ \<Rightarrow>
                 bindR (assertR (curr_dstate = DSHARED \<or> curr_dstate = DEXCLUSIVE)) (\<lambda>_.
                 Inr (if curr_dstate = DEXCLUSIVE then EX_REP else SH_REP))
             | EX_REQ \<Rightarrow> bindR (assertR (curr_dstate = DMODIFIED)) (\<lambda>_. Inr EX_REP)
             | UPGRADE_REQ \<Rightarrow> Inr EX_REP
             | _ \<Rightarrow> Inl Log_Error) (\<lambda>reply_msg_type.
      let hit_where = (if sm_where msg = DRAM_HIT
                       then (if sender = sm_requester msg then DRAM_LOCAL else DRAM_REMOTE)
                       else sm_where msg) in
      bindR (sendMsg s1 reply_msg_type MC_L2_CACHE (sm_requester (sr_msg req)) (sm_requester (sr_msg req))
               address (sm_data_buf msg) (dd_cache_block_size s1) hit_where) (\<lambda>s2.
      bindR (sendDataToNUCA s2 address (sm_data_buf msg) False) (\<lambda>s3.
      next_of s3 address s3 address)))))))"

text \<open>
  The handlers of replies first update the entry, and then go on with the request that waits
  at the head of the queue of the address, if there is one.
\<close>

definition resumeAfterInvRep :: "dir_cntlr \<Rightarrow> entry_ref \<Rightarrow> directory_entry \<Rightarrow> core_id \<Rightarrow> intptr \<Rightarrow> dir_cntlr result" where
  "resumeAfterInvRep s r e sender address =
     bindR (rq_front (dd_queue s) address) (\<lambda>req0.
     let req = sr_updateTime (dd_now s) req0;
         s1 = s\<lparr>dd_queue := rq_update_front (dd_queue s) address (sr_updateTime (dd_now s)),
                dd_spm := spm_updateElapsedTime (dd_spm s) (sr_time req) SIM_THREAD\<rparr>;
         next = next_of s1 address in
     case sm_type (sr_msg req) of
       EX_REQ \<Rightarrow>
         if de_dstate e = UNCACHED then processExReqFromL2Cache next s1 req None else Inr s1
     | UPGRADE_REQ \<Rightarrow>
         if getNumSharers e = 1 then
           bindR (hasSharer e (sm_requester (sr_msg req))) (\<lambda>has.
           if has then processUpgradeReqFromL2Cache next s1 req None else Inr s1)
         else if getNumSharers e = 0 then
           processUpgradeReqFromL2Cache next (setEntry s1 r (e\<lparr>de_dstate := UNCACHED\<rparr>)) req None
         else Inr s1
     | SH_REQ \<Rightarrow>
         if sr_wait_for_data req then Inr s1
         else if sr_forwarding_from req \<noteq> INVALID_CORE_ID \<and> sender \<noteq> sr_forwarding_from req then Inr s1
         else processShReqFromL2Cache next s1 req None
     | _ \<Rightarrow>
         if de_dstate e = UNCACHED then processNullifyReq next s1 req else Inr s1)"

definition processInvRepFromL2Cache :: "dir_cntlr \<Rightarrow> core_id \<Rightarrow> shmem_msg \<Rightarrow> dir_cntlr result" where
  "processInvRepFromL2Cache s sender msg =
     (let address = sm_address msg in
      bindR (needEntry s address) (\<lambda>(r, s1).
      let e = entry_of s1 r in
      bindR (assertR (de_dstate e = DSHARED \<or> de_dstate e = DEXCLUSIVE)) (\<lambda>_.
      bindR (removeSharer e sender) (\<lambda>e1.
      let e2 = (if de_forwarder e1 = sender then e1\<lparr>de_forwarder := INVALID_CORE_ID\<rparr> else e1);
          e3 = (if getNumSharers e2 = 0 then e2\<lparr>de_dstate := UNCACHED\<rparr> else e2);
          s2 = setEntry s1 r e3 in
      if rq_size (dd_queue s2) address > 0 then resumeAfterInvRep s2 r e3 sender address
      else Inr s2))))"

definition resumeAfterFlushRep ::
  "dir_cntlr \<Rightarrow> entry_ref \<Rightarrow> directory_entry \<Rightarrow> shmem_msg \<Rightarrow> subsecond \<Rightarrow> dir_cntlr result" where
  "resumeAfterFlushRep s r e msg now =
     (let address = sm_address msg in
      bindR (rq_front (dd_queue s) address) (\<lambda>req0.
      let req = sr_updateTime now req0;
          s1 = s\<lparr>dd_queue := rq_update_front (dd_queue s) address (sr_updateTime now),
                 dd_spm := spm_updateElapsedTime (dd_spm s) (sr_time req) SIM_THREAD\<rparr>;
          next = next_of s1 address in
      case sm_type (sr_msg req) of
        EX_REQ \<Rightarrow> processExReqFromL2Cache next s1 req (sm_data_buf msg)
      | SH_REQ \<Rightarrow>
          bindR (sendDataToDram s1 address (sm_requester msg) (sm_data_buf msg)) (\<lambda>s2.
          processShReqFromL2Cache next s2 req (sm_data_buf msg))
      | UPGRADE_REQ \<Rightarrow>
          if getNumSharers e = 0 then
            processUpgradeReqFromL2Cache next (setEntry s1 r (e\<lparr>de_dstate := UNCACHED\<rparr>)) req (sm_data_buf msg)
          else Inr (s1\<lparr>dd_queue := rq_update_front (dd_queue s1) address
                        (\<lambda>q. q\<lparr>sr_msg := (sr_msg q)\<lparr>sm_data_buf := sm_data_buf msg\<rparr>\<rparr>)\<rparr>)
      | _ \<Rightarrow>
          bindR (sendDataToDram s1 address (sm_requester msg) (sm_data_buf msg)) (\<lambda>s2.
          processNullifyReq next s2 req)))"

definition processFlushRepFromL2Cache :: "dir_cntlr \<Rightarrow> core_id \<Rightarrow> shmem_msg \<Rightarrow> dir_cntlr result" where
  "processFlushRepFromL2Cache s sender msg =
     (let address = sm_address msg; now = dd_now s in
      bindR (needEntry s address) (\<lambda>(r, s1).
      let e = entry_of s1 r in
      bindR (hasSharer e sender) (\<lambda>has. bindR (assertR has) (\<lambda>_.
      bindR (removeSharer e sender) (\<lambda>e1.
      bindR (setOwner (e1\<lparr>de_forwarder := INVALID_CORE_ID\<rparr>) INVALID_CORE_ID) (\<lambda>e2.
      bindR (if getNumSharers e2 = 0 then Inr (e2\<lparr>de_dstate := UNCACHED\<rparr>)
             else bindR (assertR (de_dstate e2 = DSHARED)) (\<lambda>_. Inr e2)) (\<lambda>e3.
      let s2 = setEntry s1 r e3 in
      if rq_size (dd_queue s2) address \<noteq> 0 then resumeAfterFlushRep s2 r e3 msg now
      else sendDataToDram s2 address (sm_requester msg) (sm_data_buf msg))))))))"

definition resumeAfterWbRep :: "dir_cntlr \<Rightarrow> shmem_msg \<Rightarrow> subsecond \<Rightarrow> dir_cntlr result" where
  "resumeAfterWbRep s msg now =
     (let address = sm_address msg in
      bindR (rq_front (dd_queue s) address) (\<lambda>req0.
      let req = sr_updateTime now req0;
          s1 = s\<lparr>dd_queue := rq_update_front (dd_queue s) address (sr_updateTime now),
                 dd_spm := spm_updateElapsedTime (dd_spm s) (sr_time req) SIM_THREAD\<rparr> in
      bindR (assertR (sm_type (sr_msg req) = SH_REQ)) (\<lambda>_.
      processShReqFromL2Cache (next_of s1 address) s1 req (sm_data_buf msg))))"

definition processWbRepFromL2Cache :: "dir_cntlr \<Rightarrow> core_id \<Rightarrow> shmem_msg \<Rightarrow> dir_cntlr result" where
  "processWbRepFromL2Cache s sender msg =
     (let address = sm_address msg; now = dd_now s in
      bindR (needEntry s address) (\<lambda>(r, s1).
      let e = entry_of s1 r in
      bindR (hasSharer e sender) (\<lambda>has. bindR (assertR has) (\<lambda>_.
      bindR (setOwner e INVALID_CORE_ID) (\<lambda>e1.
      let s2 = setEntry s1 r (e1\<lparr>de_dstate := DSHARED\<rparr>) in
      if rq_size (dd_queue s2) address \<noteq> 0 then resumeAfterWbRep s2 msg now
      else Inl Log_Error)))))"

section \<open>The two entry points\<close>

definition isRequest :: "msg_t \<Rightarrow> bool" where
  "isRequest t \<longleftrightarrow> t = EX_REQ \<or> t = SH_REQ \<or> t = UPGRADE_REQ"

definition handleMsgFromL2Cache :: "dir_cntlr \<Rightarrow> core_id \<Rightarrow> shmem_msg \<Rightarrow> dir_cntlr result" where
  "handleMsgFromL2Cache s sender msg =
     (let msg_time = dd_now s; address = sm_address msg in
      bindR (getEntry s address True) (\<lambda>(_, s1).
      case sm_type msg of
        INV_REP \<Rightarrow> processInvRepFromL2Cache s1 sender msg
      | FLUSH_REP \<Rightarrow> processFlushRepFromL2Cache s1 sender msg
      | WB_REP \<Rightarrow> processWbRepFromL2Cache s1 sender msg
      | t \<Rightarrow>
          if isRequest t then
            bindR (ShmemReq msg msg_time) (\<lambda>req.
            let s2 = s1\<lparr>dd_queue := rq_enqueue (dd_queue s1) address req\<rparr> in
            if rq_size (dd_queue s2) address = 1 then processReq (next_of s2 address) s2 req else Inr s2)
          else Inl Log_Error))"

definition handleMsgFromDRAM :: "dir_cntlr \<Rightarrow> core_id \<Rightarrow> shmem_msg \<Rightarrow> dir_cntlr result" where
  "handleMsgFromDRAM s sender msg =
     (case sm_type msg of DRAM_READ_REP \<Rightarrow> processDRAMReply s sender msg | _ \<Rightarrow> Inl Log_Error)"

text \<open>
  What the memory manager of a core does with a message for its tag directory
  (\<^verbatim>\<open>parametric_dram_directory_msi/memory_manager.cc\<close>).
\<close>

record network_packet =
  np_time :: subsecond
  np_sender :: core_id
  np_msg :: shmem_msg

definition handleMsgForTagDir :: "network_packet \<Rightarrow> dir_cntlr \<Rightarrow> dir_cntlr result" where
  "handleMsgForTagDir p s =
     (let s1 = s\<lparr>dd_spm := spm_setElapsedTime (dd_spm s) SIM_THREAD (np_time p)\<rparr> in
      case sm_sender_component (np_msg p) of
        MC_LAST_LEVEL_CACHE \<Rightarrow> handleMsgFromL2Cache s1 (np_sender p) (np_msg p)
      | MC_DRAM \<Rightarrow> handleMsgFromDRAM s1 (np_sender p) (np_msg p)
      | _ \<Rightarrow> Inl Log_Error)"

end
