(* ===== verification/Dir_Coherence.thy ===== *)
theory Dir_Coherence
  imports Dir_Cntlr
begin

text \<open>
  The coherence invariant of the tag directory: what the state of an entry says about its
  sharers, kept by every handler of the controller.
\<close>

section \<open>Entries\<close>

definition sharers :: "directory_entry \<Rightarrow> core_id set" where
  "sharers e = {c. 0 \<le> c \<and> nat c < length (de_sharers e) \<and> de_sharers e ! nat c}"

text \<open>
  An uncached line has no sharer, a shared one has some, and a line that one cache may write
  has that cache as its only sharer.
\<close>

definition entry_ok :: "directory_entry \<Rightarrow> bool" where
  "entry_ok e \<longleftrightarrow> (case de_dstate e of
       UNCACHED \<Rightarrow> sharers e = {}
     | DSHARED \<Rightarrow> sharers e \<noteq> {}
     | DMODIFIED \<Rightarrow> sharers e = {de_owner e}
     | DEXCLUSIVE \<Rightarrow> sharers e = {de_owner e}
     | DOWNED \<Rightarrow> False)"

lemma hasSharer_Inr: "hasSharer e c = Inr b \<Longrightarrow> b \<longleftrightarrow> c \<in> sharers e"
  by (auto simp: hasSharer_def sharers_def split: if_splits)

lemma sharers_getSharersList: "set (getSharersList e) = sharers e"
  by (auto simp: getSharersList_def sharers_def image_iff intro: exI [of _ "nat c" for c]) force

lemma getSharersList_Nil: "getSharersList e = [] \<longleftrightarrow> sharers e = {}"
  using sharers_getSharersList [of e] by (metis list.set(1) set_empty)

lemma getNumSharers_length: "getNumSharers e = length (getSharersList e)"
proof -
  have "filter (\<lambda>b. b) (map ((!) (de_sharers e)) [0..<length (de_sharers e)])
      = map ((!) (de_sharers e)) (filter (\<lambda>j. de_sharers e ! j) [0..<length (de_sharers e)])"
    by (simp add: filter_map comp_def)
  then show ?thesis by (simp add: getNumSharers_def getSharersList_def map_nth)
qed

lemma getNumSharers_0: "getNumSharers e = 0 \<longleftrightarrow> sharers e = {}"
  by (simp add: getNumSharers_length getSharersList_Nil)

lemma sharers_update:
  "0 \<le> c \<Longrightarrow> nat c < length (de_sharers e) \<Longrightarrow>
    sharers (e\<lparr>de_sharers := (de_sharers e)[nat c := b]\<rparr>) = (if b then insert c (sharers e) else sharers e - {c})"
  by (auto simp: sharers_def nth_list_update eq_nat_nat_iff split: if_splits)

lemma sharers_frame [simp]:
  "sharers (e\<lparr>de_address := a\<rparr>) = sharers e" "sharers (e\<lparr>de_dstate := d\<rparr>) = sharers e"
  "sharers (e\<lparr>de_owner := c\<rparr>) = sharers e" "sharers (e\<lparr>de_forwarder := c\<rparr>) = sharers e"
  "sharers (e\<lparr>de_kind := k\<rparr>) = sharers e"
  by (simp_all add: sharers_def)

lemma addSharer_Inr:
  assumes "addSharer e c n = Inr (added, e')"
  shows "c \<notin> sharers e" and "added \<Longrightarrow> sharers e' = insert c (sharers e)" and "\<not> added \<Longrightarrow> e' = e"
    and "de_dstate e' = de_dstate e" and "de_owner e' = de_owner e"
    and "de_address e' = de_address e"
proof -
  from assms obtain b where b: "hasSharer e c = Inr b" "\<not> b" by (auto simp: addSharer_def)
  then have c: "0 \<le> c" "nat c < length (de_sharers e)" by (auto simp: hasSharer_def split: if_splits)
  show "c \<notin> sharers e" using hasSharer_Inr [OF b(1)] b(2) by simp
  note upd = sharers_update [OF c, of True]
  have "(added \<longrightarrow> sharers e' = insert c (sharers e)) \<and> (\<not> added \<longrightarrow> e' = e) \<and> de_dstate e' = de_dstate e
      \<and> de_owner e' = de_owner e \<and> de_address e' = de_address e"
  proof (cases "de_kind e")
    case (LimitedNoBroadcast seed)
    with assms b upd show ?thesis by (auto simp: addSharer_def split: if_splits)
  next
    case (Limitless trap penalty)
    define t where "t = (trap \<or> length (de_sharers e) = unat n)"
    from assms b Limitless have e': "added \<and> e' = e\<lparr>de_sharers := (de_sharers e)[nat c := True], de_kind := Limitless t penalty\<rparr>"
      unfolding addSharer_def t_def by simp
    then show ?thesis using upd by simp
  qed
  then show "added \<Longrightarrow> sharers e' = insert c (sharers e)" "\<not> added \<Longrightarrow> e' = e" "de_dstate e' = de_dstate e"
    "de_owner e' = de_owner e" "de_address e' = de_address e" by blast+
qed

lemma removeSharer_Inr:
  assumes "removeSharer e c = Inr e'"
  shows "c \<in> sharers e" and "sharers e' = sharers e - {c}"
    and "de_dstate e' = de_dstate e" and "de_owner e' = de_owner e" and "de_address e' = de_address e"
proof -
  from assms obtain b where b: "hasSharer e c = Inr b" "b" by (auto simp: removeSharer_def)
  then have c: "0 \<le> c" "nat c < length (de_sharers e)" by (auto simp: hasSharer_def split: if_splits)
  show "c \<in> sharers e" using hasSharer_Inr [OF b(1)] b(2) by simp
  from assms b have "e' = e\<lparr>de_sharers := (de_sharers e)[nat c := False]\<rparr>"
    unfolding removeSharer_def by simp
  then show "sharers e' = sharers e - {c}" "de_dstate e' = de_dstate e" "de_owner e' = de_owner e"
    "de_address e' = de_address e"
    using sharers_update [OF c, of False] by simp_all
qed

lemma setOwner_Inr: "setOwner e c = Inr e' \<Longrightarrow> e' = e\<lparr>de_owner := c\<rparr>"
  by (auto simp: setOwner_def split: if_splits)

lemma getOneSharer_Inr:
  assumes "getOneSharer e = Inr (c, e')"
  shows "sharers e' = sharers e" and "de_dstate e' = de_dstate e" and "de_owner e' = de_owner e"
    and "de_address e' = de_address e"
  using assms by (auto simp: getOneSharer_def split: entry_kind.splits option.splits)

section \<open>The directory cache\<close>

definition slots :: "directory \<Rightarrow> nat set" where
  "slots d = {k. k < length (dir_entry_list d) \<and> dir_entry_list d ! k \<noteq> None}"

abbreviation slot_entry :: "directory \<Rightarrow> nat \<Rightarrow> directory_entry" where
  "slot_entry d k \<equiv> the (dir_entry_list d ! k)"

abbreviation slot_address :: "directory \<Rightarrow> nat \<Rightarrow> intptr" where
  "slot_address d k \<equiv> de_address (slot_entry d k)"

definition dir_ok :: "directory \<Rightarrow> bool" where
  "dir_ok d \<longleftrightarrow> length (dir_entry_list d) = unat (dir_num_entries d) \<and> (\<forall>k \<in> slots d. entry_ok (slot_entry d k))"

text \<open>
  One entry per address: an entry lies in the set of its address, no two entries have the same
  address, and while the old entry of a line waits to be replaced its set has no free slot.
\<close>

definition set_slots :: "directory_cache \<Rightarrow> intptr \<Rightarrow> nat set" where
  "set_slots dc a = unat ` set (dc_slots dc (dc_set_index dc a))"

definition full_set :: "directory_cache \<Rightarrow> intptr \<Rightarrow> bool" where
  "full_set dc a \<longleftrightarrow> (\<forall>k \<in> set_slots dc a. k \<in> slots (dc_directory dc) \<and> slot_address (dc_directory dc) k \<noteq> INVALID_ADDRESS)"

definition geometry_ok :: "directory_cache \<Rightarrow> bool" where
  "geometry_ok dc \<longleftrightarrow> 0 < dc_num_sets dc \<and>
     unat (dc_num_sets dc) * unat (dc_associativity dc) \<le> unat (dir_num_entries (dc_directory dc))"

definition replaced_addresses :: "directory_cache \<Rightarrow> intptr set" where
  "replaced_addresses dc = de_address ` set (dc_replaced dc)"

definition one_entry :: "directory_cache \<Rightarrow> bool" where
  "one_entry dc \<longleftrightarrow> (let d = dc_directory dc in
     geometry_ok dc \<and>
     (\<forall>k \<in> slots d. slot_address d k \<noteq> INVALID_ADDRESS \<longrightarrow> k \<in> set_slots dc (slot_address d k)) \<and>
     (\<forall>j \<in> slots d. \<forall>k \<in> slots d. slot_address d j = slot_address d k \<longrightarrow> slot_address d j \<noteq> INVALID_ADDRESS \<longrightarrow> j = k) \<and>
     distinct (map de_address (dc_replaced dc)) \<and>
     (\<forall>a \<in> replaced_addresses dc. a \<noteq> INVALID_ADDRESS \<and> (\<forall>k \<in> slots d. slot_address d k \<noteq> a) \<and> full_set dc a))"

definition absent :: "directory_cache \<Rightarrow> intptr \<Rightarrow> bool" where
  "absent dc a \<longleftrightarrow> full_set dc a \<and> (\<forall>k \<in> set_slots dc a. slot_address (dc_directory dc) k \<noteq> a) \<and>
     a \<notin> replaced_addresses dc"

text \<open>The invariant; the part on addresses depends on the messages, and is asked for by \<open>U\<close>.\<close>

definition dc_ok :: "bool \<Rightarrow> directory_cache \<Rightarrow> bool" where
  "dc_ok U dc \<longleftrightarrow> dir_ok (dc_directory dc) \<and> (\<forall>e \<in> set (dc_replaced dc). entry_ok e) \<and> (U \<longrightarrow> one_entry dc)"

definition valid_ref :: "directory_cache \<Rightarrow> entry_ref \<Rightarrow> bool" where
  "valid_ref dc r \<longleftrightarrow> (case r of
       Slot k \<Rightarrow> unat k \<in> slots (dc_directory dc)
     | Replaced i \<Rightarrow> i < length (dc_replaced dc))"

text \<open>A step of the directory: the invariant is kept, and no slot is emptied.\<close>

definition dc_step :: "bool \<Rightarrow> directory_cache \<Rightarrow> directory_cache \<Rightarrow> bool" where
  "dc_step U dc dc' \<longleftrightarrow> dc_ok U dc' \<and> slots (dc_directory dc) \<subseteq> slots (dc_directory dc')"

lemma dc_step_refl [intro]: "dc_ok U dc \<Longrightarrow> dc_step U dc dc"
  by (simp add: dc_step_def)

lemma dc_step_trans: "dc_step U a b \<Longrightarrow> dc_step U b c \<Longrightarrow> dc_step U a c"
  by (auto simp: dc_step_def)

lemma dc_step_ok: "dc_step U a b \<Longrightarrow> dc_ok U b"
  by (simp add: dc_step_def)

lemma valid_Slot_mono: "valid_ref dc (Slot k) \<Longrightarrow> dc_step U dc dc' \<Longrightarrow> valid_ref dc' (Slot k)"
  by (auto simp: valid_ref_def dc_step_def)

lemma entry_at_ok: "dc_ok U dc \<Longrightarrow> valid_ref dc r \<Longrightarrow> entry_ok (entry_at dc r)"
  by (auto simp: dc_ok_def dir_ok_def valid_ref_def entry_at_def split: entry_ref.splits)

subsection \<open>Sets of slots\<close>

lemma dc_set_index_less: "0 < dc_num_sets dc \<Longrightarrow> dc_set_index dc a < dc_num_sets dc"
proof -
  assume "0 < dc_num_sets dc"
  then have "dc_num_sets dc - 1 < dc_num_sets dc" by (metis measure_unat word_less_nat_alt word_neq_0_conv)
  moreover have "dc_set_index dc a \<le> dc_num_sets dc - 1" by (simp add: dc_set_index_def word_and_le1)
  ultimately show ?thesis by simp
qed

lemma unat_slot:
  assumes "geometry_ok dc" and "i < unat (dc_associativity dc)"
  shows "unat (dc_set_index dc a * dc_associativity dc + of_nat i) = unat (dc_set_index dc a) * unat (dc_associativity dc) + i"
proof -
  let ?s = "unat (dc_set_index dc a)" and ?n = "unat (dc_associativity dc)"
  have "?s < unat (dc_num_sets dc)"
    using dc_set_index_less [of dc a] assms(1) by (simp add: geometry_ok_def word_less_nat_alt)
  then have "(?s + 1) * ?n \<le> unat (dc_num_sets dc) * ?n" by (intro mult_le_mono1) simp
  then have less: "?s * ?n + i < 2 ^ 32"
    using assms unsigned_less [of "dir_num_entries (dc_directory dc)", where 'a = nat] by (simp add: geometry_ok_def)
  then show ?thesis by (simp add: unat_word_ariths unat_of_nat)
qed

lemma set_slots_eq:
  "geometry_ok dc \<Longrightarrow> set_slots dc a = (\<lambda>i. unat (dc_set_index dc a) * unat (dc_associativity dc) + i) ` {..<unat (dc_associativity dc)}"
  by (auto simp: set_slots_def dc_slots_def image_image unat_slot atLeast0LessThan intro!: image_cong)

lemma set_slots_disjoint:
  assumes g: "geometry_ok dc" and "k \<in> set_slots dc a" "k \<in> set_slots dc b"
  shows "set_slots dc a = set_slots dc b"
proof -
  have "unat (dc_set_index dc c) = k div unat (dc_associativity dc)" if "k \<in> set_slots dc c" for c
    using that by (auto simp: set_slots_eq [OF g])
  from this [OF assms(2)] this [OF assms(3)] show ?thesis by (simp add: set_slots_eq [OF g])
qed

subsection \<open>Changes of the directory\<close>

text \<open>Scanning a set allocates entries without address, and changes nothing else.\<close>

definition grows :: "directory \<Rightarrow> directory \<Rightarrow> bool" where
  "grows d d' \<longleftrightarrow> dir_ok d' \<and> dir_num_entries d' = dir_num_entries d \<and> slots d \<subseteq> slots d' \<and>
     (\<forall>k \<in> slots d. slot_entry d' k = slot_entry d k) \<and> (\<forall>k \<in> slots d' - slots d. slot_address d' k = INVALID_ADDRESS)"

lemma grows_refl: "dir_ok d \<Longrightarrow> grows d d"
  by (simp add: grows_def)

lemma grows_trans:
  assumes "grows d1 d2" and "grows d2 d3"
  shows "grows d1 d3"
  unfolding grows_def
proof (intro conjI ballI)
  fix k
  assume "k \<in> slots d3 - slots d1"
  then show "slot_address d3 k = INVALID_ADDRESS" using assms by (cases "k \<in> slots d2") (auto simp: grows_def)
qed (use assms in \<open>auto simp: grows_def\<close>)

lemma growsD: "grows d d' \<Longrightarrow> k \<in> slots d \<Longrightarrow> k \<in> slots d' \<and> slot_entry d' k = slot_entry d k"
  by (auto simp: grows_def)

lemma createDirectoryEntry_ok:
  assumes "createDirectoryEntry d = (e, d')"
  shows "entry_ok e" and "de_address e = INVALID_ADDRESS" and "dir_entry_list d' = dir_entry_list d"
    and "dir_num_entries d' = dir_num_entries d"
  using assms
  by (auto simp: createDirectoryEntry_def Let_def DirectoryEntry_def entry_ok_def sharers_def split: directory_type.splits)

lemma dir_getDirectoryEntry_step:
  assumes ok: "dir_ok d" and g: "dir_getDirectoryEntry d k = Inr (e, d')"
  shows "grows d d'" and "unat k \<in> slots d'" and "slot_entry d' (unat k) = e"
proof -
  have k: "unat k < length (dir_entry_list d)"
    using assms by (auto simp: dir_getDirectoryEntry_def dir_ok_def word_less_nat_alt)
  have "grows d d' \<and> unat k \<in> slots d' \<and> slot_entry d' (unat k) = e"
  proof (cases "dir_entry_list d ! unat k")
    case None
    obtain e1 d1 where c: "createDirectoryEntry d = (e1, d1)" by fastforce
    note c1 = createDirectoryEntry_ok [OF c]
    have "e = e1" "dir_entry_list d' = (dir_entry_list d)[unat k := Some e1]" "dir_num_entries d' = dir_num_entries d"
      using g None c1 by (auto simp: dir_getDirectoryEntry_def c)
    then show ?thesis using ok None k c1
      by (auto simp: grows_def dir_ok_def slots_def nth_list_update split: if_splits)
  next
    case (Some e1)
    then show ?thesis using assms k by (auto simp: dir_getDirectoryEntry_def slots_def grows_refl)
  qed
  then show "grows d d'" "unat k \<in> slots d'" "slot_entry d' (unat k) = e" by blast+
qed

lemma scan_slots_step:
  assumes "dir_ok d" and "scan_slots P ks d = Inr (r, d')"
  shows "grows d d' \<and> (case r of
      Some k \<Rightarrow> k \<in> set ks \<and> unat k \<in> slots d' \<and> P (slot_entry d' (unat k))
    | None \<Rightarrow> \<forall>k \<in> set ks. unat k \<in> slots d' \<and> \<not> P (slot_entry d' (unat k)))"
  using assms
proof (induction ks arbitrary: d)
  case (Cons k ks)
  obtain e d1 where g: "dir_getDirectoryEntry d k = Inr (e, d1)"
    and rest: "if P e then r = Some k \<and> d' = d1 else scan_slots P ks d1 = Inr (r, d')"
    using Cons.prems(2) by (auto split: if_splits)
  note st = dir_getDirectoryEntry_step [OF Cons.prems(1) g]
  show ?case
  proof (cases "P e")
    case True
    then show ?thesis using rest st by simp
  next
    case False
    have "dir_ok d1" using st(1) by (simp add: grows_def)
    with Cons.IH [of d1] rest False have IH: "grows d1 d'" "case r of
        Some k \<Rightarrow> k \<in> set ks \<and> unat k \<in> slots d' \<and> P (slot_entry d' (unat k))
      | None \<Rightarrow> \<forall>k \<in> set ks. unat k \<in> slots d' \<and> \<not> P (slot_entry d' (unat k))" by simp_all
    have "unat k \<in> slots d'" "slot_entry d' (unat k) = e" using IH(1) st by (auto simp: grows_def)
    with IH grows_trans [OF st(1)] False show ?thesis by (auto split: option.splits)
  qed
qed (simp add: grows_refl)

lemma touch_slots_step:
  "dir_ok d \<Longrightarrow> touch_slots ks d = Inr d' \<Longrightarrow> grows d d' \<and> (\<forall>k \<in> set ks. unat k \<in> slots d')"
proof (induction ks arbitrary: d)
  case (Cons k ks)
  obtain e d1 where g: "dir_getDirectoryEntry d k = Inr (e, d1)" and t: "touch_slots ks d1 = Inr d'"
    using Cons.prems(2) by auto
  note st = dir_getDirectoryEntry_step [OF Cons.prems(1) g]
  have "dir_ok d1" using st(1) by (simp add: grows_def)
  note IH = Cons.IH [OF this t]
  have "slots d1 \<subseteq> slots d'" using IH by (simp add: grows_def)
  with IH st(2) grows_trans [OF st(1)] show ?case by auto
qed (simp add: grows_refl)

lemma set_slots_frame [simp]:
  "set_slots (dc\<lparr>dc_directory := d\<rparr>) a = set_slots dc a" "set_slots (dc\<lparr>dc_replaced := rs\<rparr>) a = set_slots dc a"
  "set_slots (dc\<lparr>dc_replacement_ptrs := ps\<rparr>) a = set_slots dc a"
  "replaced_addresses (dc\<lparr>dc_directory := d\<rparr>) = replaced_addresses dc"
  "replaced_addresses (dc\<lparr>dc_replacement_ptrs := ps\<rparr>) = replaced_addresses dc"
  by (simp_all add: set_slots_def dc_slots_def dc_set_index_def replaced_addresses_def)

lemma one_entryD:
  assumes "one_entry dc"
  shows "geometry_ok dc"
    and "k \<in> slots (dc_directory dc) \<Longrightarrow> slot_address (dc_directory dc) k \<noteq> INVALID_ADDRESS
      \<Longrightarrow> k \<in> set_slots dc (slot_address (dc_directory dc) k)"
    and "j \<in> slots (dc_directory dc) \<Longrightarrow> k \<in> slots (dc_directory dc) \<Longrightarrow>
      slot_address (dc_directory dc) j = slot_address (dc_directory dc) k \<Longrightarrow> slot_address (dc_directory dc) j \<noteq> INVALID_ADDRESS \<Longrightarrow> j = k"
    and "distinct (map de_address (dc_replaced dc))"
    and "a \<in> replaced_addresses dc \<Longrightarrow> a \<noteq> INVALID_ADDRESS"
    and "a \<in> replaced_addresses dc \<Longrightarrow> k \<in> slots (dc_directory dc) \<Longrightarrow> slot_address (dc_directory dc) k \<noteq> a"
    and "a \<in> replaced_addresses dc \<Longrightarrow> full_set dc a"
  using assms by (auto simp: one_entry_def Let_def)

lemma one_entry_grows:
  assumes one: "one_entry dc" and g: "grows (dc_directory dc) d"
  shows "one_entry (dc\<lparr>dc_directory := d\<rparr>)"
proof -
  let ?d = "dc_directory dc"
  note o = one_entryD [OF one]
  have old: "k \<in> slots ?d \<and> slot_address d k = slot_address ?d k" if "k \<in> slots d" "slot_address d k \<noteq> INVALID_ADDRESS" for k
    using that g by (auto simp: grows_def)
  have mono: "k \<in> slots d \<and> slot_address d k = slot_address ?d k" if "k \<in> slots ?d" for k
    using that g by (auto simp: grows_def)
  have "full_set (dc\<lparr>dc_directory := d\<rparr>) a" if "full_set dc a" for a
    using that mono by (auto simp: full_set_def)
  moreover have "geometry_ok (dc\<lparr>dc_directory := d\<rparr>)" using o(1) g by (simp add: geometry_ok_def grows_def)
  ultimately show ?thesis using o(2-7) old unfolding one_entry_def Let_def by simp metis
qed

lemma grows_step:
  assumes "dc_ok U dc" and "grows (dc_directory dc) d"
  shows "dc_step U dc (dc\<lparr>dc_directory := d\<rparr>)"
  using assms one_entry_grows [of dc d] by (auto simp: dc_step_def dc_ok_def grows_def)

lemma one_entry_put:
  assumes one: "one_entry dc" and v: "valid_ref dc r" and a: "de_address e = de_address (entry_at dc r)"
  shows "one_entry (put_entry dc r e)"
proof (cases r)
  case (Slot k)
  let ?d = "dc_directory dc" and ?d' = "dir_setDirectoryEntry (dc_directory dc) k e"
  have s: "slots ?d' = slots ?d" and addr: "\<And>j. j \<in> slots ?d \<Longrightarrow> slot_address ?d' j = slot_address ?d j"
    and n: "dir_num_entries ?d' = dir_num_entries ?d"
    using v a Slot by (auto simp: slots_def dir_setDirectoryEntry_def valid_ref_def entry_at_def nth_list_update)
  have "full_set (dc\<lparr>dc_directory := ?d'\<rparr>) b = full_set dc b" for b
    using addr by (auto simp: full_set_def s)
  then show ?thesis
    using one Slot addr n by (simp add: one_entry_def Let_def put_entry_def s geometry_ok_def)
next
  case (Replaced i)
  have len: "i < length (dc_replaced dc)" using v Replaced by (simp add: valid_ref_def)
  have m: "map de_address ((dc_replaced dc)[i := e]) = map de_address (dc_replaced dc)"
    using a Replaced len by (simp add: map_update entry_at_def list_update_same_conv)
  then have "de_address ` set ((dc_replaced dc)[i := e]) = de_address ` set (dc_replaced dc)"
    by (metis list.set_map)
  then have "replaced_addresses (dc\<lparr>dc_replaced := (dc_replaced dc)[i := e]\<rparr>) = replaced_addresses dc"
    by (simp add: replaced_addresses_def)
  moreover have "full_set (dc\<lparr>dc_replaced := rs\<rparr>) b = full_set dc b" for b rs by (simp add: full_set_def)
  moreover have "geometry_ok (dc\<lparr>dc_replaced := rs\<rparr>) = geometry_ok dc" for rs by (simp add: geometry_ok_def)
  ultimately show ?thesis
    using one Replaced m by (simp add: one_entry_def Let_def put_entry_def)
qed

lemma put_entry_step:
  assumes ok: "dc_ok U dc" and v: "valid_ref dc r" and e: "entry_ok e" and a: "de_address e = de_address (entry_at dc r)"
  shows "dc_step U dc (put_entry dc r e)" and "valid_ref (put_entry dc r e) r" and "entry_at (put_entry dc r e) r = e"
proof -
  have one: "U \<longrightarrow> one_entry (put_entry dc r e)" using one_entry_put [OF _ v a] ok by (simp add: dc_ok_def)
  have "dc_step U dc (put_entry dc r e) \<and> valid_ref (put_entry dc r e) r \<and> entry_at (put_entry dc r e) r = e"
  proof (cases r)
    case (Slot k)
    then show ?thesis using ok v e one
      by (auto simp: dc_step_def dc_ok_def dir_ok_def valid_ref_def put_entry_def dir_setDirectoryEntry_def
          slots_def entry_at_def nth_list_update split: if_splits)
  next
    case (Replaced i)
    then show ?thesis using ok v e one set_update_subset_insert [of "dc_replaced dc" i e]
      by (auto simp: dc_step_def dc_ok_def valid_ref_def put_entry_def entry_at_def)
  qed
  then show "dc_step U dc (put_entry dc r e)" "valid_ref (put_entry dc r e) r" "entry_at (put_entry dc r e) r = e"
    by blast+
qed

text \<open>A free slot is given to an address that has no entry.\<close>

lemma one_entry_claim:
  assumes one: "one_entry dc" and k: "k \<in> slots (dc_directory dc)" "k \<in> set_slots dc a"
    and free: "slot_address (dc_directory dc) k = INVALID_ADDRESS" and a: "a \<noteq> INVALID_ADDRESS"
    and none: "\<forall>j \<in> set_slots dc a. slot_address (dc_directory dc) j \<noteq> a"
    and d: "slots d = slots (dc_directory dc)" "slot_address d k = a" "\<And>j. j \<noteq> k \<Longrightarrow> slot_entry d j = slot_entry (dc_directory dc) j"
      "dir_num_entries d = dir_num_entries (dc_directory dc)"
  shows "one_entry (dc\<lparr>dc_directory := d\<rparr>)"
proof -
  note o = one_entryD [OF one]
  have full: "full_set (dc\<lparr>dc_directory := d\<rparr>) b" if "full_set dc b" for b
    using that d a by (auto simp: full_set_def) metis
  have no_a: "slot_address (dc_directory dc) j \<noteq> a" if "j \<in> slots (dc_directory dc)" for j
    using o(2) [OF that] none a by metis
  have not_full: "\<not> full_set dc a" using k free by (auto simp: full_set_def)
  have "geometry_ok (dc\<lparr>dc_directory := d\<rparr>)" using o(1) d by (simp add: geometry_ok_def)
  moreover have "b \<noteq> a" if "b \<in> replaced_addresses dc" for b using o(7) [OF that] not_full by blast
  moreover have "slot_address d j = (if j = k then a else slot_address (dc_directory dc) j)" for j using d by simp
  ultimately show ?thesis
    unfolding one_entry_def Let_def using o k(2) full d(1) by (auto dest: no_a)
qed

lemma entry_ok_frame [simp]:
  "entry_ok (e\<lparr>de_address := a\<rparr>) = entry_ok e" "entry_ok (e\<lparr>de_forwarder := c\<rparr>) = entry_ok e"
  by (simp_all add: entry_ok_def split: dstate.splits)

lemma claim_step:
  assumes ok: "dc_ok U dc" and k: "unat k \<in> slots (dc_directory dc)" "unat k \<in> set_slots dc a"
    and free: "slot_address (dc_directory dc) (unat k) = INVALID_ADDRESS"
    and none: "\<forall>j \<in> set_slots dc a. slot_address (dc_directory dc) j \<noteq> a"
  defines "dc' \<equiv> put_entry dc (Slot k) (entry_at dc (Slot k)\<lparr>de_address := a\<rparr>)"
  shows "dc_step U dc dc'" and "valid_ref dc' (Slot k)" and "de_address (entry_at dc' (Slot k)) = a"
proof -
  let ?d = "dir_setDirectoryEntry (dc_directory dc) k (entry_at dc (Slot k)\<lparr>de_address := a\<rparr>)"
  have v: "valid_ref dc (Slot k)" using k by (simp add: valid_ref_def)
  have d: "slots ?d = slots (dc_directory dc)" "slot_address ?d (unat k) = a" "dir_num_entries ?d = dir_num_entries (dc_directory dc)"
    "\<And>j. j \<noteq> unat k \<Longrightarrow> slot_entry ?d j = slot_entry (dc_directory dc) j"
    using k by (auto simp: slots_def dir_setDirectoryEntry_def nth_list_update)
  have "a \<noteq> INVALID_ADDRESS" using free none k by auto
  then have "U \<longrightarrow> one_entry dc'"
    using one_entry_claim [OF _ k free _ none d(1,2,4,3)] ok by (simp add: dc_ok_def dc'_def put_entry_def)
  moreover have "dir_ok ?d" using ok entry_at_ok [OF ok v] d(1) k
    by (auto simp: dc_ok_def dir_ok_def dir_setDirectoryEntry_def nth_list_update slots_def)
  ultimately show "dc_step U dc dc'" using ok d(1) by (simp add: dc_step_def dc_ok_def dc'_def put_entry_def)
  show "valid_ref dc' (Slot k)" "de_address (entry_at dc' (Slot k)) = a"
    using k d(1,2) by (simp_all add: dc'_def put_entry_def valid_ref_def entry_at_def)
qed

lemma scan_slots_wp:
  assumes "dir_ok d"
    and "\<And>r d'. grows d d' \<Longrightarrow> (\<And>k. r = Some k \<Longrightarrow> k \<in> set ks \<and> unat k \<in> slots d' \<and> P (slot_entry d' (unat k)))
      \<Longrightarrow> (r = None \<Longrightarrow> \<forall>k \<in> set ks. unat k \<in> slots d' \<and> \<not> P (slot_entry d' (unat k))) \<Longrightarrow> Q (r, d')"
  shows "wpR (scan_slots P ks d) Q"
  unfolding wpR_def
proof clarify
  fix r d'
  assume "scan_slots P ks d = Inr (r, d')"
  from scan_slots_step [OF assms(1) this] show "Q (r, d')" by (intro assms(2)) auto
qed

lemma wpR_incr: "(\<And>x. Q x) \<Longrightarrow> wpR (spm_incrElapsedTime m t th) Q"
  by (auto simp: wpR_def)

text \<open>What a look-up finds.\<close>

definition lookup_post :: "bool \<Rightarrow> directory_cache \<Rightarrow> intptr \<Rightarrow> entry_ref option \<Rightarrow> directory_cache \<Rightarrow> bool" where
  "lookup_post U dc a r dc' \<longleftrightarrow> dc_step U dc dc' \<and> (case r of
       Some ref \<Rightarrow> valid_ref dc' ref \<and> de_address (entry_at dc' ref) = a
     | None \<Rightarrow> absent dc' a)"

lemma lookup_free:
  assumes st: "dc_step U dc dc2" and s: "set_slots dc2 a = set_slots dc a"
    and no: "\<forall>k \<in> set_slots dc a. slot_address (dc_directory dc2) k \<noteq> a"
    and k: "unat k \<in> set_slots dc a" "unat k \<in> slots (dc_directory dc2)" "slot_address (dc_directory dc2) (unat k) = INVALID_ADDRESS"
  shows "lookup_post U dc a (Some (Slot k)) (put_entry dc2 (Slot k) (entry_at dc2 (Slot k)\<lparr>de_address := a\<rparr>))"
  using claim_step [OF dc_step_ok [OF st] k(2) _ k(3), of a] no k(1) s dc_step_trans [OF st]
  by (simp add: lookup_post_def)

lemma lookup_replaced:
  assumes st: "dc_step U dc dc2" and s: "set_slots dc2 a = set_slots dc a"
    and no: "\<forall>k \<in> set_slots dc a. slot_address (dc_directory dc2) k \<noteq> a"
    and full: "\<forall>k \<in> set_slots dc a. k \<in> slots (dc_directory dc2) \<and> slot_address (dc_directory dc2) k \<noteq> INVALID_ADDRESS"
  shows "lookup_post U dc a (map_option Replaced (first_idx (\<lambda>i. de_address (dc_replaced dc2 ! i) = a) (length (dc_replaced dc2)))) dc2"
proof (cases "first_idx (\<lambda>i. de_address (dc_replaced dc2 ! i) = a) (length (dc_replaced dc2))")
  case None
  then have "a \<notin> replaced_addresses dc2" by (auto simp: replaced_addresses_def in_set_conv_nth)
  then have "lookup_post U dc a None dc2" using st no full s by (simp add: lookup_post_def absent_def full_set_def)
  then show ?thesis unfolding None by simp
next
  case (Some i)
  from first_idx_SomeD [OF Some] Some st show ?thesis by (simp add: lookup_post_def valid_ref_def entry_at_def)
qed

lemma dc_getDirectoryEntry_wp:
  assumes ok: "dc_ok U dc" and Q: "\<And>r dc' m'. lookup_post U dc address r dc' \<Longrightarrow> Q (r, dc', m')"
  shows "wpR (dc_getDirectoryEntry dc m address modeled) Q"
proof -
  let ?ks = "dc_slots dc (dc_set_index dc address)" and ?dc = "\<lambda>d. dc\<lparr>dc_directory := d\<rparr>"
  from ok have dok: "dir_ok (dc_directory dc)" by (simp add: dc_ok_def)
  have hit: "Q (Some (Slot k), ?dc d1, m2)"
    if "grows (dc_directory dc) d1" "unat k \<in> slots d1" "slot_address d1 (unat k) = address" for k d1 m2
    using that by (auto intro!: Q grows_step ok simp: lookup_post_def valid_ref_def entry_at_def)
  have miss: "wpR (scan_slots (\<lambda>e. de_address e = INVALID_ADDRESS) ?ks d1) (\<lambda>x. wpR (case x of (free, d2) \<Rightarrow> case free of
        Some k \<Rightarrow> Inr (Some (Slot k), put_entry (?dc d2) (Slot k) (entry_at (?dc d2) (Slot k)\<lparr>de_address := address\<rparr>), m1)
      | None \<Rightarrow> Inr (map_option Replaced (first_idx (\<lambda>i. de_address (dc_replaced (?dc d2) ! i) = address) (length (dc_replaced (?dc d2)))), ?dc d2, m1)) Q)"
    if g: "grows (dc_directory dc) d1" and no: "\<forall>k \<in> set ?ks. unat k \<in> slots d1 \<and> slot_address d1 (unat k) \<noteq> address" for d1 m1
  proof (rule scan_slots_wp)
    show "dir_ok d1" using g by (simp add: grows_def)
    fix r d2
    assume g2: "grows d1 d2"
      and some: "\<And>k. r = Some k \<Longrightarrow> k \<in> set ?ks \<and> unat k \<in> slots d2 \<and> slot_address d2 (unat k) = INVALID_ADDRESS"
      and none: "r = None \<Longrightarrow> \<forall>k \<in> set ?ks. unat k \<in> slots d2 \<and> slot_address d2 (unat k) \<noteq> INVALID_ADDRESS"
    have st: "dc_step U dc (?dc d2)" by (rule grows_step [OF ok grows_trans [OF g g2]])
    have no2: "\<forall>k \<in> set_slots dc address. slot_address (dc_directory (?dc d2)) k \<noteq> address"
      using no growsD [OF g2] by (auto simp: set_slots_def)
    show "wpR (case (r, d2) of (free, d2) \<Rightarrow> case free of
        Some k \<Rightarrow> Inr (Some (Slot k), put_entry (?dc d2) (Slot k) (entry_at (?dc d2) (Slot k)\<lparr>de_address := address\<rparr>), m1)
      | None \<Rightarrow> Inr (map_option Replaced (first_idx (\<lambda>i. de_address (dc_replaced (?dc d2) ! i) = address) (length (dc_replaced (?dc d2)))), ?dc d2, m1)) Q"
    proof (cases r)
      case (Some k)
      have "unat k \<in> set_slots dc address" using some [OF Some] by (simp add: set_slots_def)
      then show ?thesis using lookup_free [OF st _ no2, of k] some [OF Some] Some by (simp add: Q)
    next
      case None
      have "\<forall>k \<in> set_slots dc address. k \<in> slots d2 \<and> slot_address d2 k \<noteq> INVALID_ADDRESS"
        using none [OF None] by (simp add: set_slots_def)
      then show ?thesis using lookup_replaced [OF st _ no2] None by (simp add: Q)
    qed
  qed
  show ?thesis
    unfolding dc_getDirectoryEntry_def Let_def wpR_simps
    by (auto intro!: wpR_incr scan_slots_wp [OF dok] hit miss split: option.splits)
qed

text \<open>The victims offered for an address are slots of its set.\<close>

lemma candidate_slots:
  "set (map (\<lambda>i. s * dc_associativity dc + (of_nat i + p) mod dc_associativity dc) [0..<unat (dc_associativity dc)])
    \<subseteq> set (dc_slots dc s)"
proof clarsimp
  fix i
  assume "i < unat (dc_associativity dc)"
  let ?j = "unat ((of_nat i + p) mod dc_associativity dc)"
  have "?j < unat (dc_associativity dc)" using \<open>i < unat (dc_associativity dc)\<close> by (simp add: unat_mod_distrib)
  then show "s * dc_associativity dc + (word_of_nat i + p) mod dc_associativity dc \<in> set (dc_slots dc s)"
    unfolding dc_slots_def by (auto intro!: image_eqI [of _ _ ?j])
qed

lemma absent_grows: "absent dc a \<Longrightarrow> grows (dc_directory dc) d \<Longrightarrow> absent (dc\<lparr>dc_directory := d\<rparr>) a"
  unfolding absent_def full_set_def by (simp, metis growsD)

lemma dc_step_ptrs: "dc_step U dc (dc\<lparr>dc_replacement_ptrs := ps\<rparr>) = dc_ok U dc" "absent (dc\<lparr>dc_replacement_ptrs := ps\<rparr>) a = absent dc a"
  by (auto simp: dc_step_def dc_ok_def one_entry_def full_set_def geometry_ok_def absent_def Let_def)

lemma getReplacementCandidates_wp:
  assumes ok: "dc_ok U dc"
    and Q: "\<And>ks dc'. dc_step U dc dc' \<Longrightarrow> absent dc' address \<Longrightarrow>
      (\<And>k. k \<in> set ks \<Longrightarrow> valid_ref dc' (Slot k) \<and> unat k \<in> set_slots dc' address) \<Longrightarrow> Q (ks, dc')"
  shows "wpR (getReplacementCandidates dc m address) Q"
proof -
  have touch: "Q (ks, dc1\<lparr>dc_directory := d, dc_replacement_ptrs := ps\<rparr>)"
    if l: "lookup_post U dc address None dc1" and t: "touch_slots ks (dc_directory dc1) = Inr d"
      and ks: "set ks \<subseteq> set (dc_slots dc1 (dc_set_index dc1 address))" for ks dc1 d ps
  proof (rule Q)
    from l have st: "dc_step U dc dc1" and ab: "absent dc1 address" by (simp_all add: lookup_post_def)
    have "dir_ok (dc_directory dc1)" using dc_step_ok [OF st] by (simp add: dc_ok_def)
    note g = touch_slots_step [OF this t]
    have st1: "dc_step U dc1 (dc1\<lparr>dc_directory := d\<rparr>)" by (rule grows_step [OF dc_step_ok [OF st]]) (use g in simp)
    show "dc_step U dc (dc1\<lparr>dc_directory := d, dc_replacement_ptrs := ps\<rparr>)"
      using dc_step_trans [OF st st1] dc_step_ptrs(1) [of U "dc1\<lparr>dc_directory := d\<rparr>" ps] dc_step_ok [OF st1]
      by (blast intro: dc_step_trans)
    show "absent (dc1\<lparr>dc_directory := d, dc_replacement_ptrs := ps\<rparr>) address"
      using absent_grows [OF ab] g by (simp add: dc_step_ptrs)
    show "valid_ref (dc1\<lparr>dc_directory := d, dc_replacement_ptrs := ps\<rparr>) (Slot k)
        \<and> unat k \<in> set_slots (dc1\<lparr>dc_directory := d, dc_replacement_ptrs := ps\<rparr>) address" if "k \<in> set ks" for k
      using that g ks by (auto simp: valid_ref_def set_slots_def dc_slots_def dc_set_index_def)
  qed
  show ?thesis
    unfolding getReplacementCandidates_def Let_def wpR_simps
    by (rule dc_getDirectoryEntry_wp [OF ok]) (auto split: if_splits simp: wpR_def intro!: touch [OF _ _ candidate_slots])
qed

text \<open>
  Replacing the entry of a victim: the victim lies in the set of the new address, so the set of
  its own address is the same one, and it stays full.
\<close>

lemma one_entry_replace:
  assumes one: "one_entry dc" and a: "absent dc a" "a \<noteq> INVALID_ADDRESS"
    and k: "k \<in> slots (dc_directory dc)" "k \<in> set_slots dc a"
    and d: "slots d = slots (dc_directory dc)" "slot_address d k = a" "\<And>j. j \<noteq> k \<Longrightarrow> slot_entry d j = slot_entry (dc_directory dc) j"
      "dir_num_entries d = dir_num_entries (dc_directory dc)"
  shows "one_entry (dc\<lparr>dc_replaced := dc_replaced dc @ [slot_entry (dc_directory dc) k], dc_directory := d\<rparr>)" (is "one_entry ?dc")
proof -
  note o = one_entryD [OF one]
  let ?ra = "slot_address (dc_directory dc) k"
  have ra: "?ra \<noteq> INVALID_ADDRESS" "?ra \<noteq> a" using a k(2) by (auto simp: absent_def full_set_def)
  have same: "set_slots dc ?ra = set_slots dc a"
    by (rule set_slots_disjoint [OF o(1) o(2) [OF k(1) ra(1)] k(2)])
  have no_a: "slot_address (dc_directory dc) j \<noteq> a" if "j \<in> slots (dc_directory dc)" for j
    using o(2) [OF that] a by (auto simp: absent_def)
  have rep: "replaced_addresses ?dc = insert ?ra (replaced_addresses dc)" by (auto simp: replaced_addresses_def)
  have addr: "slot_address d j = (if j = k then a else slot_address (dc_directory dc) j)" for j using d by simp
  have full: "full_set ?dc b" if "full_set dc b" for b
    using that d(1) a(2) by (simp add: full_set_def addr)
  have full_ra: "full_set dc ?ra" using a(1) same by (simp add: absent_def full_set_def)
  have old_ra: "\<forall>j \<in> slots (dc_directory dc). slot_address d j \<noteq> ?ra"
    using o(3) [OF k(1)] ra addr by metis
  have "?ra \<notin> replaced_addresses dc" using o(6) k(1) by blast
  then have dist: "distinct (map de_address (dc_replaced ?dc))" using o(4) by (simp add: replaced_addresses_def)
  have geo: "geometry_ok ?dc" using o(1) d by (simp add: geometry_ok_def)
  have sets: "\<forall>j \<in> slots (dc_directory dc). slot_address d j \<noteq> INVALID_ADDRESS \<longrightarrow> j \<in> set_slots dc (slot_address d j)"
    using o(2) k(2) by (simp add: addr)
  have uniq: "\<forall>i \<in> slots (dc_directory dc). \<forall>j \<in> slots (dc_directory dc). slot_address d i = slot_address d j \<longrightarrow>
      slot_address d i \<noteq> INVALID_ADDRESS \<longrightarrow> i = j" using o(3) no_a by (auto simp: addr)
  have others: "\<forall>b \<in> replaced_addresses dc. b \<noteq> INVALID_ADDRESS \<and> (\<forall>j \<in> slots (dc_directory dc). slot_address d j \<noteq> b) \<and> full_set ?dc b"
    using o(5,6,7) a(1) full by (auto simp: addr absent_def)
  show ?thesis
    unfolding one_entry_def Let_def rep
    using geo sets uniq dist others ra(1) old_ra full [OF full_ra] d(1) by simp
qed

lemma replaceDirectoryEntry_wp:
  assumes ok: "dc_ok U dc" and a: "U \<longrightarrow> absent dc a \<and> a \<noteq> INVALID_ADDRESS"
    and v: "unat v \<in> slots (dc_directory dc)" "unat v \<in> set_slots dc a" "slot_address (dc_directory dc) (unat v) = ra"
    and Q: "\<And>k dc' m'. dc_step U dc dc' \<Longrightarrow> valid_ref dc' (Slot k) \<Longrightarrow> Q (Slot k, dc', m')"
  shows "wpR (replaceDirectoryEntry dc m ra a modeled) Q"
proof -
  have found: "Q (Slot k, dc\<lparr>dc_replaced := dc_replaced dc @ [slot_entry d1 (unat k)],
      dc_directory := dir_setDirectoryEntry d2 k (new\<lparr>de_address := a\<rparr>)\<rparr>, m1)"
    if g: "grows (dc_directory dc) d1" and k: "unat k \<in> slots d1" "slot_address d1 (unat k) = ra"
      and c: "createDirectoryEntry d1 = (new, d2)" for d1 d2 k new m1
  proof -
    let ?d = "dir_setDirectoryEntry d2 k (new\<lparr>de_address := a\<rparr>)" and ?dc1 = "dc\<lparr>dc_directory := d1\<rparr>"
    note c1 = createDirectoryEntry_ok [OF c]
    note st = grows_step [OF ok g]
    have d: "slots ?d = slots d1" "slot_address ?d (unat k) = a" "dir_num_entries ?d = dir_num_entries d1"
      "\<And>j. j \<noteq> unat k \<Longrightarrow> slot_entry ?d j = slot_entry d1 j"
      using k(1) c1 by (auto simp: slots_def dir_setDirectoryEntry_def nth_list_update)
    have "one_entry (dc\<lparr>dc_replaced := dc_replaced dc @ [slot_entry d1 (unat k)], dc_directory := ?d\<rparr>)" if U
    proof -
      have one: "one_entry ?dc1" using dc_step_ok [OF st] \<open>U\<close> by (simp add: dc_ok_def)
      have ab: "absent ?dc1 a" using absent_grows [OF _ g] a \<open>U\<close> by simp
      have v1: "unat v \<in> slots d1" "slot_address d1 (unat v) = ra" using growsD [OF g v(1)] v(3) by simp_all
      have "ra \<noteq> INVALID_ADDRESS" using ab v(2) v1 by (auto simp: absent_def full_set_def)
      then have "unat k = unat v" using one_entryD(3) [OF one, of "unat k" "unat v"] v1 k by simp
      then show ?thesis
        using one_entry_replace [OF one ab, of "unat k" ?d] a \<open>U\<close> k d v(2) by simp
    qed
    moreover have "dir_ok ?d" using dc_step_ok [OF st] k(1) c1
      by (auto simp: dc_ok_def dir_ok_def dir_setDirectoryEntry_def nth_list_update slots_def)
    ultimately show ?thesis using dc_step_ok [OF st] k(1) d(1) g
      by (intro Q) (auto simp: dc_step_def dc_ok_def dir_ok_def grows_def valid_ref_def)
  qed
  from ok have dok: "dir_ok (dc_directory dc)" by (simp add: dc_ok_def)
  show ?thesis
    unfolding replaceDirectoryEntry_def Let_def wpR_simps
    by (auto intro!: wpR_incr scan_slots_wp [OF dok] found split: option.splits prod.splits)
qed

lemma full_set_replaced [simp]: "full_set (dc\<lparr>dc_replaced := rs\<rparr>) a = full_set dc a"
  by (simp add: full_set_def)

lemma one_entry_remove:
  assumes "one_entry dc" and "set rs \<subseteq> set (dc_replaced dc)" and "distinct (map de_address rs)"
  shows "one_entry (dc\<lparr>dc_replaced := rs\<rparr>)"
  using assms by (auto simp: one_entry_def Let_def replaced_addresses_def geometry_ok_def)

lemma distinct_without: "distinct xs \<Longrightarrow> distinct (take i xs @ drop (Suc i) xs)"
  using distinct_append [of "take i xs" "drop i xs"] set_drop_subset_set_drop [of i "Suc i" xs] by auto

lemma invalidateDirectoryEntry_wp:
  assumes ok: "dc_ok U dc" and Q: "\<And>dc'. dc_step U dc dc' \<Longrightarrow> Q dc'"
  shows "wpR (invalidateDirectoryEntry dc address) Q"
proof -
  let ?rs = "\<lambda>i. take i (dc_replaced dc) @ drop (Suc i) (dc_replaced dc)"
  have sub: "set (?rs i) \<subseteq> set (dc_replaced dc)" for i by (auto dest: in_set_takeD in_set_dropD)
  have "distinct (map de_address (?rs i))" if "distinct (map de_address (dc_replaced dc))" for i
    using distinct_without [OF that, of i] by (simp add: take_map drop_map)
  then have "dc_step U dc (dc\<lparr>dc_replaced := ?rs i\<rparr>)" for i
    using ok sub [of i] one_entry_remove [OF _ sub [of i]] one_entryD(4) [of dc] by (auto simp: dc_step_def dc_ok_def)
  then show ?thesis by (auto simp: invalidateDirectoryEntry_def Q split: option.splits)
qed

section \<open>Functions that always return\<close>

lemma scan_slots_returns [simp]: "returnsR (scan_slots P ks d)"
  by (induction ks arbitrary: d)
    (auto simp: dir_getDirectoryEntry_def wpR_def split: option.splits prod.splits)

lemma touch_slots_returns [simp]: "returnsR (touch_slots ks d)"
  by (induction ks arbitrary: d)
    (auto simp: dir_getDirectoryEntry_def wpR_def split: option.splits prod.splits)

lemma spm_incr_returns [simp]: "returnsR (spm_incrElapsedTime m t th)"
  by (simp add: spm_incrElapsedTime_def Let_def)

lemma dc_returns [simp]:
  "returnsR (dc_getDirectoryEntry dc m a md)"
  "returnsR (replaceDirectoryEntry dc m a b md)"
  "returnsR (invalidateDirectoryEntry dc a)"
  by (auto simp: dc_getDirectoryEntry_def replaceDirectoryEntry_def invalidateDirectoryEntry_def Let_def wpR_def
      split: option.splits prod.splits)

lemma getReplacementCandidates_returns [simp]: "returnsR (getReplacementCandidates dc m a)"
  by (auto simp: getReplacementCandidates_def Let_def wpR_def split: prod.splits)

lemma entry_returns [simp]:
  "returnsR (hasSharer e c)" "returnsR (addSharer e c n)" "returnsR (removeSharer e c)" "returnsR (setOwner e c)"
  "returnsR (getOneSharer e)" "returnsR (getHome ahl a)" "returnsR (ShmemReq msg t)" "returnsR (rq_front q a)"
  "returnsR (rq_dequeue q a)"
  by (auto simp: hasSharer_def addSharer_def removeSharer_def setOwner_def getOneSharer_def getHome_def Let_def
      ShmemReq_def rq_front_def rq_dequeue_def random_next_def wpR_def split: entry_kind.splits option.splits list.splits)

end
