(* ===== verification/Dir_Protocol.thy ===== *)
theory Dir_Protocol
  imports Dir_Coherence
begin

text \<open>
  The protocol of the tag directory controller: every handler keeps the coherence invariant,
  answers the requests of an address in the order in which they arrived, each exactly once,
  and returns.
\<close>

section \<open>Verification conditions\<close>

text \<open>
  \<open>vc N m Q\<close>: a result of \<open>m\<close> satisfies \<open>Q\<close> and, if \<open>N\<close> holds, \<open>m\<close> does not run out of
  the bound on its recursion.
\<close>

definition vc :: "bool \<Rightarrow> 'a result \<Rightarrow> ('a \<Rightarrow> bool) \<Rightarrow> bool" where
  "vc N m Q \<longleftrightarrow> (N \<longrightarrow> returnsR m) \<and> wpR m Q"

lemma vc_simps [simp]:
  "vc N (Inr x) Q \<longleftrightarrow> Q x" "vc N (Inl er) Q \<longleftrightarrow> (N \<longrightarrow> er \<noteq> No_Return)" "vc N (assertR b) R \<longleftrightarrow> (b \<longrightarrow> R ())"
  "vc N (bindR m f) Q \<longleftrightarrow> vc N m (\<lambda>x. vc N (f x) Q)"
  by (auto simp: vc_def wpR_def)

lemma vc_mono: "vc N m P \<Longrightarrow> (\<And>x. m = Inr x \<Longrightarrow> P x \<Longrightarrow> Q x) \<Longrightarrow> vc N m Q"
  by (auto simp: vc_def wpR_def)

lemma vc_returns: "returnsR m \<Longrightarrow> vc N m Q \<longleftrightarrow> wpR m Q"
  by (simp add: vc_def)

section \<open>Requests and their replies\<close>

definition isReply :: "msg_t \<Rightarrow> bool" where
  "isReply t \<longleftrightarrow> t = EX_REP \<or> t = SH_REP \<or> t = UPGRADE_REP"

text \<open>The caches that were answered for an address, in order, and those that wait.\<close>

definition replies :: "packet list \<Rightarrow> intptr \<Rightarrow> core_id list" where
  "replies ps a = map pk_receiver (filter (\<lambda>p. isReply (sm_type (pk_msg p)) \<and> sm_address (pk_msg p) = a) ps)"

definition requesters :: "shmem_req list \<Rightarrow> core_id list" where
  "requesters rs = map (sm_requester \<circ> sr_msg) (filter (isRequest \<circ> sm_type \<circ> sr_msg) rs)"

abbreviation waiting :: "dir_cntlr \<Rightarrow> intptr \<Rightarrow> shmem_req list" where
  "waiting s a \<equiv> rq_items (dd_queue s) a"

definition served :: "dir_cntlr \<Rightarrow> intptr \<Rightarrow> core_id list" where
  "served s a = replies (dd_outbox s) a @ requesters (waiting s a)"

lemma replies_simps [simp]:
  "replies [] a = []"
  "replies (ps @ qs) a = replies ps a @ replies qs a"
  "replies [p] a = (if isReply (sm_type (pk_msg p)) \<and> sm_address (pk_msg p) = a then [pk_receiver p] else [])"
  by (simp_all add: replies_def)

lemma requesters_simps [simp]:
  "requesters [] = []"
  "requesters (r # rs) = (if isRequest (sm_type (sr_msg r)) then [sm_requester (sr_msg r)] else []) @ requesters rs"
  "requesters (rs @ rs') = requesters rs @ requesters rs'"
  by (simp_all add: requesters_def)

lemma msg_kinds [simp]:
  "isReply EX_REP" "isReply SH_REP" "isReply UPGRADE_REP" "\<not> isReply INV_REQ" "\<not> isReply FLUSH_REQ" "\<not> isReply WB_REQ"
  "\<not> isReply DRAM_READ_REQ" "\<not> isReply DRAM_WRITE_REQ" "\<not> isRequest NULLIFY_REQ"
  "isRequest EX_REQ" "isRequest SH_REQ" "isRequest UPGRADE_REQ"
  by (simp_all add: isReply_def isRequest_def)

section \<open>The invariant\<close>

definition queue_ok :: "bool \<Rightarrow> shmem_req req_queue_list \<Rightarrow> bool" where
  "queue_ok U q \<longleftrightarrow> rq_ok q \<and> (\<forall>a. \<forall>r \<in> set (rq_items q a). sm_address (sr_msg r) = a) \<and>
     (U \<longrightarrow> rq_items q INVALID_ADDRESS = [])"

definition dd_ok :: "bool \<Rightarrow> bool \<Rightarrow> dir_cntlr \<Rightarrow> bool" where
  "dd_ok N U s \<longleftrightarrow> dc_ok U (dd_cache s) \<and> queue_ok U (dd_queue s) \<and> (N \<longrightarrow> dd_nuca s = None)"

text \<open>
  A step for address \<open>a\<close> keeps the invariant, answers no cache out of turn, and leaves the
  requests for other addresses alone.
\<close>

definition dd_step :: "bool \<Rightarrow> bool \<Rightarrow> intptr \<Rightarrow> dir_cntlr \<Rightarrow> dir_cntlr \<Rightarrow> bool" where
  "dd_step N U a s s' \<longleftrightarrow> dd_ok N U s' \<and> dc_step U (dd_cache s) (dd_cache s') \<and> served s' = served s \<and>
     (\<forall>b. b \<noteq> a \<longrightarrow> waiting s b \<noteq> [] \<longrightarrow> waiting s' b = waiting s b)"

lemma dd_step_refl: "dd_ok N U s \<Longrightarrow> dd_step N U a s s"
  by (auto simp: dd_step_def dd_ok_def)

lemma dd_step_trans: "dd_step N U a s s1 \<Longrightarrow> dd_step N U a s1 s2 \<Longrightarrow> dd_step N U a s s2"
  by (auto simp: dd_step_def intro: dc_step_trans)

lemma dd_step_ok: "dd_step N U a s s' \<Longrightarrow> dd_ok N U s'"
  by (simp add: dd_step_def)

lemma vc_step_trans: "dd_step N U a s s1 \<Longrightarrow> vc N m (dd_step N U a s1) \<Longrightarrow> vc N m (dd_step N U a s)"
  by (erule vc_mono) (rule dd_step_trans)

text \<open>Steps that touch neither the directory nor the NUCA cache.\<close>

lemma dd_step_frame:
  assumes "dd_ok N U s" and "dd_cache s' = dd_cache s" and "N \<longrightarrow> dd_nuca s' = None"
    and "queue_ok U (dd_queue s')" and "\<And>b. served s' b = served s b"
    and "\<And>b. b \<noteq> a \<Longrightarrow> waiting s b \<noteq> [] \<Longrightarrow> waiting s' b = waiting s b"
  shows "dd_step N U a s s'"
  using assms by (auto simp: dd_step_def dd_ok_def)

lemma dd_step_cache:
  assumes "dd_ok N U s" and "dc_step U (dd_cache s) (dd_cache s')" and "dd_nuca s' = dd_nuca s"
    and "dd_queue s' = dd_queue s" and "dd_outbox s' = dd_outbox s"
  shows "dd_step N U a s s'"
  using assms by (auto simp: dd_step_def dd_ok_def served_def dest: dc_step_ok)

lemma queue_ok_enqueue: "queue_ok U q \<Longrightarrow> sm_address (sr_msg r) = a \<Longrightarrow> (U \<longrightarrow> a \<noteq> INVALID_ADDRESS) \<Longrightarrow> queue_ok U (rq_enqueue q a r)"
  by (auto simp: queue_ok_def rq_ok_enqueue rq_items_enqueue)

lemma queue_ok_update_front:
  "queue_ok U q \<Longrightarrow> (\<And>r. sm_address (sr_msg (f r)) = sm_address (sr_msg r)) \<Longrightarrow> queue_ok U (rq_update_front q a f)"
  by (cases "rq_items q a") (auto simp: queue_ok_def rq_ok_update_front rq_items_update_front)

lemma waiting_address: "dd_ok N U s \<Longrightarrow> waiting s a \<noteq> [] \<Longrightarrow> U \<longrightarrow> a \<noteq> INVALID_ADDRESS"
  by (auto simp: dd_ok_def queue_ok_def)

section \<open>Primitive steps\<close>

lemma getEntry_vc:
  assumes "dd_ok N U s"
    and "\<And>r s'. dd_step N U a s s' \<Longrightarrow> dd_queue s' = dd_queue s \<Longrightarrow> dd_outbox s' = dd_outbox s
      \<Longrightarrow> dd_protocol s' = dd_protocol s \<Longrightarrow> (\<And>ref. r = Some ref \<Longrightarrow> valid_ref (dd_cache s') ref) \<Longrightarrow> Q (r, s')"
  shows "vc N (getEntry s address modeled) Q"
proof -
  from assms(1) have "dc_ok U (dd_cache s)" by (simp add: dd_ok_def)
  then show ?thesis
    unfolding getEntry_def vc_simps vc_returns [OF dc_returns(1)]
    by (rule dc_getDirectoryEntry_wp) (auto intro!: assms(2) dd_step_cache [OF assms(1)] simp: lookup_post_def)
qed

lemma needEntry_vc:
  assumes "dd_ok N U s"
    and "\<And>r s'. dd_step N U a s s' \<Longrightarrow> dd_queue s' = dd_queue s \<Longrightarrow> dd_outbox s' = dd_outbox s
      \<Longrightarrow> dd_protocol s' = dd_protocol s \<Longrightarrow> valid_ref (dd_cache s') r \<Longrightarrow> Q (r, s')"
  shows "vc N (needEntry s address) Q"
  unfolding needEntry_def vc_simps
  by (rule getEntry_vc [OF assms(1)]) (auto split: option.splits intro!: assms(2))

lemma setEntry_fields [simp]:
  "dd_queue (setEntry s r e) = dd_queue s" "dd_outbox (setEntry s r e) = dd_outbox s" "dd_nuca (setEntry s r e) = dd_nuca s"
  "dd_protocol (setEntry s r e) = dd_protocol s"
  by (simp_all add: setEntry_def)

lemma setEntry_step:
  assumes "dd_ok N U s" and "valid_ref (dd_cache s) r" and "entry_ok e" and "de_address e = de_address (entry_of s r)"
  shows "dd_step N U a s (setEntry s r e)" and "valid_ref (dd_cache (setEntry s r e)) r"
    and "entry_of (setEntry s r e) r = e"
proof -
  have ok: "dc_ok U (dd_cache s)" using assms(1) by (simp add: dd_ok_def)
  note st = put_entry_step [OF ok assms(2,3,4)]
  show "dd_step N U a s (setEntry s r e)"
    by (rule dd_step_cache [OF assms(1)]) (simp_all add: setEntry_def st)
  show "valid_ref (dd_cache (setEntry s r e)) r" "entry_of (setEntry s r e) r = e"
    by (simp_all add: setEntry_def st)
qed

lemma entry_of_ok: "dd_ok N U s \<Longrightarrow> valid_ref (dd_cache s) r \<Longrightarrow> entry_ok (entry_of s r)"
  by (auto simp: dd_ok_def intro: entry_at_ok)

lemma needEntry_then:
  assumes "dd_ok N U s"
    and "\<And>r s1. dd_ok N U s1 \<Longrightarrow> dd_queue s1 = dd_queue s \<Longrightarrow> dd_protocol s1 = dd_protocol s
      \<Longrightarrow> valid_ref (dd_cache s1) r \<Longrightarrow> entry_ok (entry_of s1 r) \<Longrightarrow> vc N (f r s1) (dd_step N U a s1)"
  shows "vc N (bindR (needEntry s address) (\<lambda>(r, s1). f r s1)) (dd_step N U a s)"
  unfolding vc_simps
proof (rule needEntry_vc [OF assms(1), where a = a])
  fix r s1
  assume st: "dd_step N U a s s1" and f: "dd_queue s1 = dd_queue s" "dd_protocol s1 = dd_protocol s" "valid_ref (dd_cache s1) r"
  have "vc N (f r s1) (dd_step N U a s1)"
    by (rule assms(2) [OF dd_step_ok [OF st] f entry_of_ok [OF dd_step_ok [OF st] f(3)]])
  then show "vc N (case (r, s1) of (r, s1) \<Rightarrow> f r s1) (dd_step N U a s)"
    using vc_step_trans [OF st] by simp
qed

lemma dd_step_send:
  "dd_ok N U s \<Longrightarrow> \<not> isReply (sm_type (pk_msg p)) \<Longrightarrow> dd_step N U a s (s\<lparr>dd_outbox := dd_outbox s @ [p]\<rparr>)"
  by (rule dd_step_frame) (auto simp: dd_ok_def served_def)

lemma sendMsg_vc:
  assumes "dd_ok N U s" and "\<not> isReply t"
    and "\<And>s'. dd_step N U a s s' \<Longrightarrow> dd_cache s' = dd_cache s \<Longrightarrow> dd_queue s' = dd_queue s
      \<Longrightarrow> dd_protocol s' = dd_protocol s \<Longrightarrow> Q s'"
  shows "vc N (sendMsg s t rc rq rv b buf len hw) Q"
  by (auto simp: sendMsg_def intro!: assms(3) dd_step_send assms(1) simp: assms(2))

lemma sendToCache_vc:
  assumes "dd_ok N U s" and "\<not> isReply t"
    and "\<And>s'. dd_step N U a s s' \<Longrightarrow> dd_cache s' = dd_cache s \<Longrightarrow> dd_queue s' = dd_queue s
      \<Longrightarrow> dd_protocol s' = dd_protocol s \<Longrightarrow> Q s'"
  shows "vc N (sendToCache s t rq rv b) Q"
  unfolding sendToCache_def by (rule sendMsg_vc [OF assms])

lemma sendToAll_vc:
  "dd_ok N U s \<Longrightarrow> \<not> isReply t \<Longrightarrow> vc N (sendToAll s t rq cs b) (dd_step N U a s)"
proof (induction cs arbitrary: s)
  case (Cons c cs)
  have "vc N (sendToAll s' t rq cs b) (dd_step N U a s)" if "dd_step N U a s s'" for s'
    by (rule vc_step_trans [OF that]) (rule Cons.IH [OF dd_step_ok [OF that] Cons.prems(2)])
  then show ?case by (auto intro!: sendToCache_vc [OF Cons.prems, where a = a])
qed (simp add: dd_step_refl)

lemma invalidateOthers_vc:
  "dd_ok N U s \<Longrightarrow> vc N (invalidateOthers s rq has first cs b) (dd_step N U a s)"
proof (induction cs arbitrary: s first)
  case (Cons c cs)
  have rest: "vc N (invalidateOthers s' rq has False cs b) (dd_step N U a s)" if "dd_step N U a s s'" for s'
    by (rule vc_step_trans [OF that]) (rule Cons.IH [OF dd_step_ok [OF that]])
  show ?case
  proof (cases "c = rq")
    case True
    then show ?thesis using rest [OF dd_step_refl [OF Cons.prems]] by simp
  next
    case False
    then have "invalidateOthers s rq has first (c # cs) b
        = bindR (sendToCache s (if \<not> has \<and> first then FLUSH_REQ else INV_REQ) rq c b) (\<lambda>s'. invalidateOthers s' rq has False cs b)"
      by simp
    then show ?thesis using rest by (auto simp del: invalidateOthers.simps intro!: sendToCache_vc [OF Cons.prems, where a = a])
  qed
qed (simp add: dd_step_refl)

lemma nuca_None_outcome: "dd_ok True U s \<Longrightarrow> dd_nuca s = None"
  by (simp add: dd_ok_def)

lemma dd_step_nuca: "dd_ok False U s \<Longrightarrow> dd_step False U a s (s\<lparr>dd_nuca := n\<rparr>)"
  by (rule dd_step_frame) (auto simp: dd_ok_def served_def)

lemma sendDataToNUCA_vc:
  assumes "dd_ok N U s"
    and "\<And>s'. dd_step N U a s s' \<Longrightarrow> dd_cache s' = dd_cache s \<Longrightarrow> dd_queue s' = dd_queue s
      \<Longrightarrow> dd_protocol s' = dd_protocol s \<Longrightarrow> Q s'"
  shows "vc N (sendDataToNUCA s b buf cnt) Q"
proof (cases "dd_nuca s")
  case None
  then show ?thesis by (simp add: sendDataToNUCA_def assms dd_step_refl)
next
  case (Some nuca)
  with assms(1) have F: "N = False" by (simp add: dd_ok_def)
  have st: "dd_step N U a s (s\<lparr>dd_nuca := n\<rparr>)" for n using assms(1) F by (simp add: dd_step_nuca)
  obtain ev0 ea0 b0 where u: "dd_uninit s = (ev0, ea0, b0)" by (cases "dd_uninit s") auto
  have Qn: "Q (s\<lparr>dd_nuca := n\<rparr>)" for n by (rule assms(2) [OF st]) simp_all
  have Qs: "Q (s\<lparr>dd_nuca := n, dd_outbox := dd_outbox s @ [p]\<rparr>)" if "\<not> isReply (sm_type (pk_msg p))" for n p
    by (rule assms(2) [OF dd_step_trans [OF st dd_step_send [OF dd_step_ok [OF st] that], simplified]]) simp_all
  show ?thesis
    using F by (auto simp: sendDataToNUCA_def Some u vc_def wpR_def sendMsg_def Let_def split: if_splits intro!: Qn Qs)
qed

lemma sendDataToDram_vc:
  assumes "dd_ok N U s"
    and "\<And>s'. dd_step N U a s s' \<Longrightarrow> dd_cache s' = dd_cache s \<Longrightarrow> dd_queue s' = dd_queue s
      \<Longrightarrow> dd_protocol s' = dd_protocol s \<Longrightarrow> Q s'"
  shows "vc N (sendDataToDram s b c buf) Q"
  using sendDataToNUCA_vc [OF assms] sendMsg_vc [OF assms(1) _ assms(2), of DRAM_WRITE_REQ a]
  by (auto simp: sendDataToDram_def vc_returns wpR_def)

section \<open>The next request\<close>

text \<open>
  What the handlers need of the function that processes the next request, for queues of at
  most \<open>n\<close> requests: the first request is dropped, and then the state makes a step.
\<close>

definition drop_front :: "bool \<Rightarrow> dir_cntlr \<Rightarrow> intptr \<Rightarrow> shmem_req req_queue_list \<Rightarrow> bool" where
  "drop_front U s a q \<longleftrightarrow> queue_ok U q \<and> rq_items q a = tl (waiting s a) \<and> (\<forall>b. b \<noteq> a \<longrightarrow> rq_items q b = waiting s b)"

definition next_ok :: "bool \<Rightarrow> bool \<Rightarrow> nat \<Rightarrow> next_req \<Rightarrow> bool" where
  "next_ok N U n next \<longleftrightarrow> (\<forall>s a. dd_ok N U s \<longrightarrow> waiting s a \<noteq> [] \<longrightarrow> length (waiting s a) \<le> n \<longrightarrow>
     vc N (next s a) (\<lambda>s'. \<exists>q. drop_front U s a q \<and> dd_step N U a (s\<lparr>dd_queue := q\<rparr>) s'))"

lemma next_vc:
  assumes n: "next_ok N U n next" and ok: "dd_ok N U s" and w: "waiting s a \<noteq> []" "length (waiting s a) \<le> n"
    and st: "\<And>q. drop_front U s a q \<Longrightarrow> dd_step N U a s0 (s\<lparr>dd_queue := q\<rparr>)"
  shows "vc N (next s a) (dd_step N U a s0)"
proof -
  have "vc N (next s a) (\<lambda>s'. \<exists>q. drop_front U s a q \<and> dd_step N U a (s\<lparr>dd_queue := q\<rparr>) s')"
    using n ok w by (simp add: next_ok_def)
  then show ?thesis by (rule vc_mono) (blast intro: dd_step_trans st)
qed

lemma drop_frontD:
  "drop_front U s a q \<Longrightarrow> queue_ok U q \<and> (\<forall>b. rq_items q b = (if b = a then tl (waiting s a) else waiting s b))"
  by (simp add: drop_front_def)

text \<open>Answering the first request of an address and dropping it.\<close>

lemma reply_then_next:
  assumes n: "next_ok N U n next" and ok: "dd_ok N U s"
    and w: "waiting s a = r # rs" "length rs < n" "isRequest (sm_type (sr_msg r))"
    and s': "\<And>b. replies (dd_outbox s') b = replies (dd_outbox s) b @ (if b = a then [sm_requester (sr_msg r)] else [])"
      "dd_cache s' = dd_cache s" "dd_queue s' = dd_queue s" "N \<longrightarrow> dd_nuca s' = None"
  shows "vc N (next s' a) (dd_step N U a s)"
proof (rule next_vc [OF n])
  show "dd_ok N U s'" using ok s' by (simp add: dd_ok_def)
  show "dd_step N U a s (s'\<lparr>dd_queue := q\<rparr>)" if "drop_front U s' a q" for q
    using drop_frontD [OF that] ok s' w by (intro dd_step_frame) (auto simp: served_def dd_ok_def)
qed (use w s' in auto)

text \<open>Dropping a request that needs no answer.\<close>

lemma nullify_then_next:
  assumes n: "next_ok N U n next" and ok: "dd_ok N U s"
    and w: "waiting s a = r # rs" "length rs < n" "\<not> isRequest (sm_type (sr_msg r))"
  shows "vc N (next s a) (dd_step N U a s)"
proof (rule next_vc [OF n ok])
  show "dd_step N U a s (s\<lparr>dd_queue := q\<rparr>)" if "drop_front U s a q" for q
    using drop_frontD [OF that] ok w by (intro dd_step_frame) (auto simp: served_def dd_ok_def)
qed (use w in auto)

section \<open>The handlers of requests\<close>

lemma processNullifyReq_vc:
  assumes n: "next_ok N U n next" and ok: "dd_ok N U s" and a: "sm_address (sr_msg req) = a"
    and w: "waiting s a = r # rs" "length rs < n" "\<not> isRequest (sm_type (sr_msg r))"
  shows "vc N (processNullifyReq next s req) (dd_step N U a s)"
proof -
  have inv: "vc N (bindR (invalidateDirectoryEntry (dd_cache s1) a) (\<lambda>dc. next (s1\<lparr>dd_cache := dc\<rparr>) a)) (dd_step N U a s1)"
    if s1: "dd_ok N U s1" "waiting s1 a = r # rs" for s1
  proof -
    have dcok: "dc_ok U (dd_cache s1)" using s1(1) by (simp add: dd_ok_def)
    have "vc N (next (s1\<lparr>dd_cache := dc\<rparr>) a) (dd_step N U a s1)" if dc: "dc_step U (dd_cache s1) dc" for dc
    proof (rule vc_step_trans)
      show st: "dd_step N U a s1 (s1\<lparr>dd_cache := dc\<rparr>)" by (rule dd_step_cache [OF s1(1)]) (simp_all add: dc)
      show "vc N (next (s1\<lparr>dd_cache := dc\<rparr>) a) (dd_step N U a (s1\<lparr>dd_cache := dc\<rparr>))"
        by (rule nullify_then_next [OF n dd_step_ok [OF st]]) (use s1 w in auto)
    qed
    then show ?thesis using dcok by (auto simp: vc_returns intro!: invalidateDirectoryEntry_wp)
  qed
  show ?thesis
    unfolding processNullifyReq_def Let_def a
    apply (rule needEntry_then [OF ok])
    subgoal premises p for c s1
      using p w inv [OF p(1)]
      by (cases "de_dstate (entry_of s1 c)") (auto simp del: vc_simps(4) intro!: sendToCache_vc [where a = a] sendToAll_vc)
    done
qed

lemma choose_candidate_Some:
  assumes "choose_candidate s ks = Some k"
  shows "k \<in> set ks \<and> waiting s (de_address (entry_of s (Slot k))) = []"
proof -
  have "\<forall>k. fold (\<lambda>k best.
       let e = entry_of s (Slot k) in
       if (case best of None \<Rightarrow> True
           | Some b \<Rightarrow> getNumSharers (entry_of s (Slot b)) > getNumSharers e)
          \<and> rq_size (dd_queue s) (de_address e) = 0
       then Some k else best) xs best = Some k \<longrightarrow>
     best = Some k \<or> k \<in> set xs \<and> waiting s (de_address (entry_of s (Slot k))) = []" for xs best
    by (induction xs arbitrary: best) (auto simp: Let_def rq_size_items split: if_splits)
  from this [of ks None] show ?thesis using assms by (simp add: choose_candidate_def)
qed

lemma nullify_enqueue_step:
  assumes "dd_ok N U s" and "waiting s b = []" and "\<not> isRequest (sm_type (sr_msg r))" and "sm_address (sr_msg r) = b"
    and "U \<longrightarrow> b \<noteq> INVALID_ADDRESS"
  shows "dd_step N U a s (s\<lparr>dd_queue := rq_enqueue (dd_queue s) b r\<rparr>)"
  using assms by (intro dd_step_frame) (auto simp: dd_ok_def served_def rq_items_enqueue queue_ok_enqueue)

text \<open>The request of the address itself is not touched by the allocation of its entry.\<close>

definition alloc_post :: "bool \<Rightarrow> bool \<Rightarrow> intptr \<Rightarrow> dir_cntlr \<Rightarrow> entry_ref \<times> dir_cntlr \<Rightarrow> bool" where
  "alloc_post N U a s = (\<lambda>(r, s'). dd_step N U a s s' \<and> valid_ref (dd_cache s') r \<and> waiting s' a = waiting s a)"

lemma dd_step_other:
  assumes "dd_step N U b s s'" and "waiting s b = []"
  shows "dd_step N U a s s'"
  using assms by (auto simp: dd_step_def)

lemma nullify_alloc_vc:
  assumes n: "next_ok N U n next" and n0: "0 < n" and ok: "dd_ok N U s" and w: "waiting s b = []" "waiting s a \<noteq> []"
    and q: "sm_address (sr_msg req) = b" "\<not> isRequest (sm_type (sr_msg req))" and v: "valid_ref (dd_cache s) (Slot k)"
    and b: "U \<longrightarrow> b \<noteq> INVALID_ADDRESS"
  shows "vc N (processNullifyReq next (s\<lparr>dd_queue := rq_enqueue (dd_queue s) b req\<rparr>) req) (\<lambda>s'. alloc_post N U a s (Slot k, s'))"
proof -
  let ?s = "s\<lparr>dd_queue := rq_enqueue (dd_queue s) b req\<rparr>"
  have st: "dd_step N U b s ?s" by (rule nullify_enqueue_step [OF ok w(1) q(2,1) b])
  have "vc N (processNullifyReq next ?s req) (dd_step N U b ?s)"
    by (rule processNullifyReq_vc [OF n dd_step_ok [OF st] q(1), of req "[]"]) (simp_all add: rq_items_enqueue w n0 q)
  then show ?thesis
  proof (rule vc_mono)
    fix s' assume "dd_step N U b ?s s'"
    then have st': "dd_step N U b s s'" by (rule dd_step_trans [OF st])
    moreover from this w have "waiting s' a = waiting s a" by (auto simp: dd_step_def)
    moreover have "valid_ref (dd_cache s') (Slot k)"
      using st' v by (auto simp: dd_step_def intro: valid_Slot_mono)
    ultimately show "alloc_post N U a s (Slot k, s')" by (simp add: alloc_post_def dd_step_other [OF st' w(1)])
  qed
qed

lemma alloc_post_trans:
  "dd_step N U a s s1 \<Longrightarrow> waiting s1 a = waiting s a \<Longrightarrow> alloc_post N U a s1 x \<Longrightarrow> alloc_post N U a s x"
  by (auto simp: alloc_post_def intro: dd_step_trans split: prod.splits)

lemma allocation_vc:
  assumes n: "next_ok N U n next" "0 < n" and ok: "dd_ok N U s" and a: "sm_address (sr_msg req) = a" and w: "waiting s a \<noteq> []"
  shows "vc N (processDirectoryEntryAllocationReq next s req) (alloc_post N U a s)"
proof -
  let ?nreq = "\<lambda>b t. \<lparr>sr_msg = \<lparr>sm_type = NULLIFY_REQ, sm_sender_component = TAG_DIR, sm_receiver_component = TAG_DIR,
      sm_requester = sm_requester (sr_msg req), sm_where = UNKNOWN, sm_address = b, sm_data_buf = None, sm_data_length = 0\<rparr>,
      sr_time = t, sr_wait_for_data = False, sr_forwarding_from = INVALID_CORE_ID\<rparr>"
  have final: "vc N (processNullifyReq next (s\<lparr>dd_evict := ev, dd_cache := dc3, dd_spm := m3,
        dd_queue := rq_enqueue (dd_queue s) b (?nreq b t)\<rparr>) (?nreq b t)) (\<lambda>s'. alloc_post N U a s (Slot k, s'))"
    if d: "dc_step U (dd_cache s) dc3" "valid_ref dc3 (Slot k)" "waiting s b = []" "U \<longrightarrow> b \<noteq> INVALID_ADDRESS" for dc3 ev m3 b t k
  proof -
    let ?s = "s\<lparr>dd_evict := ev, dd_cache := dc3, dd_spm := m3\<rparr>"
    have st: "dd_step N U a s ?s" by (rule dd_step_cache [OF ok]) (simp_all add: d)
    have "vc N (processNullifyReq next (?s\<lparr>dd_queue := rq_enqueue (dd_queue ?s) b (?nreq b t)\<rparr>) (?nreq b t))
        (\<lambda>s'. alloc_post N U a ?s (Slot k, s'))"
      by (rule nullify_alloc_vc [OF n dd_step_ok [OF st]]) (simp_all add: d w)
    from vc_mono [OF this alloc_post_trans [OF st]] show ?thesis by simp
  qed
  have dcok: "dc_ok U (dd_cache s)" using ok by (simp add: dd_ok_def)
  have victim: "wpR (replaceDirectoryEntry dc m (de_address (entry_at dc (Slot k))) a True) Q"
    if "dc_step U (dd_cache s) dc" "absent dc a" "valid_ref dc (Slot k)" "unat k \<in> set_slots dc a"
      and "\<And>j dc' m'. dc_step U (dd_cache s) dc' \<Longrightarrow> valid_ref dc' (Slot j) \<Longrightarrow> Q (Slot j, dc', m')" for dc m k Q
    by (rule replaceDirectoryEntry_wp [OF dc_step_ok [OF that(1)]])
      (use that waiting_address [OF ok w] in \<open>auto simp: valid_ref_def entry_at_def intro: dc_step_trans\<close>)
  have real: "de_address (entry_at dc (Slot k)) \<noteq> INVALID_ADDRESS" if "absent dc a" "unat k \<in> set_slots dc a" for dc k
    using that by (auto simp: absent_def full_set_def entry_at_def)
  show ?thesis
    unfolding processDirectoryEntryAllocationReq_def Let_def a vc_simps vc_returns [OF getReplacementCandidates_returns]
    apply (rule getReplacementCandidates_wp [OF dcok])
    apply (auto split: option.splits simp: vc_returns ShmemReq_def dest!: choose_candidate_Some intro!: victim final)
    apply (metis real)
    done
qed

text \<open>The first request of a queue, of at most \<open>n\<close> requests, is one of cache \<open>c\<close>.\<close>

definition at_front :: "nat \<Rightarrow> shmem_req list \<Rightarrow> core_id \<Rightarrow> bool" where
  "at_front n rs c \<longleftrightarrow> rs \<noteq> [] \<and> length rs \<le> n \<and> isRequest (sm_type (sr_msg (hd rs))) \<and> sm_requester (sr_msg (hd rs)) = c"

lemma entryOrAllocate_then:
  assumes n: "next_ok N U n next" and ok: "dd_ok N U s" and a: "sm_address (sr_msg req) = a" and w: "at_front n (waiting s a) c"
    and f: "\<And>r s1. dd_ok N U s1 \<Longrightarrow> at_front n (waiting s1 a) c \<Longrightarrow> valid_ref (dd_cache s1) r
      \<Longrightarrow> entry_ok (entry_of s1 r) \<Longrightarrow> vc N (f r s1) (dd_step N U a s1)"
  shows "vc N (bindR (entryOrAllocate next s req) (\<lambda>(r, s1). f r s1)) (dd_step N U a s)"
proof -
  have w0: "waiting s a \<noteq> []" "0 < n" using w length_greater_0_conv [of "waiting s a"] by (auto simp: at_front_def simp del: length_greater_0_conv)
  have post: "vc N (f r s1) (dd_step N U a s)" if "alloc_post N U a s (r, s1)" for r s1
  proof -
    from that have st: "dd_step N U a s s1" and v: "valid_ref (dd_cache s1) r" and w1: "waiting s1 a = waiting s a"
      by (simp_all add: alloc_post_def)
    note ok1 = dd_step_ok [OF st]
    show ?thesis by (rule vc_step_trans [OF st f [OF ok1 _ v entry_of_ok [OF ok1 v]]]) (simp add: w1 w)
  qed
  have alloc: "vc N (processDirectoryEntryAllocationReq next s' req) (\<lambda>x. vc N (case x of (r, s1) \<Rightarrow> f r s1) (dd_step N U a s))"
    if st: "dd_step N U a s s'" and q: "dd_queue s' = dd_queue s" for s'
  proof -
    have "vc N (processDirectoryEntryAllocationReq next s' req) (alloc_post N U a s')"
      by (rule allocation_vc [OF n w0(2) dd_step_ok [OF st] a]) (simp add: q w0)
    then show ?thesis
      by (rule vc_mono) (auto intro!: post alloc_post_trans [OF st] simp: q split: prod.splits)
  qed
  show ?thesis
    unfolding entryOrAllocate_def vc_simps a
    by (rule getEntry_vc [OF ok, where a = a])
      (auto split: option.splits intro!: post alloc simp: alloc_post_def)
qed

lemma takeOwnership_vc:
  assumes ok: "dd_ok N U s" and v: "valid_ref (dd_cache s) r" and e: "sharers (entry_of s r) = {}"
    and new: "new = DMODIFIED \<or> new = DEXCLUSIVE \<or> new = DSHARED"
    and Q: "\<And>s'. dd_step N U a s s' \<Longrightarrow> dd_queue s' = dd_queue s \<Longrightarrow> Q s'"
  shows "vc N (takeOwnership s r c new) Q"
proof -
  have "Q (setEntry s r (e2\<lparr>de_dstate := new\<rparr>))"
    if "addSharer (entry_of s r) c n = Inr (True, e1)" "setOwner e1 c = Inr e2" for e1 e2 n
  proof -
    have "entry_ok (e2\<lparr>de_dstate := new\<rparr>)"
      using addSharer_Inr(2) [OF that(1)] setOwner_Inr [OF that(2)] new e by (auto simp: entry_ok_def)
    moreover have "de_address (e2\<lparr>de_dstate := new\<rparr>) = de_address (entry_of s r)"
      using addSharer_Inr(6) [OF that(1)] setOwner_Inr [OF that(2)] by simp
    ultimately show ?thesis using setEntry_step(1) [OF ok v] by (intro Q) simp_all
  qed
  then show ?thesis by (auto simp: takeOwnership_def vc_returns wpR_def)
qed

lemma update_front_step:
  assumes "dd_ok N U s" and "\<And>r. sm_address (sr_msg (f r)) = sm_address (sr_msg r)"
    and "\<And>r. sm_type (sr_msg (f r)) = sm_type (sr_msg r)" and "\<And>r. sm_requester (sr_msg (f r)) = sm_requester (sr_msg r)"
  shows "dd_step N U a s (s\<lparr>dd_queue := rq_update_front (dd_queue s) a f\<rparr>)"
  using assms
  by (intro dd_step_frame)
    (auto simp: dd_ok_def served_def rq_items_update_front queue_ok_update_front split: list.splits)

text \<open>A reply to the first request, which is then dropped.\<close>

lemma sendReply_then_next:
  assumes n: "next_ok N U n next" and ok: "dd_ok N U s" and w: "at_front n (waiting s a) c" and t: "isReply t"
  shows "vc N (sendMsg s t MC_L2_CACHE c c a buf len hw) (\<lambda>s1. vc N (next s1 a) (dd_step N U a s))"
proof -
  obtain r rs where rs: "waiting s a = r # rs" "length rs < n" "isRequest (sm_type (sr_msg r))" "sm_requester (sr_msg r) = c"
    using w by (cases "waiting s a") (auto simp: at_front_def)
  show ?thesis
    using ok by (auto simp: sendMsg_def t rs(4) dd_ok_def intro!: reply_then_next [OF n ok rs(1,2,3)])
qed

lemma readFromNuca_then:
  assumes ok: "dd_ok N U s1"
    and f: "\<And>nd s2. dd_ok N U s2 \<Longrightarrow> dd_queue s2 = dd_queue s1 \<Longrightarrow> vc N (f nd s2) (dd_step N U a s2)"
  shows "vc N (bindR (readFromNuca s1 b) (\<lambda>(nd, s2). f nd s2)) (dd_step N U a s1)"
proof (cases "dd_nuca s1")
  case None
  then show ?thesis using f [OF ok] by (simp add: readFromNuca_def)
next
  case (Some nuca)
  with ok have F: "N = False" by (simp add: dd_ok_def)
  obtain ev0 ea0 b0 where u: "dd_uninit s1 = (ev0, ea0, b0)" by (cases "dd_uninit s1") auto
  have "vc N (f nd (s1\<lparr>dd_nuca := n, dd_spm := m\<rparr>)) (dd_step N U a s1)" for nd n m
  proof (rule vc_step_trans)
    show st: "dd_step N U a s1 (s1\<lparr>dd_nuca := n, dd_spm := m\<rparr>)"
      using ok F by (intro dd_step_frame) (auto simp: dd_ok_def served_def)
    show "vc N (f nd (s1\<lparr>dd_nuca := n, dd_spm := m\<rparr>)) (dd_step N U a (s1\<lparr>dd_nuca := n, dd_spm := m\<rparr>))"
      by (rule f [OF dd_step_ok [OF st]]) simp
  qed
  then show ?thesis using F by (auto simp: readFromNuca_def Some u vc_def wpR_def)
qed

lemma requestData_vc:
  assumes ok: "dd_ok N U s"
  shows "vc N (requestData s r c a) (dd_step N U a s)"
proof -
  have "vc N (sendToCache (s\<lparr>dd_queue := rq_update_front (dd_queue s) a (\<lambda>q. q\<lparr>sr_forwarding_from := fw\<rparr>)\<rparr>) WB_REQ c fw a)
      (dd_step N U a s)" for fw
    using update_front_step [OF ok, of "\<lambda>q. q\<lparr>sr_forwarding_from := fw\<rparr>" a]
    by (auto intro!: sendToCache_vc [where a = a] dest: dd_step_ok intro: dd_step_trans)
  moreover have "vc N (sendMsg (s\<lparr>dd_queue := rq_update_front (dd_queue s) a (\<lambda>q. q\<lparr>sr_wait_for_data := True\<rparr>)\<rparr>)
      DRAM_READ_REQ MC_DRAM c node a None 0 UNKNOWN) (dd_step N U a s)" for node
    using update_front_step [OF ok, of "\<lambda>q. q\<lparr>sr_wait_for_data := True\<rparr>" a]
    by (auto intro!: sendMsg_vc [where a = a] dest: dd_step_ok intro: dd_step_trans)
  ultimately show ?thesis by (auto simp: requestData_def Let_def vc_returns wpR_def)
qed

lemma retrieve_vc:
  assumes n: "next_ok N U n next" and ok: "dd_ok N U s" and w: "at_front n (waiting s a) c" and t: "isReply t"
  shows "vc N (retrieveDataAndSendToL2Cache next s t c a buf) (dd_step N U a s)"
proof -
  have cached: "vc N (bindR (sendMsg (setEntry s1 r (entry_of s1 r\<lparr>de_forwarder := c\<rparr>)) t MC_L2_CACHE c c a b len CACHE_REMOTE)
      (\<lambda>s3. next s3 a)) (dd_step N U a s1)"
    if s1: "dd_ok N U s1" "at_front n (waiting s1 a) c" "valid_ref (dd_cache s1) r" "entry_ok (entry_of s1 r)" for s1 r b len
  proof -
    have "entry_ok (entry_of s1 r\<lparr>de_forwarder := c\<rparr>)" "de_address (entry_of s1 r\<lparr>de_forwarder := c\<rparr>) = de_address (entry_of s1 r)"
      using s1(4) by simp_all
    note st = setEntry_step(1) [OF s1(1,3) this, of a]
    show ?thesis
      unfolding vc_simps
      by (rule vc_mono [OF sendReply_then_next [OF n dd_step_ok [OF st] _ t]])
        (use s1(2) in \<open>auto intro: vc_step_trans [OF st]\<close>)
  qed
  have fetch: "vc N (case nd of
         Some buf \<Rightarrow> bindR (sendMsg s2 t MC_L2_CACHE c c a buf (dd_cache_block_size s2) NUCA_HIT) (\<lambda>s3. next s3 a)
       | None \<Rightarrow> requestData s2 r c a) (dd_step N U a s2)"
    if "dd_ok N U s2" "at_front n (waiting s2 a) c" for nd s2 r
    using sendReply_then_next [OF n that t] requestData_vc [OF that(1)] by (auto split: option.splits)
  show ?thesis
    unfolding retrieveDataAndSendToL2Cache_def Let_def
    by (rule needEntry_then [OF ok], cases "buf = None")
      (auto simp del: vc_simps(4) intro!: readFromNuca_then cached fetch simp: w)
qed

lemma sharers_uncached: "entry_ok e \<Longrightarrow> de_dstate e = UNCACHED \<Longrightarrow> sharers e = {}"
  by (simp add: entry_ok_def)

lemma own_then_retrieve:
  assumes n: "next_ok N U n next" and ok: "dd_ok N U s" and w: "at_front n (waiting s a) c" and t: "isReply t"
    and v: "valid_ref (dd_cache s) r" and e: "entry_ok (entry_of s r)" "de_dstate (entry_of s r) = UNCACHED"
    and new: "new = DMODIFIED \<or> new = DEXCLUSIVE \<or> new = DSHARED"
  shows "vc N (takeOwnership s r c new) (\<lambda>s2. vc N (retrieveDataAndSendToL2Cache next s2 t c a buf) (dd_step N U a s))"
  by (rule takeOwnership_vc [OF ok v sharers_uncached [OF e] new, where a = a])
    (rule vc_step_trans, assumption, rule retrieve_vc [OF n dd_step_ok _ t], assumption, simp add: w)

lemma processExReq_vc:
  assumes n: "next_ok N U n next" and ok: "dd_ok N U s" and a: "sm_address (sr_msg req) = a"
    and w: "at_front n (waiting s a) (sm_requester (sr_msg req))"
  shows "vc N (processExReqFromL2Cache next s req buf) (dd_step N U a s)"
  unfolding processExReqFromL2Cache_def Let_def a
  apply (rule entryOrAllocate_then [OF n ok a w])
  subgoal premises p for r s1
    using p own_then_retrieve [OF n p(1,2) _ p(3,4)]
    by (cases "de_dstate (entry_of s1 r)") (auto intro!: sendToCache_vc [where a = a] sendToAll_vc)
  done

lemma entry_ok_addSharer:
  "addSharer e c n = Inr (True, e1) \<Longrightarrow> de_dstate e = DSHARED \<Longrightarrow> entry_ok e1"
  by (auto simp: entry_ok_def addSharer_Inr dest: addSharer_Inr(2))

lemma entry_ok_getOneSharer: "getOneSharer e = Inr (c, e') \<Longrightarrow> entry_ok e \<Longrightarrow> entry_ok e'"
  by (simp add: entry_ok_def getOneSharer_Inr split: dstate.splits)

lemma processShReq_vc:
  assumes n: "next_ok N U n next" and ok: "dd_ok N U s" and a: "sm_address (sr_msg req) = a"
    and w: "at_front n (waiting s a) (sm_requester (sr_msg req))"
  shows "vc N (processShReqFromL2Cache next s req buf) (dd_step N U a s)"
proof -
  let ?c = "sm_requester (sr_msg req)"
  have retr: "vc N (retrieveDataAndSendToL2Cache next s2 SH_REP ?c a buf) (dd_step N U a s1)"
    if "dd_step N U a s1 s2" "at_front n (waiting s2 a) ?c" for s1 s2
    by (rule vc_step_trans [OF that(1) retrieve_vc [OF n dd_step_ok [OF that(1)] that(2)]]) simp
  have stats: "dd_step N U a s1 (s1\<lparr>dd_forward := x, dd_forward_failed := y\<rparr>)" if "dd_ok N U s1" for s1 x y
    using that by (intro dd_step_frame) (auto simp: dd_ok_def served_def)
  have shared: "vc N (if has then retrieveDataAndSendToL2Cache next (s1\<lparr>dd_forward := x, dd_forward_failed := y\<rparr>) SH_REP ?c a buf
          else bindR (addSharer (entry_of s1 r) ?c m) (\<lambda>(added, e1).
            if \<not> added then bindR (getOneSharer e1) (\<lambda>(sharer_id, e2). sendToCache (setEntry s1 r e2) INV_REQ ?c sharer_id a)
            else retrieveDataAndSendToL2Cache next (setEntry s1 r e1) SH_REP ?c a buf)) (dd_step N U a s1)"
    if s1: "dd_ok N U s1" "at_front n (waiting s1 a) ?c" "valid_ref (dd_cache s1) r" "entry_ok (entry_of s1 r)"
      "de_dstate (entry_of s1 r) = DSHARED" for s1 r has x y m
  proof -
    have "vc N (retrieveDataAndSendToL2Cache next (setEntry s1 r e1) SH_REP ?c a buf) (dd_step N U a s1)"
      if "addSharer (entry_of s1 r) ?c m = Inr (True, e1)" for e1
      using entry_ok_addSharer [OF that s1(5)] addSharer_Inr(6) [OF that] s1 by (intro retr) (simp_all add: setEntry_step)
    moreover have "vc N (sendToCache (setEntry s1 r e2) INV_REQ ?c sharer_id a) (dd_step N U a s1)"
      if "getOneSharer (entry_of s1 r) = Inr (sharer_id, e2)" for sharer_id e2
      using setEntry_step(1) [OF s1(1,3) entry_ok_getOneSharer [OF that s1(4)] getOneSharer_Inr(4) [OF that], of a]
      by (auto intro!: sendToCache_vc [where a = a] dest: dd_step_ok intro: dd_step_trans)
    moreover have "vc N (retrieveDataAndSendToL2Cache next (s1\<lparr>dd_forward := x, dd_forward_failed := y\<rparr>) SH_REP ?c a buf) (dd_step N U a s1)"
      using s1 by (intro retr stats) simp_all
    ultimately show ?thesis by (auto simp: vc_returns wpR_def dest: addSharer_Inr(3))
  qed
  show ?thesis
    unfolding processShReqFromL2Cache_def Let_def a
    apply (rule entryOrAllocate_then [OF n ok a w])
    subgoal premises p for r s1
      using own_then_retrieve [OF n p(1,2) _ p(3,4)] shared [OF p]
      by (cases "de_dstate (entry_of s1 r)") (auto simp: vc_returns wpR_def intro!: sendToCache_vc [where a = a] p(1))
    done
qed

text \<open>The requester becomes the owner of a line of which it has the only copy.\<close>

lemma upgrade_then_next:
  assumes n: "next_ok N U n next" and ok: "dd_ok N U s" and w: "at_front n (waiting s a) c"
    and v: "valid_ref (dd_cache s) r" and e: "sharers e = {de_owner e}" "de_address e = de_address (entry_of s r)"
  shows "vc N (sendToCache s UPGRADE_REP c c a) (\<lambda>s2. vc N (next (setEntry s2 r (e\<lparr>de_dstate := DMODIFIED\<rparr>)) a) (dd_step N U a s))"
proof -
  have "entry_ok (e\<lparr>de_dstate := DMODIFIED\<rparr>)" "de_address (e\<lparr>de_dstate := DMODIFIED\<rparr>) = de_address (entry_of s r)"
    using e by (simp_all add: entry_ok_def)
  note st = setEntry_step(1) [OF ok v this, of a]
  obtain q rs where rs: "waiting s a = q # rs" "length rs < n" "isRequest (sm_type (sr_msg q))" "sm_requester (sr_msg q) = c"
    using w by (cases "waiting s a") (auto simp: at_front_def)
  have "vc N (next s' a) (dd_step N U a s)"
    if "dd_outbox s' = dd_outbox s @ [p]" "dd_cache s' = dd_cache (setEntry s r (e\<lparr>de_dstate := DMODIFIED\<rparr>))"
      "dd_queue s' = dd_queue s" "dd_nuca s' = dd_nuca s" "isReply (sm_type (pk_msg p))" "sm_address (pk_msg p) = a" "pk_receiver p = c"
    for s' p
    by (rule vc_step_trans [OF st reply_then_next [OF n dd_step_ok [OF st], of a q rs]]) (use ok in \<open>simp_all add: rs that dd_ok_def\<close>)
  then show ?thesis by (auto simp: sendToCache_def sendMsg_def setEntry_def)
qed

lemma sharers_hd: "getSharersList e \<noteq> [] \<Longrightarrow> hd (getSharersList e) \<in> sharers e"
  using sharers_getSharersList [of e] by (metis list.set_sel(1))

lemma sharers_single: "getSharersList e = [c] \<Longrightarrow> sharers e = {c}"
  using sharers_getSharersList [of e] by simp

lemma processUpgradeReq_vc:
  assumes n: "next_ok N U n next" and ok: "dd_ok N U s" and a: "sm_address (sr_msg req) = a"
    and w: "at_front n (waiting s a) (sm_requester (sr_msg req))"
  shows "vc N (processUpgradeReqFromL2Cache next s req buf) (dd_step N U a s)"
proof -
  have up: "vc N (sendToCache s1 UPGRADE_REP c c a) (\<lambda>s2. vc N (next (setEntry s2 r (e1\<lparr>de_dstate := DMODIFIED\<rparr>)) a) (dd_step N U a s1))"
    if "dd_ok N U s1" "at_front n (waiting s1 a) c" "valid_ref (dd_cache s1) r" "getSharersList (entry_of s1 r) = [c]"
      "setOwner (entry_of s1 r) c = Inr e1" for s1 r c e1
    using upgrade_then_next [OF n that(1-3), of e1] sharers_single [OF that(4)] setOwner_Inr [OF that(5)] by simp
  show ?thesis
    unfolding processUpgradeReqFromL2Cache_def Let_def a
    apply (rule entryOrAllocate_then [OF n ok a w])
    subgoal premises p for r s1
      using own_then_retrieve [OF n p(1,2) _ p(3,4)] upgrade_then_next [OF n p(1,2,3), of "entry_of s1 r"] up [OF p(1,2,3)] p(4)
      by (cases "de_dstate (entry_of s1 r)")
        (auto simp: vc_returns [where m = "setOwner _ _"] vc_returns [where m = "hasSharer _ _"] wpR_def entry_ok_def
          intro!: sendToCache_vc [where a = a] invalidateOthers_vc p(1))
    done
qed

lemma processReq_vc:
  assumes "next_ok N U n next" and "dd_ok N U s" and "sm_address (sr_msg req) = a"
    and "at_front n (waiting s a) (sm_requester (sr_msg req))"
  shows "vc N (processReq next s req) (dd_step N U a s)"
  using processExReq_vc [OF assms] processShReq_vc [OF assms] processUpgradeReq_vc [OF assms]
  by (auto simp: processReq_def split: msg_t.splits)

lemma front_processReq:
  assumes n: "next_ok N U n next" and ok: "dd_ok N U s" and f: "rq_front (dd_queue s) a = Inr req" and l: "length (waiting s a) \<le> n"
  shows "vc N (processReq next (s\<lparr>dd_spm := m\<rparr>) req) (dd_step N U a s)"
proof (cases "isRequest (sm_type (sr_msg req))")
  case True
  from f obtain rs where w: "waiting s a = req # rs" by (auto simp: rq_front_Inr)
  then have a: "sm_address (sr_msg req) = a" using ok by (simp add: dd_ok_def queue_ok_def)
  have st: "dd_step N U a s (s\<lparr>dd_spm := m\<rparr>)"
    using ok by (intro dd_step_frame) (auto simp: dd_ok_def served_def)
  show ?thesis
    by (rule vc_step_trans [OF st processReq_vc [OF n dd_step_ok [OF st] a]]) (use w l True in \<open>simp add: at_front_def\<close>)
next
  case False
  then show ?thesis by (auto simp: processReq_def isRequest_def split: msg_t.splits)
qed

lemma dequeue_drop_front:
  assumes "dd_ok N U s" and "rq_dequeue (dd_queue s) a = Inr (r, q)"
  shows "drop_front U s a q"
proof -
  note d = rq_dequeue_Inr [OF assms(2)]
  have "set (rq_items q b) \<subseteq> set (waiting s b)" for b using d by (cases "b = a") auto
  then have "U \<longrightarrow> rq_items q INVALID_ADDRESS = []" "\<forall>b. \<forall>r \<in> set (rq_items q b). sm_address (sr_msg r) = b"
    using assms(1) unfolding dd_ok_def queue_ok_def by (metis set_empty subset_empty, blast)
  then have "queue_ok U q" using assms(1) d(3) by (simp add: dd_ok_def queue_ok_def)
  then show ?thesis using d by (simp add: drop_front_def)
qed

text \<open>A queue of \<open>n\<close> requests is worked off with a bound of \<open>n\<close>.\<close>

lemma next_ok_processNext: "next_ok N U n (processNextReqFromL2Cache n)"
proof (induction n)
  case (Suc n)
  have "vc N (processNextReqFromL2Cache (Suc n) s a) (\<lambda>s'. \<exists>q. drop_front U s a q \<and> dd_step N U a (s\<lparr>dd_queue := q\<rparr>) s')"
    if ok: "dd_ok N U s" and w: "waiting s a \<noteq> []" "length (waiting s a) \<le> Suc n" for s a
  proof -
    have "vc N (if rq_empty q a then Inr (s\<lparr>dd_queue := q\<rparr>)
       else bindR (rq_front q a) (\<lambda>req.
         processReq (processNextReqFromL2Cache n) (s\<lparr>dd_queue := q, dd_spm := spm_setElapsedTime (dd_spm s) SIM_THREAD (sr_time req)\<rparr>) req))
       (\<lambda>s'. \<exists>q. drop_front U s a q \<and> dd_step N U a (s\<lparr>dd_queue := q\<rparr>) s')" if "rq_dequeue (dd_queue s) a = Inr (r, q)" for r q
    proof (cases "rq_empty q a")
      case True
      note d = dequeue_drop_front [OF ok that]
      then have "dd_step N U a (s\<lparr>dd_queue := q\<rparr>) (s\<lparr>dd_queue := q\<rparr>)"
        using ok by (intro dd_step_refl) (auto simp: dd_ok_def drop_front_def)
      with True d show ?thesis by auto
    next
      case False
      note d = dequeue_drop_front [OF ok that]
      have "vc N (processReq (processNextReqFromL2Cache n) (s\<lparr>dd_queue := q, dd_spm := m\<rparr>) req) (dd_step N U a (s\<lparr>dd_queue := q\<rparr>))"
        if "rq_front q a = Inr req" for req m
        using front_processReq [OF Suc.IH, of "s\<lparr>dd_queue := q\<rparr>" a req m] that d ok w
        by (auto simp: drop_front_def dd_ok_def)
      with False d show ?thesis by (auto simp: vc_returns wpR_def intro: vc_mono)
    qed
    then show ?thesis by (auto simp: Let_def vc_returns wpR_def)
  qed
  then show ?case by (simp add: next_ok_def)
qed (simp add: next_ok_def)

section \<open>The handlers of replies\<close>

declare processNextReqFromL2Cache.simps [simp del]

lemma next_of_ok: "next_ok N U (Suc (rq_size q a)) (processNextReqFromL2Cache (Suc (rq_size q a)))"
  by (rule next_ok_processNext)

text \<open>The reply of the DRAM controller: the answer is sent before the line goes to the NUCA cache.\<close>

lemma reply_nuca_next:
  assumes s1: "dd_ok N U s1" "waiting s1 a = r # rs" "isRequest (sm_type (sr_msg r))" and t: "isReply t"
    and c: "c = sm_requester (sr_msg r)"
  shows "vc N (sendMsg s1 t MC_L2_CACHE c c a buf len hw)
      (\<lambda>s2. vc N (sendDataToNUCA s2 a buf False) (\<lambda>s3. vc N (next_of s3 a s3 a) (dd_step N U a s1)))"
proof -
  let ?s2 = "\<lambda>p. s1\<lparr>dd_outbox := dd_outbox s1 @ [p]\<rparr>"
  have nuca: "vc N (sendDataToNUCA (?s2 p) a buf False) (\<lambda>s3. vc N (next_of s3 a s3 a) (dd_step N U a s1))"
    if p: "isReply (sm_type (pk_msg p))" "sm_address (pk_msg p) = a" "pk_receiver p = sm_requester (sr_msg r)" for p
  proof (rule sendDataToNUCA_vc [where a = a])
    show "dd_ok N U (?s2 p)" using s1 by (simp add: dd_ok_def)
    fix s3
    assume s3: "dd_step N U a (?s2 p) s3" "dd_cache s3 = dd_cache (?s2 p)" "dd_queue s3 = dd_queue (?s2 p)"
    have "served s3 = served (?s2 p)" "dd_ok N U s3" using s3(1) by (simp_all add: dd_step_def)
    then have o: "replies (dd_outbox s3) b = replies (dd_outbox s1) b @ (if b = a then [sm_requester (sr_msg r)] else [])"
      and "N \<longrightarrow> dd_nuca s3 = None" for b
      using p s3 by (auto simp: served_def fun_eq_iff dd_ok_def)
    then show "vc N (next_of s3 a s3 a) (dd_step N U a s1)"
      by (intro reply_then_next [OF next_of_ok s1(1,2) _ s1(3)]) (use s1 s3 in \<open>auto simp: rq_size_items\<close>)
  qed
  show ?thesis by (simp add: sendMsg_def nuca t c)
qed

lemma assert_then: "(b \<Longrightarrow> vc N (f ()) Q) \<Longrightarrow> vc N (bindR (assertR b) f) Q"
  by simp

lemma front_then: "(\<And>r rs. rq_items q a = r # rs \<Longrightarrow> vc N (f r) Q) \<Longrightarrow> vc N (bindR (rq_front q a) f) Q"
  by (auto simp: vc_returns wpR_def rq_front_Inr)

lemma processDRAMReply_vc:
  assumes ok: "dd_ok N U s" and a: "sm_address msg = a"
  shows "vc N (processDRAMReply s sender msg) (dd_step N U a s)"
  unfolding processDRAMReply_def Let_def a
  apply (rule assert_then, rule front_then, rule needEntry_then [OF ok])
  subgoal premises p for r rs ref s1
    using p reply_nuca_next [OF p(3), of a r rs] by (auto split: msg_t.splits)
  done

lemma sr_updateTime_fields [simp]:
  "sr_msg (sr_updateTime t r) = sr_msg r" "sr_wait_for_data (sr_updateTime t r) = sr_wait_for_data r"
  "sr_forwarding_from (sr_updateTime t r) = sr_forwarding_from r"
  by (simp_all add: sr_updateTime_def)

text \<open>The request that waits for a reply is given the time of the reply.\<close>

lemma updateTime_step:
  assumes ok: "dd_ok N U s" and w: "waiting s a = r # rs"
  defines "s' \<equiv> \<lambda>m t. s\<lparr>dd_queue := rq_update_front (dd_queue s) a (sr_updateTime t), dd_spm := m\<rparr>"
  shows "dd_step N U a s (s' m t)" and "waiting (s' m t) a = sr_updateTime t r # rs"
proof -
  have st: "dd_step N U a s (s\<lparr>dd_queue := rq_update_front (dd_queue s) a (sr_updateTime t)\<rparr>)"
    by (rule update_front_step [OF ok]) simp_all
  have "dd_step N U a s (s\<lparr>dd_queue := rq_update_front (dd_queue s) a (sr_updateTime t), dd_spm := m\<rparr>)"
    by (rule dd_step_trans [OF st], rule dd_step_cache [OF dd_step_ok [OF st]]) (use dd_step_ok [OF st] in \<open>auto simp: dd_ok_def\<close>)
  then show "dd_step N U a s (s' m t)" by (simp add: s'_def)
  show "waiting (s' m t) a = sr_updateTime t r # rs" by (simp add: s'_def w rq_items_update_front)
qed

text \<open>The handlers of requests, called again for the first request of the queue.\<close>

lemma resume_vc:
  assumes st: "dd_step N U a s s'" and w: "waiting s' a = r # rs" and n: "next_ok N U n next" "length rs < n"
    and q: "sr_msg req = sr_msg r"
  shows "isRequest (sm_type (sr_msg r)) \<Longrightarrow> vc N (processExReqFromL2Cache next s' req buf) (dd_step N U a s)"
    and "isRequest (sm_type (sr_msg r)) \<Longrightarrow> vc N (processShReqFromL2Cache next s' req buf) (dd_step N U a s)"
    and "isRequest (sm_type (sr_msg r)) \<Longrightarrow> vc N (processUpgradeReqFromL2Cache next s' req buf) (dd_step N U a s)"
    and "\<not> isRequest (sm_type (sr_msg r)) \<Longrightarrow> vc N (processNullifyReq next s' req) (dd_step N U a s)"
proof -
  note ok = dd_step_ok [OF st]
  have a: "sm_address (sr_msg req) = a" using ok w q by (simp add: dd_ok_def queue_ok_def)
  have f: "isRequest (sm_type (sr_msg r)) \<Longrightarrow> at_front n (waiting s' a) (sm_requester (sr_msg req))"
    using w n q by (simp add: at_front_def)
  show "isRequest (sm_type (sr_msg r)) \<Longrightarrow> vc N (processExReqFromL2Cache next s' req buf) (dd_step N U a s)"
    by (rule vc_step_trans [OF st processExReq_vc [OF n(1) ok a f]])
  show "isRequest (sm_type (sr_msg r)) \<Longrightarrow> vc N (processShReqFromL2Cache next s' req buf) (dd_step N U a s)"
    by (rule vc_step_trans [OF st processShReq_vc [OF n(1) ok a f]])
  show "isRequest (sm_type (sr_msg r)) \<Longrightarrow> vc N (processUpgradeReqFromL2Cache next s' req buf) (dd_step N U a s)"
    by (rule vc_step_trans [OF st processUpgradeReq_vc [OF n(1) ok a f]])
  show "\<not> isRequest (sm_type (sr_msg r)) \<Longrightarrow> vc N (processNullifyReq next s' req) (dd_step N U a s)"
    by (rule vc_step_trans [OF st processNullifyReq_vc [OF n(1) ok a w n(2)]])
qed

lemma entry_ok_invRep:
  assumes "entry_ok e" and "de_dstate e = DSHARED \<or> de_dstate e = DEXCLUSIVE" and "removeSharer e c = Inr e1"
  defines "e2 \<equiv> (if de_forwarder e1 = c then e1\<lparr>de_forwarder := INVALID_CORE_ID\<rparr> else e1)"
  shows "entry_ok (if getNumSharers e2 = 0 then e2\<lparr>de_dstate := UNCACHED\<rparr> else e2)"
    and "de_address (if getNumSharers e2 = 0 then e2\<lparr>de_dstate := UNCACHED\<rparr> else e2) = de_address e"
proof -
  note r = removeSharer_Inr [OF assms(3)]
  have e2: "sharers e2 = sharers e - {c}" "de_dstate e2 = de_dstate e" "de_owner e2 = de_owner e"
    by (simp_all add: e2_def r)
  show "entry_ok (if getNumSharers e2 = 0 then e2\<lparr>de_dstate := UNCACHED\<rparr> else e2)"
    using assms(1,2) r(1) by (auto simp: entry_ok_def getNumSharers_0 e2)
  show "de_address (if getNumSharers e2 = 0 then e2\<lparr>de_dstate := UNCACHED\<rparr> else e2) = de_address e"
    by (simp add: e2_def r)
qed

lemma resumeAfterInvRep_vc:
  assumes ok: "dd_ok N U s" and v: "valid_ref (dd_cache s) r" and e: "entry_of s r = e"
  shows "vc N (resumeAfterInvRep s r e sender a) (dd_step N U a s)"
  unfolding resumeAfterInvRep_def Let_def
  apply (rule front_then)
  subgoal premises w for req rs
  proof -
    define t where "t = dd_now s"
    define m where "m = spm_updateElapsedTime (dd_spm s) (sr_time (sr_updateTime t req)) SIM_THREAD"
    define s1 where "s1 = s\<lparr>dd_queue := rq_update_front (dd_queue s) a (sr_updateTime t), dd_spm := m\<rparr>"
    have st: "dd_step N U a s s1" and w1: "waiting s1 a = sr_updateTime t req # rs"
      unfolding s1_def by (rule updateTime_step [OF ok w])+
    have v1: "valid_ref (dd_cache s1) r" and e1: "entry_of s1 r = e" using v e by (simp_all add: s1_def)
    have zero: "dd_step N U a s (setEntry s1 r (e\<lparr>de_dstate := UNCACHED\<rparr>))" if "getNumSharers e = 0"
      using that by (intro dd_step_trans [OF st] setEntry_step [OF dd_step_ok [OF st] v1]) (simp_all add: entry_ok_def getNumSharers_0 e1)
    have l: "length rs < Suc (rq_size (dd_queue s1) a)" by (simp add: rq_size_items w1)
    note here = resume_vc [OF st w1 next_of_ok l, of "sr_updateTime t req"]
    note there = resume_vc(3) [OF zero _ next_of_ok l, where req = "sr_updateTime t req" and r = "sr_updateTime t req"]
    show ?thesis
      unfolding t_def [symmetric] m_def [symmetric] s1_def [symmetric]
      using st here there w1 by (auto simp: vc_returns wpR_def isRequest_def split: msg_t.splits)
  qed
  done

lemma setEntry_resume:
  assumes s: "dd_ok N U s" "valid_ref (dd_cache s) r" "entry_ok e" "de_address e = de_address (entry_of s r)"
    and f: "\<And>s'. dd_ok N U s' \<Longrightarrow> valid_ref (dd_cache s') r \<Longrightarrow> entry_of s' r = e \<Longrightarrow> vc N (f s') (dd_step N U a s')"
  shows "vc N (if b then f (setEntry s r e) else Inr (setEntry s r e)) (dd_step N U a s)"
    and "vc N (f (setEntry s r e)) (dd_step N U a s)"
proof -
  note st = setEntry_step [OF s]
  show f': "vc N (f (setEntry s r e)) (dd_step N U a s)"
    by (rule vc_step_trans [OF st(1) f [OF dd_step_ok [OF st(1)] st(2,3)]])
  show "vc N (if b then f (setEntry s r e) else Inr (setEntry s r e)) (dd_step N U a s)"
    using f' st(1) by simp
qed

lemma processInvRep_vc:
  assumes ok: "dd_ok N U s" and a: "sm_address msg = a"
  shows "vc N (processInvRepFromL2Cache s sender msg) (dd_step N U a s)"
  unfolding processInvRepFromL2Cache_def Let_def a
  apply (rule needEntry_then [OF ok], rule assert_then, unfold vc_simps vc_returns [OF entry_returns(3)] wpR_def, clarify)
  subgoal premises p for r s1 e1
    by (rule setEntry_resume(1) [OF p(1,4) entry_ok_invRep [OF p(5,6,7)] resumeAfterInvRep_vc])
  done

lemma sendDataToDram_resume:
  assumes st: "dd_step N U a s s1" and w: "waiting s1 a = r # rs" and n: "next_ok N U n next" "length rs < n" and q: "sr_msg req = sr_msg r"
  shows "isRequest (sm_type (sr_msg r)) \<Longrightarrow>
      vc N (sendDataToDram s1 a c buf) (\<lambda>s2. vc N (processShReqFromL2Cache next s2 req buf') (dd_step N U a s))"
    and "\<not> isRequest (sm_type (sr_msg r)) \<Longrightarrow>
      vc N (sendDataToDram s1 a c buf) (\<lambda>s2. vc N (processNullifyReq next s2 req) (dd_step N U a s))"
  using w by (auto intro!: sendDataToDram_vc [OF dd_step_ok [OF st], where a = a] resume_vc(2,4) [OF dd_step_trans [OF st] _ n q])

lemma resumeAfterFlushRep_vc:
  assumes ok: "dd_ok N U s" and v: "valid_ref (dd_cache s) r" and e: "entry_of s r = e" and a: "sm_address msg = a"
  shows "vc N (resumeAfterFlushRep s r e msg t) (dd_step N U a s)"
  unfolding resumeAfterFlushRep_def Let_def a
  apply (rule front_then)
  subgoal premises w for req rs
  proof -
    define m where "m = spm_updateElapsedTime (dd_spm s) (sr_time (sr_updateTime t req)) SIM_THREAD"
    define s1 where "s1 = s\<lparr>dd_queue := rq_update_front (dd_queue s) a (sr_updateTime t), dd_spm := m\<rparr>"
    have st: "dd_step N U a s s1" and w1: "waiting s1 a = sr_updateTime t req # rs"
      unfolding s1_def by (rule updateTime_step [OF ok w])+
    have v1: "valid_ref (dd_cache s1) r" and e1: "entry_of s1 r = e" using v e by (simp_all add: s1_def)
    have zero: "dd_step N U a s (setEntry s1 r (e\<lparr>de_dstate := UNCACHED\<rparr>))" if "getNumSharers e = 0"
      using that by (intro dd_step_trans [OF st] setEntry_step [OF dd_step_ok [OF st] v1]) (simp_all add: entry_ok_def getNumSharers_0 e1)
    have keep: "dd_step N U a s (s1\<lparr>dd_queue := rq_update_front (dd_queue s1) a (\<lambda>q. q\<lparr>sr_msg := (sr_msg q)\<lparr>sm_data_buf := sm_data_buf msg\<rparr>\<rparr>)\<rparr>)"
      by (rule dd_step_trans [OF st update_front_step [OF dd_step_ok [OF st]]]) simp_all
    have l: "length rs < Suc (rq_size (dd_queue s1) a)" by (simp add: rq_size_items w1)
    note here = resume_vc [OF st w1 next_of_ok l, of "sr_updateTime t req"]
    note there = resume_vc(3) [OF zero _ next_of_ok l, where req = "sr_updateTime t req" and r = "sr_updateTime t req"]
    note dram = sendDataToDram_resume [OF st w1 next_of_ok l, of "sr_updateTime t req"]
    show ?thesis
      unfolding m_def [symmetric] s1_def [symmetric]
      using st here there dram keep w1 by (auto simp: isRequest_def split: msg_t.splits)
  qed
  done

lemma setOwner_address: "setOwner e c = Inr e' \<Longrightarrow> de_address e' = de_address e"
  using setOwner_Inr by fastforce

lemma entry_ok_remaining:
  "getNumSharers e = 0 \<Longrightarrow> entry_ok (e\<lparr>de_dstate := UNCACHED\<rparr>)"
  "0 < getNumSharers e \<Longrightarrow> de_dstate e = DSHARED \<Longrightarrow> entry_ok e"
  using getNumSharers_0 [of e] by (auto simp: entry_ok_def)

lemma processFlushRep_vc:
  assumes ok: "dd_ok N U s" and a: "sm_address msg = a"
  shows "vc N (processFlushRepFromL2Cache s sender msg) (dd_step N U a s)"
  unfolding processFlushRepFromL2Cache_def Let_def a
  apply (rule needEntry_then [OF ok])
  subgoal premises p for r s1
  proof -
    have resume: "vc N (resumeAfterFlushRep (setEntry s1 r e) r e msg t) (dd_step N U a s1)" if "entry_ok e" "de_address e = de_address (entry_of s1 r)" for e t
      by (rule setEntry_resume(2) [OF p(1,4) that resumeAfterFlushRep_vc [OF _ _ _ a]])
    have evict: "vc N (sendDataToDram (setEntry s1 r e) a c buf) (dd_step N U a s1)" if "entry_ok e" "de_address e = de_address (entry_of s1 r)" for e c buf
      by (rule setEntry_resume(2) [OF p(1,4) that sendDataToDram_vc])
    show ?thesis by (auto simp: vc_returns wpR_def removeSharer_Inr setOwner_address intro!: resume evict entry_ok_remaining)
  qed
  done

lemma entry_ok_wbRep:
  assumes "hasSharer e c = Inr True" and "setOwner e d = Inr e1"
  shows "entry_ok (e1\<lparr>de_dstate := DSHARED\<rparr>)" and "de_address (e1\<lparr>de_dstate := DSHARED\<rparr>) = de_address e"
  using hasSharer_Inr [OF assms(1)] setOwner_Inr [OF assms(2)] by (auto simp: entry_ok_def)

lemma resumeAfterWbRep_vc:
  assumes ok: "dd_ok N U s" and a: "sm_address msg = a"
  shows "vc N (resumeAfterWbRep s msg t) (dd_step N U a s)"
  unfolding resumeAfterWbRep_def Let_def a
  apply (rule front_then, rule assert_then)
  subgoal premises p for req rs
    by (rule resume_vc(2) [OF updateTime_step [OF ok p(1)] next_of_ok])
      (use p in \<open>simp_all add: rq_size_items rq_items_update_front\<close>)
  done

lemma processWbRep_vc:
  assumes ok: "dd_ok N U s" and a: "sm_address msg = a"
  shows "vc N (processWbRepFromL2Cache s sender msg) (dd_step N U a s)"
  unfolding processWbRepFromL2Cache_def Let_def a
  apply (rule needEntry_then [OF ok])
  subgoal premises p for r s1
  proof -
    have "vc N (resumeAfterWbRep (setEntry s1 r (e1\<lparr>de_dstate := DSHARED\<rparr>)) msg t) (dd_step N U a s1)"
      if "hasSharer (entry_of s1 r) sender = Inr True" "setOwner (entry_of s1 r) d = Inr e1" for d e1 t
      by (rule setEntry_resume(2) [OF p(1,4) entry_ok_wbRep [OF that] resumeAfterWbRep_vc [OF _ a]])
    then show ?thesis by (auto simp: vc_returns wpR_def)
  qed
  done

section \<open>The entry points\<close>

text \<open>
  A message that is accepted adds its requester to the caches served for its address if it is
  a request, and nothing otherwise.
\<close>

definition accepted :: "shmem_msg \<Rightarrow> intptr \<Rightarrow> core_id list" where
  "accepted msg a = (if isRequest (sm_type msg) \<and> sm_address msg = a then [sm_requester msg] else [])"

definition msg_step :: "bool \<Rightarrow> bool \<Rightarrow> shmem_msg \<Rightarrow> dir_cntlr \<Rightarrow> dir_cntlr \<Rightarrow> bool" where
  "msg_step N U msg s s' \<longleftrightarrow> dd_ok N U s' \<and> (\<forall>a. served s' a = served s a @ accepted msg a)"

lemma enqueue_step:
  assumes ok: "dd_ok N U s" and r: "sr_msg req = msg" and t: "isRequest (sm_type msg)" and a: "U \<longrightarrow> sm_address msg \<noteq> INVALID_ADDRESS"
  defines "s' \<equiv> s\<lparr>dd_queue := rq_enqueue (dd_queue s) (sm_address msg) req\<rparr>"
  shows "msg_step N U msg s s'" and "waiting s' (sm_address msg) = waiting s (sm_address msg) @ [req]"
  using ok r t a
  by (auto simp: s'_def msg_step_def dd_ok_def served_def accepted_def rq_items_enqueue intro!: queue_ok_enqueue)

lemma msg_step_trans: "msg_step N U msg s s1 \<Longrightarrow> dd_step N U a s1 s2 \<Longrightarrow> msg_step N U msg s s2"
  by (simp add: msg_step_def dd_step_def)

lemma dd_step_msg: "dd_step N U a s s1 \<Longrightarrow> \<not> isRequest (sm_type msg) \<Longrightarrow> msg_step N U msg s s1"
  by (simp add: msg_step_def dd_step_def accepted_def)

lemma ShmemReq_Inr: "ShmemReq msg t = Inr req \<Longrightarrow> sr_msg req = msg"
  by (auto simp: ShmemReq_def)

lemma request_vc:
  assumes ok: "dd_ok N U s1" and t: "isRequest (sm_type msg)" and a: "U \<longrightarrow> sm_address msg \<noteq> INVALID_ADDRESS"
  shows "vc N (bindR (ShmemReq msg msg_time) (\<lambda>req.
      let s2 = s1\<lparr>dd_queue := rq_enqueue (dd_queue s1) (sm_address msg) req\<rparr> in
      if rq_size (dd_queue s2) (sm_address msg) = 1 then processReq (next_of s2 (sm_address msg)) s2 req else Inr s2)) (msg_step N U msg s1)"
proof -
  let ?a = "sm_address msg"
  have "vc N (if rq_size (dd_queue s2) ?a = 1 then processReq (next_of s2 ?a) s2 req else Inr s2) (msg_step N U msg s1)"
    if s2: "s2 = s1\<lparr>dd_queue := rq_enqueue (dd_queue s1) ?a req\<rparr>" and r: "sr_msg req = msg" for s2 req
  proof -
    have st: "msg_step N U msg s1 s2" and w: "waiting s2 ?a = waiting s1 ?a @ [req]"
      unfolding s2 by (rule enqueue_step [OF ok r t a])+
    have ok2: "dd_ok N U s2" using st by (simp add: msg_step_def)
    have "vc N (processReq (next_of s2 ?a) s2 req) (dd_step N U ?a s2)" if "rq_size (dd_queue s2) ?a = 1"
      by (rule processReq_vc [OF next_of_ok ok2]) (use that w t in \<open>auto simp: r rq_size_items at_front_def\<close>)
    then show ?thesis using st by (auto intro: vc_mono msg_step_trans)
  qed
  from this [OF refl ShmemReq_Inr] show ?thesis
    unfolding vc_simps vc_returns [OF entry_returns(7)] wpR_def Let_def by blast
qed

lemma handleMsgFromL2Cache_vc:
  assumes ok: "dd_ok N U s" and a: "U \<longrightarrow> sm_address msg \<noteq> INVALID_ADDRESS"
  shows "vc N (handleMsgFromL2Cache s sender msg) (msg_step N U msg s)"
proof -
  have "vc N (case sm_type msg of
        INV_REP \<Rightarrow> processInvRepFromL2Cache s1 sender msg
      | FLUSH_REP \<Rightarrow> processFlushRepFromL2Cache s1 sender msg
      | WB_REP \<Rightarrow> processWbRepFromL2Cache s1 sender msg
      | t \<Rightarrow>
          if isRequest t then
            bindR (ShmemReq msg (dd_now s)) (\<lambda>req.
            let s2 = s1\<lparr>dd_queue := rq_enqueue (dd_queue s1) (sm_address msg) req\<rparr> in
            if rq_size (dd_queue s2) (sm_address msg) = 1 then processReq (next_of s2 (sm_address msg)) s2 req else Inr s2)
          else Inl Log_Error) (msg_step N U msg s)" if st: "dd_step N U (sm_address msg) s s1" for s1
  proof -
    note ok1 = dd_step_ok [OF st]
    have rep: "vc N m (msg_step N U msg s)" if "vc N m (dd_step N U (sm_address msg) s1)" "\<not> isRequest (sm_type msg)" for m
      using that by (auto intro: vc_mono dd_step_msg dd_step_trans [OF st])
    have req: "vc N m (msg_step N U msg s)" if "vc N m (msg_step N U msg s1)" for m
      using that st by (auto elim!: vc_mono simp: msg_step_def dd_step_def)
    show ?thesis
      using rep [OF processInvRep_vc [OF ok1]] rep [OF processFlushRep_vc [OF ok1]] rep [OF processWbRep_vc [OF ok1]]
        req [OF request_vc [OF ok1 _ a]]
      by (auto simp del: vc_simps(4) split: msg_t.split simp: isRequest_def)
  qed
  then show ?thesis
    unfolding handleMsgFromL2Cache_def Let_def vc_simps
    by (intro getEntry_vc [OF ok, where a = "sm_address msg"]) (auto simp del: vc_simps(4))
qed

lemma handleMsgFromDRAM_vc:
  assumes "dd_ok N U s"
  shows "vc N (handleMsgFromDRAM s sender msg) (msg_step N U msg s)"
proof (cases "sm_type msg = DRAM_READ_REP")
  case True
  have "vc N (processDRAMReply s sender msg) (msg_step N U msg s)"
    by (rule vc_mono [OF processDRAMReply_vc [OF assms refl]]) (auto intro: dd_step_msg simp: True isRequest_def)
  then show ?thesis by (simp add: handleMsgFromDRAM_def True)
next
  case False
  then show ?thesis by (simp add: handleMsgFromDRAM_def split: msg_t.splits)
qed

end
