(* ===== verification/Dir_Runs.thy ===== *)
theory Dir_Runs
  imports Dir_Protocol
begin

text \<open>
  Runs of the tag directory controller: messages of the last-level caches and of DRAM in any
  order, from the state that the constructors leave, and the properties of every reachable state.
\<close>

section \<open>Runs\<close>

inductive dir_run :: "dir_cntlr \<Rightarrow> network_packet list \<Rightarrow> dir_cntlr \<Rightarrow> bool" where
  dir_run_start: "dir_run s [] s"
| dir_run_step: "dir_run s ps s1 \<Longrightarrow> handleMsgForTagDir p s1 = Inr s2 \<Longrightarrow> dir_run s (ps @ [p]) s2"

inductive_simps dir_run_Nil [simp]: "dir_run s [] s'"

text \<open>The same as a function, to compute runs.\<close>

primrec run_packets :: "network_packet list \<Rightarrow> dir_cntlr \<Rightarrow> dir_cntlr result" where
  "run_packets [] s = Inr s"
| "run_packets (p # ps) s = bindR (handleMsgForTagDir p s) (run_packets ps)"

lemma dir_run_append: "dir_run s ps s1 \<Longrightarrow> run_packets qs s1 = Inr s2 \<Longrightarrow> dir_run s (ps @ qs) s2"
proof (induction qs arbitrary: ps s1)
  case (Cons q qs)
  from Cons.prems(2) obtain s' where q: "handleMsgForTagDir q s1 = Inr s'" and qs: "run_packets qs s' = Inr s2" by auto
  from Cons.IH [OF dir_run.dir_run_step [OF Cons.prems(1) q] qs] show ?case by simp
qed simp

lemmas run_packets_run = dir_run_append [OF dir_run_start, simplified]

text \<open>The state after construction: no entry, no request, no message.\<close>

definition dir_start :: "dir_cntlr \<Rightarrow> bool" where
  "dir_start s \<longleftrightarrow> (\<exists>forwarder0 ptrs0 trap ty entries assoc block hw maxs acc core home nuca spm protocol evict0 uninit arith dc.
     DramDirectoryCache forwarder0 ptrs0 trap ty entries assoc block hw maxs acc = Inr dc \<and>
     DramDirectoryCntlr core home nuca dc block spm protocol evict0 uninit arith = Inr s)"

lemma handleMsgForTagDir_vc:
  assumes "dd_ok N U s" and "U \<longrightarrow> sm_address (np_msg p) \<noteq> INVALID_ADDRESS"
  shows "vc N (handleMsgForTagDir p s) (msg_step N U (np_msg p) s)"
proof -
  let ?s = "s\<lparr>dd_spm := spm_setElapsedTime (dd_spm s) SIM_THREAD (np_time p)\<rparr>"
  have ok: "dd_ok N U ?s" using assms(1) by (simp add: dd_ok_def)
  have step: "msg_step N U (np_msg p) ?s = msg_step N U (np_msg p) s"
    by (simp add: fun_eq_iff msg_step_def served_def)
  show ?thesis
    using handleMsgFromL2Cache_vc [OF ok assms(2), of "np_sender p"] handleMsgFromDRAM_vc [OF ok, of "np_sender p" "np_msg p"]
    by (auto simp: handleMsgForTagDir_def Let_def step split: component_t.splits)
qed

lemma DramDirectoryCache_ok:
  assumes "DramDirectoryCache f ptrs t ty entries assoc block hw maxs acc = Inr dc" and "U \<longrightarrow> 0 < dc_num_sets dc"
  shows "dc_ok U dc"
proof -
  have "unat (entries div assoc) * unat assoc \<le> unat entries" by (simp add: unat_div)
  then show ?thesis
    using assms
    by (auto simp: DramDirectoryCache_def Directory_def Let_def dc_ok_def dir_ok_def slots_def one_entry_def geometry_ok_def
        replaced_addresses_def split: if_splits)
qed

lemma dir_start_ok:
  assumes "dir_start s" and "U \<longrightarrow> 0 < dc_num_sets (dd_cache s)"
  shows "dd_ok (dd_nuca s = None) U s" and "served s a = []"
  using assms
  by (auto simp: dir_start_def DramDirectoryCntlr_def dd_ok_def queue_ok_def served_def rq_items_def
      intro: DramDirectoryCache_ok)

lemma dir_run_ok:
  assumes "dir_run s0 ps s" and "dd_ok N U s0" and "\<And>a. served s0 a = []"
    and "U \<longrightarrow> (\<forall>p \<in> set ps. sm_address (np_msg p) \<noteq> INVALID_ADDRESS)"
  shows "dd_ok N U s \<and> (\<forall>a. served s a = concat (map (\<lambda>p. accepted (np_msg p) a) ps))"
  using assms
proof (induction rule: dir_run.induct)
  case (dir_run_step s ps s1 p s2)
  then have "msg_step N U (np_msg p) s1 s2" using handleMsgForTagDir_vc [of N U s1 p] by (auto simp: vc_def wpR_def)
  then show ?case using dir_run_step by (simp add: msg_step_def)
qed simp

lemma dir_reachable:
  assumes "dir_start s0" and "dir_run s0 ps s"
    and U: "U \<longrightarrow> 0 < dc_num_sets (dd_cache s0) \<and> (\<forall>p \<in> set ps. sm_address (np_msg p) \<noteq> INVALID_ADDRESS)"
  shows "dd_ok (dd_nuca s0 = None) U s" and "served s a = concat (map (\<lambda>p. accepted (np_msg p) a) ps)"
proof -
  have "U \<longrightarrow> 0 < dc_num_sets (dd_cache s0)" using U by blast
  note start = dir_start_ok [OF assms(1) this]
  show "dd_ok (dd_nuca s0 = None) U s" "served s a = concat (map (\<lambda>p. accepted (np_msg p) a) ps)"
    using dir_run_ok [OF assms(2) start] U by auto
qed

lemmas dir_reachable_ok = dir_reachable [where U = False, simplified]

lemma one_entry_ref:
  assumes "one_entry dc" and "valid_ref dc r" and "valid_ref dc r'"
    and "de_address (entry_at dc r) = de_address (entry_at dc r')" and "de_address (entry_at dc r) \<noteq> INVALID_ADDRESS"
  shows "r = r'"
proof -
  note o = one_entryD [OF assms(1)]
  have m: "i < length (dc_replaced dc) \<Longrightarrow> de_address (dc_replaced dc ! i) \<in> replaced_addresses dc" for i
    by (auto simp: replaced_addresses_def)
  have "x = y" if "Slot x = r" "Slot y = r'" for x y
    using that assms(2-5) o(3) [of "unat x" "unat y"] by (auto simp: valid_ref_def entry_at_def word_unat_eq_iff)
  moreover have False if "Slot x = r \<and> Replaced i = r' \<or> Slot x = r' \<and> Replaced i = r" for x i
    using that assms(2-5) o(6) [OF m [of i], of "unat x"] by (auto simp: valid_ref_def entry_at_def)
  moreover have "i = j" if "Replaced i = r" "Replaced j = r'" for i j
    using that assms(2-5) nth_eq_iff_index_eq [OF o(4), of i j] by (auto simp: valid_ref_def entry_at_def)
  ultimately show ?thesis by (cases r; cases r') auto
qed

lemma concat_accepted:
  "concat (map (\<lambda>p. accepted (np_msg p) a) ps)
    = map sm_requester (filter (\<lambda>m. isRequest (sm_type m) \<and> sm_address m = a) (map np_msg ps))"
  by (induction ps) (simp_all add: accepted_def)

lemma distinct_getSharersList: "distinct (getSharersList e)"
  by (simp add: getSharersList_def distinct_map)

lemma getSharersList_single: "sharers e = {c} \<Longrightarrow> getSharersList e = [c]"
  using sharers_getSharersList [of e] distinct_card [OF distinct_getSharersList [of e], symmetric]
  by (auto simp: length_Suc_conv)

section \<open>A run\<close>

text \<open>
  Four caches and one DRAM controller, a directory of four entries. Cache 1 asks for a line to
  write, cache 2 to read it, cache 1 writes it back, both drop it, and cache 3 asks for it.
\<close>

definition demo_dir :: dir_cntlr where
  "demo_dir = projr (bindR (DramDirectoryCache 0 (replicate 4 0) 0 ''full_map'' 4 2 64 16 16 10) (\<lambda>dc.
     DramDirectoryCntlr 0 \<lparr>m_ahl_param = 6, m_ahl_mask = 63, m_core_list = [0], m_total_modules = 1\<rparr> None dc 64
       ShmemPerfModel ''msi'' 0 (False, 0, []) demo_arith))"

definition demo_packet :: "subsecond \<Rightarrow> core_id \<Rightarrow> core_id \<Rightarrow> msg_t \<Rightarrow> component_t \<Rightarrow> byte list option \<Rightarrow> network_packet" where
  "demo_packet t sender requester type component buf = \<lparr>np_time = t, np_sender = sender,
     np_msg = \<lparr>sm_type = type, sm_sender_component = component, sm_receiver_component = TAG_DIR,
       sm_requester = requester, sm_where = UNKNOWN, sm_address = 128, sm_data_buf = buf,
       sm_data_length = (if buf = None then 0 else 64)\<rparr>\<rparr>"

definition demo_packets :: "network_packet list" where
  "demo_packets =
    [demo_packet 10 1 1 EX_REQ MC_LAST_LEVEL_CACHE None,
     demo_packet 20 2 2 SH_REQ MC_LAST_LEVEL_CACHE None,
     demo_packet 100 0 1 DRAM_READ_REP MC_DRAM (Some (replicate 64 7)),
     demo_packet 200 1 2 WB_REP MC_LAST_LEVEL_CACHE (Some (replicate 64 8))]"

lemma demo_dir_start: "dir_start demo_dir"
proof -
  have "case bindR (DramDirectoryCache 0 (replicate 4 0) 0 ''full_map'' 4 2 64 16 16 10) (\<lambda>dc.
     DramDirectoryCntlr 0 \<lparr>m_ahl_param = 6, m_ahl_mask = 63, m_core_list = [0], m_total_modules = 1\<rparr> None dc 64
       ShmemPerfModel ''msi'' 0 (False, 0, []) demo_arith) of Inl er \<Rightarrow> False | Inr s \<Rightarrow> True" by code_simp
  then show ?thesis unfolding dir_start_def demo_dir_def by (force split: sum.splits)
qed

lemma demo_run:
  "case run_packets demo_packets demo_dir of
     Inl er \<Rightarrow> False
   | Inr s \<Rightarrow> replies (dd_outbox s) 128 = [1, 2] \<and> requesters (waiting s 128) = [] \<and>
       dir_entry_list (dc_directory (dd_cache s)) ! 0 \<noteq> None \<and> length (dir_entry_list (dc_directory (dd_cache s))) = 4 \<and>
       de_dstate (entry_of s (Slot 0)) = DSHARED \<and> de_address (entry_of s (Slot 0)) = 128"
  by code_simp

lemma demo_run_first:
  "case run_packets (take 3 demo_packets) demo_dir of
     Inl er \<Rightarrow> False
   | Inr s \<Rightarrow> dir_entry_list (dc_directory (dd_cache s)) ! 0 \<noteq> None \<and> length (dir_entry_list (dc_directory (dd_cache s))) = 4 \<and>
       de_dstate (entry_of s (Slot 0)) = DMODIFIED"
  by code_simp

section \<open>Properties of every reachable state\<close>

text \<open>
  C1. Coherence of the directory: in every state that is reached by messages of the caches and
  of DRAM, for every entry that is kept in the directory cache or waits to be replaced: an
  uncached line has no sharer, a shared line has one, and a line that is held modified or
  exclusive is held by its owner and by no other cache.
\<close>

theorem directory_coherent:
  assumes "dir_start s0" and "dir_run s0 ps s" and "valid_ref (dd_cache s) r"
  shows "case de_dstate (entry_of s r) of
      UNCACHED \<Rightarrow> getSharersList (entry_of s r) = []
    | DSHARED \<Rightarrow> getSharersList (entry_of s r) \<noteq> []
    | DMODIFIED \<Rightarrow> getSharersList (entry_of s r) = [de_owner (entry_of s r)]
    | DEXCLUSIVE \<Rightarrow> getSharersList (entry_of s r) = [de_owner (entry_of s r)]
    | DOWNED \<Rightarrow> False"
  using entry_of_ok [OF _ assms(3)] dir_reachable_ok [OF assms(1,2)]
  by (auto simp: entry_ok_def getSharersList_Nil intro: getSharersList_single split: dstate.splits)

text \<open>After the first three messages of the run, cache 1 is the only owner of the line.\<close>

theorem directory_coherent_witness:
  "\<exists>s. run_packets (take 3 demo_packets) demo_dir = Inr s \<and> de_dstate (entry_of s (Slot 0)) = DMODIFIED
     \<and> getSharersList (entry_of s (Slot 0)) = [de_owner (entry_of s (Slot 0))]"
proof -
  from demo_run_first obtain s where s: "run_packets (take 3 demo_packets) demo_dir = Inr s"
    and e: "dir_entry_list (dc_directory (dd_cache s)) ! 0 \<noteq> None" "length (dir_entry_list (dc_directory (dd_cache s))) = 4"
      "de_dstate (entry_of s (Slot 0)) = DMODIFIED" by (auto split: sum.splits)
  have "valid_ref (dd_cache s) (Slot 0)" using e by (simp add: valid_ref_def slots_def)
  from directory_coherent [OF demo_dir_start run_packets_run [OF s] this] s e show ?thesis by auto
qed

text \<open>
  C2. Every request is answered once, in the order of arrival: for every address, the caches
  that got a reply, followed by those whose requests are queued, are the requesters of the
  requests received so far.
\<close>

theorem replies_in_order:
  assumes "dir_start s0" and "dir_run s0 ps s"
  shows "replies (dd_outbox s) a @ requesters (waiting s a)
    = map sm_requester (filter (\<lambda>m. isRequest (sm_type m) \<and> sm_address m = a) (map np_msg ps))"
  using dir_reachable_ok [OF assms(1,2)] by (simp add: served_def concat_accepted)

theorem replies_in_order_witness:
  "\<exists>s. run_packets demo_packets demo_dir = Inr s \<and> replies (dd_outbox s) 128 = [1, 2]
     \<and> replies (dd_outbox s) 128 @ requesters (waiting s 128)
       = map sm_requester (filter (\<lambda>m. isRequest (sm_type m) \<and> sm_address m = 128) (map np_msg demo_packets))"
proof -
  from demo_run obtain s where s: "run_packets demo_packets demo_dir = Inr s" and r: "replies (dd_outbox s) 128 = [1, 2]"
    by (auto split: sum.splits)
  from replies_in_order [OF demo_dir_start run_packets_run [OF s]] s r show ?thesis by blast
qed

text \<open>
  C3. Handling a message always returns: without a NUCA cache, the recursion over the queued
  requests of an address stays within the number of requests queued for it.
\<close>

theorem directory_returns:
  assumes "dir_start s0" and "dd_nuca s0 = None" and "dir_run s0 ps s"
  shows "handleMsgForTagDir p s \<noteq> Inl No_Return"
  using dir_reachable_ok(1) [OF assms(1,3)] handleMsgForTagDir_vc [of True False s p] assms(2)
  by (auto simp: vc_def returnsR_def)

theorem directory_returns_witness:
  "\<exists>s. run_packets demo_packets demo_dir = Inr s \<and> handleMsgForTagDir (hd demo_packets) s \<noteq> Inl No_Return"
proof -
  from demo_run obtain s where s: "run_packets demo_packets demo_dir = Inr s" by (auto split: sum.splits)
  have "dd_nuca demo_dir = None" by code_simp
  from directory_returns [OF demo_dir_start this run_packets_run [OF s]] s show ?thesis by blast
qed

text \<open>
  C4. The directory keeps one entry per line: if the directory has at least one set and no message
  is for the address that marks unused entries, no two entries of the directory cache and of the
  list of entries that wait to be replaced are for the same line.
\<close>

theorem one_entry_per_line:
  assumes "dir_start s0" and "0 < dc_num_sets (dd_cache s0)"
    and "dir_run s0 ps s" and "\<forall>p \<in> set ps. sm_address (np_msg p) \<noteq> INVALID_ADDRESS"
    and "valid_ref (dd_cache s) r" and "valid_ref (dd_cache s) r'"
    and "de_address (entry_of s r) = de_address (entry_of s r')" and "de_address (entry_of s r) \<noteq> INVALID_ADDRESS"
  shows "r = r'"
  using dir_reachable(1) [of s0 ps s True] one_entry_ref [of "dd_cache s" r r'] assms by (simp add: dd_ok_def dc_ok_def)

theorem one_entry_per_line_witness:
  "\<exists>s. run_packets demo_packets demo_dir = Inr s \<and> de_address (entry_of s (Slot 0)) = 128
     \<and> \<not> (valid_ref (dd_cache s) (Slot 1) \<and> de_address (entry_of s (Slot 1)) = 128)"
proof -
  from demo_run obtain s where s: "run_packets demo_packets demo_dir = Inr s"
    and e: "dir_entry_list (dc_directory (dd_cache s)) ! 0 \<noteq> None" "length (dir_entry_list (dc_directory (dd_cache s))) = 4"
      "de_address (entry_of s (Slot 0)) = 128" by (auto split: sum.splits)
  have v: "valid_ref (dd_cache s) (Slot 0)" using e by (simp add: valid_ref_def slots_def)
  have n: "0 < dc_num_sets (dd_cache demo_dir)" "\<forall>p \<in> set demo_packets. sm_address (np_msg p) \<noteq> INVALID_ADDRESS" by code_simp+
  from one_entry_per_line [OF demo_dir_start n(1) run_packets_run [OF s] n(2) _ v, of "Slot 1"] s e show ?thesis by auto
qed


end
