(* ===== verification/Prefetch.thy ===== *)
theory Prefetch
  imports Fifo
begin

text \<open>
  The prefetchers (\<^verbatim>\<open>parametric_dram_directory_msi/prefetcher.cc\<close>,
  \<^verbatim>\<open>simple_prefetcher.cc\<close>, \<^verbatim>\<open>ghb_prefetcher.cc\<close>): from the stream of addresses that a cache
  sees they propose addresses to fetch in advance.
\<close>

section \<open>SimplePrefetcher\<close>

abbreviation PF_PAGE_SIZE :: intptr where "PF_PAGE_SIZE \<equiv> 4096"
abbreviation PF_PAGE_MASK :: intptr where "PF_PAGE_MASK \<equiv> NOT (PF_PAGE_SIZE - 1)"

record simple_prefetcher =
  sf_core_id :: core_id
  sf_shared_cores :: u32
  sf_n_flows :: u32
  sf_flows_per_core :: bool
  sf_num_prefetches :: u32
  sf_stop_at_page :: bool
  sf_n_flow_next :: u32
  sf_prev_address :: "intptr list list"

definition SimplePrefetcher :: "core_id \<Rightarrow> u32 \<Rightarrow> u32 \<Rightarrow> bool \<Rightarrow> u32 \<Rightarrow> bool \<Rightarrow> simple_prefetcher" where
  "SimplePrefetcher core_id shared_cores n_flows flows_per_core num_prefetches stop_at_page =
     \<lparr>sf_core_id = core_id, sf_shared_cores = shared_cores, sf_n_flows = n_flows, sf_flows_per_core = flows_per_core,
      sf_num_prefetches = num_prefetches, sf_stop_at_page = stop_at_page, sf_n_flow_next = 0,
      sf_prev_address = replicate (if flows_per_core then unat shared_cores else 1) (replicate (unat n_flows) 0)\<rparr>"

text \<open>
  The nearest of the previous addresses, if one is less than a page away. Which overload of
  \<^verbatim>\<open>abs\<close> the call without a namespace selects depends on the compiler's headers (\<^verbatim>\<open>abs_long\<close>
  on 64 bits, or \<^verbatim>\<open>abs_int\<close> on the low 32 bits), so it is an argument.
\<close>

definition abs_long :: "u64 \<Rightarrow> u64" where
  "abs_long d = (if sint d < 0 then - d else d)"

definition abs_int :: "u64 \<Rightarrow> u64" where
  "abs_int d = (let w = ucast d :: u32 in scast (if sint w < 0 then - w else w))"

definition nearest_flow :: "(u64 \<Rightarrow> u64) \<Rightarrow> intptr list \<Rightarrow> intptr \<Rightarrow> u32 \<Rightarrow> u32 \<Rightarrow> u32 \<times> u64" where
  "nearest_flow c_abs prev current_address n_flows n_flow =
     fold (\<lambda>i (n, min_dist). let dist = c_abs (current_address - prev ! i)
             in if dist < min_dist then (of_nat i, dist) else (n, min_dist))
       [0..<unat n_flows] (n_flow, PF_PAGE_SIZE)"

definition stride_addresses :: "simple_prefetcher \<Rightarrow> intptr \<Rightarrow> intptr \<Rightarrow> intptr list" where
  "stride_addresses p current_address stride =
     (if stride = 0 then []
      else filter (\<lambda>a. \<not> sf_stop_at_page p \<or> a AND PF_PAGE_MASK = current_address AND PF_PAGE_MASK)
             (map (\<lambda>i. current_address + of_nat i * stride) [0..<unat (sf_num_prefetches p)]))"

definition simple_getNextAddress ::
  "(u64 \<Rightarrow> u64) \<Rightarrow> simple_prefetcher \<Rightarrow> intptr \<Rightarrow> core_id \<Rightarrow> (intptr list \<times> simple_prefetcher) result" where
  "simple_getNextAddress c_abs p current_address core =
     (let idx = (if sf_flows_per_core p then core - sf_core_id p else 0) in
      if idx < 0 \<or> length (sf_prev_address p) \<le> nat idx then Inl Out_Of_Range
      else bindR (modR (sf_n_flow_next p + 1) (sf_n_flows p)) (\<lambda>next.
        let prev = sf_prev_address p ! nat idx;
            (n_flow, _) = nearest_flow c_abs prev current_address (sf_n_flows p) (sf_n_flow_next p) in
        if length prev \<le> unat n_flow then Inl Out_Of_Range
        else
          let stride = current_address - prev ! unat n_flow
          in Inr (stride_addresses p current_address stride,
               p\<lparr>sf_n_flow_next := next,
                 sf_prev_address := (sf_prev_address p)[nat idx := prev[unat n_flow := current_address]]\<rparr>)))"

section \<open>GhbPrefetcher\<close>

text \<open>Differences of addresses are \<^verbatim>\<open>SInt64\<close>; they are only added and compared, so words do.\<close>

abbreviation INVALID_DELTA :: u64 where "INVALID_DELTA \<equiv> 0x7fffffffffffffff"
abbreviation INVALID_INDEX :: u32 where "INVALID_INDEX \<equiv> 0xffffffff"

record ghb_entry =
  ge_nextIndex :: u32
  ge_delta :: u64
  ge_generation :: u32

record table_entry =
  te_ghbIndex :: u32
  te_delta :: u64
  te_generation :: u32

definition GHBEntry :: ghb_entry where
  "GHBEntry = \<lparr>ge_nextIndex = INVALID_INDEX, ge_delta = INVALID_DELTA, ge_generation = 0\<rparr>"

definition TableEntry :: table_entry where
  "TableEntry = \<lparr>te_ghbIndex = INVALID_INDEX, te_delta = INVALID_DELTA, te_generation = 0\<rparr>"

record ghb_prefetcher =
  gp_prefetchWidth :: u32
  gp_prefetchDepth :: u32
  gp_lastAddress :: intptr
  gp_ghbSize :: u32
  gp_ghbHead :: u32
  gp_generation :: u32
  gp_ghb :: "ghb_entry list"
  gp_tableSize :: u32
  gp_tableHead :: u32
  gp_ghbTable :: "table_entry list"

definition GhbPrefetcher :: "u32 \<Rightarrow> u32 \<Rightarrow> u32 \<Rightarrow> u32 \<Rightarrow> ghb_prefetcher" where
  "GhbPrefetcher width depth ghb_size table_size =
     \<lparr>gp_prefetchWidth = width, gp_prefetchDepth = depth, gp_lastAddress = INVALID_ADDRESS,
      gp_ghbSize = ghb_size, gp_ghbHead = 0, gp_generation = 0, gp_ghb = replicate (unat ghb_size) GHBEntry,
      gp_tableSize = table_size, gp_tableHead = 0, gp_ghbTable = replicate (unat table_size) TableEntry\<rparr>"

definition ghb_at :: "ghb_prefetcher \<Rightarrow> u32 \<Rightarrow> ghb_entry result" where
  "ghb_at g i = (if unat i < length (gp_ghb g) then Inr (gp_ghb g ! unat i) else Inl Out_Of_Range)"

text \<open>The loops over the table: the position where the search stops, \<open>None\<close> at its end.\<close>

definition find_delta :: "ghb_prefetcher \<Rightarrow> u64 \<Rightarrow> nat option" where
  "find_delta g delta =
     first_idx (\<lambda>i. te_delta (gp_ghbTable g ! i) = INVALID_DELTA \<or> te_delta (gp_ghbTable g ! i) = delta) (unat (gp_tableSize g))"

text \<open>The loops over depth and width; the first argument counts the rounds that are left.\<close>

primrec ghb_depth :: "nat \<Rightarrow> ghb_prefetcher \<Rightarrow> u32 \<Rightarrow> u32 \<Rightarrow> intptr \<Rightarrow> intptr list \<Rightarrow> intptr list result" where
  "ghb_depth 0 g ghbIndex depth newAddress list = Inr list"
| "ghb_depth (Suc n) g ghbIndex depth newAddress list =
     bindR (modR (ghbIndex + depth) (gp_ghbSize g)) (\<lambda>k.
     bindR (ghb_at g k) (\<lambda>e.
     if ge_delta e = INVALID_DELTA then Inr list
     else let a = newAddress + ge_delta e
          in ghb_depth n g ghbIndex (depth + 1) a (if a \<in> set list then list else list @ [a])))"

definition ghb_follow :: "ghb_prefetcher \<Rightarrow> u32 \<Rightarrow> u32 \<Rightarrow> u32" where
  "ghb_follow g ghbIndex nextIndex =
     (if (nextIndex > ghbIndex \<or> ghbIndex > gp_ghbHead g) \<and> nextIndex < gp_ghbHead g then INVALID_INDEX else nextIndex)"

primrec ghb_width :: "nat \<Rightarrow> ghb_prefetcher \<Rightarrow> u32 \<Rightarrow> intptr \<Rightarrow> intptr list \<Rightarrow> intptr list result" where
  "ghb_width 0 g ghbIndex currentAddress list = Inr list"
| "ghb_width (Suc n) g ghbIndex currentAddress list =
     (if ghbIndex = INVALID_INDEX then Inr list
      else bindR (ghb_depth (unat (gp_prefetchDepth g)) g ghbIndex 0 currentAddress list) (\<lambda>list'.
           bindR (ghb_at g ghbIndex) (\<lambda>e.
           ghb_width n g (ghb_follow g ghbIndex (ge_nextIndex e)) currentAddress list')))"

definition ghb_predict :: "ghb_prefetcher \<Rightarrow> intptr \<Rightarrow> u64 \<Rightarrow> intptr list result" where
  "ghb_predict g currentAddress delta =
     (case find_delta g delta of
        None \<Rightarrow> Inr []
      | Some i \<Rightarrow>
          let t = gp_ghbTable g ! i in
          if te_delta t \<noteq> delta then Inr []
          else bindR (ghb_at g (te_ghbIndex t)) (\<lambda>e.
            if te_generation t = ge_generation e
            then ghb_width (unat (gp_prefetchWidth g)) g (te_ghbIndex t) currentAddress []
            else Inr []))"

text \<open>Entering the new difference into the history and into the table.\<close>

definition ghb_put :: "ghb_prefetcher \<Rightarrow> u32 \<Rightarrow> ghb_entry \<Rightarrow> ghb_prefetcher result" where
  "ghb_put g i e = (if unat i < length (gp_ghb g) then Inr (g\<lparr>gp_ghb := (gp_ghb g)[unat i := e]\<rparr>) else Inl Out_Of_Range)"

definition table_put :: "ghb_prefetcher \<Rightarrow> nat \<Rightarrow> table_entry \<Rightarrow> ghb_prefetcher result" where
  "table_put g i t = (if i < length (gp_ghbTable g) then Inr (g\<lparr>gp_ghbTable := (gp_ghbTable g)[i := t]\<rparr>) else Inl Out_Of_Range)"

definition ghb_link :: "ghb_prefetcher \<Rightarrow> u64 \<Rightarrow> ghb_prefetcher result" where
  "ghb_link g prevDelta =
     (let new = \<lparr>te_ghbIndex = gp_ghbHead g, te_delta = prevDelta, te_generation = gp_generation g\<rparr> in
      case find_delta g prevDelta of
        Some i \<Rightarrow>
          if te_delta (gp_ghbTable g ! i) = prevDelta then
            let t = gp_ghbTable g ! i in
            bindR (ghb_at g (te_ghbIndex t)) (\<lambda>live.
            bindR (ghb_at g (gp_ghbHead g)) (\<lambda>h.
            bindR (ghb_put g (gp_ghbHead g)
                (h\<lparr>ge_nextIndex := if te_generation t = ge_generation live then te_ghbIndex t else INVALID_INDEX\<rparr>)) (\<lambda>g'.
            table_put g' i new)))
          else
            bindR (table_put g (unat (gp_tableHead g)) new) (\<lambda>g'.
            bindR (modR (gp_tableHead g + 1) (gp_tableSize g)) (\<lambda>h. Inr (g'\<lparr>gp_tableHead := h\<rparr>)))
      | None \<Rightarrow>
          bindR (table_put g (unat (gp_tableHead g)) new) (\<lambda>g'.
          bindR (modR (gp_tableHead g + 1) (gp_tableSize g)) (\<lambda>h. Inr (g'\<lparr>gp_tableHead := h\<rparr>))))"

definition ghb_record :: "ghb_prefetcher \<Rightarrow> u64 \<Rightarrow> ghb_prefetcher result" where
  "ghb_record g delta =
     bindR (ghb_put g (gp_ghbHead g) \<lparr>ge_nextIndex = INVALID_INDEX, ge_delta = delta, ge_generation = gp_generation g\<rparr>) (\<lambda>g1.
     bindR (ghb_at g1 (if gp_ghbHead g > 0 then gp_ghbHead g - 1 else gp_ghbSize g - 1)) (\<lambda>prev.
     bindR (if ge_delta prev \<noteq> INVALID_DELTA then ghb_link g1 (ge_delta prev) else Inr g1) (\<lambda>g2.
     let head = gp_ghbHead g2 + 1 in
     Inr (if head = gp_ghbSize g2
          then g2\<lparr>gp_ghbHead := 0, gp_generation := (gp_generation g2 + 1) mod 4\<rparr>
          else g2\<lparr>gp_ghbHead := head\<rparr>))))"

definition ghb_getNextAddress :: "ghb_prefetcher \<Rightarrow> intptr \<Rightarrow> (intptr list \<times> ghb_prefetcher) result" where
  "ghb_getNextAddress g currentAddress =
     (if gp_lastAddress g = INVALID_ADDRESS then Inr ([], g\<lparr>gp_lastAddress := currentAddress\<rparr>)
      else
        let delta = currentAddress - gp_lastAddress g;
            g1 = g\<lparr>gp_lastAddress := currentAddress\<rparr> in
        bindR (ghb_predict g1 currentAddress delta) (\<lambda>prefetchList.
        bindR (ghb_record g1 delta) (\<lambda>g2. Inr (prefetchList, g2))))"

text \<open>A stream of accesses.\<close>

primrec ghb_train :: "intptr list \<Rightarrow> ghb_prefetcher \<Rightarrow> (intptr list list \<times> ghb_prefetcher) result" where
  "ghb_train [] g = Inr ([], g)"
| "ghb_train (a # as) g =
     bindR (ghb_getNextAddress g a) (\<lambda>(l, g1).
     bindR (ghb_train as g1) (\<lambda>(ls, g2). Inr (l # ls, g2)))"

section \<open>Prefetcher\<close>

datatype prefetcher = PF_Simple simple_prefetcher | PF_Ghb ghb_prefetcher

record prefetcher_config =
  pf_flows :: u32
  pf_flows_per_core :: bool
  pf_num_prefetches :: u32
  pf_stop_at_page :: bool
  pf_width :: u32
  pf_depth :: u32
  pf_ghb_size :: u32
  pf_ghb_table_size :: u32

definition createPrefetcher :: "prefetcher_config \<Rightarrow> string \<Rightarrow> core_id \<Rightarrow> u32 \<Rightarrow> prefetcher option result" where
  "createPrefetcher cfg type core_id shared_cores =
     (if type = ''none'' then Inr None
      else if type = ''simple''
      then Inr (Some (PF_Simple (SimplePrefetcher core_id shared_cores (pf_flows cfg) (pf_flows_per_core cfg)
             (pf_num_prefetches cfg) (pf_stop_at_page cfg))))
      else if type = ''ghb''
      then Inr (Some (PF_Ghb (GhbPrefetcher (pf_width cfg) (pf_depth cfg) (pf_ghb_size cfg) (pf_ghb_table_size cfg))))
      else Inl Log_Error)"

definition getNextAddress ::
  "(u64 \<Rightarrow> u64) \<Rightarrow> prefetcher \<Rightarrow> intptr \<Rightarrow> core_id \<Rightarrow> (intptr list \<times> prefetcher) result" where
  "getNextAddress c_abs p address core =
     (case p of
        PF_Simple s \<Rightarrow> bindR (simple_getNextAddress c_abs s address core) (\<lambda>(l, s'). Inr (l, PF_Simple s'))
      | PF_Ghb g \<Rightarrow> bindR (ghb_getNextAddress g address) (\<lambda>(l, g'). Inr (l, PF_Ghb g')))"

section \<open>The history buffer stays in range\<close>

text \<open>
  Well-formed prefetchers: the heads are inside their arrays, links and used table entries refer
  to entries of the history buffer.
\<close>

definition ghb_ok :: "ghb_prefetcher \<Rightarrow> bool" where
  "ghb_ok g \<longleftrightarrow>
     length (gp_ghb g) = unat (gp_ghbSize g) \<and> length (gp_ghbTable g) = unat (gp_tableSize g) \<and>
     gp_ghbHead g < gp_ghbSize g \<and> gp_tableHead g < gp_tableSize g \<and>
     (\<forall>e \<in> set (gp_ghb g). ge_nextIndex e = INVALID_INDEX \<or> ge_nextIndex e < gp_ghbSize g) \<and>
     (\<forall>t \<in> set (gp_ghbTable g). te_delta t = INVALID_DELTA \<or> te_ghbIndex t < gp_ghbSize g)"

lemma modR_less: "0 < n \<Longrightarrow> wpR (modR a n) (\<lambda>k. k < n)" and returnsR_modR: "0 < n \<Longrightarrow> \<exists>k < n. modR a n = Inr k"
  by (auto simp: modR_def word_mod_less_divisor word_neq_0_conv [symmetric])

lemma ghb_okD:
  assumes "ghb_ok g"
  shows "length (gp_ghb g) = unat (gp_ghbSize g)" and "length (gp_ghbTable g) = unat (gp_tableSize g)"
    and "gp_ghbHead g < gp_ghbSize g" and "gp_tableHead g < gp_tableSize g"
    and "0 < gp_ghbSize g" and "0 < gp_tableSize g"
    and "e \<in> set (gp_ghb g) \<Longrightarrow> ge_nextIndex e = INVALID_INDEX \<or> ge_nextIndex e < gp_ghbSize g"
    and "t \<in> set (gp_ghbTable g) \<Longrightarrow> te_delta t \<noteq> INVALID_DELTA \<Longrightarrow> te_ghbIndex t < gp_ghbSize g"
  using assms by (auto simp: ghb_ok_def word_gt_0)

lemma ghb_at_Inr:
  assumes "ghb_ok g" and "i < gp_ghbSize g"
  obtains e where "ghb_at g i = Inr e" and "e \<in> set (gp_ghb g)"
  using assms by (auto simp: ghb_at_def ghb_okD word_less_nat_alt)

text \<open>Each round of depth adds at most one address.\<close>

lemma ghb_depth_Inr:
  assumes "ghb_ok g" and "distinct l"
  shows "\<exists>l'. ghb_depth n g i d a l = Inr l' \<and> distinct l' \<and> length l' \<le> length l + n"
  using assms(2)
proof (induction n arbitrary: d a l)
  case (Suc n)
  obtain k where k: "modR (i + d) (gp_ghbSize g) = Inr k" "k < gp_ghbSize g"
    using returnsR_modR [OF ghb_okD(5) [OF assms(1)]] by blast
  obtain e where e: "ghb_at g k = Inr e" using ghb_at_Inr [OF assms(1) k(2)] by blast
  define l1 where "l1 = (if a + ge_delta e \<in> set l then l else l @ [a + ge_delta e])"
  have "distinct l1" "length l1 \<le> Suc (length l)" using Suc.prems by (simp_all add: l1_def)
  with Suc.IH [of l1 "d + 1" "a + ge_delta e"] Suc.prems show ?case
    by (fastforce simp: k e Let_def l1_def [symmetric])
qed simp

lemma ghb_follow_less:
  "j = INVALID_INDEX \<or> j < gp_ghbSize g \<Longrightarrow> ghb_follow g i j = INVALID_INDEX \<or> ghb_follow g i j < gp_ghbSize g"
  by (auto simp: ghb_follow_def)

lemma ghb_width_Inr:
  assumes "ghb_ok g" and "distinct l" and "i = INVALID_INDEX \<or> i < gp_ghbSize g"
  shows "\<exists>l'. ghb_width n g i a l = Inr l' \<and> distinct l' \<and> length l' \<le> length l + n * unat (gp_prefetchDepth g)"
  using assms(2,3)
proof (induction n arbitrary: i l)
  case (Suc n)
  show ?case
  proof (cases "i = INVALID_INDEX")
    case False
    with Suc.prems have i: "i < gp_ghbSize g" by simp
    obtain l1 where l1: "ghb_depth (unat (gp_prefetchDepth g)) g i 0 a l = Inr l1" "distinct l1"
        "length l1 \<le> length l + unat (gp_prefetchDepth g)"
      using ghb_depth_Inr [OF assms(1) Suc.prems(1)] by blast
    obtain e where e: "ghb_at g i = Inr e" "e \<in> set (gp_ghb g)" using ghb_at_Inr [OF assms(1) i] by blast
    show ?thesis
      using Suc.IH [OF l1(2) ghb_follow_less [OF ghb_okD(7) [OF assms(1) e(2)]], of i] l1 e False by auto
  qed (use Suc.prems in simp)
qed simp

lemma find_delta_Some:
  assumes "ghb_ok g" and "find_delta g d = Some i"
  shows "i < length (gp_ghbTable g)" and "gp_ghbTable g ! i \<in> set (gp_ghbTable g)"
  using assms first_idx_SomeD(1) [of _ "unat (gp_tableSize g)" i] by (auto simp: find_delta_def ghb_okD)

lemma ghb_predict_Inr:
  assumes "ghb_ok g" and "delta \<noteq> INVALID_DELTA"
  shows "\<exists>l. ghb_predict g a delta = Inr l \<and> distinct l \<and> length l \<le> unat (gp_prefetchWidth g) * unat (gp_prefetchDepth g)"
proof (cases "find_delta g delta")
  case (Some i)
  let ?t = "gp_ghbTable g ! i"
  show ?thesis
  proof (cases "te_delta ?t = delta")
    case True
    have i: "te_ghbIndex ?t < gp_ghbSize g"
      using ghb_okD(8) [OF assms(1) find_delta_Some(2) [OF assms(1) Some]] True assms(2) by simp
    obtain e where "ghb_at g (te_ghbIndex ?t) = Inr e" using ghb_at_Inr [OF assms(1) i] by blast
    then show ?thesis
      using ghb_width_Inr [OF assms(1), of "[]" "te_ghbIndex ?t"] i by (auto simp: ghb_predict_def Some True Let_def)
  qed (simp add: ghb_predict_def Some Let_def)
qed (simp add: ghb_predict_def)

text \<open>Updates keep the prefetcher well-formed.\<close>

lemma ghb_put_ok:
  assumes "ghb_ok g" and "i < gp_ghbSize g" and "ge_nextIndex e = INVALID_INDEX \<or> ge_nextIndex e < gp_ghbSize g"
  shows "ghb_put g i e = Inr (g\<lparr>gp_ghb := (gp_ghb g)[unat i := e]\<rparr>)" and "ghb_ok (g\<lparr>gp_ghb := (gp_ghb g)[unat i := e]\<rparr>)"
  using assms by (auto simp: ghb_put_def ghb_ok_def word_less_nat_alt dest: set_update_subset_insert [THEN subsetD])

lemma table_put_ok:
  assumes "ghb_ok g" and "i < unat (gp_tableSize g)" and "te_ghbIndex t < gp_ghbSize g"
  shows "table_put g i t = Inr (g\<lparr>gp_ghbTable := (gp_ghbTable g)[i := t]\<rparr>)"
    and "ghb_ok (g\<lparr>gp_ghbTable := (gp_ghbTable g)[i := t]\<rparr>)"
  using assms by (auto simp: table_put_def ghb_ok_def dest: set_update_subset_insert [THEN subsetD])

lemma ghb_link_ok:
  assumes ok: "ghb_ok g" and d: "d \<noteq> INVALID_DELTA"
  shows "\<exists>g'. ghb_link g d = Inr g' \<and> ghb_ok g' \<and> gp_ghbHead g' = gp_ghbHead g \<and> gp_ghbSize g' = gp_ghbSize g"
proof -
  note h = ghb_okD [OF ok]
  define new where "new = \<lparr>te_ghbIndex = gp_ghbHead g, te_delta = d, te_generation = gp_generation g\<rparr>"
  have new: "te_ghbIndex new < gp_ghbSize g'" if "gp_ghbSize g' = gp_ghbSize g" for g'
    using h(3) that by (simp add: new_def)
  have add: "\<exists>g'. bindR (table_put g (unat (gp_tableHead g)) new) (\<lambda>g'.
          bindR (modR (gp_tableHead g + 1) (gp_tableSize g)) (\<lambda>h. Inr (g'\<lparr>gp_tableHead := h\<rparr>))) = Inr g'
        \<and> ghb_ok g' \<and> gp_ghbHead g' = gp_ghbHead g \<and> gp_ghbSize g' = gp_ghbSize g"
    using table_put_ok [OF ok _ new [OF refl], of "unat (gp_tableHead g)"] h(4)
      returnsR_modR [OF h(6), of "gp_tableHead g + 1"]
    by (auto simp: word_less_nat_alt [symmetric] ghb_ok_def)
  have old: "\<exists>g'. bindR (ghb_at g (te_ghbIndex t)) (\<lambda>live.
            bindR (ghb_at g (gp_ghbHead g)) (\<lambda>h.
            bindR (ghb_put g (gp_ghbHead g)
                (h\<lparr>ge_nextIndex := if te_generation t = ge_generation live then te_ghbIndex t else INVALID_INDEX\<rparr>)) (\<lambda>g'.
            table_put g' i new))) = Inr g'
        \<and> ghb_ok g' \<and> gp_ghbHead g' = gp_ghbHead g \<and> gp_ghbSize g' = gp_ghbSize g"
    if t: "te_ghbIndex t < gp_ghbSize g" and i: "i < length (gp_ghbTable g)" for t i
  proof -
    obtain live where live: "ghb_at g (te_ghbIndex t) = Inr live" using ghb_at_Inr [OF ok t] by blast
    obtain e where e: "ghb_at g (gp_ghbHead g) = Inr e" using ghb_at_Inr [OF ok h(3)] by blast
    define e' where "e' = e\<lparr>ge_nextIndex := if te_generation t = ge_generation live then te_ghbIndex t else INVALID_INDEX\<rparr>"
    define g1 where "g1 = g\<lparr>gp_ghb := (gp_ghb g)[unat (gp_ghbHead g) := e']\<rparr>"
    have g1: "ghb_put g (gp_ghbHead g) e' = Inr g1" "ghb_ok g1"
      unfolding g1_def by (rule ghb_put_ok [OF ok h(3)]; use t in \<open>simp add: e'_def\<close>)+
    have "gp_ghbSize g1 = gp_ghbSize g" "gp_tableSize g1 = gp_tableSize g" "gp_ghbHead g1 = gp_ghbHead g"
      by (simp_all add: g1_def)
    then show ?thesis
      using table_put_ok [OF g1(2) _ new, of i] i h(2) by (simp add: live e e'_def [symmetric] g1(1))
  qed
  show ?thesis
  proof (cases "find_delta g d")
    case (Some i)
    note f = find_delta_Some [OF ok Some]
    show ?thesis
      unfolding ghb_link_def Some Let_def new_def [symmetric]
      using add old [OF _ f(1)] ghb_okD(8) [OF ok f(2)] d
      by (cases "te_delta (gp_ghbTable g ! i) = d") (simp_all del: bindR_Inr_iff)
  next
    case None
    show ?thesis unfolding ghb_link_def None Let_def new_def [symmetric] using add by (simp del: bindR_Inr_iff)
  qed
qed

lemma ghb_head_ok:
  assumes "ghb_ok g"
  shows "ghb_ok (if gp_ghbHead g + 1 = gp_ghbSize g then g\<lparr>gp_ghbHead := 0, gp_generation := x\<rparr> else g\<lparr>gp_ghbHead := gp_ghbHead g + 1\<rparr>)"
proof -
  have "gp_ghbHead g + 1 \<noteq> gp_ghbSize g \<Longrightarrow> gp_ghbHead g + 1 < gp_ghbSize g"
    using ghb_okD(3) [OF assms] by (metis inc_le le_less)
  then show ?thesis using assms ghb_okD(5) [OF assms] by (auto simp: ghb_ok_def)
qed

lemma ghb_record_ok:
  assumes ok: "ghb_ok g"
  shows "\<exists>g'. ghb_record g d = Inr g' \<and> ghb_ok g'"
proof -
  note h = ghb_okD [OF ok]
  define g1 where "g1 = g\<lparr>gp_ghb := (gp_ghb g)[unat (gp_ghbHead g) := \<lparr>ge_nextIndex = INVALID_INDEX, ge_delta = d, ge_generation = gp_generation g\<rparr>]\<rparr>"
  have g1: "ghb_put g (gp_ghbHead g) \<lparr>ge_nextIndex = INVALID_INDEX, ge_delta = d, ge_generation = gp_generation g\<rparr> = Inr g1" "ghb_ok g1"
    unfolding g1_def by (rule ghb_put_ok [OF ok h(3)]; simp)+
  have "(if gp_ghbHead g > 0 then gp_ghbHead g - 1 else gp_ghbSize g - 1) < gp_ghbSize g1"
    using h(3,5) by (auto simp: g1_def word_less_nat_alt unat_sub_if_size word_size intro: measure_unat)
  from ghb_at_Inr [OF g1(2) this] obtain e where
    e: "ghb_at g1 (if gp_ghbHead g > 0 then gp_ghbHead g - 1 else gp_ghbSize g - 1) = Inr e" by blast
  obtain g2 where "(if ge_delta e \<noteq> INVALID_DELTA then ghb_link g1 (ge_delta e) else Inr g1) = Inr g2" "ghb_ok g2"
    using ghb_link_ok [OF g1(2), of "ge_delta e"] g1(2) by (cases "ge_delta e = INVALID_DELTA") auto
  then show ?thesis
    unfolding ghb_record_def g1(1) Let_def by (simp add: e ghb_head_ok del: bindR_Inr_iff)
qed

definition same_setup :: "ghb_prefetcher \<Rightarrow> ghb_prefetcher \<Rightarrow> bool" where
  "same_setup g g' \<longleftrightarrow> gp_lastAddress g' = gp_lastAddress g \<and>
     gp_prefetchWidth g' = gp_prefetchWidth g \<and> gp_prefetchDepth g' = gp_prefetchDepth g"

lemma put_setup: "ghb_put g i e = Inr g' \<Longrightarrow> same_setup g g'" "table_put g k t = Inr g' \<Longrightarrow> same_setup g g'"
  by (auto simp: ghb_put_def table_put_def same_setup_def split: if_splits)

lemma table_put_head_setup: "table_put g k t = Inr g' \<Longrightarrow> same_setup g (g'\<lparr>gp_tableHead := h\<rparr>)"
  by (auto simp: table_put_def same_setup_def split: if_splits)

lemma same_setup_trans: "same_setup g g1 \<Longrightarrow> same_setup g1 g2 \<Longrightarrow> same_setup g g2"
  by (simp add: same_setup_def)

lemma ghb_link_setup: "wpR (ghb_link g d) (same_setup g)"
  unfolding ghb_link_def Let_def
  by (cases "find_delta g d") (auto simp: wpR_def intro: put_setup table_put_head_setup same_setup_trans)

lemma ghb_record_setup:
  assumes "ghb_record g d = Inr g'"
  shows "same_setup g g'"
proof -
  have "wpR (ghb_record g d) (same_setup g)"
    unfolding ghb_record_def Let_def wpR_simps wpR_def [where m = "ghb_put _ _ _"]
  proof (intro allI impI)
    fix g1 assume "ghb_put g (gp_ghbHead g) \<lparr>ge_nextIndex = INVALID_INDEX, ge_delta = d, ge_generation = gp_generation g\<rparr> = Inr g1"
    note g1 = put_setup(1) [OF this]
    have "same_setup g (if gp_ghbHead g2 + 1 = gp_ghbSize g2 then g2\<lparr>gp_ghbHead := 0, gp_generation := x\<rparr> else g2\<lparr>gp_ghbHead := gp_ghbHead g2 + 1\<rparr>)"
      if "same_setup g1 g2" for g2 x
      using that g1 by (simp add: same_setup_def)
    moreover have "same_setup g1 g1" by (simp add: same_setup_def)
    ultimately show "wpR (ghb_at g1 i) (\<lambda>prev. wpR (if ge_delta prev \<noteq> INVALID_DELTA then ghb_link g1 (ge_delta prev) else Inr g1)
        (\<lambda>g2. same_setup g (if gp_ghbHead g2 + 1 = gp_ghbSize g2 then g2\<lparr>gp_ghbHead := 0, gp_generation := (gp_generation g2 + 1) mod 4\<rparr>
           else g2\<lparr>gp_ghbHead := gp_ghbHead g2 + 1\<rparr>)))" for i
      using ghb_link_setup [of g1] by (auto simp: wpR_def)
  qed
  with assms show ?thesis by (simp add: wpR_def)
qed

lemma ghb_getNextAddress_ok:
  assumes "ghb_ok g" and "gp_lastAddress g = INVALID_ADDRESS \<or> a - gp_lastAddress g \<noteq> INVALID_DELTA"
  shows "\<exists>l g'. ghb_getNextAddress g a = Inr (l, g') \<and> ghb_ok g' \<and> gp_lastAddress g' = a \<and>
     gp_prefetchWidth g' = gp_prefetchWidth g \<and> gp_prefetchDepth g' = gp_prefetchDepth g \<and>
     distinct l \<and> length l \<le> unat (gp_prefetchWidth g) * unat (gp_prefetchDepth g)"
proof -
  let ?g = "g\<lparr>gp_lastAddress := a\<rparr>"
  have ok: "ghb_ok ?g" using assms(1) by (simp add: ghb_ok_def)
  from ghb_record_ok [OF ok] obtain g' where g': "ghb_record ?g (a - gp_lastAddress g) = Inr g'" "ghb_ok g'" by blast
  then have "gp_lastAddress g' = a" "gp_prefetchWidth g' = gp_prefetchWidth g" "gp_prefetchDepth g' = gp_prefetchDepth g"
    using ghb_record_setup [OF g'(1)] by (simp_all add: same_setup_def)
  then show ?thesis
    using g' ok assms(2) ghb_predict_Inr [OF ok, of "a - gp_lastAddress g" a] by (auto simp: ghb_getNextAddress_def Let_def)
qed

lemma GhbPrefetcher_ok: "0 < n \<Longrightarrow> 0 < m \<Longrightarrow> ghb_ok (GhbPrefetcher w d n m)"
  by (auto simp: ghb_ok_def GhbPrefetcher_def GHBEntry_def TableEntry_def)

lemma ghb_train_ok:
  assumes "ghb_ok g"
    and "successively (\<lambda>a b. b - a \<noteq> INVALID_DELTA) (if gp_lastAddress g = INVALID_ADDRESS then as else gp_lastAddress g # as)"
  shows "\<exists>ls g'. ghb_train as g = Inr (ls, g') \<and>
     (\<forall>l \<in> set ls. distinct l \<and> length l \<le> unat (gp_prefetchWidth g) * unat (gp_prefetchDepth g))"
  using assms
proof (induction as arbitrary: g)
  case (Cons a as)
  have "gp_lastAddress g = INVALID_ADDRESS \<or> a - gp_lastAddress g \<noteq> INVALID_DELTA" using Cons.prems(2) by auto
  from ghb_getNextAddress_ok [OF Cons.prems(1) this] obtain l g' where
    g': "ghb_getNextAddress g a = Inr (l, g')" "ghb_ok g'" "gp_lastAddress g' = a" "gp_prefetchWidth g' = gp_prefetchWidth g"
      "gp_prefetchDepth g' = gp_prefetchDepth g" "distinct l" "length l \<le> unat (gp_prefetchWidth g) * unat (gp_prefetchDepth g)" by blast
  have "successively (\<lambda>a b. b - a \<noteq> INVALID_DELTA) (a # as)" using Cons.prems(2) by (auto split: if_splits)
  then have "successively (\<lambda>a b. b - a \<noteq> INVALID_DELTA) (if gp_lastAddress g' = INVALID_ADDRESS then as else gp_lastAddress g' # as)"
    by (cases as) (simp_all add: g')
  with Cons.IH [OF g'(2)] g' show ?case by auto
qed simp

text \<open>
  C38. The global history buffer prefetcher never leaves its arrays: from its construction, with a
  buffer and a table that are not empty, whatever addresses it is trained with, as long as no two
  in a row differ by \<open>2\<^sup>63 - 1\<close>, every access is answered with distinct addresses, at most width
  times depth many.
\<close>

theorem ghb_in_range:
  assumes "0 < ghb_size" and "0 < table_size" and "successively (\<lambda>a b. b - a \<noteq> INVALID_DELTA) as"
  shows "case ghb_train as (GhbPrefetcher width depth ghb_size table_size) of
      Inl er \<Rightarrow> False
    | Inr (ls, g) \<Rightarrow> \<forall>l \<in> set ls. distinct l \<and> length l \<le> unat width * unat depth"
  using ghb_train_ok [OF GhbPrefetcher_ok [OF assms(1,2), of width depth], of as] assms(3)
  by (auto simp: GhbPrefetcher_def)

theorem ghb_in_range_witness:
  "(case ghb_train [0, 64, 128, 192] (GhbPrefetcher 2 2 4 2) of
      Inl er \<Rightarrow> False
    | Inr (ls, g) \<Rightarrow> ls = [[], [], [], [256]]) \<and>
   (case ghb_train [0, 64, 128, 192] (GhbPrefetcher 2 2 4 2) of
      Inl er \<Rightarrow> False
    | Inr (ls, g) \<Rightarrow> \<forall>l \<in> set ls. distinct l \<and> length l \<le> unat (2 :: u32) * unat (2 :: u32))"
  (is "?A \<and> ?B")
proof
  show ?A by code_simp
  show ?B by (rule ghb_in_range) simp_all
qed

text \<open>The bound is sharp: the excluded difference makes an access outside the history buffer.\<close>

lemma ghb_out_of_range: "ghb_train [0, 0x7fffffffffffffff] (GhbPrefetcher 2 2 8 4) = Inl Out_Of_Range"
  by (simp add: ghb_getNextAddress_def ghb_predict_def find_delta_def GhbPrefetcher_def first_idx_def ghb_at_def
      TableEntry_def GHBEntry_def Let_def upt_rec)

section \<open>The stride prefetcher\<close>

text \<open>
  The stride prefetcher: the first address that is proposed is the one that is being accessed
  itself, and with \<^verbatim>\<open>stop_at_page_boundary\<close> all are in its page.
\<close>

lemma simple_prefetch_addresses:
  assumes "simple_getNextAddress c_abs p a core = Inr (l, p')" and "sf_num_prefetches p \<noteq> 0" and "l \<noteq> []"
  shows "hd l = a" and "sf_stop_at_page p \<Longrightarrow> \<forall>b \<in> set l. b AND PF_PAGE_MASK = a AND PF_PAGE_MASK"
proof -
  from assms(1) obtain stride where l: "l = stride_addresses p a stride"
    by (auto simp: simple_getNextAddress_def Let_def split: if_splits prod.splits)
  have "[0..<unat (sf_num_prefetches p)] = 0 # [1..<unat (sf_num_prefetches p)]"
    using assms(2) by (simp add: upt_rec unat_gt_0)
  then show "hd l = a" using assms(3) by (auto simp: l stride_addresses_def split: if_splits)
  show "sf_stop_at_page p \<Longrightarrow> \<forall>b \<in> set l. b AND PF_PAGE_MASK = a AND PF_PAGE_MASK"
    by (auto simp: l stride_addresses_def split: if_splits)
qed

end
