(* ===== verification/Dram.thy ===== *)
theory Dram
  imports Shmem_Perf Dir_Cntlr Prefetch
begin

text \<open>
  Main memory: the performance models of DRAM (\<^verbatim>\<open>performance_model/dram_perf_model*.cc\<close>), the
  DRAM controller (\<^verbatim>\<open>pr_l1_pr_l2_dram_directory_msi/dram_cntlr.cc\<close>), the DRAM cache in front of it
  (\<^verbatim>\<open>dram/dram_cache.cc\<close>) and the handler of the messages that the tag directory sends to
  either (\<^verbatim>\<open>dram/dram_cntlr_interface.cc\<close>).
\<close>

section \<open>Performance models\<close>

datatype dram_access = DRAM_READ | DRAM_WRITE

text \<open>\<^verbatim>\<open>perf->updateTime\<close> on a pointer that may be null.\<close>

definition charge :: "shmem_perf option \<Rightarrow> subsecond \<Rightarrow> shmem_times_type \<Rightarrow> shmem_perf option result" where
  "charge perf time reason =
     (case perf of None \<Rightarrow> Inl Null_Pointer | Some p \<Rightarrow> Inr (Some (sp_updateTime p time reason)))"

definition charge_access ::
  "shmem_perf option \<Rightarrow> subsecond \<Rightarrow> subsecond \<Rightarrow> subsecond \<Rightarrow> subsecond
     \<Rightarrow> shmem_times_type \<Rightarrow> shmem_times_type \<Rightarrow> shmem_times_type \<Rightarrow> shmem_perf option result" where
  "charge_access perf t queue_delay processing_time cost queue bus device =
     bindR (charge perf t UNKNOWN_TIME) (\<lambda>p1.
     bindR (charge p1 (t + queue_delay) queue) (\<lambda>p2.
     bindR (charge p2 (t + queue_delay + processing_time) bus) (\<lambda>p3.
     charge p3 (t + queue_delay + processing_time + cost) device)))"

definition optional_queue_delay ::
  "queue_arith \<Rightarrow> queue_model option \<Rightarrow> subsecond \<Rightarrow> subsecond \<Rightarrow> (subsecond \<times> queue_model option) result" where
  "optional_queue_delay arith q pkt_time processing_time =
     (case q of
        None \<Rightarrow> Inr (0, None)
      | Some m \<Rightarrow> bindR (computeQueueDelay arith m pkt_time processing_time) (\<lambda>(d, m'). Inr (d, Some m')))"

text \<open>The entries of the configuration; times and bandwidths are already converted from floating point.\<close>

record dram_config =
  dcf_type :: string
  dcf_bandwidth :: u64
  dcf_latency :: subsecond
  dcf_queue_type :: "string option"
  dcf_queue :: queue_config
  dcf_shared :: bool
  dcf_normal :: "nat \<Rightarrow> subsecond"

definition create_queue :: "dram_config \<Rightarrow> u32 \<Rightarrow> queue_model option result" where
  "create_queue cfg cache_block_size =
     (case dcf_queue_type cfg of
        None \<Rightarrow> Inr None
      | Some ty \<Rightarrow>
          bindR (bw_getRoundedLatency (dcf_bandwidth cfg) (ucast (8 * cache_block_size))) (\<lambda>t.
          bindR (QueueModel_create (dcf_queue cfg) ty t) (\<lambda>q. Inr (Some q))))"

subsection \<open>DramPerfModelConstant\<close>

record dram_perf_constant =
  dpc_enabled :: bool
  dpc_num_accesses :: u64
  dpc_queue_model :: "queue_model option"
  dpc_access_cost :: subsecond
  dpc_bandwidth :: u64
  dpc_total_queueing_delay :: subsecond
  dpc_total_access_latency :: subsecond

definition DramPerfModelConstant :: "dram_config \<Rightarrow> u32 \<Rightarrow> dram_perf_constant result" where
  "DramPerfModelConstant cfg cache_block_size =
     bindR (create_queue cfg cache_block_size) (\<lambda>q.
     Inr \<lparr>dpc_enabled = False, dpc_num_accesses = 0, dpc_queue_model = q, dpc_access_cost = dcf_latency cfg,
          dpc_bandwidth = dcf_bandwidth cfg, dpc_total_queueing_delay = 0, dpc_total_access_latency = 0\<rparr>)"

definition constant_getAccessLatency ::
  "queue_arith \<Rightarrow> core_id \<Rightarrow> dram_perf_constant \<Rightarrow> subsecond \<Rightarrow> u64 \<Rightarrow> core_id \<Rightarrow> intptr \<Rightarrow> dram_access \<Rightarrow> shmem_perf option
     \<Rightarrow> (subsecond \<times> shmem_perf option \<times> dram_perf_constant) result" where
  "constant_getAccessLatency arith app_cores m pkt_time pkt_size requester address access_type perf =
     (if \<not> dpc_enabled m \<or> requester \<ge> app_cores then Inr (0, perf, m)
      else
        bindR (bw_getRoundedLatency (dpc_bandwidth m) (8 * pkt_size)) (\<lambda>processing_time.
        bindR (optional_queue_delay arith (dpc_queue_model m) pkt_time processing_time) (\<lambda>(queue_delay, q).
        let access_latency = queue_delay + processing_time + dpc_access_cost m in
        bindR (charge_access perf pkt_time queue_delay processing_time (dpc_access_cost m) DRAM_QUEUE DRAM_BUS DRAM_DEVICE) (\<lambda>perf'.
        Inr (access_latency, perf',
             m\<lparr>dpc_queue_model := q, dpc_num_accesses := dpc_num_accesses m + 1,
               dpc_total_access_latency := dpc_total_access_latency m + access_latency,
               dpc_total_queueing_delay := dpc_total_queueing_delay m + queue_delay\<rparr>)))))"

subsection \<open>DramPerfModelReadWrite\<close>

record dram_perf_readwrite =
  dpr_enabled :: bool
  dpr_num_accesses :: u64
  dpr_queue_model_read :: "queue_model option"
  dpr_queue_model_write :: "queue_model option"
  dpr_access_cost :: subsecond
  dpr_bandwidth :: u64
  dpr_shared_readwrite :: bool
  dpr_total_read_queueing_delay :: subsecond
  dpr_total_write_queueing_delay :: subsecond
  dpr_total_access_latency :: subsecond

definition DramPerfModelReadWrite :: "dram_config \<Rightarrow> u32 \<Rightarrow> dram_perf_readwrite result" where
  "DramPerfModelReadWrite cfg cache_block_size =
     bindR (create_queue cfg cache_block_size) (\<lambda>q_read.
     bindR (create_queue cfg cache_block_size) (\<lambda>q_write.
     Inr \<lparr>dpr_enabled = False, dpr_num_accesses = 0, dpr_queue_model_read = q_read, dpr_queue_model_write = q_write,
          dpr_access_cost = dcf_latency cfg, dpr_bandwidth = dcf_bandwidth cfg, dpr_shared_readwrite = dcf_shared cfg,
          dpr_total_read_queueing_delay = 0, dpr_total_write_queueing_delay = 0, dpr_total_access_latency = 0\<rparr>))"

definition readwrite_queues ::
  "queue_arith \<Rightarrow> dram_perf_readwrite \<Rightarrow> subsecond \<Rightarrow> subsecond \<Rightarrow> dram_access
     \<Rightarrow> (subsecond \<times> queue_model option \<times> queue_model option) result" where
  "readwrite_queues arith m pkt_time processing_time access_type =
     (let q_read = dpr_queue_model_read m; q_write = dpr_queue_model_write m in
      if Option.is_none q_read then Inr (0, q_read, q_write)
      else case access_type of
        DRAM_READ \<Rightarrow>
          bindR (optional_queue_delay arith q_read pkt_time processing_time) (\<lambda>(queue_delay, q_read').
          if dpr_shared_readwrite m then
            (case q_write of
               None \<Rightarrow> Inl Null_Pointer
             | Some _ \<Rightarrow> bindR (optional_queue_delay arith q_write pkt_time processing_time) (\<lambda>(_, q_write').
                 Inr (queue_delay, q_read', q_write')))
          else Inr (queue_delay, q_read', q_write))
      | DRAM_WRITE \<Rightarrow>
          (case q_write of
             None \<Rightarrow> Inl Null_Pointer
           | Some _ \<Rightarrow> bindR (optional_queue_delay arith q_write pkt_time processing_time) (\<lambda>(queue_delay, q_write').
               Inr (queue_delay, q_read, q_write'))))"

definition readwrite_getAccessLatency ::
  "queue_arith \<Rightarrow> core_id \<Rightarrow> dram_perf_readwrite \<Rightarrow> subsecond \<Rightarrow> u64 \<Rightarrow> core_id \<Rightarrow> intptr \<Rightarrow> dram_access \<Rightarrow> shmem_perf option
     \<Rightarrow> (subsecond \<times> shmem_perf option \<times> dram_perf_readwrite) result" where
  "readwrite_getAccessLatency arith app_cores m pkt_time pkt_size requester address access_type perf =
     (if \<not> dpr_enabled m \<or> requester \<ge> app_cores then Inr (0, perf, m)
      else
        bindR (bw_getRoundedLatency (dpr_bandwidth m) (8 * pkt_size)) (\<lambda>processing_time.
        bindR (readwrite_queues arith m pkt_time processing_time access_type) (\<lambda>(queue_delay, q_read, q_write).
        let access_latency = queue_delay + processing_time + dpr_access_cost m in
        bindR (charge_access perf pkt_time queue_delay processing_time (dpr_access_cost m) DRAM_QUEUE DRAM_BUS DRAM_DEVICE) (\<lambda>perf'.
        let m' = m\<lparr>dpr_queue_model_read := q_read, dpr_queue_model_write := q_write,
                   dpr_num_accesses := dpr_num_accesses m + 1,
                   dpr_total_access_latency := dpr_total_access_latency m + access_latency\<rparr> in
        Inr (access_latency, perf',
             case access_type of
               DRAM_READ \<Rightarrow> m'\<lparr>dpr_total_read_queueing_delay := dpr_total_read_queueing_delay m + queue_delay\<rparr>
             | DRAM_WRITE \<Rightarrow> m'\<lparr>dpr_total_write_queueing_delay := dpr_total_write_queueing_delay m + queue_delay\<rparr>)))))"

subsection \<open>DramPerfModelNormal\<close>

text \<open>
  \<^verbatim>\<open>NormalTimeDistribution\<close> draws from a generator of the standard library: \<open>dpn_costs\<close> is the
  sequence of values it yields and \<open>dpn_drawn\<close> the number of values drawn so far.
\<close>

record dram_perf_normal =
  dpn_enabled :: bool
  dpn_num_accesses :: u64
  dpn_queue_model :: "queue_model option"
  dpn_costs :: "nat \<Rightarrow> subsecond"
  dpn_drawn :: nat
  dpn_bandwidth :: u64
  dpn_total_queueing_delay :: subsecond
  dpn_total_access_latency :: subsecond

definition DramPerfModelNormal :: "dram_config \<Rightarrow> u32 \<Rightarrow> dram_perf_normal result" where
  "DramPerfModelNormal cfg cache_block_size =
     bindR (create_queue cfg cache_block_size) (\<lambda>q.
     Inr \<lparr>dpn_enabled = False, dpn_num_accesses = 0, dpn_queue_model = q, dpn_costs = dcf_normal cfg, dpn_drawn = 0,
          dpn_bandwidth = dcf_bandwidth cfg, dpn_total_queueing_delay = 0, dpn_total_access_latency = 0\<rparr>)"

definition normal_getAccessLatency ::
  "queue_arith \<Rightarrow> core_id \<Rightarrow> dram_perf_normal \<Rightarrow> subsecond \<Rightarrow> u64 \<Rightarrow> core_id \<Rightarrow> intptr \<Rightarrow> dram_access \<Rightarrow> shmem_perf option
     \<Rightarrow> (subsecond \<times> shmem_perf option \<times> dram_perf_normal) result" where
  "normal_getAccessLatency arith app_cores m pkt_time pkt_size requester address access_type perf =
     (if \<not> dpn_enabled m \<or> requester \<ge> app_cores then Inr (0, perf, m)
      else
        bindR (bw_getRoundedLatency (dpn_bandwidth m) (8 * pkt_size)) (\<lambda>processing_time.
        bindR (optional_queue_delay arith (dpn_queue_model m) pkt_time processing_time) (\<lambda>(queue_delay, q).
        let dram_access_cost = dpn_costs m (dpn_drawn m);
            access_latency = queue_delay + processing_time + dram_access_cost in
        bindR (charge_access perf pkt_time queue_delay processing_time dram_access_cost DRAM_QUEUE DRAM_BUS DRAM_DEVICE) (\<lambda>perf'.
        Inr (access_latency, perf',
             m\<lparr>dpn_queue_model := q, dpn_drawn := dpn_drawn m + 1, dpn_num_accesses := dpn_num_accesses m + 1,
               dpn_total_access_latency := dpn_total_access_latency m + access_latency,
               dpn_total_queueing_delay := dpn_total_queueing_delay m + queue_delay\<rparr>)))))"

subsection \<open>DramPerfModel\<close>

datatype dram_perf_model =
    DPM_Constant dram_perf_constant | DPM_ReadWrite dram_perf_readwrite | DPM_Normal dram_perf_normal

definition createDramPerfModel :: "dram_config \<Rightarrow> u32 \<Rightarrow> dram_perf_model result" where
  "createDramPerfModel cfg cache_block_size =
     (if dcf_type cfg = ''constant'' then bindR (DramPerfModelConstant cfg cache_block_size) (\<lambda>m. Inr (DPM_Constant m))
      else if dcf_type cfg = ''readwrite'' then bindR (DramPerfModelReadWrite cfg cache_block_size) (\<lambda>m. Inr (DPM_ReadWrite m))
      else if dcf_type cfg = ''normal'' then bindR (DramPerfModelNormal cfg cache_block_size) (\<lambda>m. Inr (DPM_Normal m))
      else Inl Log_Error)"

definition dpm_set_enabled :: "bool \<Rightarrow> dram_perf_model \<Rightarrow> dram_perf_model" where
  "dpm_set_enabled b m =
     (case m of
        DPM_Constant c \<Rightarrow> DPM_Constant (c\<lparr>dpc_enabled := b\<rparr>)
      | DPM_ReadWrite r \<Rightarrow> DPM_ReadWrite (r\<lparr>dpr_enabled := b\<rparr>)
      | DPM_Normal n \<Rightarrow> DPM_Normal (n\<lparr>dpn_enabled := b\<rparr>))"

definition dpm_enable :: "dram_perf_model \<Rightarrow> dram_perf_model" where "dpm_enable = dpm_set_enabled True"
definition dpm_disable :: "dram_perf_model \<Rightarrow> dram_perf_model" where "dpm_disable = dpm_set_enabled False"

definition getAccessLatency ::
  "queue_arith \<Rightarrow> core_id \<Rightarrow> dram_perf_model \<Rightarrow> subsecond \<Rightarrow> u64 \<Rightarrow> core_id \<Rightarrow> intptr \<Rightarrow> dram_access \<Rightarrow> shmem_perf option
     \<Rightarrow> (subsecond \<times> shmem_perf option \<times> dram_perf_model) result" where
  "getAccessLatency arith app_cores m t pkt_size requester address access_type perf =
     (case m of
        DPM_Constant c \<Rightarrow> bindR (constant_getAccessLatency arith app_cores c t pkt_size requester address access_type perf)
          (\<lambda>(l, p, c'). Inr (l, p, DPM_Constant c'))
      | DPM_ReadWrite r \<Rightarrow> bindR (readwrite_getAccessLatency arith app_cores r t pkt_size requester address access_type perf)
          (\<lambda>(l, p, r'). Inr (l, p, DPM_ReadWrite r'))
      | DPM_Normal n \<Rightarrow> bindR (normal_getAccessLatency arith app_cores n t pkt_size requester address access_type perf)
          (\<lambda>(l, p, n'). Inr (l, p, DPM_Normal n')))"

section \<open>DramCntlr\<close>

record dram_cntlr =
  dm_cache_block_size :: u32
  dm_data_map :: "intptr \<rightharpoonup> byte list"
  dm_perf_model :: dram_perf_model
  dm_faults :: bool
  dm_fault_injector :: "fault_injector option"
  dm_access_count :: "dram_access \<Rightarrow> intptr \<rightharpoonup> u64"
  dm_reads :: u64
  dm_writes :: u64
  dm_dummy_perf :: shmem_perf
  dm_arith :: queue_arith
  dm_app_cores :: core_id

text \<open>\<open>faults\<close> is the injector of the fault injection manager for DRAM, if there is such a manager.\<close>

definition DramCntlr ::
  "dram_config \<Rightarrow> fault_injector option option \<Rightarrow> queue_arith \<Rightarrow> core_id \<Rightarrow> u32 \<Rightarrow> dram_cntlr result" where
  "DramCntlr cfg faults arith app_cores cache_block_size =
     bindR (createDramPerfModel cfg cache_block_size) (\<lambda>m.
     Inr \<lparr>dm_cache_block_size = cache_block_size, dm_data_map = Map.empty, dm_perf_model = m,
          dm_faults = (faults \<noteq> None), dm_fault_injector = (case faults of None \<Rightarrow> None | Some fi \<Rightarrow> fi),
          dm_access_count = (\<lambda>_. Map.empty), dm_reads = 0, dm_writes = 0, dm_dummy_perf = ShmemPerf,
          dm_arith = arith, dm_app_cores = app_cores\<rparr>)"

text \<open>\<^verbatim>\<open>memcpy\<close>.\<close>

definition copy_block :: "u32 \<Rightarrow> byte list option \<Rightarrow> byte list option \<Rightarrow> byte list option result" where
  "copy_block n dst src =
     (case (dst, src) of
        (Some d, Some s) \<Rightarrow>
          if length d < unat n \<or> length s < unat n then Inl Out_Of_Range
          else Inr (Some (take (unat n) s @ drop (unat n) d))
      | _ \<Rightarrow> Inl Null_Pointer)"

definition runDramPerfModel ::
  "dram_cntlr \<Rightarrow> core_id \<Rightarrow> subsecond \<Rightarrow> intptr \<Rightarrow> dram_access \<Rightarrow> shmem_perf option
     \<Rightarrow> (subsecond \<times> shmem_perf option \<times> dram_cntlr) result" where
  "runDramPerfModel s requester time address access_type perf =
     bindR (getAccessLatency (dm_arith s) (dm_app_cores s) (dm_perf_model s) time (ucast (dm_cache_block_size s)) requester
       address access_type perf) (\<lambda>(l, p, m). Inr (l, p, s\<lparr>dm_perf_model := m\<rparr>))"

text \<open>Disabled by a macro: the calls of \<^verbatim>\<open>addToDramAccessCount\<close> in the two accesses below.\<close>

definition addToDramAccessCount :: "dram_cntlr \<Rightarrow> intptr \<Rightarrow> dram_access \<Rightarrow> dram_cntlr" where
  "addToDramAccessCount s address access_type =
     s\<lparr>dm_access_count := (dm_access_count s)(access_type := (dm_access_count s access_type)
        (address \<mapsto> (case dm_access_count s access_type address of None \<Rightarrow> 0 | Some n \<Rightarrow> n) + 1))\<rparr>"

definition read_data :: "dram_cntlr \<Rightarrow> intptr \<Rightarrow> byte list option \<Rightarrow> (byte list option \<times> dram_cntlr) result" where
  "read_data s address data_buf =
     (if \<not> dm_faults s then Inr (data_buf, s)
      else
        let n = dm_cache_block_size s;
            block = (case dm_data_map s address of None \<Rightarrow> replicate (unat n) 0 | Some d \<Rightarrow> d) in
        bindR (case dm_fault_injector s of
                 None \<Rightarrow> Inr (None, Some block)
               | Some fi \<Rightarrow> bindR (preRead fi n (Some block) 0) (\<lambda>(fi', d). Inr (Some fi', d))) (\<lambda>(fi, d).
        bindR (copy_block n data_buf d) (\<lambda>out.
        Inr (out, s\<lparr>dm_data_map := (dm_data_map s)(address := d), dm_fault_injector := fi\<rparr>))))"

definition getDataFromDram ::
  "dram_cntlr \<Rightarrow> intptr \<Rightarrow> core_id \<Rightarrow> byte list option \<Rightarrow> subsecond \<Rightarrow> shmem_perf option
     \<Rightarrow> (subsecond \<times> where_t \<times> byte list option \<times> shmem_perf option \<times> dram_cntlr) result" where
  "getDataFromDram s address requester data_buf now perf =
     bindR (read_data s address data_buf) (\<lambda>(out, s1).
     bindR (runDramPerfModel s1 requester now address DRAM_READ perf) (\<lambda>(latency, perf', s2).
     Inr (latency, DRAM_HIT, out, perf', s2\<lparr>dm_reads := dm_reads s2 + 1\<rparr>)))"

definition write_data :: "dram_cntlr \<Rightarrow> intptr \<Rightarrow> byte list option \<Rightarrow> dram_cntlr result" where
  "write_data s address data_buf =
     (if \<not> dm_faults s then Inr s
      else
        let n = dm_cache_block_size s in
        (case dm_data_map s address of
           None \<Rightarrow> Inl Log_Error
         | Some block \<Rightarrow>
             bindR (copy_block n (Some block) data_buf) (\<lambda>d.
             bindR (case dm_fault_injector s of
                      None \<Rightarrow> Inr (None, d)
                    | Some fi \<Rightarrow> bindR (postWrite fi n d 0) (\<lambda>(fi', d'). Inr (Some fi', d'))) (\<lambda>(fi, d').
             Inr (s\<lparr>dm_data_map := (dm_data_map s)(address := d'), dm_fault_injector := fi\<rparr>)))))"

definition putDataToDram ::
  "dram_cntlr \<Rightarrow> intptr \<Rightarrow> core_id \<Rightarrow> byte list option \<Rightarrow> subsecond \<Rightarrow> (subsecond \<times> where_t \<times> dram_cntlr) result" where
  "putDataToDram s address requester data_buf now =
     bindR (write_data s address data_buf) (\<lambda>s1.
     bindR (runDramPerfModel s1 requester now address DRAM_WRITE (Some (dm_dummy_perf s1))) (\<lambda>(latency, perf', s2).
     case perf' of
       None \<Rightarrow> Inl Null_Pointer
     | Some p \<Rightarrow> Inr (latency, DRAM_HIT, s2\<lparr>dm_dummy_perf := p, dm_writes := dm_writes s2 + 1\<rparr>)))"

section \<open>Messages of the tag directory\<close>

text \<open>
  \<^verbatim>\<open>handleMsgFromTagDirectory\<close> on the two virtual functions of the interface. A message comes with
  the record of its time; the buffer of a read is not initialised.
\<close>

record dram_msg =
  dmsg_sender :: core_id
  dmsg_msg :: shmem_msg
  dmsg_perf :: shmem_perf
  dmsg_buffer :: "byte list"

record 's dram_node =
  dn_memory :: 's
  dn_cache_block_size :: u32
  dn_spm :: shmem_perf_model
  dn_outbox :: "packet list"

type_synonym 's dram_get =
  "'s \<Rightarrow> intptr \<Rightarrow> core_id \<Rightarrow> byte list option \<Rightarrow> subsecond \<Rightarrow> shmem_perf option
     \<Rightarrow> (subsecond \<times> where_t \<times> byte list option \<times> shmem_perf option \<times> 's) result"

type_synonym 's dram_put =
  "'s \<Rightarrow> intptr \<Rightarrow> core_id \<Rightarrow> byte list option \<Rightarrow> subsecond \<Rightarrow> (subsecond \<times> where_t \<times> 's) result"

definition handleMsgFromTagDirectory ::
  "'s dram_get \<Rightarrow> 's dram_put \<Rightarrow> dram_msg \<Rightarrow> 's dram_node \<Rightarrow> 's dram_node result" where
  "handleMsgFromTagDirectory get put m s =
     (let msg = dmsg_msg m;
          msg_time = spm_getElapsedTime (dn_spm s) SIM_THREAD;
          perf = sp_updateTime (dmsg_perf m) msg_time UNKNOWN_TIME;
          address = sm_address msg in
      case sm_type msg of
        DRAM_READ_REQ \<Rightarrow>
          bindR (get (dn_memory s) address (sm_requester msg) (Some (dmsg_buffer m)) msg_time (Some perf))
            (\<lambda>(dram_latency, hit_where, data_buf, perf', mem).
          bindR (spm_incrElapsedTime (dn_spm s) dram_latency SIM_THREAD) (\<lambda>spm.
          bindR (charge perf' (spm_getElapsedTime spm SIM_THREAD) (if hit_where = DRAM_CACHE_HIT then DRAM_CACHE else DRAM_TIME)) (\<lambda>perf''.
          bindR (assertR ((data_buf = None) = (dn_cache_block_size s = 0))) (\<lambda>_.
          Inr (s\<lparr>dn_memory := mem, dn_spm := spm,
                 dn_outbox := dn_outbox s @
                   [\<lparr>pk_time = spm_getElapsedTime spm SIM_THREAD, pk_receiver = dmsg_sender m,
                     pk_msg = \<lparr>sm_type = DRAM_READ_REP, sm_sender_component = MC_DRAM,
                       sm_receiver_component = TAG_DIR, sm_requester = sm_requester msg, sm_where = hit_where,
                       sm_address = address, sm_data_buf = data_buf, sm_data_length = dn_cache_block_size s\<rparr>\<rparr>]\<rparr>)))))
      | DRAM_WRITE_REQ \<Rightarrow>
          bindR (put (dn_memory s) address (sm_requester msg) (sm_data_buf msg) msg_time) (\<lambda>(_, _, mem).
          Inr (s\<lparr>dn_memory := mem\<rparr>))
      | _ \<Rightarrow> Inl Log_Error)"

text \<open>The messages of a run.\<close>

primrec dram_run :: "'s dram_get \<Rightarrow> 's dram_put \<Rightarrow> dram_msg list \<Rightarrow> 's dram_node \<Rightarrow> 's dram_node result" where
  "dram_run get put [] s = Inr s"
| "dram_run get put (m # ms) s = bindR (handleMsgFromTagDirectory get put m s) (dram_run get put ms)"

text \<open>What memory should answer: the contents at the time of each read.\<close>

definition mem_write :: "nat \<Rightarrow> (intptr \<Rightarrow> byte list) \<Rightarrow> shmem_msg \<Rightarrow> intptr \<Rightarrow> byte list" where
  "mem_write n mem msg = mem(sm_address msg := (case sm_data_buf msg of None \<Rightarrow> [] | Some d \<Rightarrow> take n d))"

primrec mem_answers :: "nat \<Rightarrow> (intptr \<Rightarrow> byte list) \<Rightarrow> shmem_msg list \<Rightarrow> (intptr \<times> byte list) list" where
  "mem_answers n mem [] = []"
| "mem_answers n mem (msg # msgs) =
     (if sm_type msg = DRAM_READ_REQ then (sm_address msg, mem (sm_address msg)) # mem_answers n mem msgs
      else mem_answers n (mem_write n mem msg) msgs)"

section \<open>Reads return the last write\<close>

text \<open>
  The contract of the interface: the memory behind it has contents, reads return them and
  writes change them at one address.
\<close>

locale dram_interface =
  fixes get :: "'s dram_get" and put :: "'s dram_put"
    and contents :: "'s \<Rightarrow> intptr \<Rightarrow> byte list" and valid :: "'s \<Rightarrow> bool" and block :: nat
  assumes get_contents: "valid s \<Longrightarrow> length buf = block \<Longrightarrow>
      wpR (get s a c (Some buf) t perf) (\<lambda>(_, _, out, _, s'). valid s' \<and> out = Some (contents s a) \<and> contents s' = contents s)"
    and put_contents: "valid s \<Longrightarrow>
      wpR (put s a c d t) (\<lambda>(_, _, s'). valid s' \<and> (\<exists>b. d = Some b \<and> contents s' = (contents s)(a := take block b)))"
begin

lemma handle_contents:
  assumes "valid (dn_memory s)" and "length (dmsg_buffer m) = block" and "handleMsgFromTagDirectory get put m s = Inr s'"
  defines "read \<equiv> sm_type (dmsg_msg m) = DRAM_READ_REQ"
  shows "valid (dn_memory s')"
    and "contents (dn_memory s') = (if read then contents (dn_memory s) else mem_write block (contents (dn_memory s)) (dmsg_msg m))"
    and "map (\<lambda>p. (sm_address (pk_msg p), sm_data_buf (pk_msg p))) (dn_outbox s')
      = map (\<lambda>p. (sm_address (pk_msg p), sm_data_buf (pk_msg p))) (dn_outbox s) @
        (if read then [(sm_address (dmsg_msg m), Some (contents (dn_memory s) (sm_address (dmsg_msg m))))] else [])"
proof -
  have "valid (dn_memory s') \<and>
    contents (dn_memory s') = (if read then contents (dn_memory s) else mem_write block (contents (dn_memory s)) (dmsg_msg m)) \<and>
    map (\<lambda>p. (sm_address (pk_msg p), sm_data_buf (pk_msg p))) (dn_outbox s')
      = map (\<lambda>p. (sm_address (pk_msg p), sm_data_buf (pk_msg p))) (dn_outbox s) @
        (if read then [(sm_address (dmsg_msg m), Some (contents (dn_memory s) (sm_address (dmsg_msg m))))] else [])"
    using assms(3) get_contents [OF assms(1,2)] put_contents [OF assms(1)]
    by (fastforce simp: handleMsgFromTagDirectory_def Let_def read_def wpR_def mem_write_def split: msg_t.splits)
  then show "valid (dn_memory s')"
    and "contents (dn_memory s') = (if read then contents (dn_memory s) else mem_write block (contents (dn_memory s)) (dmsg_msg m))"
    and "map (\<lambda>p. (sm_address (pk_msg p), sm_data_buf (pk_msg p))) (dn_outbox s')
      = map (\<lambda>p. (sm_address (pk_msg p), sm_data_buf (pk_msg p))) (dn_outbox s) @
        (if read then [(sm_address (dmsg_msg m), Some (contents (dn_memory s) (sm_address (dmsg_msg m))))] else [])"
    by blast+
qed

lemma run_contents:
  assumes "valid (dn_memory s)" and "\<And>m. m \<in> set ms \<Longrightarrow> length (dmsg_buffer m) = block" and "dram_run get put ms s = Inr s'"
  shows "map (\<lambda>p. (sm_address (pk_msg p), sm_data_buf (pk_msg p))) (dn_outbox s')
    = map (\<lambda>p. (sm_address (pk_msg p), sm_data_buf (pk_msg p))) (dn_outbox s) @
      map (\<lambda>(a, d). (a, Some d)) (mem_answers block (contents (dn_memory s)) (map dmsg_msg ms))"
  using assms
proof (induction ms arbitrary: s)
  case (Cons m ms)
  from Cons.prems(3) obtain s1 where s1: "handleMsgFromTagDirectory get put m s = Inr s1" "dram_run get put ms s1 = Inr s'" by auto
  note h = handle_contents [OF Cons.prems(1) _ s1(1)]
  from Cons.IH [OF h(1) _ s1(2)] Cons.prems h(2,3) show ?case by simp
qed simp

end

text \<open>The controller, with a fault injection manager that injects nothing, keeps the contract.\<close>

definition dram_contents :: "dram_cntlr \<Rightarrow> intptr \<Rightarrow> byte list" where
  "dram_contents s a = (case dm_data_map s a of None \<Rightarrow> replicate (unat (dm_cache_block_size s)) 0 | Some d \<Rightarrow> d)"

definition dram_valid :: "u32 \<Rightarrow> dram_cntlr \<Rightarrow> bool" where
  "dram_valid n s \<longleftrightarrow> dm_cache_block_size s = n \<and> dm_faults s \<and>
     (dm_fault_injector s = None \<or> dm_fault_injector s = Some FaultInjector) \<and>
     (\<forall>a d. dm_data_map s a = Some d \<longrightarrow> length d = unat n)"

lemma dram_valid_perf [simp]:
  "dram_valid n (s\<lparr>dm_perf_model := m\<rparr>) = dram_valid n s" "dram_valid n (s\<lparr>dm_reads := r\<rparr>) = dram_valid n s"
  "dram_valid n (s\<lparr>dm_dummy_perf := p, dm_writes := r\<rparr>) = dram_valid n s"
  "dram_contents (s\<lparr>dm_perf_model := m\<rparr>) = dram_contents s" "dram_contents (s\<lparr>dm_reads := r\<rparr>) = dram_contents s"
  "dram_contents (s\<lparr>dm_dummy_perf := p, dm_writes := r\<rparr>) = dram_contents s"
  by (simp_all add: dram_valid_def dram_contents_def fun_eq_iff split: option.split)

lemma same_injector:
  "dm_fault_injector s = fi \<Longrightarrow> s\<lparr>dm_data_map := m, dm_fault_injector := fi\<rparr> = s\<lparr>dm_data_map := m\<rparr>"
  by auto

lemma read_data_eq:
  assumes "dram_valid n s"
  shows "read_data s a buf = bindR (copy_block n buf (Some (dram_contents s a))) (\<lambda>out.
    Inr (out, s\<lparr>dm_data_map := (dm_data_map s)(a \<mapsto> dram_contents s a)\<rparr>))"
  using assms by (auto simp: dram_valid_def read_data_def preRead_def dram_contents_def Let_def same_injector)

lemma dram_contents_put:
  assumes "dram_valid n s" and "length d = unat n"
  shows "dram_valid n (s\<lparr>dm_data_map := (dm_data_map s)(a \<mapsto> d)\<rparr>)"
    and "dram_contents (s\<lparr>dm_data_map := (dm_data_map s)(a \<mapsto> d)\<rparr>) = (dram_contents s)(a := d)"
  using assms by (simp_all add: dram_valid_def dram_contents_def fun_eq_iff split: option.split)

lemma length_dram_contents: "dram_valid n s \<Longrightarrow> length (dram_contents s a) = unat n"
  by (simp add: dram_valid_def dram_contents_def split: option.split)

lemma read_data_valid:
  assumes "dram_valid n s" and "length buf = unat n" and "read_data s a (Some buf) = Inr (out, s')"
  shows "dram_valid n s' \<and> out = Some (dram_contents s a) \<and> dram_contents s' = dram_contents s"
  using assms(3) dram_contents_put [OF assms(1) length_dram_contents [OF assms(1)], of a a] length_dram_contents [OF assms(1)] assms(2)
  by (auto simp: read_data_eq [OF assms(1)] copy_block_def)

lemma write_data_valid:
  assumes "dram_valid n s" and "write_data s a d = Inr s'"
  shows "dram_valid n s' \<and> (\<exists>b. d = Some b \<and> dram_contents s' = (dram_contents s)(a := take (unat n) b))"
proof -
  from assms(2) obtain block b where a: "dm_data_map s a = Some block" and b: "d = Some b" "unat n \<le> length b"
    and s': "s' = s\<lparr>dm_data_map := (dm_data_map s)(a \<mapsto> take (unat n) b)\<rparr>"
    using assms(1)
    by (auto simp: write_data_def dram_valid_def Let_def copy_block_def postWrite_def same_injector split: option.splits if_splits)
  show ?thesis using dram_contents_put [OF assms(1), of "take (unat n) b" a] b by (simp add: s')
qed

interpretation dram: dram_interface getDataFromDram putDataToDram dram_contents "dram_valid n" "unat n" for n
proof
  show "wpR (getDataFromDram s a c (Some buf) t perf)
      (\<lambda>(_, _, out, _, s'). dram_valid n s' \<and> out = Some (dram_contents s a) \<and> dram_contents s' = dram_contents s)"
    if "dram_valid n s" "length buf = unat n" for s a c buf t perf
    using read_data_valid [OF that] by (fastforce simp: getDataFromDram_def runDramPerfModel_def wpR_def)
  show "wpR (putDataToDram s a c d t)
      (\<lambda>(_, _, s'). dram_valid n s' \<and> (\<exists>b. d = Some b \<and> dram_contents s' = (dram_contents s)(a := take (unat n) b)))"
    if "dram_valid n s" for s a c d t
    using write_data_valid [OF that] by (fastforce simp: putDataToDram_def runDramPerfModel_def wpR_def split: option.splits)
qed

text \<open>
  C8. Memory keeps data: with fault injection enabled but no faults, every reply of the DRAM
  controller carries the data of the last write to the address, zeroes if there was none.
\<close>

theorem dram_answers_last_write:
  assumes "DramCntlr cfg (Some fi) arith app_cores n = Inr mem" and "fi = None \<or> fi = Some FaultInjector"
    and "\<forall>m \<in> set ms. length (dmsg_buffer m) = unat n"
    and "dram_run getDataFromDram putDataToDram ms
      \<lparr>dn_memory = mem, dn_cache_block_size = n, dn_spm = spm, dn_outbox = []\<rparr> = Inr s"
  shows "map (\<lambda>p. (sm_address (pk_msg p), sm_data_buf (pk_msg p))) (dn_outbox s)
    = map (\<lambda>(a, d). (a, Some d)) (mem_answers (unat n) (\<lambda>_. replicate (unat n) 0) (map dmsg_msg ms))"
proof -
  have "dram_valid n mem" "dram_contents mem = (\<lambda>_. replicate (unat n) 0)"
    using assms(1,2) by (auto simp: DramCntlr_def dram_valid_def dram_contents_def)
  with dram.run_contents [OF _ _ assms(4), of n] assms(3) show ?thesis by simp
qed

definition demo_dram_config :: dram_config where
  "demo_dram_config = \<lparr>dcf_type = ''constant'', dcf_bandwidth = 64000, dcf_latency = 45000000, dcf_queue_type = None,
     dcf_queue = \<lparr>qc_moving_avg_enabled = False, qc_moving_avg_window_size = 0, qc_moving_avg_type = [],
       qc_analytical_model_enabled = False, qc_max_list_size = 0, qc_window_size = 0, qc_core_period = 0\<rparr>,
     dcf_shared = False, dcf_normal = (\<lambda>_. 0)\<rparr>"

definition demo_dram_msg :: "msg_t \<Rightarrow> byte list option \<Rightarrow> dram_msg" where
  "demo_dram_msg type data = \<lparr>dmsg_sender = 1,
     dmsg_msg = \<lparr>sm_type = type, sm_sender_component = TAG_DIR, sm_receiver_component = MC_DRAM,
       sm_requester = 1, sm_where = UNKNOWN, sm_address = 64, sm_data_buf = data,
       sm_data_length = (if data = None then 0 else 2)\<rparr>,
     dmsg_perf = ShmemPerf, dmsg_buffer = [9, 9]\<rparr>"

definition demo_dram_msgs :: "dram_msg list" where
  "demo_dram_msgs = [demo_dram_msg DRAM_READ_REQ None, demo_dram_msg DRAM_WRITE_REQ (Some [7, 8]), demo_dram_msg DRAM_READ_REQ None]"

definition demo_dram_run :: "dram_cntlr dram_node result" where
  "demo_dram_run =
     bindR (DramCntlr demo_dram_config (Some None) demo_arith 4 2) (\<lambda>mem.
     dram_run getDataFromDram putDataToDram demo_dram_msgs
       \<lparr>dn_memory = mem, dn_cache_block_size = 2, dn_spm = ShmemPerfModel, dn_outbox = []\<rparr>)"

theorem dram_answers_last_write_witness:
  "\<exists>s. demo_dram_run = Inr s \<and> map (\<lambda>p. (sm_address (pk_msg p), sm_data_buf (pk_msg p))) (dn_outbox s)
     = [(64, Some [0, 0]), (64, Some [7, 8])]"
proof -
  have "case demo_dram_run of Inl er \<Rightarrow> False | Inr s \<Rightarrow> True" by code_simp
  then obtain mem s where mem: "DramCntlr demo_dram_config (Some None) demo_arith 4 2 = Inr mem"
    and s: "dram_run getDataFromDram putDataToDram demo_dram_msgs
       \<lparr>dn_memory = mem, dn_cache_block_size = 2, dn_spm = ShmemPerfModel, dn_outbox = []\<rparr> = Inr s"
      "demo_dram_run = Inr s"
    by (auto simp: demo_dram_run_def split: sum.splits)
  have buf: "\<forall>m \<in> set demo_dram_msgs. length (dmsg_buffer m) = unat (2 :: u32)"
    by (simp add: demo_dram_msgs_def demo_dram_msg_def)
  have zeros: "replicate 2 (0 :: byte) = [0, 0]" by (simp add: numeral_2_eq_2)
  from dram_answers_last_write [OF mem _ buf s(1)] s(2) show ?thesis
    by (auto simp: demo_dram_msgs_def demo_dram_msg_def mem_write_def zeros)
qed

section \<open>Reads are not delayed by writes\<close>

text \<open>Sequences of accesses; each comes with the record of its time.\<close>

record dram_request =
  rqst_time :: subsecond
  rqst_size :: u64
  rqst_requester :: core_id
  rqst_address :: intptr
  rqst_type :: dram_access
  rqst_perf :: "shmem_perf option"

primrec dram_latencies ::
  "('m \<Rightarrow> subsecond \<Rightarrow> u64 \<Rightarrow> core_id \<Rightarrow> intptr \<Rightarrow> dram_access \<Rightarrow> shmem_perf option \<Rightarrow> (subsecond \<times> shmem_perf option \<times> 'm) result)
     \<Rightarrow> 'm \<Rightarrow> dram_request list \<Rightarrow> (dram_request \<times> subsecond) list result" where
  "dram_latencies f m [] = Inr []"
| "dram_latencies f m (r # rs) =
     bindR (f m (rqst_time r) (rqst_size r) (rqst_requester r) (rqst_address r) (rqst_type r) (rqst_perf r)) (\<lambda>(l, _, m').
     bindR (dram_latencies f m' rs) (\<lambda>ls. Inr ((r, l) # ls)))"

text \<open>The read queue of the read-write model is the queue of the constant model.\<close>

definition same_reads :: "dram_perf_readwrite \<Rightarrow> dram_perf_constant \<Rightarrow> bool" where
  "same_reads m c \<longleftrightarrow> dpr_enabled m = dpc_enabled c \<and> dpr_queue_model_read m = dpc_queue_model c \<and>
     dpr_access_cost m = dpc_access_cost c \<and> dpr_bandwidth m = dpc_bandwidth c"

lemma same_reads_read:
  assumes "same_reads m c" and "readwrite_getAccessLatency arith n m t sz rq a DRAM_READ perf = Inr (l, perf', m')"
  shows "\<exists>c'. constant_getAccessLatency arith n c t sz rq a DRAM_READ perf = Inr (l, perf', c') \<and> same_reads m' c'"
  using assms
  by (cases "dpc_queue_model c")
    (auto simp: readwrite_getAccessLatency_def constant_getAccessLatency_def same_reads_def readwrite_queues_def Let_def
      optional_queue_delay_def split: if_splits option.splits)

lemma same_reads_write:
  assumes "same_reads m c" and "readwrite_getAccessLatency arith n m t sz rq a DRAM_WRITE perf = Inr (l, perf', m')"
  shows "same_reads m' c"
  using assms
  by (auto simp: readwrite_getAccessLatency_def same_reads_def readwrite_queues_def Let_def split: if_splits option.splits)

lemma same_reads_latencies:
  assumes "same_reads m c" and "dram_latencies (readwrite_getAccessLatency arith n) m rs = Inr ls"
  shows "dram_latencies (constant_getAccessLatency arith n) c (filter (\<lambda>r. rqst_type r = DRAM_READ) rs)
    = Inr (filter (\<lambda>(r, l). rqst_type r = DRAM_READ) ls)"
  using assms
proof (induction rs arbitrary: m c ls)
  case (Cons r rs)
  from Cons.prems(2) obtain l p m' ls' where
    m': "readwrite_getAccessLatency arith n m (rqst_time r) (rqst_size r) (rqst_requester r) (rqst_address r) (rqst_type r) (rqst_perf r) = Inr (l, p, m')"
    and ls: "dram_latencies (readwrite_getAccessLatency arith n) m' rs = Inr ls'" "ls = (r, l) # ls'" by auto
  show ?case
  proof (cases "rqst_type r")
    case DRAM_READ
    with same_reads_read [OF Cons.prems(1)] m' Cons.IH [OF _ ls(1)] ls(2) show ?thesis by fastforce
  next
    case DRAM_WRITE
    with same_reads_write [OF Cons.prems(1)] m' Cons.IH [OF _ ls(1)] ls(2) show ?thesis by simp
  qed
qed simp

text \<open>
  C37. The model with separate read and write queues gives reads priority: the latencies of the
  reads in any sequence of reads and writes are those of the constant model on the reads alone,
  whether the bandwidth is shared or not.
\<close>

theorem reads_not_delayed_by_writes:
  assumes "DramPerfModelReadWrite cfg block = Inr m" and "DramPerfModelConstant cfg block = Inr c"
    and "dram_latencies (readwrite_getAccessLatency arith n) (m\<lparr>dpr_enabled := True\<rparr>) rs = Inr ls"
  shows "dram_latencies (constant_getAccessLatency arith n) (c\<lparr>dpc_enabled := True\<rparr>) (filter (\<lambda>r. rqst_type r = DRAM_READ) rs)
    = Inr (filter (\<lambda>(r, l). rqst_type r = DRAM_READ) ls)"
proof (rule same_reads_latencies [OF _ assms(3)])
  show "same_reads (m\<lparr>dpr_enabled := True\<rparr>) (c\<lparr>dpc_enabled := True\<rparr>)"
    using assms(1,2) by (auto simp: DramPerfModelReadWrite_def DramPerfModelConstant_def same_reads_def)
qed

definition demo_dram_request :: "dram_access \<Rightarrow> subsecond \<Rightarrow> dram_request" where
  "demo_dram_request ty t = \<lparr>rqst_time = t, rqst_size = 64, rqst_requester = 0, rqst_address = 0, rqst_type = ty, rqst_perf = Some ShmemPerf\<rparr>"

text \<open>Three accesses at about the same time, with queues: the write does not delay the second read, the first read does.\<close>

theorem reads_not_delayed_by_writes_witness:
  "\<exists>m c ls. DramPerfModelReadWrite (demo_dram_config\<lparr>dcf_queue_type := Some ''contention''\<rparr>) 64 = Inr m \<and>
     DramPerfModelConstant (demo_dram_config\<lparr>dcf_queue_type := Some ''contention''\<rparr>) 64 = Inr c \<and>
     dram_latencies (readwrite_getAccessLatency demo_arith 4) (m\<lparr>dpr_enabled := True\<rparr>)
       [demo_dram_request DRAM_READ 1000, demo_dram_request DRAM_WRITE 2000, demo_dram_request DRAM_READ 3000] = Inr ls \<and>
     map snd ls = [53007812, 53007812, 61013624] \<and>
     dram_latencies (constant_getAccessLatency demo_arith 4) (c\<lparr>dpc_enabled := True\<rparr>)
       [demo_dram_request DRAM_READ 1000, demo_dram_request DRAM_READ 3000] = Inr (filter (\<lambda>(r, l). rqst_type r = DRAM_READ) ls)"
proof -
  let ?cfg = "demo_dram_config\<lparr>dcf_queue_type := Some ''contention''\<rparr>"
  let ?rs = "[demo_dram_request DRAM_READ 1000, demo_dram_request DRAM_WRITE 2000, demo_dram_request DRAM_READ 3000]"
  have "case DramPerfModelReadWrite ?cfg 64 of Inl er \<Rightarrow> False | Inr m \<Rightarrow>
     (case dram_latencies (readwrite_getAccessLatency demo_arith 4) (m\<lparr>dpr_enabled := True\<rparr>) ?rs of
        Inl er \<Rightarrow> False | Inr ls \<Rightarrow> map snd ls = [53007812, 53007812, 61013624])" by code_simp
  then obtain m ls where m: "DramPerfModelReadWrite ?cfg 64 = Inr m"
    and ls: "dram_latencies (readwrite_getAccessLatency demo_arith 4) (m\<lparr>dpr_enabled := True\<rparr>) ?rs = Inr ls"
      "map snd ls = [53007812, 53007812, 61013624]" by (auto split: sum.splits)
  have "case DramPerfModelConstant ?cfg 64 of Inl er \<Rightarrow> False | Inr c \<Rightarrow> True" by code_simp
  then obtain c where c: "DramPerfModelConstant ?cfg 64 = Inr c" by (auto split: sum.splits)
  have f: "filter (\<lambda>r. rqst_type r = DRAM_READ) ?rs = [demo_dram_request DRAM_READ 1000, demo_dram_request DRAM_READ 3000]"
    by (simp add: demo_dram_request_def)
  show ?thesis
    by (intro exI conjI, rule m, rule c, rule ls(1), rule ls(2)) (rule reads_not_delayed_by_writes [OF m c ls(1), unfolded f])
qed

end
