(* ===== verification/Dram_Cache.thy ===== *)
theory Dram_Cache
  imports Dram
begin

text \<open>
  The DRAM cache (\<^verbatim>\<open>dram/dram_cache.cc\<close>): a cache in front of a DRAM controller, behind the same
  interface, with an optional prefetcher.
\<close>

section \<open>Model\<close>

text \<open>\<open>dch_uninit\<close> is what buffers on the stack hold before they are written.\<close>

record dram_cache =
  dch_core_id :: core_id
  dch_cache_block_size :: u32
  dch_data_access_time :: subsecond
  dch_tags_access_time :: subsecond
  dch_bandwidth :: u64
  dch_dram_cntlr :: dram_cntlr
  dch_cache :: cache
  dch_queue_model :: "queue_model option"
  dch_prefetcher :: "prefetcher option"
  dch_prefetch_on_prefetch_hit :: bool
  dch_prefetch_mshr :: contention
  dch_reads :: u64
  dch_writes :: u64
  dch_read_misses :: u64
  dch_write_misses :: u64
  dch_hits_prefetch :: u64
  dch_prefetches :: u64
  dch_prefetch_mshr_delay :: subsecond
  dch_arith :: queue_arith
  dch_abs :: "u64 \<Rightarrow> u64"
  dch_uninit :: "byte list"

record dram_cache_parameters =
  dcp_cache_size :: u32
  dcp_associativity :: u32
  dcp_replacement_policy :: string
  dcp_hash_function :: string
  dcp_data_access_time :: subsecond
  dcp_tags_access_time :: subsecond
  dcp_bandwidth :: u64
  dcp_queue_model :: "string option"
  dcp_prefetcher :: string
  dcp_prefetch_on_prefetch_hit :: bool

definition DramCache ::
  "repl_config \<Rightarrow> queue_config \<Rightarrow> prefetcher_config \<Rightarrow> subsecond \<Rightarrow> queue_arith \<Rightarrow> (u64 \<Rightarrow> u64) \<Rightarrow> byte list \<Rightarrow> core_id
     \<Rightarrow> address_home_lookup option \<Rightarrow> u32 \<Rightarrow> dram_cntlr \<Rightarrow> dram_cache_parameters \<Rightarrow> dram_cache result" where
  "DramCache rcfg qcfg pcfg period arith c_abs uninit core_id home_lookup cache_block_size dram_cntlr parameters =
     (let cache_size = dcp_cache_size parameters; associativity = dcp_associativity parameters in
      bindR (if associativity * cache_block_size = 0 then Inl Div_By_Zero
             else Inr (1024 * cache_size div (associativity * cache_block_size))) (\<lambda>num_sets.
      bindR (assertR (1024 * cache_size = num_sets * associativity * cache_block_size)) (\<lambda>_.
      bindR (parseAddressHash (dcp_hash_function parameters)) (\<lambda>hash.
      bindR (Cache rcfg (dm_faults dram_cntlr) num_sets associativity cache_block_size (dcp_replacement_policy parameters)
        PR_L1_CACHE hash None home_lookup) (\<lambda>c.
      bindR (case dcp_queue_model parameters of
               None \<Rightarrow> Inr None
             | Some ty \<Rightarrow>
                 bindR (bw_getRoundedLatency (dcp_bandwidth parameters) (ucast (8 * cache_block_size))) (\<lambda>t.
                 bindR (QueueModel_create qcfg ty t) (\<lambda>q. Inr (Some q)))) (\<lambda>qm.
      bindR (createPrefetcher pcfg (dcp_prefetcher parameters) core_id 1) (\<lambda>pf.
      Inr \<lparr>dch_core_id = core_id, dch_cache_block_size = cache_block_size,
           dch_data_access_time = dcp_data_access_time parameters, dch_tags_access_time = dcp_tags_access_time parameters,
           dch_bandwidth = dcp_bandwidth parameters, dch_dram_cntlr = dram_cntlr, dch_cache = c, dch_queue_model = qm,
           dch_prefetcher = pf, dch_prefetch_on_prefetch_hit = dcp_prefetch_on_prefetch_hit parameters,
           dch_prefetch_mshr = ContentionModel period 16, dch_reads = 0, dch_writes = 0, dch_read_misses = 0,
           dch_write_misses = 0, dch_hits_prefetch = 0, dch_prefetches = 0, dch_prefetch_mshr_delay = 0,
           dch_arith = arith, dch_abs = c_abs, dch_uninit = uninit\<rparr>)))))))"

definition dch_accessDataArray ::
  "dram_cache \<Rightarrow> subsecond \<Rightarrow> shmem_perf option \<Rightarrow> (subsecond \<times> shmem_perf option \<times> dram_cache) result" where
  "dch_accessDataArray s t_start perf =
     bindR (bw_getRoundedLatency (dch_bandwidth s) (ucast (8 * dch_cache_block_size s))) (\<lambda>processing_time.
     bindR (optional_queue_delay (dch_arith s) (dch_queue_model s) t_start processing_time) (\<lambda>(queue_delay, q).
     bindR (charge_access perf t_start queue_delay processing_time (dch_data_access_time s)
       DRAM_CACHE_QUEUE DRAM_CACHE_BUS DRAM_CACHE_DATA) (\<lambda>perf'.
     Inr (queue_delay + processing_time + dch_data_access_time s, perf', s\<lparr>dch_queue_model := q\<rparr>))))"

text \<open>
  \<^verbatim>\<open>insertLine\<close>: a modified line that is evicted is written to DRAM with the data of the line
  that takes its place.
\<close>

definition dch_insertLine ::
  "dram_cache \<Rightarrow> access_t \<Rightarrow> intptr \<Rightarrow> core_id \<Rightarrow> byte list option \<Rightarrow> subsecond \<Rightarrow> dram_cache result" where
  "dch_insertLine s access address requester data_buf now =
     bindR (CacheBlockInfo_create PR_L1_CACHE) (\<lambda>info0.
     bindR (outcomeR (insertSingleLine (dch_cache s) address data_buf info0 (Some (dch_uninit s)) None))
       (\<lambda>(eviction, evict_address, evict_block_info, evict_buf, c, _).
     bindR (peekSingleLine c address) (\<lambda>p.
     case p of
       None \<Rightarrow> Inl Null_Pointer
     | Some ptr \<Rightarrow>
         let c' = assign_line c ptr ((deref c ptr)\<lparr>m_cstate := if access = STORE then MODIFIED else SHARED\<rparr>) in
         bindR (dch_accessDataArray (s\<lparr>dch_cache := c'\<rparr>) now None) (\<lambda>(_, _, s1).
         if eviction \<and> m_cstate evict_block_info = MODIFIED then
           bindR (putDataToDram (dch_dram_cntlr s1) evict_address requester data_buf now) (\<lambda>(_, _, d).
           Inr (s1\<lparr>dch_dram_cntlr := d\<rparr>))
         else Inr s1))))"

primrec dch_prefetch :: "dram_cache \<Rightarrow> subsecond \<Rightarrow> intptr list \<Rightarrow> dram_cache result" where
  "dch_prefetch s t_issue [] = Inr s"
| "dch_prefetch s t_issue (a # as) =
     bindR (peekSingleLine (dch_cache s) a) (\<lambda>p.
     bindR (case p of
         Some _ \<Rightarrow> Inr s
       | None \<Rightarrow>
           bindR (getDataFromDram (dch_dram_cntlr s) a (dch_core_id s) (Some (dch_uninit s)) t_issue None)
             (\<lambda>(dram_latency, _, data_buf, _, d).
           bindR (dch_insertLine (s\<lparr>dch_dram_cntlr := d\<rparr>) LOAD a (dch_core_id s) data_buf (t_issue + dram_latency)) (\<lambda>s1.
           bindR (peekSingleLine (dch_cache s1) a) (\<lambda>p1.
           case p1 of
             None \<Rightarrow> Inl Null_Pointer
           | Some ptr \<Rightarrow>
               let c = assign_line (dch_cache s1) ptr (setOption (deref (dch_cache s1) ptr) PREFETCH);
                   (_, mshr) = getCompletionTime (dch_prefetch_mshr s1) t_issue dram_latency a
               in Inr (s1\<lparr>dch_cache := c, dch_prefetch_mshr := mshr, dch_prefetches := dch_prefetches s1 + 1\<rparr>))))) (\<lambda>s2.
     dch_prefetch s2 t_issue as))"

definition callPrefetcher ::
  "dram_cache \<Rightarrow> prefetcher \<Rightarrow> intptr \<Rightarrow> bool \<Rightarrow> bool \<Rightarrow> subsecond \<Rightarrow> dram_cache result" where
  "callPrefetcher s pf train_address cache_hit prefetch_hit t_issue =
     bindR (getNextAddress (dch_abs s) pf train_address INVALID_CORE_ID) (\<lambda>(prefetchList, pf').
     let s1 = s\<lparr>dch_prefetcher := Some pf'\<rparr> in
     if \<not> cache_hit \<or> (dch_prefetch_on_prefetch_hit s \<and> prefetch_hit) then dch_prefetch s1 t_issue prefetchList else Inr s1)"

definition doAccess_hit ::
  "dram_cache \<Rightarrow> access_t \<Rightarrow> intptr \<Rightarrow> line_ptr \<Rightarrow> byte list option \<Rightarrow> subsecond \<Rightarrow> subsecond \<Rightarrow> shmem_perf option
     \<Rightarrow> (bool \<times> subsecond \<times> byte list option \<times> shmem_perf option \<times> dram_cache) result" where
  "doAccess_hit s access address ptr data_buf now latency perf =
     (let line = deref (dch_cache s) ptr;
          prefetch_hit = hasOption line PREFETCH;
          t_completed = getTagCompletionTime (dch_prefetch_mshr s) address;
          wait = (prefetch_hit \<and> t_completed \<noteq> ST_MaxTime \<and> t_completed > now + latency);
          s1 = (if prefetch_hit
                then s\<lparr>dch_hits_prefetch := dch_hits_prefetch s + 1,
                       dch_cache := assign_line (dch_cache s) ptr (clearOption line PREFETCH)\<rparr> else s);
          s2 = (if wait then s1\<lparr>dch_prefetch_mshr_delay := dch_prefetch_mshr_delay s1 + (t_completed - (now + latency))\<rparr> else s1);
          latency1 = (if wait then t_completed - now else latency) in
      bindR (accessSingleLine (dch_cache s2) address access data_buf (dch_cache_block_size s2) True) (\<lambda>(_, out, c).
      bindR (dch_accessDataArray (s2\<lparr>dch_cache := c\<rparr>) (now + latency1) perf) (\<lambda>(t, perf', s3).
      Inr (prefetch_hit, latency1 + t, out, perf',
           if access = STORE
           then s3\<lparr>dch_cache := assign_line (dch_cache s3) ptr ((deref (dch_cache s3) ptr)\<lparr>m_cstate := MODIFIED\<rparr>)\<rparr> else s3))))"

definition doAccess ::
  "dram_cache \<Rightarrow> access_t \<Rightarrow> intptr \<Rightarrow> core_id \<Rightarrow> byte list option \<Rightarrow> subsecond \<Rightarrow> shmem_perf option
     \<Rightarrow> (bool \<times> subsecond \<times> byte list option \<times> shmem_perf option \<times> dram_cache) result" where
  "doAccess s access address requester data_buf now perf =
     bindR (peekSingleLine (dch_cache s) address) (\<lambda>block_info.
     let latency = dch_tags_access_time s in
     bindR (charge perf now UNKNOWN_TIME) (\<lambda>p1.
     bindR (charge p1 (now + latency) DRAM_CACHE_TAGS) (\<lambda>p2.
     bindR (case block_info of
              Some ptr \<Rightarrow> doAccess_hit s access address ptr data_buf now latency p2
            | None \<Rightarrow>
                bindR (if access = LOAD then
                         bindR (getDataFromDram (dch_dram_cntlr s) address requester data_buf (now + latency) p2)
                           (\<lambda>(dram_latency, _, out, p3, d). Inr (latency + dram_latency, out, p3, s\<lparr>dch_dram_cntlr := d\<rparr>))
                       else Inr (latency, data_buf, p2, s)) (\<lambda>(latency1, out, p3, s1).
                bindR (dch_insertLine s1 access address requester out (now + latency1)) (\<lambda>s2.
                Inr (False, latency1, out, p3, s2)))) (\<lambda>(prefetch_hit, latency2, out, perf', s3).
     bindR (case dch_prefetcher s3 of
              None \<Rightarrow> Inr s3
            | Some pf \<Rightarrow> callPrefetcher s3 pf address (block_info \<noteq> None) prefetch_hit (now + latency2)) (\<lambda>s4.
     Inr (block_info \<noteq> None, latency2, out, perf', s4))))))"

definition dch_getDataFromDram :: "dram_cache dram_get" where
  "dch_getDataFromDram s address requester data_buf now perf =
     bindR (doAccess s LOAD address requester data_buf now perf) (\<lambda>(hit, latency, out, perf', s1).
     let s2 = (if hit then s1 else s1\<lparr>dch_read_misses := dch_read_misses s1 + 1\<rparr>) in
     Inr (latency, if hit then DRAM_CACHE_HIT else DRAM_HIT, out, perf', s2\<lparr>dch_reads := dch_reads s2 + 1\<rparr>))"

definition dch_putDataToDram :: "dram_cache dram_put" where
  "dch_putDataToDram s address requester data_buf now =
     bindR (doAccess s STORE address requester data_buf now None) (\<lambda>(hit, latency, _, _, s1).
     let s2 = (if hit then s1 else s1\<lparr>dch_write_misses := dch_write_misses s1 + 1\<rparr>) in
     Inr (latency, if hit then DRAM_CACHE_HIT else DRAM_HIT, s2\<lparr>dch_writes := dch_writes s2 + 1\<rparr>))"

section \<open>Null pointers\<close>

lemma charge_access_None: "charge_access None t q p c r1 r2 r3 = Inl Null_Pointer"
  by (simp add: charge_access_def charge_def)

lemma dch_accessDataArray_None: "wpR (dch_accessDataArray s t None) (\<lambda>_. False)"
  by (auto simp: dch_accessDataArray_def charge_access_None wpR_def)

lemma dch_insertLine_fails: "wpR (dch_insertLine s access a c d t) (\<lambda>_. False)"
  using dch_accessDataArray_None by (fastforce simp: dch_insertLine_def Let_def wpR_def split: option.splits)

text \<open>
  C39. The DRAM cache cannot be used: it charges times through null pointers. No write returns,
  and no read of a line that is not cached, so that the cache never holds a line.
\<close>

theorem dram_cache_fails:
  "(\<nexists>r. dch_putDataToDram s a c d t = Inr r) \<and>
   (peekSingleLine (dch_cache s) a = Inr None \<longrightarrow> (\<nexists>r. dch_getDataFromDram s a c d t perf = Inr r))"
proof
  show "\<nexists>r. dch_putDataToDram s a c d t = Inr r"
    by (auto simp: dch_putDataToDram_def doAccess_def charge_def Let_def)
  show "peekSingleLine (dch_cache s) a = Inr None \<longrightarrow> (\<nexists>r. dch_getDataFromDram s a c d t perf = Inr r)"
    using dch_insertLine_fails by (fastforce simp: dch_getDataFromDram_def doAccess_def Let_def wpR_def)
qed

definition demo_dram_cache :: "dram_cache result" where
  "demo_dram_cache =
     bindR (DramCntlr demo_dram_config None demo_arith 4 64) (\<lambda>d.
     DramCache demo_config (dcf_queue demo_dram_config)
       \<lparr>pf_flows = 1, pf_flows_per_core = False, pf_num_prefetches = 1, pf_stop_at_page = True,
        pf_width = 1, pf_depth = 1, pf_ghb_size = 1, pf_ghb_table_size = 1\<rparr> 1000 demo_arith abs_long [] 0 None 64 d
       \<lparr>dcp_cache_size = 1, dcp_associativity = 4, dcp_replacement_policy = ''lru'', dcp_hash_function = ''mask'',
        dcp_data_access_time = 10, dcp_tags_access_time = 5, dcp_bandwidth = 64000, dcp_queue_model = None,
        dcp_prefetcher = ''none'', dcp_prefetch_on_prefetch_hit = False\<rparr>)"

theorem dram_cache_fails_witness:
  "\<exists>s. demo_dram_cache = Inr s \<and> peekSingleLine (dch_cache s) 128 = Inr None
     \<and> (\<nexists>r. dch_getDataFromDram s 128 1 (Some (replicate 64 0)) 1000 (Some ShmemPerf) = Inr r)"
proof -
  have "case demo_dram_cache of Inl er \<Rightarrow> False | Inr s \<Rightarrow> peekSingleLine (dch_cache s) 128 = Inr None" by code_simp
  then obtain s where s: "demo_dram_cache = Inr s" "peekSingleLine (dch_cache s) 128 = Inr None" by (auto split: sum.splits)
  from dram_cache_fails [of s 128 1 "Some (replicate 64 0)" 1000 "Some ShmemPerf"] s show ?thesis by blast
qed

end
