(* ===== verification/Branch_Predictor.thy ===== *)
theory Branch_Predictor
  imports Prelude
begin

text \<open>
  The branch predictors (\<^verbatim>\<open>performance_model/branch_predictor.cc\<close> and
  \<^verbatim>\<open>performance_model/branch_predictors/\<close>): the one-bit predictor and the Pentium M predictor with
  its global predictor, branch target buffer, bimodal table and loop predictor. The vectors of a
  way are one list of entries here; an index outside of them is an error.
\<close>

section \<open>SaturatingPredictor\<close>

text \<open>\<^verbatim>\<open>SaturatingPredictor<n>\<close>: an \<open>n\<close>-bit signed counter kept in an \<^verbatim>\<open>int8_t\<close>.\<close>

type_synonym sat_counter = "8 word"

definition sat_predict :: "sat_counter \<Rightarrow> bool" where
  "sat_predict c \<longleftrightarrow> sint c \<ge> 0"

definition sat_reset :: "nat \<Rightarrow> bool \<Rightarrow> sat_counter" where
  "sat_reset n prediction = (if prediction then 2 ^ (n - 1) - 1 else - (2 ^ (n - 1)))"

definition sat_inc :: "nat \<Rightarrow> sat_counter \<Rightarrow> sat_counter" where
  "sat_inc n c = (if sint c \<noteq> 2 ^ (n - 1) - 1 then c + 1 else c)"

definition sat_dec :: "nat \<Rightarrow> sat_counter \<Rightarrow> sat_counter" where
  "sat_dec n c = (if sint c \<noteq> - (2 ^ (n - 1)) then c - 1 else c)"

definition sat_update :: "nat \<Rightarrow> bool \<Rightarrow> sat_counter \<Rightarrow> sat_counter" where
  "sat_update n actual c = (if actual then sat_inc n c else sat_dec n c)"

section \<open>OneBitBranchPredictor\<close>

record one_bit =
  ob_bits :: "bool list"
  ob_correct :: u64
  ob_incorrect :: u64

definition OneBitBranchPredictor :: "u32 \<Rightarrow> one_bit" where
  "OneBitBranchPredictor size0 = \<lparr>ob_bits = replicate (unat size0) False, ob_correct = 0, ob_incorrect = 0\<rparr>"

definition ob_index :: "one_bit \<Rightarrow> intptr \<Rightarrow> nat result" where
  "ob_index p ip = (if ob_bits p = [] then Inl Div_By_Zero else Inr (unat ip mod length (ob_bits p)))"

definition ob_predict :: "one_bit \<Rightarrow> intptr \<Rightarrow> bool result" where
  "ob_predict p ip = bindR (ob_index p ip) (\<lambda>i. Inr (ob_bits p ! i))"

definition ob_update :: "one_bit \<Rightarrow> bool \<Rightarrow> bool \<Rightarrow> intptr \<Rightarrow> one_bit result" where
  "ob_update p predicted actual ip =
     (let p1 = (if predicted = actual then p\<lparr>ob_correct := ob_correct p + 1\<rparr> else p\<lparr>ob_incorrect := ob_incorrect p + 1\<rparr>)
      in bindR (ob_index p ip) (\<lambda>i. Inr (p1\<lparr>ob_bits := (ob_bits p1)[i := actual]\<rparr>)))"

section \<open>Tables with ways\<close>

text \<open>
  The scan over the ways: the first way whose entry matches, and otherwise the one whose entry
  has the smallest time stamp, starting from way 0.
\<close>

definition lru_way :: "('e \<Rightarrow> u64) \<Rightarrow> 'e list list \<Rightarrow> nat \<Rightarrow> nat" where
  "lru_way stamp ways index =
     fold (\<lambda>w l. if stamp (ways ! w ! index) < stamp (ways ! l ! index) then w else l) [0..<length ways] 0"

definition match_way :: "('e \<Rightarrow> bool) \<Rightarrow> 'e list list \<Rightarrow> nat \<Rightarrow> nat option" where
  "match_way P ways index = first_idx (\<lambda>w. P (ways ! w ! index)) (length ways)"

definition put_way :: "'e list list \<Rightarrow> nat \<Rightarrow> nat \<Rightarrow> 'e \<Rightarrow> 'e list list" where
  "put_way ways w index e = ways[w := (ways ! w)[index := e]]"

definition in_ways :: "'e list list \<Rightarrow> nat \<Rightarrow> unit result" where
  "in_ways ways index = (if \<forall>way \<in> set ways. index < length way then Inr () else Inl Out_Of_Range)"

section \<open>GlobalPredictor\<close>

record global_entry =
  gl_valid :: bool
  gl_tag :: "8 word"
  gl_counter :: sat_counter
  gl_lru :: u64

record global_predictor =
  glp_lru_use_count :: u64
  glp_ways :: "global_entry list list"

definition GlobalPredictor :: "u32 \<Rightarrow> u32 \<Rightarrow> u32 \<Rightarrow> global_predictor result" where
  "GlobalPredictor entries tag_bitwidth ways =
     (if ways = 0 then Inl Div_By_Zero
      else Inr \<lparr>glp_lru_use_count = 0,
        glp_ways = replicate (unat ways) (replicate (unat (entries div ways))
          \<lparr>gl_valid = False, gl_tag = 0, gl_counter = 0, gl_lru = 0\<rparr>)\<rparr>)"

definition global_index :: "intptr \<Rightarrow> intptr \<Rightarrow> nat" where
  "global_index ip pir = unat ((drop_bit 4 ip XOR drop_bit 6 pir) AND 0x1FF)"

definition global_tag :: "intptr \<Rightarrow> intptr \<Rightarrow> 8 word" where
  "global_tag ip pir = ucast ((drop_bit 13 ip XOR pir) AND 0x3F)"

abbreviation global_match :: "8 word \<Rightarrow> global_entry \<Rightarrow> bool" where
  "global_match tag e \<equiv> gl_valid e \<and> gl_tag e = tag"

text \<open>\<^verbatim>\<open>lookup\<close> returns whether there is an entry and its prediction; \<^verbatim>\<open>predict\<close> only the former.\<close>

definition global_lookup :: "global_predictor \<Rightarrow> intptr \<Rightarrow> intptr \<Rightarrow> (bool \<times> bool) result" where
  "global_lookup p ip pir =
     (let index = global_index ip pir in
      bindR (in_ways (glp_ways p) index) (\<lambda>_.
      case match_way (global_match (global_tag ip pir)) (glp_ways p) index of
        None \<Rightarrow> Inr (False, False)
      | Some w \<Rightarrow> Inr (True, sat_predict (gl_counter (glp_ways p ! w ! index)))))"

definition global_predict :: "global_predictor \<Rightarrow> intptr \<Rightarrow> intptr \<Rightarrow> bool result" where
  "global_predict p ip pir = bindR (global_lookup p ip pir) (\<lambda>(hit, _). Inr hit)"

definition global_update :: "global_predictor \<Rightarrow> bool \<Rightarrow> intptr \<Rightarrow> intptr \<Rightarrow> global_predictor result" where
  "global_update p actual ip pir =
     (let index = global_index ip pir; tag = global_tag ip pir; now = glp_lru_use_count p in
      bindR (in_ways (glp_ways p) index) (\<lambda>_.
      case match_way (global_match tag) (glp_ways p) index of
        Some w \<Rightarrow>
          let e = glp_ways p ! w ! index
          in Inr (p\<lparr>glp_ways := put_way (glp_ways p) w index (e\<lparr>gl_counter := sat_update 2 actual (gl_counter e), gl_lru := now\<rparr>),
                    glp_lru_use_count := now + 1\<rparr>)
      | None \<Rightarrow>
          if glp_ways p = [] then Inl Out_Of_Range
          else Inr (p\<lparr>glp_ways := put_way (glp_ways p) (lru_way gl_lru (glp_ways p) index) index
                        \<lparr>gl_valid = True, gl_tag = tag, gl_counter = sat_reset 2 actual, gl_lru = now\<rparr>,
                      glp_lru_use_count := now + 1\<rparr>)))"

definition global_evict :: "global_predictor \<Rightarrow> intptr \<Rightarrow> intptr \<Rightarrow> global_predictor result" where
  "global_evict p ip pir =
     (let index = global_index ip pir in
      bindR (in_ways (glp_ways p) index) (\<lambda>_.
      case match_way (global_match (global_tag ip pir)) (glp_ways p) index of
        None \<Rightarrow> Inr p
      | Some w \<Rightarrow> Inr (p\<lparr>glp_ways := put_way (glp_ways p) w index ((glp_ways p ! w ! index)\<lparr>gl_valid := False\<rparr>)\<rparr>)))"

section \<open>PentiumMBranchTargetBuffer\<close>

record btb_entry =
  bt_tag_offset :: u32
  bt_plru :: u64

record btb =
  btb_ways :: "btb_entry list list"
  btb_lru_use_count :: u64

definition PentiumMBranchTargetBuffer :: btb where
  "PentiumMBranchTargetBuffer =
     \<lparr>btb_ways = replicate 4 (replicate 512 \<lparr>bt_tag_offset = 0, bt_plru = 0\<rparr>), btb_lru_use_count = 0\<rparr>"

definition btb_index :: "intptr \<Rightarrow> nat" where
  "btb_index ip = unat (drop_bit 4 ip AND 0x1ff)"

definition btb_tag :: "intptr \<Rightarrow> u32" where
  "btb_tag ip = ucast (ip AND 0x3fe00f)"

definition btb_lookup :: "btb \<Rightarrow> intptr \<Rightarrow> bool result" where
  "btb_lookup b ip =
     bindR (in_ways (btb_ways b) (btb_index ip)) (\<lambda>_.
     Inr (match_way (\<lambda>e. bt_tag_offset e = btb_tag ip) (btb_ways b) (btb_index ip) \<noteq> None))"

definition btb_update :: "btb \<Rightarrow> intptr \<Rightarrow> btb result" where
  "btb_update b ip =
     (let index = btb_index ip; now = btb_lru_use_count b in
      bindR (in_ways (btb_ways b) index) (\<lambda>_.
      let w = (case match_way (\<lambda>e. bt_tag_offset e = btb_tag ip) (btb_ways b) index of
                 Some w \<Rightarrow> w
               | None \<Rightarrow> lru_way bt_plru (btb_ways b) index)
      in Inr (b\<lparr>btb_ways := put_way (btb_ways b) w index \<lparr>bt_tag_offset = btb_tag ip, bt_plru = now\<rparr>,
                btb_lru_use_count := now + 1\<rparr>)))"

section \<open>SimpleBimodalTable\<close>

record bimodal =
  bm_num_entries :: u32
  bm_mask :: intptr
  bm_table :: "sat_counter list"

function ilog2_loop :: "u32 \<Rightarrow> u32 \<Rightarrow> u32" where
  "ilog2_loop n i = (if n > 0 then ilog2_loop (drop_bit 1 n) (i + 1) else i)"
  by auto
termination
proof (relation "measure (\<lambda>(n, i). unat n)")
  show "((drop_bit 1 n, i + 1), n, i) \<in> measure (\<lambda>(n, i). unat n)" if "0 < n" for n i :: u32
    using that unat_gt_0 [of n] by (simp add: drop_bit_eq_div unat_div word_gt_0)
qed simp

definition ilog2 :: "u32 \<Rightarrow> u32" where
  "ilog2 n = ilog2_loop n 0 - 1"

definition bm_reset :: "bimodal \<Rightarrow> bimodal" where
  "bm_reset b = b\<lparr>bm_table := map (\<lambda>_. sat_reset 2 False) (bm_table b)\<rparr>"

definition SimpleBimodalTable :: "u32 \<Rightarrow> bimodal" where
  "SimpleBimodalTable entries =
     (bm_reset \<lparr>bm_num_entries = entries, bm_mask = 0, bm_table = replicate (unat entries) 0\<rparr>)
       \<lparr>bm_mask := fold (\<lambda>i m. m OR push_bit i 1) [0..<unat (ilog2 entries)] 0\<rparr>"

definition bm_index :: "bimodal \<Rightarrow> intptr \<Rightarrow> nat result" where
  "bm_index b ip =
     (let index = unat (ucast (ip AND bm_mask b) :: u32)
      in if index < length (bm_table b) then Inr index else Inl Out_Of_Range)"

definition bm_predict :: "bimodal \<Rightarrow> intptr \<Rightarrow> bool result" where
  "bm_predict b ip = bindR (bm_index b ip) (\<lambda>i. Inr (sat_predict (bm_table b ! i)))"

definition bm_update :: "bimodal \<Rightarrow> bool \<Rightarrow> intptr \<Rightarrow> bimodal result" where
  "bm_update b actual ip =
     bindR (bm_index b ip) (\<lambda>i.
     Inr (b\<lparr>bm_table := (bm_table b)[i := if actual then sat_inc 2 (bm_table b ! i) else sat_dec 2 (bm_table b ! i)]\<rparr>))"

section \<open>LoopBranchPredictor\<close>

record loop_entry =
  le_tag :: "8 word"
  le_previous_actual :: bool
  le_enabled :: bool
  le_predictor :: sat_counter
  le_lru :: u64
  le_count :: u32
  le_limit :: u32

record loop_predictor =
  lp_lru_use_count :: u64
  lp_ways :: "loop_entry list list"

definition LoopBranchPredictor :: "u32 \<Rightarrow> u32 \<Rightarrow> u32 \<Rightarrow> loop_predictor result" where
  "LoopBranchPredictor entries tag_bitwidth ways =
     (if ways = 0 then Inl Div_By_Zero
      else if \<not> tag_bitwidth \<le> 8 then Inl Assert_Failed
      else Inr \<lparr>lp_lru_use_count = 0,
        lp_ways = replicate (unat ways) (replicate (unat (entries div ways))
          \<lparr>le_tag = 0, le_previous_actual = False, le_enabled = False, le_predictor = 0, le_lru = 0, le_count = 0, le_limit = 0\<rparr>)\<rparr>)"

definition loop_index :: "intptr \<Rightarrow> nat" where
  "loop_index ip = unat (drop_bit 4 ip AND 0x3F)"

definition loop_tag :: "intptr \<Rightarrow> 8 word" where
  "loop_tag ip = ucast (drop_bit 10 ip AND 0x3F)"

definition loop_prediction :: "loop_entry \<Rightarrow> bool" where
  "loop_prediction e = (if le_count e = le_limit e then \<not> sat_predict (le_predictor e) else sat_predict (le_predictor e))"

definition loop_lookup :: "loop_predictor \<Rightarrow> intptr \<Rightarrow> (bool \<times> bool \<times> loop_predictor) result" where
  "loop_lookup p ip =
     (let index = loop_index ip in
      bindR (in_ways (lp_ways p) index) (\<lambda>_.
      case match_way (\<lambda>e. le_enabled e \<and> le_tag e = loop_tag ip) (lp_ways p) index of
        None \<Rightarrow> Inr (False, False, p)
      | Some w \<Rightarrow>
          let e = lp_ways p ! w ! index
          in Inr (True, loop_prediction e,
               p\<lparr>lp_ways := put_way (lp_ways p) w index (e\<lparr>le_lru := lp_lru_use_count p\<rparr>),
                 lp_lru_use_count := lp_lru_use_count p + 1\<rparr>)))"

definition prediction_match :: "loop_entry \<Rightarrow> bool \<Rightarrow> bool" where
  "prediction_match e actual =
     (if le_count e = le_limit e then sat_predict (le_predictor e) \<noteq> actual else sat_predict (le_predictor e) = actual)"

text \<open>The counter, the limit and the enable bit when the direction of the loop stays the same.\<close>

definition same_direction :: "loop_entry \<Rightarrow> bool \<Rightarrow> u32 \<times> u32 \<times> bool" where
  "same_direction e actual =
     (if \<not> prediction_match e actual then
        if le_count e < le_limit e then (0, le_count e, le_enabled e)
        else (le_count e + 1, le_count e + 1, False)
      else (if le_count e = le_limit e then 0 else le_count e + 1, le_limit e, le_enabled e))"

definition loop_train :: "loop_entry \<Rightarrow> bool \<Rightarrow> loop_entry" where
  "loop_train e actual =
     (let current = sat_predict (le_predictor e);
          (count, limit, enabled) = same_direction e actual;
          same = e\<lparr>le_count := count, le_limit := limit, le_enabled := enabled\<rparr>;
          next = (if le_previous_actual e = actual \<and> actual = (\<not> current) then
                    e\<lparr>le_count := 1, le_limit := 1, le_predictor := sat_update 1 actual (le_predictor e), le_enabled := False\<rparr>
                  else if le_previous_actual e \<noteq> actual \<and> actual = (\<not> current) then
                    if \<not> le_enabled e then e\<lparr>le_enabled := True, le_count := 0\<rparr> else same
                  else same)
      in next\<lparr>le_previous_actual := actual\<rparr>)"

definition loop_update :: "loop_predictor \<Rightarrow> bool \<Rightarrow> intptr \<Rightarrow> loop_predictor result" where
  "loop_update p actual ip =
     (let index = loop_index ip; tag = loop_tag ip; now = lp_lru_use_count p in
      bindR (in_ways (lp_ways p) index) (\<lambda>_.
      case match_way (\<lambda>e. le_tag e = tag) (lp_ways p) index of
        Some w \<Rightarrow>
          Inr (p\<lparr>lp_ways := put_way (lp_ways p) w index ((loop_train (lp_ways p ! w ! index) actual)\<lparr>le_lru := now\<rparr>),
                 lp_lru_use_count := now + 1\<rparr>)
      | None \<Rightarrow>
          if lp_ways p = [] then Inl Out_Of_Range
          else
            let w = lru_way le_lru (lp_ways p) index
            in Inr (p\<lparr>lp_ways := put_way (lp_ways p) w index ((lp_ways p ! w ! index)
                        \<lparr>le_tag := tag, le_predictor := sat_reset 1 actual, le_previous_actual := actual, le_lru := now,
                         le_count := 1, le_limit := 1\<rparr>),
                      lp_lru_use_count := now + 1\<rparr>)))"

section \<open>IndirectBranchTargetBuffer\<close>

definition IndirectBranchTargetBuffer :: "u32 \<Rightarrow> u32 \<Rightarrow> 8 word list result" where
  "IndirectBranchTargetBuffer entries tag_bitwidth =
     bindR (assertR (tag_bitwidth \<le> 8)) (\<lambda>_. Inr (replicate (unat entries) 0))"

definition ibtb_index :: "intptr \<Rightarrow> nat" where
  "ibtb_index ip = unat (drop_bit 6 ip AND 0xFF)"

definition ibtb_tag :: "intptr \<Rightarrow> u32" where
  "ibtb_tag ip = ucast (drop_bit 8 (ip AND 0x4000) OR (ip AND 0x3F))"

definition ibtb_predict :: "8 word list \<Rightarrow> intptr \<Rightarrow> bool result" where
  "ibtb_predict t ip =
     (if ibtb_index ip < length t then Inr (ucast (t ! ibtb_index ip) = ibtb_tag ip) else Inl Out_Of_Range)"

definition ibtb_update :: "8 word list \<Rightarrow> intptr \<Rightarrow> 8 word list result" where
  "ibtb_update t ip =
     (if ibtb_index ip < length t then Inr (t[ibtb_index ip := ucast (ibtb_tag ip)]) else Inl Out_Of_Range)"

section \<open>PentiumMBranchPredictor\<close>

datatype branch_type = InvalidBranch | DirectBranch | IndirectBranch | UnconditionalBranch | ConditionalBranch

record pentium_m =
  pm_global :: global_predictor
  pm_btb :: btb
  pm_bimodal :: bimodal
  pm_lpb :: loop_predictor
  pm_pir :: intptr
  pm_last_gp_hit :: bool
  pm_last_bm_pred :: bool
  pm_last_lpb_hit :: bool
  pm_correct :: u64
  pm_incorrect :: u64

text \<open>The constructor leaves \<^verbatim>\<open>m_last_bm_pred\<close> as it finds it: \<open>bm0\<close>.\<close>

definition PentiumMBranchPredictor :: "bool \<Rightarrow> pentium_m result" where
  "PentiumMBranchPredictor bm0 =
     bindR (GlobalPredictor 2048 6 4) (\<lambda>g.
     bindR (LoopBranchPredictor 128 6 2) (\<lambda>l.
     Inr \<lparr>pm_global = g, pm_btb = PentiumMBranchTargetBuffer, pm_bimodal = SimpleBimodalTable 4096, pm_lpb = l, pm_pir = 0,
          pm_last_gp_hit = False, pm_last_bm_pred = bm0, pm_last_lpb_hit = False, pm_correct = 0, pm_incorrect = 0\<rparr>))"

definition pm_predict :: "pentium_m \<Rightarrow> intptr \<Rightarrow> (bool \<times> pentium_m) result" where
  "pm_predict p ip =
     bindR (global_lookup (pm_global p) ip (pm_pir p)) (\<lambda>(gp_hit, gp_prediction).
     bindR (btb_lookup (pm_btb p) ip) (\<lambda>btb_hit.
     bindR (loop_lookup (pm_lpb p) ip) (\<lambda>(lpb_hit, lpb_prediction, lpb).
     bindR (bm_predict (pm_bimodal p) ip) (\<lambda>bimodal_out.
     Inr (if gp_hit then gp_prediction else if lpb_hit \<and> btb_hit then lpb_prediction else bimodal_out,
          p\<lparr>pm_lpb := lpb, pm_last_gp_hit := gp_hit, pm_last_bm_pred := bimodal_out,
            pm_last_lpb_hit := lpb_hit \<and> btb_hit\<rparr>)))))"

definition update_pir :: "pentium_m \<Rightarrow> bool \<Rightarrow> intptr \<Rightarrow> intptr \<Rightarrow> branch_type \<Rightarrow> pentium_m" where
  "update_pir p actual ip target branch_type =
     (let with_rhs = (\<lambda>rhs. p\<lparr>pm_pir := (push_bit 2 (pm_pir p) XOR rhs) AND 0x7fff\<rparr>) in
      if branch_type = ConditionalBranch \<and> actual then with_rhs (drop_bit 4 ip)
      else if branch_type = IndirectBranch then with_rhs (drop_bit 4 ip OR target)
      else p)"

definition pm_updateCounters :: "pentium_m \<Rightarrow> bool \<Rightarrow> bool \<Rightarrow> pentium_m" where
  "pm_updateCounters p predicted actual =
     (if predicted = actual then p\<lparr>pm_correct := pm_correct p + 1\<rparr> else p\<lparr>pm_incorrect := pm_incorrect p + 1\<rparr>)"

definition pm_update :: "pentium_m \<Rightarrow> bool \<Rightarrow> bool \<Rightarrow> intptr \<Rightarrow> intptr \<Rightarrow> pentium_m result" where
  "pm_update p0 predicted actual ip target =
     (let p = pm_updateCounters p0 predicted actual in
      bindR (btb_update (pm_btb p) ip) (\<lambda>b.
      bindR (loop_update (pm_lpb p) actual ip) (\<lambda>l.
      bindR (if \<not> pm_last_gp_hit p \<and> \<not> pm_last_lpb_hit p then bm_update (pm_bimodal p) actual ip else Inr (pm_bimodal p)) (\<lambda>m.
      let lpb_or_bm_hit = (pm_last_lpb_hit p \<or> pm_last_bm_pred p = actual) in
      bindR (if pm_last_gp_hit p then
               if predicted \<noteq> actual \<and> lpb_or_bm_hit then global_evict (pm_global p) ip (pm_pir p)
               else global_update (pm_global p) actual ip (pm_pir p)
             else if predicted \<noteq> actual \<and> (pm_last_gp_hit p \<or> \<not> lpb_or_bm_hit)
             then global_update (pm_global p) actual ip (pm_pir p)
             else Inr (pm_global p)) (\<lambda>g.
      Inr (update_pir (p\<lparr>pm_btb := b, pm_lpb := l, pm_bimodal := m, pm_global := g\<rparr>) actual ip target ConditionalBranch))))))"

section \<open>BranchPredictor\<close>

datatype branch_predictor = BP_OneBit one_bit | BP_PentiumM pentium_m

definition BranchPredictor_create :: "bool \<Rightarrow> string \<Rightarrow> u32 \<Rightarrow> branch_predictor option result" where
  "BranchPredictor_create bm0 type size0 =
     (if type = ''none'' then Inr None
      else if type = ''one_bit'' then Inr (Some (BP_OneBit (OneBitBranchPredictor size0)))
      else if type = ''pentium_m'' then bindR (PentiumMBranchPredictor bm0) (\<lambda>p. Inr (Some (BP_PentiumM p)))
      else Inl Log_Error)"

definition bp_predict :: "branch_predictor \<Rightarrow> intptr \<Rightarrow> (bool \<times> branch_predictor) result" where
  "bp_predict b ip =
     (case b of
        BP_OneBit p \<Rightarrow> bindR (ob_predict p ip) (\<lambda>r. Inr (r, BP_OneBit p))
      | BP_PentiumM p \<Rightarrow> bindR (pm_predict p ip) (\<lambda>(r, p'). Inr (r, BP_PentiumM p')))"

definition bp_update :: "branch_predictor \<Rightarrow> bool \<Rightarrow> bool \<Rightarrow> intptr \<Rightarrow> intptr \<Rightarrow> branch_predictor result" where
  "bp_update b predicted actual ip target =
     (case b of
        BP_OneBit p \<Rightarrow> bindR (ob_update p predicted actual ip) (\<lambda>p'. Inr (BP_OneBit p'))
      | BP_PentiumM p \<Rightarrow> bindR (pm_update p predicted actual ip target) (\<lambda>p'. Inr (BP_PentiumM p')))"

definition bp_resetCounters :: "branch_predictor \<Rightarrow> branch_predictor" where
  "bp_resetCounters b =
     (case b of
        BP_OneBit p \<Rightarrow> BP_OneBit (p\<lparr>ob_correct := 0, ob_incorrect := 0\<rparr>)
      | BP_PentiumM p \<Rightarrow> BP_PentiumM (p\<lparr>pm_correct := 0, pm_incorrect := 0\<rparr>))"

definition bp_correct :: "branch_predictor \<Rightarrow> u64" where
  "bp_correct b = (case b of BP_OneBit p \<Rightarrow> ob_correct p | BP_PentiumM p \<Rightarrow> pm_correct p)"

definition bp_incorrect :: "branch_predictor \<Rightarrow> u64" where
  "bp_incorrect b = (case b of BP_OneBit p \<Rightarrow> ob_incorrect p | BP_PentiumM p \<Rightarrow> pm_incorrect p)"

text \<open>A sequence of branches, each predicted and then reported: address, target and outcome.\<close>

primrec bp_run :: "branch_predictor \<Rightarrow> (intptr \<times> intptr \<times> bool) list \<Rightarrow> (bool list \<times> branch_predictor) result" where
  "bp_run b [] = Inr ([], b)"
| "bp_run b (x # xs) =
     (case x of (ip, target, actual) \<Rightarrow>
        bindR (bp_predict b ip) (\<lambda>(r, b1).
        bindR (bp_update b1 r actual ip target) (\<lambda>b2.
        bindR (bp_run b2 xs) (\<lambda>(rs, b3). Inr (r # rs, b3)))))"

text \<open>The loop predictor alone on one branch: per outcome the hit and the prediction.\<close>

primrec loop_run :: "intptr \<Rightarrow> bool list \<Rightarrow> loop_predictor \<Rightarrow> ((bool \<times> bool) list \<times> loop_predictor) result" where
  "loop_run ip [] p = Inr ([], p)"
| "loop_run ip (actual # as) p =
     bindR (loop_lookup p ip) (\<lambda>(hit, prediction, p1).
     bindR (loop_update p1 actual ip) (\<lambda>p2.
     bindR (loop_run ip as p2) (\<lambda>(rs, p3). Inr ((hit, prediction) # rs, p3))))"

section \<open>Counters stay within their bits\<close>

definition sat_ok :: "nat \<Rightarrow> sat_counter \<Rightarrow> bool" where
  "sat_ok n c \<longleftrightarrow> - (2 ^ (n - 1)) \<le> sint c \<and> sint c \<le> 2 ^ (n - 1) - 1"

lemma sint_in_range: "- 128 \<le> i \<Longrightarrow> i < 128 \<Longrightarrow> sint (word_of_int i :: sat_counter) = i"
  by (simp add: sint_sbintrunc' signed_take_bit_int_eq_self_iff)

lemma sint_plus_one: "sint c < 127 \<Longrightarrow> sint (c + 1) = sint c + 1" for c :: sat_counter
  using sint_in_range [of "sint c + 1"] sint_greater_eq [of c] by simp

lemma sint_minus_one: "- 128 < sint c \<Longrightarrow> sint (c - 1) = sint c - 1" for c :: sat_counter
  using sint_in_range [of "sint c - 1"] sint_less [of c] by simp

lemma sat_bound: "n \<le> 8 \<Longrightarrow> (2 :: int) ^ (n - 1) \<le> 128"
  using power_increasing [of "n - 1" 7 "2 :: int"] by simp

lemma sat_update_ok:
  assumes "n \<le> 8" and "sat_ok n c"
  shows "sat_ok n (sat_update n b c)" and "sat_ok n (sat_inc n c)" and "sat_ok n (sat_dec n c)"
  using assms sat_bound [of n] sint_plus_one [of c] sint_minus_one [of c]
  by (auto simp: sat_ok_def sat_update_def sat_inc_def sat_dec_def)

lemma sat_reset_ok:
  assumes "n \<le> 8"
  shows "sat_ok n (sat_reset n b)" and "sat_predict (sat_reset n b) = b"
proof -
  define x :: int where "x = 2 ^ (n - 1)"
  have "0 < x" "x \<le> 128" using sat_bound [OF assms] by (simp_all add: x_def)
  then have "sint (word_of_int (x - 1) :: sat_counter) = x - 1" "sint (word_of_int (- x) :: sat_counter) = - x"
    using sint_in_range [of "x - 1"] sint_in_range [of "- x"] by linarith+
  then have "sint (sat_reset n b) = (if b then 2 ^ (n - 1) - 1 else - (2 ^ (n - 1)))"
    by (simp add: sat_reset_def x_def)
  then show "sat_ok n (sat_reset n b)" "sat_predict (sat_reset n b) = b"
    by (simp_all add: sat_ok_def sat_predict_def)
qed

lemma sat_zero_ok: "sat_ok n 0"
  by (simp add: sat_ok_def)

section \<open>Tables stay in shape\<close>

definition ways_ok :: "nat \<Rightarrow> ('e \<Rightarrow> bool) \<Rightarrow> 'e list list \<Rightarrow> bool" where
  "ways_ok n P ways \<longleftrightarrow> ways \<noteq> [] \<and> (\<forall>way \<in> set ways. length way = n \<and> (\<forall>e \<in> set way. P e))"

lemma in_ways_ok: "ways_ok n P ways \<Longrightarrow> i < n \<Longrightarrow> in_ways ways i = Inr ()"
  by (simp add: in_ways_def ways_ok_def)

lemma ways_ok_nth: "ways_ok n P ways \<Longrightarrow> w < length ways \<Longrightarrow> i < n \<Longrightarrow> P (ways ! w ! i)"
  unfolding ways_ok_def by (metis nth_mem)

lemma ways_ok_put: "ways_ok n P ways \<Longrightarrow> w < length ways \<Longrightarrow> P e \<Longrightarrow> ways_ok n P (put_way ways w i e)"
  by (auto simp: ways_ok_def put_way_def dest!: set_update_subset_insert [THEN subsetD] set_update_subset_insert [of "ways ! w", THEN subsetD])

lemma lru_way_less:
  assumes "ways \<noteq> []"
  shows "lru_way f ways i < length ways"
proof -
  have "l < length ways \<Longrightarrow> set ws \<subseteq> {..<length ways} \<Longrightarrow>
      fold (\<lambda>w l. if f (ways ! w ! i) < f (ways ! l ! i) then w else l) ws l < length ways" for l ws
    by (induction ws arbitrary: l) auto
  then show ?thesis using assms by (simp add: lru_way_def atLeast0LessThan)
qed

lemma match_way_less: "match_way P ways i = Some w \<Longrightarrow> w < length ways"
  by (auto simp: match_way_def dest: first_idx_SomeD)

lemma unat_and_le: "unat (a AND m) \<le> unat m" for a m :: "'a :: len word"
  by (simp add: word_le_nat_alt [symmetric] word_and_le1)

lemma index_less: "global_index ip pir < 512" "btb_index ip < 512" "loop_index ip < 64"
  using unat_and_le [of "drop_bit 4 ip XOR drop_bit 6 pir" "0x1FF"] unat_and_le [of "drop_bit 4 ip" "0x1ff"]
    unat_and_le [of "drop_bit 4 ip" "0x3F"]
  by (simp_all add: global_index_def btb_index_def loop_index_def)

section \<open>The Pentium M predictor never leaves its tables\<close>

definition global_ok :: "global_predictor \<Rightarrow> bool" where
  "global_ok p \<longleftrightarrow> ways_ok 512 (\<lambda>e. sat_ok 2 (gl_counter e)) (glp_ways p)"

definition loop_ok :: "loop_predictor \<Rightarrow> bool" where
  "loop_ok p \<longleftrightarrow> ways_ok 64 (\<lambda>e. sat_ok 1 (le_predictor e)) (lp_ways p)"

definition btb_ok :: "btb \<Rightarrow> bool" where
  "btb_ok b \<longleftrightarrow> ways_ok 512 (\<lambda>_. True) (btb_ways b)"

definition bimodal_ok :: "bimodal \<Rightarrow> bool" where
  "bimodal_ok b \<longleftrightarrow> bm_mask b = 0xFFF \<and> length (bm_table b) = 4096 \<and> (\<forall>c \<in> set (bm_table b). sat_ok 2 c)"

definition pm_ok :: "pentium_m \<Rightarrow> bool" where
  "pm_ok p \<longleftrightarrow> global_ok (pm_global p) \<and> loop_ok (pm_lpb p) \<and> btb_ok (pm_btb p) \<and> bimodal_ok (pm_bimodal p)"

lemma global_step_ok:
  assumes "global_ok p"
  shows "\<exists>r. global_lookup p ip pir = Inr r"
    and "\<exists>p'. global_update p actual ip pir = Inr p' \<and> global_ok p'"
    and "\<exists>p'. global_evict p ip pir = Inr p' \<and> global_ok p'"
proof -
  let ?i = "global_index ip pir" and ?W = "glp_ways p"
  note w = assms [unfolded global_ok_def]
  note i = in_ways_ok [OF w index_less(1)]
  have ne: "?W \<noteq> []" using w by (simp add: ways_ok_def)
  show "\<exists>r. global_lookup p ip pir = Inr r"
    unfolding global_lookup_def by (cases "match_way (global_match (global_tag ip pir)) ?W ?i") (auto simp: i)
  have old: "sat_ok 2 (gl_counter (?W ! v ! ?i))" if "v < length ?W" for v
    using ways_ok_nth [OF w that index_less(1)] .
  show "\<exists>p'. global_update p actual ip pir = Inr p' \<and> global_ok p'"
    using ways_ok_put [OF w] match_way_less [of _ ?W ?i] old lru_way_less [OF ne] ne
    by (cases "match_way (global_match (global_tag ip pir)) ?W ?i")
      (simp_all add: global_update_def i Let_def global_ok_def sat_update_ok sat_reset_ok)
  show "\<exists>p'. global_evict p ip pir = Inr p' \<and> global_ok p'"
    using w ways_ok_put [OF w] match_way_less [of _ ?W ?i] old
    by (cases "match_way (global_match (global_tag ip pir)) ?W ?i") (simp_all add: global_evict_def i Let_def global_ok_def)
qed

lemma loop_train_ok: "sat_ok 1 (le_predictor e) \<Longrightarrow> sat_ok 1 (le_predictor (loop_train e actual))"
  by (simp add: loop_train_def Let_def sat_update_ok split: prod.split)

lemma loop_step_ok:
  assumes "loop_ok p"
  shows "\<exists>h r p'. loop_lookup p ip = Inr (h, r, p') \<and> loop_ok p'"
    and "\<exists>p'. loop_update p actual ip = Inr p' \<and> loop_ok p'"
proof -
  let ?i = "loop_index ip" and ?W = "lp_ways p"
  note w = assms [unfolded loop_ok_def]
  note i = in_ways_ok [OF w index_less(3)]
  have ne: "?W \<noteq> []" using w by (simp add: ways_ok_def)
  have old: "sat_ok 1 (le_predictor (?W ! v ! ?i))" if "v < length ?W" for v
    using ways_ok_nth [OF w that index_less(3)] .
  show "\<exists>h r p'. loop_lookup p ip = Inr (h, r, p') \<and> loop_ok p'"
    using w ways_ok_put [OF w] match_way_less [of _ ?W ?i] old
    by (cases "match_way (\<lambda>e. le_enabled e \<and> le_tag e = loop_tag ip) ?W ?i") (auto simp: loop_lookup_def i Let_def loop_ok_def)
  show "\<exists>p'. loop_update p actual ip = Inr p' \<and> loop_ok p'"
    using ways_ok_put [OF w] match_way_less [of _ ?W ?i] old lru_way_less [OF ne] ne
    by (cases "match_way (\<lambda>e. le_tag e = loop_tag ip) ?W ?i")
      (simp_all add: loop_update_def i Let_def loop_ok_def loop_train_ok [simplified] sat_reset_ok)
qed

lemma btb_step_ok:
  assumes "btb_ok b"
  shows "\<exists>h. btb_lookup b ip = Inr h" and "\<exists>b'. btb_update b ip = Inr b' \<and> btb_ok b'"
proof -
  let ?i = "btb_index ip" and ?W = "btb_ways b"
  note w = assms [unfolded btb_ok_def]
  note i = in_ways_ok [OF w index_less(2)]
  have ne: "?W \<noteq> []" using w by (simp add: ways_ok_def)
  show "\<exists>h. btb_lookup b ip = Inr h" by (auto simp: btb_lookup_def i)
  show "\<exists>b'. btb_update b ip = Inr b' \<and> btb_ok b'"
    using ways_ok_put [OF w] match_way_less [of _ ?W ?i] lru_way_less [OF ne]
    by (cases "match_way (\<lambda>e. bt_tag_offset e = btb_tag ip) ?W ?i") (simp_all add: btb_update_def i Let_def btb_ok_def)
qed

lemma bimodal_step_ok:
  assumes "bimodal_ok b"
  shows "\<exists>r. bm_predict b ip = Inr r" and "\<exists>b'. bm_update b actual ip = Inr b' \<and> bimodal_ok b'"
proof -
  have "unat (ucast (ip AND 0xFFF) :: u32) < 4096"
    using unat_and_le [of ip "0xFFF"] mod_less_eq_dividend [of "unat (ip AND 0xFFF)" "2 ^ 32"]
    by (simp add: unsigned_ucast_eq take_bit_eq_mod)
  then have i: "bm_index b ip = Inr (unat (ucast (ip AND 0xFFF) :: u32))" and l: "unat (ucast (ip AND 0xFFF) :: u32) < length (bm_table b)"
    using assms by (simp_all add: bm_index_def Let_def bimodal_ok_def)
  show "\<exists>r. bm_predict b ip = Inr r" by (auto simp: bm_predict_def i)
  show "\<exists>b'. bm_update b actual ip = Inr b' \<and> bimodal_ok b'"
    using assms l by (auto simp: bm_update_def i bimodal_ok_def sat_update_ok dest!: set_update_subset_insert [THEN subsetD])
qed

lemma pm_predict_ok:
  assumes "pm_ok p"
  shows "\<exists>r p'. pm_predict p ip = Inr (r, p') \<and> pm_ok p' \<and> pm_correct p' = pm_correct p \<and> pm_incorrect p' = pm_incorrect p"
proof -
  from assms have ok: "global_ok (pm_global p)" "loop_ok (pm_lpb p)" "btb_ok (pm_btb p)" "bimodal_ok (pm_bimodal p)"
    by (simp_all add: pm_ok_def)
  from global_step_ok(1) [OF ok(1), of ip "pm_pir p"] obtain h g where g: "global_lookup (pm_global p) ip (pm_pir p) = Inr (h, g)"
    by auto
  obtain lh lr l where l: "loop_lookup (pm_lpb p) ip = Inr (lh, lr, l)" "loop_ok l" using loop_step_ok(1) [OF ok(2), of ip] by blast
  obtain bh where b: "btb_lookup (pm_btb p) ip = Inr bh" using btb_step_ok(1) [OF ok(3), of ip] by blast
  obtain m where m: "bm_predict (pm_bimodal p) ip = Inr m" using bimodal_step_ok(1) [OF ok(4), of ip] by blast
  show ?thesis by (simp add: pm_predict_def g l b m pm_ok_def ok)
qed

lemma pm_update_ok:
  assumes "pm_ok p"
  shows "\<exists>p'. pm_update p predicted actual ip target = Inr p' \<and> pm_ok p' \<and>
    pm_correct p' = pm_correct p + of_bool (predicted = actual) \<and> pm_incorrect p' = pm_incorrect p + of_bool (predicted \<noteq> actual)"
proof -
  define q where "q = pm_updateCounters p predicted actual"
  have q: "pm_global q = pm_global p" "pm_lpb q = pm_lpb p" "pm_btb q = pm_btb p" "pm_bimodal q = pm_bimodal p" "pm_pir q = pm_pir p"
    "pm_correct q = pm_correct p + of_bool (predicted = actual)" "pm_incorrect q = pm_incorrect p + of_bool (predicted \<noteq> actual)"
    by (simp_all add: q_def pm_updateCounters_def)
  from assms have ok: "global_ok (pm_global p)" "loop_ok (pm_lpb p)" "btb_ok (pm_btb p)" "bimodal_ok (pm_bimodal p)"
    by (simp_all add: pm_ok_def)
  obtain b where b: "btb_update (pm_btb p) ip = Inr b" "btb_ok b" using btb_step_ok(2) [OF ok(3)] by blast
  obtain l where l: "loop_update (pm_lpb p) actual ip = Inr l" "loop_ok l" using loop_step_ok(2) [OF ok(2)] by blast
  obtain m where m: "bm_update (pm_bimodal p) actual ip = Inr m" "bimodal_ok m" using bimodal_step_ok(2) [OF ok(4)] by blast
  obtain g1 where g1: "global_update (pm_global p) actual ip (pm_pir p) = Inr g1" "global_ok g1" using global_step_ok(2) [OF ok(1)] by blast
  obtain g2 where g2: "global_evict (pm_global p) ip (pm_pir p) = Inr g2" "global_ok g2" using global_step_ok(3) [OF ok(1)] by blast
  have pir: "pm_ok (update_pir r actual ip target ConditionalBranch) = pm_ok r"
    "pm_correct (update_pir r actual ip target ConditionalBranch) = pm_correct r"
    "pm_incorrect (update_pir r actual ip target ConditionalBranch) = pm_incorrect r" for r
    by (simp_all add: update_pir_def pm_ok_def)
  show ?thesis
    unfolding pm_update_def Let_def q_def [symmetric]
    using b l m g1 g2 ok by (simp add: q pir) (simp add: pm_ok_def q)
qed

lemma SimpleBimodalTable_ok: "bimodal_ok (SimpleBimodalTable 4096)"
proof -
  have "bm_mask (SimpleBimodalTable 4096) = 0xFFF" by code_simp
  then show ?thesis by (simp add: bimodal_ok_def) (simp add: SimpleBimodalTable_def bm_reset_def sat_reset_ok)
qed

lemma PentiumM_ok: "\<exists>p. PentiumMBranchPredictor bm0 = Inr p \<and> pm_ok p \<and> pm_correct p = 0 \<and> pm_incorrect p = 0"
  by (simp add: PentiumMBranchPredictor_def GlobalPredictor_def LoopBranchPredictor_def pm_ok_def global_ok_def loop_ok_def btb_ok_def
      SimpleBimodalTable_ok PentiumMBranchTargetBuffer_def ways_ok_def sat_zero_ok)

lemma bp_run_ok:
  assumes "pm_ok p"
  shows "\<exists>rs p'. bp_run (BP_PentiumM p) xs = Inr (rs, BP_PentiumM p') \<and> pm_ok p' \<and> length rs = length xs \<and>
     pm_correct p' = pm_correct p + of_nat (length (filter (\<lambda>(r, _, _, actual). r = actual) (zip rs xs))) \<and>
     pm_incorrect p' = pm_incorrect p + of_nat (length (filter (\<lambda>(r, _, _, actual). r \<noteq> actual) (zip rs xs)))"
  using assms
proof (induction xs arbitrary: p)
  case (Cons x xs)
  obtain ip target actual where x: "x = (ip, target, actual)" by (cases x) auto
  from pm_predict_ok [OF Cons.prems, of ip] obtain r p1 where
    p1: "pm_predict p ip = Inr (r, p1)" "pm_ok p1" "pm_correct p1 = pm_correct p" "pm_incorrect p1 = pm_incorrect p" by blast
  from pm_update_ok [OF p1(2), of r actual ip target] obtain p2 where
    p2: "pm_update p1 r actual ip target = Inr p2" "pm_ok p2" "pm_correct p2 = pm_correct p1 + of_bool (r = actual)"
      "pm_incorrect p2 = pm_incorrect p1 + of_bool (r \<noteq> actual)" by blast
  from Cons.IH [OF p2(2)] show ?case by (auto simp: x bp_predict_def bp_update_def p1 p2)
qed simp

text \<open>
  C35. The Pentium M predictor is well-formed forever: on every sequence of branches it stays
  inside its tables and answers each branch, its two-bit and one-bit counters stay within their
  bits, and it counts correct and incorrect predictions.
\<close>

theorem pentium_m_well_formed:
  "case BranchPredictor_create bm0 ''pentium_m'' n of
     Inr (Some b) \<Rightarrow>
       (case bp_run b xs of
          Inr (rs, BP_PentiumM p) \<Rightarrow> pm_ok p \<and> length rs = length xs \<and>
            pm_correct p = of_nat (length (filter (\<lambda>(r, _, _, actual). r = actual) (zip rs xs))) \<and>
            pm_incorrect p = of_nat (length (filter (\<lambda>(r, _, _, actual). r \<noteq> actual) (zip rs xs)))
        | _ \<Rightarrow> False)
   | _ \<Rightarrow> False"
proof -
  obtain p where p: "PentiumMBranchPredictor bm0 = Inr p" "pm_ok p" "pm_correct p = 0" "pm_incorrect p = 0" using PentiumM_ok by blast
  from bp_run_ok [OF p(2), of xs] show ?thesis by (auto simp: BranchPredictor_create_def p)
qed

section \<open>The loop predictor learns loops\<close>

text \<open>
  One entry on its own: time stamps are left out, and an entry that is not enabled gives no
  prediction.
\<close>

abbreviation core :: "loop_entry \<Rightarrow> loop_entry" where
  "core e \<equiv> e\<lparr>le_lru := 0\<rparr>"

definition entry_answer :: "loop_entry \<Rightarrow> bool \<times> bool" where
  "entry_answer e = (if le_enabled e then (True, loop_prediction e) else (False, False))"

primrec entry_run :: "loop_entry \<Rightarrow> bool list \<Rightarrow> (bool \<times> bool) list \<times> loop_entry" where
  "entry_run e [] = ([], e)"
| "entry_run e (actual # as) = (let (rs, e') = entry_run (loop_train e actual) as in (entry_answer e # rs, e'))"

lemma entry_run_append:
  "entry_run e (as @ bs) = (let (rs, e1) = entry_run e as; (rs', e2) = entry_run e1 bs in (rs @ rs', e2))"
  by (induction as arbitrary: e) (simp_all split: prod.split)

text \<open>An entry that counts the iterations of its first loop, and one that knows the length.\<close>

definition learning :: "bool \<Rightarrow> u32 \<Rightarrow> loop_entry \<Rightarrow> bool" where
  "learning d j e \<longleftrightarrow> \<not> le_enabled e \<and> le_count e = j \<and> le_limit e = j \<and> sat_predict (le_predictor e) = d \<and> le_previous_actual e = d"

definition trained :: "bool \<Rightarrow> u32 \<Rightarrow> u32 \<Rightarrow> loop_entry \<Rightarrow> bool" where
  "trained d k c e \<longleftrightarrow> le_enabled e \<and> le_count e = c \<and> le_limit e = k \<and> sat_predict (le_predictor e) = d \<and>
     (c = k \<longrightarrow> le_previous_actual e = d)"

lemmas loop_train_defs = loop_train_def same_direction_def prediction_match_def Let_def

lemma learning_step:
  "learning d j e \<Longrightarrow> learning d (j + 1) (loop_train e d)"
  "learning d j e \<Longrightarrow> 0 < j \<Longrightarrow> trained d j 0 (loop_train e (\<not> d))"
  by (auto simp: learning_def trained_def loop_train_defs)

lemma trained_step:
  "trained d k c e \<Longrightarrow> c < k \<Longrightarrow> trained d k (c + 1) (loop_train e d) \<and> entry_answer e = (True, d)"
  "trained d k k e \<Longrightarrow> 0 < k \<Longrightarrow> trained d k 0 (loop_train e (\<not> d)) \<and> entry_answer e = (True, \<not> d)"
  by (auto simp: trained_def loop_train_defs entry_answer_def loop_prediction_def)

lemma learning_run:
  "learning d j e \<Longrightarrow> learning d (j + of_nat n) (snd (entry_run e (replicate n d)))"
proof (induction n arbitrary: j e)
  case (Suc n)
  from Suc.IH [OF learning_step(1) [OF Suc.prems]] show ?case by (simp add: split_beta add_ac)
qed simp

lemma trained_run:
  assumes "trained d k c e" and "unat c + n \<le> unat k"
  shows "trained d k (c + of_nat n) (snd (entry_run e (replicate n d))) \<and> fst (entry_run e (replicate n d)) = replicate n (True, d)"
  using assms
proof (induction n arbitrary: c e)
  case (Suc n)
  have c: "c < k" using Suc.prems(2) by (simp add: word_less_nat_alt)
  then have "unat (c + 1) = Suc (unat c)" 
    using unsigned_less [of k, where 'a = nat] by (simp add: unat_word_ariths word_less_nat_alt)
  with Suc.IH [of "c + 1" "loop_train e d"] trained_step(1) [OF Suc.prems(1) c] Suc.prems(2)
  show ?case by (simp add: split_beta add_ac)
qed simp

abbreviation loop_outcomes :: "nat \<Rightarrow> bool \<Rightarrow> bool list" where
  "loop_outcomes k d \<equiv> replicate k d @ [\<not> d]"

lemma trained_period:
  assumes "trained d (of_nat k) 0 e" and "0 < k" and "k < 2 ^ 32"
  shows "trained d (of_nat k) 0 (snd (entry_run e (loop_outcomes k d)))
     \<and> fst (entry_run e (loop_outcomes k d)) = map (Pair True) (loop_outcomes k d)"
proof -
  have u: "unat (of_nat k :: u32) = k" using assms(3) by (simp add: unat_of_nat_eq)
  obtain rs e1 where e1: "entry_run e (replicate k d) = (rs, e1)" by fastforce
  have "trained d (of_nat k) (of_nat k) e1" "rs = replicate k (True, d)"
    using trained_run [OF assms(1), of k] u e1 by simp_all
  moreover have "(0 :: u32) < of_nat k" using u assms(2) by (simp add: word_less_nat_alt)
  ultimately show ?thesis using trained_step(2) [of d "of_nat k" e1] e1 by (simp add: entry_run_append)
qed

lemma trained_periods:
  assumes "trained d (of_nat k) 0 e" and "0 < k" and "k < 2 ^ 32"
  shows "fst (entry_run e (concat (replicate m (loop_outcomes k d)))) = map (Pair True) (concat (replicate m (loop_outcomes k d)))"
  using assms(1)
proof (induction m arbitrary: e)
  case (Suc m)
  obtain rs e1 where e1: "entry_run e (loop_outcomes k d) = (rs, e1)" by fastforce
  with trained_period [OF Suc.prems assms(2,3)] Suc.IH [of e1] show ?case
    by (simp only: replicate_Suc concat.simps entry_run_append) (simp add: split_beta)
qed simp

subsection \<open>The entry of a branch in the table\<close>

text \<open>Way \<open>w\<close> has the entry of the branch, and no other way has an enabled entry there.\<close>

definition loop_slot :: "loop_predictor \<Rightarrow> intptr \<Rightarrow> nat \<Rightarrow> loop_entry \<Rightarrow> bool" where
  "loop_slot p ip w e \<longleftrightarrow> (let i = loop_index ip; W = lp_ways p in
     (\<forall>way \<in> set W. i < length way) \<and> w < length W \<and> core (W ! w ! i) = e \<and>
     match_way (\<lambda>e. le_tag e = loop_tag ip) W i = Some w \<and>
     (\<forall>v < length W. v \<noteq> w \<longrightarrow> \<not> le_enabled (W ! v ! i)))"

lemma length_put_way [simp]: "length (put_way W w i e) = length W"
  by (simp add: put_way_def)

lemma put_way_nth:
  "\<forall>way \<in> set W. i < length way \<Longrightarrow> w < length W \<Longrightarrow> v < length W \<Longrightarrow>
     put_way W w i e ! v ! i = (if v = w then e else W ! v ! i)"
  by (auto simp: put_way_def nth_list_update_If)

lemma match_way_cong:
  "length W' = length W \<Longrightarrow> (\<And>v. v < length W \<Longrightarrow> P' (W' ! v ! i) = P (W ! v ! i)) \<Longrightarrow> match_way P' W' i = match_way P W i"
  by (auto simp: match_way_def first_idx_def intro!: find_cong)

lemma loop_slot_put:
  assumes "loop_slot p ip w e0" and "core e' = e" and "le_tag e' = loop_tag ip"
  shows "loop_slot (p\<lparr>lp_ways := put_way (lp_ways p) w (loop_index ip) e', lp_lru_use_count := n\<rparr>) ip w e"
proof -
  let ?W = "lp_ways p" and ?i = "loop_index ip"
  from assms(1) have s: "\<forall>way \<in> set ?W. ?i < length way" "w < length ?W" "match_way (\<lambda>e. le_tag e = loop_tag ip) ?W ?i = Some w"
    "\<forall>v < length ?W. v \<noteq> w \<longrightarrow> \<not> le_enabled (?W ! v ! ?i)" by (simp_all add: loop_slot_def Let_def)
  have t: "le_tag (?W ! w ! ?i) = loop_tag ip" using s(3) by (auto simp: match_way_def dest: first_idx_SomeD)
  have n: "v < length ?W \<Longrightarrow> put_way ?W w ?i e' ! v ! ?i = (if v = w then e' else ?W ! v ! ?i)" for v
    by (rule put_way_nth [OF s(1,2)])
  have "match_way (\<lambda>e. le_tag e = loop_tag ip) (put_way ?W w ?i e') ?i = Some w"
    unfolding s(3) [symmetric] by (rule match_way_cong) (simp_all add: put_way_def n [unfolded put_way_def] t assms(3))
  moreover have "\<forall>way \<in> set (put_way ?W w ?i e'). ?i < length way"
    using s(1,2) by (auto simp: put_way_def dest!: set_update_subset_insert [THEN subsetD])
  ultimately show ?thesis using s assms(2) n by (auto simp: loop_slot_def Let_def put_way_def [of ?W])
qed

lemma first_idx_unique:
  assumes "w < n" and "P w" and "\<And>v. v < n \<Longrightarrow> v \<noteq> w \<Longrightarrow> \<not> P v"
  shows "first_idx P n = Some w"
proof -
  obtain j where "first_idx P n = Some j" using first_idx_Some_ex [of w n P] assms(1,2) by blast
  with first_idx_SomeD(1,2) [OF this] assms(3) show ?thesis by blast
qed

lemma loop_slot_lookup:
  assumes "loop_slot p ip w e"
  shows "\<exists>p'. loop_lookup p ip = Inr (fst (entry_answer e), snd (entry_answer e), p') \<and> loop_slot p' ip w e"
proof -
  let ?W = "lp_ways p" and ?i = "loop_index ip"
  let ?e = "?W ! w ! ?i"
  from assms have s: "in_ways ?W ?i = Inr ()" "w < length ?W" "core ?e = e" "match_way (\<lambda>e. le_tag e = loop_tag ip) ?W ?i = Some w"
    "\<forall>v < length ?W. v \<noteq> w \<longrightarrow> \<not> le_enabled (?W ! v ! ?i)" by (simp_all add: loop_slot_def Let_def in_ways_def)
  have t: "le_tag ?e = loop_tag ip" using s(4) by (auto simp: match_way_def dest: first_idx_SomeD)
  have f: "le_enabled e = le_enabled ?e" "loop_prediction e = loop_prediction ?e" by (simp_all flip: s(3) add: loop_prediction_def)
  show ?thesis
  proof (cases "le_enabled ?e")
    case True
    have m: "match_way (\<lambda>e. le_enabled e \<and> le_tag e = loop_tag ip) ?W ?i = Some w"
      unfolding match_way_def by (rule first_idx_unique) (use s(2,5) t True in auto)
    have "loop_slot (p\<lparr>lp_ways := put_way ?W w ?i (?e\<lparr>le_lru := lp_lru_use_count p\<rparr>), lp_lru_use_count := lp_lru_use_count p + 1\<rparr>) ip w e"
      by (rule loop_slot_put [OF assms]) (simp_all add: s(3) t)
    then show ?thesis by (simp add: loop_lookup_def s(1) m Let_def entry_answer_def f True)
  next
    case False
    then have "match_way (\<lambda>e. le_enabled e \<and> le_tag e = loop_tag ip) ?W ?i = None"
      using s(5) unfolding match_way_def first_idx_None_iff by blast
    then show ?thesis using assms False by (simp add: loop_lookup_def s(1) entry_answer_def f)
  qed
qed

lemma loop_train_core: "core (loop_train e a) = loop_train (core e) a" "le_tag (loop_train e a) = le_tag e"
  by (simp_all add: loop_train_defs)

lemma loop_slot_update:
  assumes "loop_slot p ip w e"
  shows "\<exists>p'. loop_update p actual ip = Inr p' \<and> loop_slot p' ip w (loop_train e actual)"
proof -
  let ?W = "lp_ways p" and ?i = "loop_index ip"
  let ?e = "?W ! w ! ?i"
  from assms have s: "in_ways ?W ?i = Inr ()" "core ?e = e" "match_way (\<lambda>e. le_tag e = loop_tag ip) ?W ?i = Some w"
    by (simp_all add: loop_slot_def Let_def in_ways_def)
  have t: "le_tag ?e = loop_tag ip" using s(3) by (auto simp: match_way_def dest: first_idx_SomeD)
  have "loop_slot (p\<lparr>lp_ways := put_way ?W w ?i ((loop_train ?e actual)\<lparr>le_lru := n\<rparr>), lp_lru_use_count := m\<rparr>) ip w (loop_train e actual)" for n m
    by (rule loop_slot_put [OF assms]) (simp_all add: s(2) t loop_train_core)
  then show ?thesis by (simp add: loop_update_def s(1,3) Let_def)
qed

lemma loop_slot_run:
  assumes "loop_slot p ip w e"
  shows "\<exists>p'. loop_run ip as p = Inr (fst (entry_run e as), p')"
  using assms
proof (induction as arbitrary: p e)
  case (Cons a as)
  from loop_slot_lookup [OF Cons.prems] obtain p1 where
    p1: "loop_lookup p ip = Inr (fst (entry_answer e), snd (entry_answer e), p1)" "loop_slot p1 ip w e" by blast
  from loop_slot_update [OF p1(2), of a] obtain p2 where
    p2: "loop_update p1 a ip = Inr p2" "loop_slot p2 ip w (loop_train e a)" by blast
  from Cons.IH [OF p2(2)] show ?case by (auto simp: p1(1) p2(1) split_beta)
qed simp

text \<open>The first outcome of a branch, in the table as the constructor leaves it.\<close>

definition fresh_entry :: loop_entry where
  "fresh_entry = \<lparr>le_tag = 0, le_previous_actual = False, le_enabled = False, le_predictor = 0, le_lru = 0, le_count = 0, le_limit = 0\<rparr>"

lemma loop_first:
  assumes "LoopBranchPredictor 128 6 2 = Inr p"
  shows "\<exists>p1 e. loop_lookup p ip = Inr (False, False, p) \<and> loop_update p d ip = Inr p1 \<and> loop_slot p1 ip 0 e \<and> learning d 1 e"
proof -
  let ?i = "loop_index ip"
  have two: "replicate 2 x = [x, x]" for x :: "loop_entry list" by (simp add: numeral_2_eq_2)
  have p: "p = \<lparr>lp_lru_use_count = 0, lp_ways = [replicate 64 fresh_entry, replicate 64 fresh_entry]\<rparr>"
    using assms by (simp add: LoopBranchPredictor_def fresh_entry_def two)
  let ?W = "lp_ways p"
  have W: "?W ! v ! ?i = fresh_entry" if "v < 2" for v
    using that index_less(3) [of ip] by (auto simp: p less_2_cases_iff)
  have i: "in_ways ?W ?i = Inr ()" "length ?W = 2" "\<forall>way \<in> set ?W. ?i < length way" using index_less(3) [of ip] by (simp_all add: p in_ways_def)
  have off: "match_way (\<lambda>e. le_enabled e \<and> le_tag e = loop_tag ip) ?W ?i = None"
    unfolding match_way_def i(2) by (simp add: W fresh_entry_def)
  have look: "loop_lookup p ip = Inr (False, False, p)" by (simp add: loop_lookup_def i(1) off Let_def)
  have slot: "loop_slot (p\<lparr>lp_ways := put_way ?W 0 ?i e, lp_lru_use_count := n\<rparr>) ip 0 (core e)" if "le_tag e = loop_tag ip" for e n
  proof -
    have n: "put_way ?W 0 ?i e ! v ! ?i = (if v = 0 then e else fresh_entry)" if "v < 2" for v
      using put_way_nth [OF i(3), of 0 v e] i(2) W [OF that] that by simp
    have len: "length (put_way ?W 0 ?i e) = 2" by (simp add: put_way_def i(2))
    have "match_way (\<lambda>e. le_tag e = loop_tag ip) (put_way ?W 0 ?i e) ?i = Some 0"
      using that len by (simp add: match_way_def first_idx_def upt_rec n)
    moreover have "\<forall>way \<in> set (put_way ?W 0 ?i e). ?i < length way"
      using i(2,3) by (auto simp: put_way_def dest!: set_update_subset_insert [THEN subsetD])
    ultimately show ?thesis using n len by (simp add: loop_slot_def Let_def fresh_entry_def del: length_greater_0_conv)
  qed
  show ?thesis
  proof (cases "loop_tag ip = 0")
    case True
    have m: "match_way (\<lambda>e. le_tag e = loop_tag ip) ?W ?i = Some 0"
      using W [of 0] by (simp add: match_way_def first_idx_def i(2) upt_rec True fresh_entry_def)
    let ?e = "(loop_train fresh_entry d)\<lparr>le_lru := lp_lru_use_count p\<rparr>"
    have "learning d 1 (core ?e)"
      by (cases d) (simp_all add: learning_def fresh_entry_def loop_train_defs sat_predict_def sat_update_def sat_dec_def)
    moreover have "loop_update p d ip = Inr (p\<lparr>lp_ways := put_way ?W 0 ?i ?e, lp_lru_use_count := lp_lru_use_count p + 1\<rparr>)"
      using W [of 0] by (simp add: loop_update_def i(1) m Let_def)
    moreover have "le_tag ?e = loop_tag ip" using True by (simp add: loop_train_core fresh_entry_def)
    ultimately show ?thesis using slot look by blast
  next
    case False
    then have m: "match_way (\<lambda>e. le_tag e = loop_tag ip) ?W ?i = None"
      unfolding match_way_def i(2) by (simp add: W fresh_entry_def)
    have l: "lru_way le_lru ?W ?i = 0" using W [of 1] W [of 0] by (simp add: lru_way_def i(2) upt_rec)
    let ?e = "fresh_entry\<lparr>le_tag := loop_tag ip, le_predictor := sat_reset 1 d, le_previous_actual := d,
      le_lru := lp_lru_use_count p, le_count := 1, le_limit := 1\<rparr>"
    have "learning d 1 (core ?e)" by (simp add: learning_def fresh_entry_def sat_reset_ok)
    moreover have "loop_update p d ip = Inr (p\<lparr>lp_ways := put_way ?W 0 ?i ?e, lp_lru_use_count := lp_lru_use_count p + 1\<rparr>)"
      using W [of 0] i(2) by (auto simp: loop_update_def i(1) m l Let_def)
    moreover have "le_tag ?e = loop_tag ip" by simp
    ultimately show ?thesis using slot look by blast
  qed
qed

text \<open>
  C36. The loop predictor learns loops of any length: once it has seen a branch go the same way
  \<open>k\<close> times and then the other way, it predicts every outcome of every later round of the same
  length, including the exit of the loop.
\<close>

theorem loop_predictor_learns:
  assumes "0 < k" and "k < 2 ^ 32"
  shows "case bindR (LoopBranchPredictor 128 6 2) (loop_run ip (loop_outcomes k d @ concat (replicate m (loop_outcomes k d)))) of
      Inl er \<Rightarrow> False
    | Inr (rs, p) \<Rightarrow> drop (Suc k) rs = map (Pair True) (concat (replicate m (loop_outcomes k d)))"
proof -
  obtain p where p: "LoopBranchPredictor 128 6 2 = Inr p" by (simp add: LoopBranchPredictor_def)
  obtain p1 e where p1: "loop_lookup p ip = Inr (False, False, p)" "loop_update p d ip = Inr p1" "loop_slot p1 ip 0 e" "learning d 1 e"
    using loop_first [OF p, of ip d] by blast
  define rest where "rest = replicate (k - 1) d @ [\<not> d]"
  define more where "more = concat (replicate m (loop_outcomes k d))"
  have split: "loop_outcomes k d = d # rest" using assms(1) by (cases k) (simp_all add: rest_def)
  have u: "0 < (of_nat k :: u32)" using assms by (simp add: word_less_nat_alt unat_of_nat_eq)
  have "1 + of_nat (k - 1) = (of_nat k :: u32)" using assms(1) by (simp add: of_nat_diff)
  with learning_run [OF p1(4), of "k - 1"] have "learning d (of_nat k) (snd (entry_run e (replicate (k - 1) d)))" by simp
  from learning_step(2) [OF this u] have t: "trained d (of_nat k) 0 (snd (entry_run e rest))"
    by (simp add: rest_def entry_run_append split_beta)
  have len: "length (fst (entry_run e as)) = length as" for e as by (induction as arbitrary: e) (simp_all add: split_beta)
  have "drop k (fst (entry_run e (rest @ more))) = map (Pair True) more"
    using trained_periods [OF t assms, of m] len [of e rest] assms(1)
    by (simp add: entry_run_append split_beta more_def) (simp add: rest_def)
  moreover obtain p2 where "loop_run ip (rest @ more) p1 = Inr (fst (entry_run e (rest @ more)), p2)"
    using loop_slot_run [OF p1(3)] by blast
  ultimately show ?thesis unfolding more_def [symmetric] unfolding split by (simp add: p p1(1,2))
qed

theorem loop_predictor_learns_witness:
  "concat (replicate 2 (loop_outcomes 3 True)) = [True, True, True, False, True, True, True, False] \<and>
   (case bindR (LoopBranchPredictor 128 6 2) (loop_run 0x4040 (loop_outcomes 3 True @ concat (replicate 2 (loop_outcomes 3 True)))) of
      Inl er \<Rightarrow> False
    | Inr (rs, p) \<Rightarrow> drop (Suc 3) rs = map (Pair True) (concat (replicate 2 (loop_outcomes 3 True))))"
  (is "?A \<and> ?B")
proof
  show ?A by (simp add: numeral_3_eq_3 numeral_2_eq_2)
  show ?B by (rule loop_predictor_learns) simp_all
qed

section \<open>A replaced entry stays enabled\<close>

text \<open>
  When the loop predictor gives an entry to another branch it does not clear the enable bit: a
  branch that takes over the entry of a learned loop is predicted by it after one outcome.
\<close>

lemma replaced_entry_enabled:
  assumes "loop_ok p" and "match_way (\<lambda>e. le_tag e = loop_tag ip) (lp_ways p) (loop_index ip) = None"
    and "\<forall>w < length (lp_ways p). le_enabled (lp_ways p ! w ! loop_index ip)"
  shows "\<exists>p1 p2. loop_update p actual ip = Inr p1 \<and> loop_lookup p1 ip = Inr (True, \<not> actual, p2)"
proof -
  let ?W = "lp_ways p" and ?i = "loop_index ip"
  note ok = assms(1) [unfolded loop_ok_def]
  have ne: "?W \<noteq> []" and len: "\<forall>way \<in> set ?W. ?i < length way" using ok index_less(3) [of ip] by (simp_all add: ways_ok_def)
  let ?w = "lru_way le_lru ?W ?i"
  note w = lru_way_less [OF ne, of le_lru ?i]
  define e where "e = (?W ! ?w ! ?i)\<lparr>le_tag := loop_tag ip, le_predictor := sat_reset 1 actual, le_previous_actual := actual,
    le_lru := lp_lru_use_count p, le_count := 1, le_limit := 1\<rparr>"
  define p1 where "p1 = p\<lparr>lp_ways := put_way ?W ?w ?i e, lp_lru_use_count := lp_lru_use_count p + 1\<rparr>"
  have u: "loop_update p actual ip = Inr p1"
    using ne by (simp add: loop_update_def in_ways_def len assms(2) Let_def p1_def e_def)
  have no: "le_tag (?W ! v ! ?i) \<noteq> loop_tag ip" if "v < length ?W" for v
    using assms(2) that unfolding match_way_def first_idx_None_iff by blast
  have n: "put_way ?W ?w ?i e ! v ! ?i = (if v = ?w then e else ?W ! v ! ?i)" if "v < length ?W" for v
    by (rule put_way_nth [OF len w that])
  have en: "le_enabled e" "le_tag e = loop_tag ip" using w assms(3) by (simp_all add: e_def)
  have "match_way (\<lambda>e. le_enabled e \<and> le_tag e = loop_tag ip) (lp_ways p1) ?i = Some ?w"
    unfolding match_way_def
    by (rule first_idx_unique) (use w no assms(3) en in \<open>simp_all add: p1_def n\<close>)
  moreover have "in_ways (lp_ways p1) ?i = Inr ()"
    using len w by (auto simp: in_ways_def p1_def put_way_def dest!: set_update_subset_insert [THEN subsetD])
  moreover have "loop_prediction (lp_ways p1 ! ?w ! ?i) = (\<not> actual)"
    using n [OF w] by (simp add: p1_def loop_prediction_def e_def sat_reset_ok)
  ultimately show ?thesis by (simp add: u loop_lookup_def Let_def)
qed

end
