(* ===== verification/Thread_Manager.thy ===== *)
theory Thread_Manager
  imports Prelude Subsecond_Time
begin

text \<open>
  The threads of the simulated applications and the cores they run on:
  \<^verbatim>\<open>common/system/thread_manager.cc\<close>, \<^verbatim>\<open>common/core/thread.cc\<close> and what they use of
  \<^verbatim>\<open>common/core/core.h\<close>.

  The state is an extensible record: the servers that are reached through \<^verbatim>\<open>Sim()\<close> add their
  fields to it in their own theories. Every operation runs under the lock of the thread manager, so it
  is one step. What the thread manager calls in other components is the argument of type
  \<open>environment\<close>: the callbacks registered for a hook, the scheduler that places a new thread, the
  server of the clock barrier that advances the time when no thread runs, the translation of the
  addresses of a thread, and the futex server that an exiting thread calls.
\<close>

section \<open>Indices\<close>

definition atR :: "sim_error \<Rightarrow> 'a list \<Rightarrow> int \<Rightarrow> 'a result" where
  "atR er xs i = (if 0 \<le> i \<and> nat i < length xs then Inr (xs ! nat i) else Inl er)"

definition upd_at :: "int \<Rightarrow> ('a \<Rightarrow> 'a) \<Rightarrow> 'a list \<Rightarrow> 'a list" where
  "upd_at i f xs = xs[nat i := f (xs ! nat i)]"

section \<open>Cores and threads\<close>

datatype core_state = RUNNING | INITIALIZING | STALLED | SLEEPING | WAKING_UP | IDLE | BROKEN

datatype stall_type =
    STALL_UNSCHEDULED | STALL_BROKEN | STALL_JOIN | STALL_MUTEX | STALL_COND | STALL_BARRIER
  | STALL_FUTEX | STALL_PAUSE | STALL_SLEEP | STALL_SYSCALL

text \<open>The instructions that the thread manager queues in the performance model of a core.\<close>

datatype pseudo_instruction = Spawn_Instruction subsecond | Sync_Instruction subsecond stall_type

record core =
  co_state :: core_state
  co_thread :: "thread_id option"
  co_elapsed_time :: subsecond
  co_instruction_count :: u64
  co_pseudo :: "pseudo_instruction list"

text \<open>
  \<open>th_waiting\<close> says that the thread of the host that simulates this thread is blocked in
  \<^verbatim>\<open>m_cond\<close>. The message of a wakeup is a null pointer or not.
\<close>

record thread =
  th_app_id :: int
  th_name :: string
  th_wakeup_time :: subsecond
  th_wakeup_msg :: bool
  th_waiting :: bool
  th_core :: "core_id option"
  th_tid :: int
  th_tid_ptr :: intptr
  th_clear_tid :: bool

text \<open>The reason of a stall is not initialised by the constructor.\<close>

record thread_state =
  ts_status :: core_state
  ts_stalled_reason :: "stall_type option"
  ts_waiter :: thread_id

record spawn_request =
  sr_thread_by :: thread_id
  sr_thread_id :: thread_id
  sr_time :: subsecond

record thread_manager =
  tm_threads :: "thread list"
  tm_thread_state :: "thread_state list"
  tm_spawn_list :: "spawn_request list"
  tm_cores :: "core list"
  tm_memory :: "intptr \<Rightarrow> u32"

datatype hook =
    HOOK_PERIODIC subsecond
  | HOOK_THREAD_CREATE thread_id thread_id
  | HOOK_THREAD_START thread_id subsecond
  | HOOK_THREAD_EXIT thread_id subsecond
  | HOOK_THREAD_STALL thread_id stall_type subsecond
  | HOOK_THREAD_RESUME thread_id thread_id subsecond
  | HOOK_THREAD_MIGRATE thread_id core_id subsecond

record 's environment =
  en_hooks :: "hook \<Rightarrow> 's \<Rightarrow> 's result"
  en_threadCreate :: "thread_id \<Rightarrow> 's \<Rightarrow> (core_id \<times> 's) result"
  en_advance :: "'s \<Rightarrow> 's result"
  en_rounds :: nat
  en_va2pa :: "thread_id \<Rightarrow> intptr \<Rightarrow> intptr"
  en_futexWake :: "thread_id \<Rightarrow> intptr \<Rightarrow> subsecond \<Rightarrow> 's \<Rightarrow> 's result"

text \<open>
  A call that waits in the condition variable of its thread comes back when the thread is signalled,
  with a value that depends on the time and the message of the signal.
\<close>

datatype 'r call = Returned 'r | Blocked "subsecond \<Rightarrow> bool \<Rightarrow> 'r"

primrec map_call_result :: "('r \<Rightarrow> 't) \<Rightarrow> 'r call \<Rightarrow> 't call" where
  "map_call_result f (Returned r) = Returned (f r)"
| "map_call_result f (Blocked k) = Blocked (\<lambda>t m. f (k t m))"

section \<open>Thread\<close>

definition new_thread :: "int \<Rightarrow> string \<Rightarrow> thread" where
  "new_thread app_id name =
     \<lparr>th_app_id = app_id, th_name = name, th_wakeup_time = 0, th_wakeup_msg = False, th_waiting = False,
      th_core = None, th_tid = 0, th_tid_ptr = 0, th_clear_tid = False\<rparr>"

definition getThreadFromID :: "'a thread_manager_scheme \<Rightarrow> thread_id \<Rightarrow> thread result" where
  "getThreadFromID s tid = atR Assert_Failed (tm_threads s) tid"

definition getCoreFromID :: "'a thread_manager_scheme \<Rightarrow> core_id \<Rightarrow> core result" where
  "getCoreFromID s c =
     (if c < int (length (tm_cores s)) then atR Out_Of_Range (tm_cores s) c else Inl Assert_Failed)"

definition threadState :: "'a thread_manager_scheme \<Rightarrow> thread_id \<Rightarrow> thread_state result" where
  "threadState s tid = atR Out_Of_Range (tm_thread_state s) tid"

definition set_thread :: "thread_id \<Rightarrow> (thread \<Rightarrow> thread) \<Rightarrow> 'a thread_manager_scheme \<Rightarrow> 'a thread_manager_scheme result" where
  "set_thread tid f s =
     bindR (getThreadFromID s tid) (\<lambda>_. Inr (s\<lparr>tm_threads := upd_at tid f (tm_threads s)\<rparr>))"

definition set_state ::
  "thread_id \<Rightarrow> (thread_state \<Rightarrow> thread_state) \<Rightarrow> 'a thread_manager_scheme \<Rightarrow> 'a thread_manager_scheme result" where
  "set_state tid f s =
     bindR (threadState s tid) (\<lambda>_. Inr (s\<lparr>tm_thread_state := upd_at tid f (tm_thread_state s)\<rparr>))"

definition set_core :: "core_id \<Rightarrow> (core \<Rightarrow> core) \<Rightarrow> 'a thread_manager_scheme \<Rightarrow> 'a thread_manager_scheme result" where
  "set_core c f s =
     bindR (getCoreFromID s c) (\<lambda>_. Inr (s\<lparr>tm_cores := upd_at c f (tm_cores s)\<rparr>))"

definition setCoreState :: "core_id \<Rightarrow> core_state \<Rightarrow> 'a thread_manager_scheme \<Rightarrow> 'a thread_manager_scheme result" where
  "setCoreState c st s = set_core c (\<lambda>k. k\<lparr>co_state := st\<rparr>) s"

definition queuePseudoInstruction ::
  "core_id \<Rightarrow> pseudo_instruction \<Rightarrow> 'a thread_manager_scheme \<Rightarrow> 'a thread_manager_scheme result" where
  "queuePseudoInstruction c i s = set_core c (\<lambda>k. k\<lparr>co_pseudo := co_pseudo k @ [i]\<rparr>) s"

definition getElapsedTime :: "'a thread_manager_scheme \<Rightarrow> core_id \<Rightarrow> subsecond result" where
  "getElapsedTime s c = bindR (getCoreFromID s c) (\<lambda>k. Inr (co_elapsed_time k))"

definition setCore :: "thread_id \<Rightarrow> core_id option \<Rightarrow> 'a thread_manager_scheme \<Rightarrow> 'a thread_manager_scheme result" where
  "setCore tid c s =
     bindR (getThreadFromID s tid) (\<lambda>th.
     bindR (case th_core th of None \<Rightarrow> Inr s | Some old \<Rightarrow> set_core old (\<lambda>k. k\<lparr>co_thread := None\<rparr>) s) (\<lambda>s1.
     bindR (set_thread tid (\<lambda>th. th\<lparr>th_core := c\<rparr>) s1) (\<lambda>s2.
     case c of
       None \<Rightarrow> Inr s2
     | Some new \<Rightarrow>
         bindR (getCoreFromID s2 new) (\<lambda>k.
         bindR (assertR (co_thread k = None)) (\<lambda>_.
         set_core new (\<lambda>k. k\<lparr>co_thread := Some tid\<rparr>) s2)))))"

text \<open>\<^verbatim>\<open>Thread::wait\<close> and \<^verbatim>\<open>Thread::signal\<close>.\<close>

definition thread_wait :: "thread_id \<Rightarrow> 'a thread_manager_scheme \<Rightarrow> 'a thread_manager_scheme result" where
  "thread_wait tid s = set_thread tid (\<lambda>th. th\<lparr>th_wakeup_msg := False, th_waiting := True\<rparr>) s"

definition thread_signal :: "thread_id \<Rightarrow> subsecond \<Rightarrow> bool \<Rightarrow> 'a thread_manager_scheme \<Rightarrow> 'a thread_manager_scheme result" where
  "thread_signal tid time msg s =
     set_thread tid (\<lambda>th. th\<lparr>th_wakeup_time := time, th_wakeup_msg := msg, th_waiting := False\<rparr>) s"

section \<open>Stalling and resuming\<close>

definition set_status :: "thread_id \<Rightarrow> core_state \<Rightarrow> 'a thread_manager_scheme \<Rightarrow> 'a thread_manager_scheme result" where
  "set_status tid st s = set_state tid (\<lambda>x. x\<lparr>ts_status := st\<rparr>) s"

definition set_waiter :: "thread_id \<Rightarrow> thread_id \<Rightarrow> 'a thread_manager_scheme \<Rightarrow> 'a thread_manager_scheme result" where
  "set_waiter tid w s = set_state tid (\<lambda>x. x\<lparr>ts_waiter := w\<rparr>) s"

definition isThreadRunning :: "'a thread_manager_scheme \<Rightarrow> thread_id \<Rightarrow> bool result" where
  "isThreadRunning s tid = bindR (threadState s tid) (\<lambda>x. Inr (ts_status x = RUNNING))"

definition isThreadInitializing :: "'a thread_manager_scheme \<Rightarrow> thread_id \<Rightarrow> bool result" where
  "isThreadInitializing s tid = bindR (threadState s tid) (\<lambda>x. Inr (ts_status x = INITIALIZING))"

text \<open>\<^verbatim>\<open>m_threads\<close> and \<^verbatim>\<open>m_thread_state\<close> grow together, so the loop over the threads is a search in the second.\<close>

definition anyThreadRunning :: "'a thread_manager_scheme \<Rightarrow> bool" where
  "anyThreadRunning s = list_ex (\<lambda>x. ts_status x = RUNNING \<or> ts_status x = INITIALIZING) (tm_thread_state s)"

definition areAllCoresRunning :: "'a thread_manager_scheme \<Rightarrow> bool" where
  "areAllCoresRunning s = list_all (\<lambda>x. ts_status x \<noteq> IDLE) (tm_thread_state s)"

definition findThreadByTid :: "'a thread_manager_scheme \<Rightarrow> int \<Rightarrow> thread_id option" where
  "findThreadByTid s tid =
     map_option int (first_idx (\<lambda>i. th_tid (tm_threads s ! i) = tid) (length (tm_threads s)))"

definition stallThread_async ::
  "'a thread_manager_scheme environment \<Rightarrow> thread_id \<Rightarrow> stall_type \<Rightarrow> subsecond \<Rightarrow> 'a thread_manager_scheme
     \<Rightarrow> 'a thread_manager_scheme result" where
  "stallThread_async env tid reason time s =
     bindR (set_state tid (\<lambda>x. x\<lparr>ts_status := STALLED, ts_stalled_reason := Some reason\<rparr>) s) (\<lambda>s1.
     en_hooks env (HOOK_THREAD_STALL tid reason time) s1)"

text \<open>
  The loop that lets the barrier advance the time while no thread runs. It may be endless; a bound on
  its rounds is part of the environment.
\<close>

primrec advance_while_stalled :: "nat \<Rightarrow> ('a thread_manager_scheme \<Rightarrow> 'a thread_manager_scheme result)
     \<Rightarrow> 'a thread_manager_scheme \<Rightarrow> 'a thread_manager_scheme result" where
  "advance_while_stalled 0 adv s = (if anyThreadRunning s then Inr s else Inl No_Return)"
| "advance_while_stalled (Suc n) adv s =
     (if anyThreadRunning s then Inr s else bindR (adv s) (advance_while_stalled n adv))"

definition stallThread ::
  "'a thread_manager_scheme environment \<Rightarrow> thread_id \<Rightarrow> stall_type \<Rightarrow> subsecond \<Rightarrow> 'a thread_manager_scheme
     \<Rightarrow> (subsecond call \<times> 'a thread_manager_scheme) result" where
  "stallThread env tid reason time s =
     bindR (stallThread_async env tid reason time s) (\<lambda>s1.
     bindR (advance_while_stalled (en_rounds env) (en_advance env) s1) (\<lambda>s2.
     bindR (threadState s2 tid) (\<lambda>x.
     if ts_status x = RUNNING
     then bindR (getThreadFromID s2 tid) (\<lambda>th. Inr (Returned (th_wakeup_time th), s2))
     else bindR (thread_wait tid s2) (\<lambda>s3. Inr (Blocked (\<lambda>t m. t), s3)))))"

definition resumeThread_async ::
  "'a thread_manager_scheme environment \<Rightarrow> thread_id \<Rightarrow> thread_id \<Rightarrow> subsecond \<Rightarrow> 'a thread_manager_scheme
     \<Rightarrow> 'a thread_manager_scheme result" where
  "resumeThread_async env tid thread_by time s =
     bindR (set_status tid RUNNING s) (en_hooks env (HOOK_THREAD_RESUME tid thread_by time))"

definition resumeThread ::
  "'a thread_manager_scheme environment \<Rightarrow> thread_id \<Rightarrow> thread_id \<Rightarrow> subsecond \<Rightarrow> bool \<Rightarrow> 'a thread_manager_scheme
     \<Rightarrow> 'a thread_manager_scheme result" where
  "resumeThread env tid thread_by time msg s =
     bindR (thread_signal tid time msg s) (resumeThread_async env tid thread_by time)"

definition wakeUpWaiter ::
  "'a thread_manager_scheme environment \<Rightarrow> thread_id \<Rightarrow> subsecond \<Rightarrow> 'a thread_manager_scheme
     \<Rightarrow> 'a thread_manager_scheme result" where
  "wakeUpWaiter env tid time s =
     bindR (threadState s tid) (\<lambda>x.
     if ts_waiter x \<noteq> INVALID_THREAD_ID
     then bindR (resumeThread env (ts_waiter x) tid time False s) (set_waiter tid INVALID_THREAD_ID)
     else Inr s)"

section \<open>Life of a thread\<close>

definition createThread_unlocked ::
  "'a thread_manager_scheme environment \<Rightarrow> int \<Rightarrow> thread_id \<Rightarrow> string \<Rightarrow> 'a thread_manager_scheme
     \<Rightarrow> (thread_id \<times> 'a thread_manager_scheme) result" where
  "createThread_unlocked env app_id creator name s =
     (let tid = int (length (tm_threads s));
          s1 = s\<lparr>tm_threads := tm_threads s @ [new_thread app_id name],
                 tm_thread_state := tm_thread_state s
                   @ [\<lparr>ts_status = INITIALIZING, ts_stalled_reason = None, ts_waiter = INVALID_THREAD_ID\<rparr>]\<rparr>
      in bindR (en_threadCreate env tid s1) (\<lambda>(core_id, s2).
         bindR (if core_id \<noteq> INVALID_CORE_ID
                then bindR (getCoreFromID s2 core_id) (\<lambda>_.
                     bindR (setCore tid (Some core_id) s2) (setCoreState core_id INITIALIZING))
                else Inr s2) (\<lambda>s3.
         bindR (en_hooks env (HOOK_THREAD_CREATE tid creator) s3) (\<lambda>s4. Inr (tid, s4)))))"

definition start_on_core ::
  "'a thread_manager_scheme environment \<Rightarrow> thread_id \<Rightarrow> core_id \<Rightarrow> subsecond \<Rightarrow> 'a thread_manager_scheme
     \<Rightarrow> (subsecond \<times> 'a thread_manager_scheme) result" where
  "start_on_core env tid c time s =
     bindR (setCoreState c RUNNING s) (\<lambda>s1.
     bindR (getElapsedTime s1 c) (\<lambda>elapsed.
     let time' = max time elapsed in
     bindR (queuePseudoInstruction c (Spawn_Instruction time') s1) (\<lambda>s2.
     bindR (set_status tid RUNNING s2) (\<lambda>s3.
     bindR (en_hooks env (HOOK_THREAD_MIGRATE tid c time') s3) (\<lambda>s4. Inr (time', s4))))))"

definition onThreadStart ::
  "'a thread_manager_scheme environment \<Rightarrow> thread_id \<Rightarrow> subsecond \<Rightarrow> 'a thread_manager_scheme
     \<Rightarrow> 'a thread_manager_scheme result" where
  "onThreadStart env tid time s =
     bindR (getThreadFromID s tid) (\<lambda>_.
     bindR (set_status tid RUNNING s) (\<lambda>s1.
     bindR (en_hooks env (HOOK_THREAD_START tid time) s1) (\<lambda>s2.
     bindR (getThreadFromID s2 tid) (\<lambda>th.
     bindR (case th_core th of
              Some c \<Rightarrow> start_on_core env tid c time s2
            | None \<Rightarrow>
                bindR (set_state tid (\<lambda>x. x\<lparr>ts_status := STALLED, ts_stalled_reason := Some STALL_UNSCHEDULED\<rparr>) s2)
                  (\<lambda>s3. Inr (time, s3))) (\<lambda>(time', s3).
     bindR (threadState s3 tid) (\<lambda>x.
     if ts_waiter x \<noteq> INVALID_THREAD_ID
     then bindR (thread_signal (ts_waiter x) time' False s3) (set_waiter tid INVALID_THREAD_ID)
     else Inr s3))))))"

definition onThreadExit ::
  "'a thread_manager_scheme environment \<Rightarrow> thread_id \<Rightarrow> 'a thread_manager_scheme \<Rightarrow> 'a thread_manager_scheme result" where
  "onThreadExit env tid s =
     bindR (assertR (0 \<le> tid \<and> nat tid < length (tm_thread_state s))) (\<lambda>_.
     bindR (getThreadFromID s tid) (\<lambda>th.
     case th_core th of
       None \<Rightarrow> Inl Assert_Failed
     | Some c \<Rightarrow>
         bindR (getElapsedTime s c) (\<lambda>time.
         bindR (threadState s tid) (\<lambda>x.
         bindR (assertR (ts_status x = RUNNING)) (\<lambda>_.
         bindR (set_status tid IDLE s) (\<lambda>s1.
         bindR (wakeUpWaiter env tid time s1) (\<lambda>s2.
         bindR (if th_clear_tid th
                then en_futexWake env tid (th_tid_ptr th) time
                       (s2\<lparr>tm_memory := (tm_memory s2)(th_tid_ptr th := 0)\<rparr>)
                else Inr s2) (\<lambda>s3.
         bindR (setCoreState c IDLE s3) (\<lambda>s4.
         bindR (setCore tid None s4) (\<lambda>s5.
         en_hooks env (HOOK_THREAD_EXIT tid time) s5))))))))))"

definition spawnThread ::
  "'a thread_manager_scheme environment \<Rightarrow> thread_id \<Rightarrow> int \<Rightarrow> string \<Rightarrow> 'a thread_manager_scheme
     \<Rightarrow> (thread_id \<times> 'a thread_manager_scheme) result" where
  "spawnThread env tid app_id name s =
     bindR (if tid \<noteq> INVALID_THREAD_ID
            then bindR (getThreadFromID s tid) (\<lambda>th. case th_core th of None \<Rightarrow> Inl Null_Pointer | Some c \<Rightarrow> getElapsedTime s c)
            else Inr 0) (\<lambda>time_start.
     bindR (createThread_unlocked env app_id tid name s) (\<lambda>(new, s1).
     Inr (new, s1\<lparr>tm_spawn_list := tm_spawn_list s1
                      @ [\<lparr>sr_thread_by = tid, sr_thread_id = new, sr_time = time_start\<rparr>]\<rparr>)))"

definition getThreadToSpawn :: "'a thread_manager_scheme \<Rightarrow> (thread_id \<times> subsecond \<times> 'a thread_manager_scheme) result" where
  "getThreadToSpawn s =
     (case tm_spawn_list s of
        [] \<Rightarrow> Inl Assert_Failed
      | req # rest \<Rightarrow> Inr (sr_thread_id req, sr_time req, s\<lparr>tm_spawn_list := rest\<rparr>))"

definition waitForThreadStart :: "thread_id \<Rightarrow> thread_id \<Rightarrow> 'a thread_manager_scheme \<Rightarrow> (unit call \<times> 'a thread_manager_scheme) result" where
  "waitForThreadStart tid wait_tid s =
     bindR (getThreadFromID s tid) (\<lambda>_.
     bindR (threadState s wait_tid) (\<lambda>x.
     if ts_status x = INITIALIZING
     then bindR (assertR (ts_waiter x = INVALID_THREAD_ID)) (\<lambda>_.
          bindR (set_waiter wait_tid tid s) (\<lambda>s1.
          bindR (thread_wait tid s1) (\<lambda>s2. Inr (Blocked (\<lambda>t m. ()), s2))))
     else Inr (Returned (), s)))"

definition joinThread ::
  "'a thread_manager_scheme environment \<Rightarrow> thread_id \<Rightarrow> thread_id \<Rightarrow> 'a thread_manager_scheme
     \<Rightarrow> (subsecond option call \<times> 'a thread_manager_scheme) result" where
  "joinThread env tid join_tid s =
     bindR (getThreadFromID s tid) (\<lambda>th.
     bindR (threadState s join_tid) (\<lambda>x.
     if ts_status x = IDLE then Inr (Returned None, s)
     else
       bindR (case th_core th of None \<Rightarrow> Inl Null_Pointer | Some c \<Rightarrow> getElapsedTime s c) (\<lambda>start_time.
       bindR (assertR (ts_waiter x = INVALID_THREAD_ID)) (\<lambda>_.
       bindR (set_waiter join_tid tid s) (\<lambda>s1.
       bindR (stallThread env tid STALL_JOIN start_time s1) (\<lambda>(r, s2).
       Inr (map_call_result Some r, s2)))))))"

text \<open>One round of the loop of \<^verbatim>\<open>Thread::reschedule\<close>: a thread without a core stalls, and looks again when it is woken.\<close>

definition reschedule_thread ::
  "'a thread_manager_scheme environment \<Rightarrow> thread_id \<Rightarrow> core_id option \<Rightarrow> subsecond \<Rightarrow> 'a thread_manager_scheme
     \<Rightarrow> (subsecond call \<times> 'a thread_manager_scheme) result" where
  "reschedule_thread env tid current time s =
     bindR (getThreadFromID s tid) (\<lambda>th.
     case th_core th of
       None \<Rightarrow> stallThread env tid STALL_UNSCHEDULED time s
     | Some c \<Rightarrow>
         if current = Some c then Inr (Returned time, s)
         else bindR (queuePseudoInstruction c (Sync_Instruction time STALL_UNSCHEDULED) s) (\<lambda>s1. Inr (Returned time, s1)))"

definition put_on_core :: "thread_id \<Rightarrow> core_id \<Rightarrow> 'a thread_manager_scheme \<Rightarrow> 'a thread_manager_scheme result" where
  "put_on_core tid core_id s =
     bindR (getCoreFromID s core_id) (\<lambda>_.
     bindR (setCore tid (Some core_id) s) (\<lambda>s1.
     bindR (threadState s1 tid) (\<lambda>x.
     if ts_status x \<noteq> STALLED then setCoreState core_id RUNNING s1 else Inr s1)))"

definition wake_unscheduled ::
  "'a thread_manager_scheme environment \<Rightarrow> thread_id \<Rightarrow> bool \<Rightarrow> subsecond \<Rightarrow> 'a thread_manager_scheme
     \<Rightarrow> 'a thread_manager_scheme result" where
  "wake_unscheduled env tid without_core time s =
     bindR (threadState s tid) (\<lambda>x.
     if without_core \<and> ts_status x = STALLED \<and> ts_stalled_reason x = Some STALL_UNSCHEDULED
     then resumeThread env tid INVALID_THREAD_ID time False s else Inr s)"

definition moveThread ::
  "'a thread_manager_scheme environment \<Rightarrow> thread_id \<Rightarrow> core_id \<Rightarrow> subsecond \<Rightarrow> 'a thread_manager_scheme
     \<Rightarrow> 'a thread_manager_scheme result" where
  "moveThread env tid core_id time s =
     bindR (getThreadFromID s tid) (\<lambda>th.
     bindR (case th_core th of None \<Rightarrow> Inr s | Some c \<Rightarrow> setCoreState c IDLE s) (\<lambda>s1.
     bindR (if core_id = INVALID_CORE_ID then setCore tid None s1
            else bindR (wake_unscheduled env tid (th_core th = None) time s1) (put_on_core tid core_id)) (\<lambda>s2.
     en_hooks env (HOOK_THREAD_MIGRATE tid core_id time) s2)))"

end
