(* ===== verification/Syscall_Server.thy ===== *)
theory Syscall_Server
  imports Thread_Manager
begin

text \<open>
  \<^verbatim>\<open>common/system/syscall_server.cc\<close>: sleeping threads and futexes. The map of the futexes is a
  function, in which an address without an entry has no waiters, and the list of the addresses that
  have an entry, in the order in which the map is iterated over. The memory of the application is
  read and written in words of 32 bits.
\<close>

section \<open>State\<close>

record waiter =
  wt_thread_id :: thread_id
  wt_mask :: u32
  wt_timeout :: subsecond

record syscall_server = thread_manager +
  sv_reschedule_cost :: subsecond
  sv_sleeping :: "waiter list"
  sv_futexes :: "intptr \<Rightarrow> waiter list"
  sv_futex_order :: "intptr list"

abbreviation FUTEX_WAIT :: u32 where "FUTEX_WAIT \<equiv> 0"
abbreviation FUTEX_WAKE :: u32 where "FUTEX_WAKE \<equiv> 1"
abbreviation FUTEX_CMP_REQUEUE :: u32 where "FUTEX_CMP_REQUEUE \<equiv> 4"
abbreviation FUTEX_WAKE_OP :: u32 where "FUTEX_WAKE_OP \<equiv> 5"
abbreviation FUTEX_WAIT_BITSET :: u32 where "FUTEX_WAIT_BITSET \<equiv> 9"
abbreviation FUTEX_WAKE_BITSET :: u32 where "FUTEX_WAKE_BITSET \<equiv> 10"
abbreviation FUTEX_PRIVATE_FLAG :: u32 where "FUTEX_PRIVATE_FLAG \<equiv> 128"
abbreviation FUTEX_CMD_MASK :: u32 where "FUTEX_CMD_MASK \<equiv> NOT (128 OR 256)"
abbreviation FUTEX_BITSET_MATCH_ANY :: u32 where "FUTEX_BITSET_MATCH_ANY \<equiv> 0xffffffff"
abbreviation EAGAIN :: u64 where "EAGAIN \<equiv> 11"
abbreviation ETIMEDOUT :: u64 where "ETIMEDOUT \<equiv> 110"

record futex_args =
  fa_uaddr :: intptr
  fa_op :: u32
  fa_val :: u32
  fa_timeout :: "(u64 \<times> u64) option"
  fa_val2 :: u32
  fa_uaddr2 :: intptr
  fa_val3 :: u32

type_synonym 'a sv_state = "'a syscall_server_scheme"
type_synonym 'a sv_env = "'a syscall_server_scheme environment"

section \<open>SimFutex\<close>

definition set_futex :: "intptr \<Rightarrow> waiter list \<Rightarrow> 'a sv_state \<Rightarrow> 'a sv_state" where
  "set_futex a q s = s\<lparr>sv_futexes := (sv_futexes s)(a := q)\<rparr>"

definition enqueueWaiter ::
  "'a sv_env \<Rightarrow> intptr \<Rightarrow> thread_id \<Rightarrow> u32 \<Rightarrow> subsecond \<Rightarrow> subsecond \<Rightarrow> 'a sv_state
     \<Rightarrow> ((bool \<times> subsecond) call \<times> 'a sv_state) result" where
  "enqueueWaiter env a tid bitset time timeout_time s =
     bindR (stallThread env tid STALL_FUTEX time
        (set_futex a (sv_futexes s a @ [\<lparr>wt_thread_id = tid, wt_mask = bitset, wt_timeout = timeout_time\<rparr>]) s)) (\<lambda>(r, s1).
     case r of
       Returned t \<Rightarrow> bindR (getThreadFromID s1 tid) (\<lambda>th. Inr (Returned (th_wakeup_msg th, t), s1))
     | Blocked k \<Rightarrow> Inr (Blocked (\<lambda>t m. (m, k t m)), s1))"

text \<open>The first waiter for which a test holds leaves its queue.\<close>

definition take_waiter :: "(waiter \<Rightarrow> bool) \<Rightarrow> waiter list \<Rightarrow> (waiter \<times> waiter list) option" where
  "take_waiter P q =
     (case first_idx (\<lambda>i. P (q ! i)) (length q) of
        None \<Rightarrow> None
      | Some i \<Rightarrow> Some (q ! i, take i q @ drop (Suc i) q))"

definition dequeueWaiter ::
  "'a sv_env \<Rightarrow> intptr \<Rightarrow> thread_id \<Rightarrow> u32 \<Rightarrow> subsecond \<Rightarrow> 'a sv_state \<Rightarrow> (thread_id \<times> 'a sv_state) result" where
  "dequeueWaiter env a thread_by bitset time s =
     (case take_waiter (\<lambda>w. bitset AND wt_mask w \<noteq> 0) (sv_futexes s a) of
        None \<Rightarrow> Inr (INVALID_THREAD_ID, s)
      | Some (w, rest) \<Rightarrow>
          bindR (resumeThread env (wt_thread_id w) thread_by time True (set_futex a rest s)) (\<lambda>s1.
          Inr (wt_thread_id w, s1)))"

definition requeueWaiter :: "intptr \<Rightarrow> intptr \<Rightarrow> 'a sv_state \<Rightarrow> thread_id \<times> 'a sv_state" where
  "requeueWaiter a requeue s =
     (case sv_futexes s a of
        [] \<Rightarrow> (INVALID_THREAD_ID, s)
      | w # rest \<Rightarrow>
          let s1 = set_futex a rest s
          in (wt_thread_id w, set_futex requeue (sv_futexes s1 requeue @ [w]) s1))"

definition wakeTimedOut :: "'a sv_env \<Rightarrow> subsecond \<Rightarrow> intptr \<Rightarrow> 'a sv_state \<Rightarrow> 'a sv_state result" where
  "wakeTimedOut env time a s =
     (case take_waiter (\<lambda>w. wt_timeout w \<le> time) (sv_futexes s a) of
        None \<Rightarrow> Inr s
      | Some (w, rest) \<Rightarrow> resumeThread env (wt_thread_id w) INVALID_THREAD_ID time False (set_futex a rest s))"

text \<open>The last timeout of a queue, not the first one.\<close>

definition last_timeout :: "waiter list \<Rightarrow> subsecond" where
  "last_timeout q = fold (\<lambda>w next. if wt_timeout w < ST_MaxTime then wt_timeout w else next) q ST_MaxTime"

definition futex_getNextTimeout :: "intptr \<Rightarrow> 'a sv_state \<Rightarrow> subsecond" where
  "futex_getNextTimeout a s = last_timeout (sv_futexes s a)"

section \<open>SyscallServer\<close>

definition handleSleepCall ::
  "'a sv_env \<Rightarrow> thread_id \<Rightarrow> subsecond \<Rightarrow> subsecond \<Rightarrow> 'a sv_state \<Rightarrow> (subsecond call \<times> 'a sv_state) result" where
  "handleSleepCall env tid wake_time curr_time s =
     stallThread env tid STALL_SLEEP curr_time
       (s\<lparr>sv_sleeping := sv_sleeping s @ [\<lparr>wt_thread_id = tid, wt_mask = 0, wt_timeout = wake_time\<rparr>]\<rparr>)"

definition applyRescheduleCost :: "thread_id \<Rightarrow> bool \<Rightarrow> 'a sv_state \<Rightarrow> subsecond result" where
  "applyRescheduleCost tid conditional s =
     (if \<not> conditional then Inr 0
      else
        bindR (getThreadFromID s tid) (\<lambda>th.
        case th_core th of
          None \<Rightarrow> Inl Null_Pointer
        | Some c \<Rightarrow> bindR (getCoreFromID s c) (\<lambda>k.
            Inr (if co_instruction_count k = 0 then 0 else sv_reschedule_cost s))))"

definition findFutexByUaddr :: "'a sv_env \<Rightarrow> intptr \<Rightarrow> thread_id \<Rightarrow> 'a sv_state \<Rightarrow> (intptr \<times> 'a sv_state) result" where
  "findFutexByUaddr env uaddr tid s =
     bindR (getThreadFromID s tid) (\<lambda>_.
     let a = en_va2pa env tid uaddr
     in Inr (a, if a \<in> set (sv_futex_order s) then s else s\<lparr>sv_futex_order := sv_futex_order s @ [a]\<rparr>))"

definition futexWait ::
  "'a sv_env \<Rightarrow> thread_id \<Rightarrow> intptr \<Rightarrow> u32 \<Rightarrow> u32 \<Rightarrow> u32 \<Rightarrow> subsecond \<Rightarrow> subsecond \<Rightarrow> 'a sv_state
     \<Rightarrow> ((u64 \<times> subsecond) call \<times> 'a sv_state) result" where
  "futexWait env tid uaddr val act_val bitset curr_time timeout_time s =
     bindR (findFutexByUaddr env uaddr tid s) (\<lambda>(a, s1).
     if val \<noteq> act_val then Inr (Returned (- EAGAIN, curr_time), s1)
     else
       bindR (enqueueWaiter env a tid bitset curr_time timeout_time s1) (\<lambda>(r, s2).
       Inr (map_call_result (\<lambda>(success, end_time). (if success then 0 else - ETIMEDOUT, end_time)) r, s2)))"

definition wakeFutexOne ::
  "'a sv_env \<Rightarrow> intptr \<Rightarrow> thread_id \<Rightarrow> u32 \<Rightarrow> subsecond \<Rightarrow> 'a sv_state \<Rightarrow> (thread_id \<times> 'a sv_state) result" where
  "wakeFutexOne env a thread_by bitset curr_time s =
     bindR (applyRescheduleCost thread_by True s) (\<lambda>cost.
     dequeueWaiter env a thread_by bitset (curr_time + cost) s)"

text \<open>The loops that wake up to a number of waiters stop at the first attempt that finds none.\<close>

primrec wake_loop ::
  "('a sv_state \<Rightarrow> (thread_id \<times> 'a sv_state) result) \<Rightarrow> nat \<Rightarrow> 'a sv_state \<Rightarrow> (nat \<times> 'a sv_state) result" where
  "wake_loop wake 0 s = Inr (0, s)"
| "wake_loop wake (Suc n) s =
     bindR (wake s) (\<lambda>(w, s1).
     if w = INVALID_THREAD_ID then Inr (0, s1)
     else bindR (wake_loop wake n s1) (\<lambda>(k, s2). Inr (Suc k, s2)))"

definition loop_bound :: "u32 \<Rightarrow> nat" where
  "loop_bound n = nat (sint n)"

definition futexWake ::
  "'a sv_env \<Rightarrow> thread_id \<Rightarrow> intptr \<Rightarrow> u32 \<Rightarrow> u32 \<Rightarrow> subsecond \<Rightarrow> 'a sv_state \<Rightarrow> ((u64 \<times> subsecond) \<times> 'a sv_state) result" where
  "futexWake env tid uaddr nr_wake bitset curr_time s =
     bindR (findFutexByUaddr env uaddr tid s) (\<lambda>(a, s1).
     bindR (wake_loop (wakeFutexOne env a tid bitset curr_time) (loop_bound nr_wake) s1) (\<lambda>(k, s2).
     bindR (applyRescheduleCost tid (k > 0) s2) (\<lambda>cost.
     Inr ((of_nat k, curr_time + cost), s2))))"

definition futexDoOp :: "u32 \<Rightarrow> intptr \<Rightarrow> 'a sv_state \<Rightarrow> (bool \<times> 'a sv_state) result" where
  "futexDoOp encoded_op uaddr s =
     (let op = drop_bit 28 encoded_op AND 7;
          cmp = drop_bit 24 encoded_op AND 15;
          arg = signed_drop_bit 20 (push_bit 8 encoded_op);
          cmparg = signed_drop_bit 20 (push_bit 20 encoded_op);
          oldval = tm_memory s uaddr in
      bindR (if encoded_op AND push_bit 28 8 \<noteq> 0
             then if arg < 32 then Inr (push_bit (unat arg) 1) else Inl Out_Of_Range
             else Inr arg) (\<lambda>oparg.
      bindR (if op = 0 then Inr oparg
             else if op = 1 then Inr (oldval + oparg)
             else if op = 2 then Inr (oldval OR oparg)
             else if op = 3 then Inr (oldval AND NOT oparg)
             else if op = 4 then Inr (oldval XOR oparg)
             else Inl Assert_Failed) (\<lambda>newval.
      let s1 = s\<lparr>tm_memory := (tm_memory s)(uaddr := newval)\<rparr> in
      bindR (if cmp = 0 then Inr (oldval = cmparg)
             else if cmp = 1 then Inr (oldval \<noteq> cmparg)
             else if cmp = 2 then Inr (sint oldval < sint cmparg)
             else if cmp = 5 then Inr (sint oldval \<ge> sint cmparg)
             else if cmp = 3 then Inr (sint oldval \<le> sint cmparg)
             else if cmp = 4 then Inr (sint oldval > sint cmparg)
             else Inl Assert_Failed) (\<lambda>ret. Inr (ret, s1)))))"

definition futexWakeOp ::
  "'a sv_env \<Rightarrow> thread_id \<Rightarrow> intptr \<Rightarrow> intptr \<Rightarrow> u32 \<Rightarrow> u32 \<Rightarrow> u32 \<Rightarrow> subsecond \<Rightarrow> 'a sv_state
     \<Rightarrow> ((u64 \<times> subsecond) \<times> 'a sv_state) result" where
  "futexWakeOp env tid uaddr uaddr2 nr_wake nr_wake2 op curr_time s =
     bindR (findFutexByUaddr env uaddr tid s) (\<lambda>(a, s1).
     bindR (findFutexByUaddr env uaddr2 tid s1) (\<lambda>(a2, s2).
     bindR (getThreadFromID s2 tid) (\<lambda>th.
     bindR (assertR (th_core th \<noteq> None)) (\<lambda>_.
     bindR (futexDoOp op uaddr2 s2) (\<lambda>(op_ret, s3).
     bindR (wake_loop (wakeFutexOne env a tid FUTEX_BITSET_MATCH_ANY curr_time) (loop_bound nr_wake) s3) (\<lambda>(k, s4).
     bindR (if op_ret
            then wake_loop (wakeFutexOne env a2 tid FUTEX_BITSET_MATCH_ANY curr_time) (loop_bound nr_wake2) s4
            else Inr (0, s4)) (\<lambda>(k2, s5).
     bindR (applyRescheduleCost tid (k + k2 > 0) s5) (\<lambda>cost.
     Inr ((of_nat (k + k2), curr_time + cost), s5)))))))))"

text \<open>The endless loop that requeues takes a waiter off the first futex in each round.\<close>

primrec requeue_loop :: "nat \<Rightarrow> intptr \<Rightarrow> intptr \<Rightarrow> 'a sv_state \<Rightarrow> 'a sv_state result" where
  "requeue_loop 0 a b s = Inl No_Return"
| "requeue_loop (Suc n) a b s =
     (let (w, s1) = requeueWaiter a b s
      in if w = INVALID_THREAD_ID then Inr s1 else requeue_loop n a b s1)"

definition futexCmpRequeue ::
  "'a sv_env \<Rightarrow> thread_id \<Rightarrow> intptr \<Rightarrow> u32 \<Rightarrow> intptr \<Rightarrow> u32 \<Rightarrow> u32 \<Rightarrow> subsecond \<Rightarrow> 'a sv_state
     \<Rightarrow> ((u64 \<times> subsecond) \<times> 'a sv_state) result" where
  "futexCmpRequeue env tid uaddr val uaddr2 val3 act_val curr_time s =
     bindR (findFutexByUaddr env uaddr tid s) (\<lambda>(a, s1).
     if val3 \<noteq> act_val then Inr ((- EAGAIN, curr_time), s1)
     else
       bindR (wake_loop (dequeueWaiter env a tid FUTEX_BITSET_MATCH_ANY curr_time) (loop_bound val) s1) (\<lambda>(k, s2).
       bindR (findFutexByUaddr env uaddr2 tid s2) (\<lambda>(b, s3).
       bindR (requeue_loop (Suc (length (sv_futexes s3 a))) a b s3) (\<lambda>s4.
       Inr ((of_nat k, curr_time), s4)))))"

definition futex_timeout :: "u64 \<Rightarrow> u32 \<Rightarrow> (u64 \<times> u64) option \<Rightarrow> subsecond \<Rightarrow> subsecond" where
  "futex_timeout time_start cmd timeout curr_time =
     (case timeout of
        None \<Rightarrow> ST_MaxTime
      | Some (tv_sec, tv_nsec) \<Rightarrow>
          if cmd = FUTEX_WAIT \<or> cmd = FUTEX_WAIT_BITSET
          then let timeout_val = ST_SEC (tv_sec - time_start) + ST_NS tv_nsec
               in if cmd = FUTEX_WAIT_BITSET then timeout_val else curr_time + timeout_val
          else ST_MaxTime)"

definition handleFutexCall ::
  "'a sv_env \<Rightarrow> u64 \<Rightarrow> thread_id \<Rightarrow> futex_args \<Rightarrow> subsecond \<Rightarrow> 'a sv_state \<Rightarrow> ((u64 \<times> subsecond) call \<times> 'a sv_state) result" where
  "handleFutexCall env time_start tid args curr_time s =
     (let cmd = (fa_op args AND FUTEX_CMD_MASK) AND NOT FUTEX_PRIVATE_FLAG;
          returned = (\<lambda>m. bindR m (\<lambda>(r, s'). Inr (Returned r, s'))) in
      bindR (getThreadFromID s tid) (\<lambda>th.
      bindR (assertR (th_core th \<noteq> None)) (\<lambda>_.
      bindR (assertR (cmd = FUTEX_WAIT \<or> cmd = FUTEX_WAIT_BITSET \<or> cmd = FUTEX_WAKE \<or> cmd = FUTEX_WAKE_BITSET
                      \<or> cmd = FUTEX_WAKE_OP \<or> cmd = FUTEX_CMP_REQUEUE)) (\<lambda>_.
      let timeout_time = futex_timeout time_start cmd (fa_timeout args) curr_time;
          act_val = tm_memory s (fa_uaddr args) in
      if cmd = FUTEX_WAIT \<or> cmd = FUTEX_WAIT_BITSET
      then futexWait env tid (fa_uaddr args) (fa_val args) act_val
             (if cmd = FUTEX_WAIT_BITSET then fa_val3 args else FUTEX_BITSET_MATCH_ANY) curr_time timeout_time s
      else if cmd = FUTEX_WAKE \<or> cmd = FUTEX_WAKE_BITSET
      then returned (futexWake env tid (fa_uaddr args) (fa_val args)
             (if cmd = FUTEX_WAIT_BITSET then fa_val3 args else FUTEX_BITSET_MATCH_ANY) curr_time s)
      else if cmd = FUTEX_WAKE_OP
      then returned (futexWakeOp env tid (fa_uaddr args) (fa_uaddr2 args) (fa_val args) (fa_val2 args) (fa_val3 args) curr_time s)
      else
        bindR (assertR (fa_uaddr args \<noteq> fa_uaddr2 args)) (\<lambda>_.
        returned (futexCmpRequeue env tid (fa_uaddr args) (fa_val args) (fa_uaddr2 args) (fa_val3 args) act_val curr_time s))))))"

text \<open>What an exiting thread calls.\<close>

definition exit_futexWake :: "'a sv_env \<Rightarrow> thread_id \<Rightarrow> intptr \<Rightarrow> subsecond \<Rightarrow> 'a sv_state \<Rightarrow> 'a sv_state result" where
  "exit_futexWake env tid uaddr time s =
     bindR (futexWake env tid uaddr 1 FUTEX_BITSET_MATCH_ANY time s) (\<lambda>(_, s1). Inr s1)"

definition wake_sleeping :: "'a sv_env \<Rightarrow> subsecond \<Rightarrow> 'a sv_state \<Rightarrow> 'a sv_state result" where
  "wake_sleeping env time s =
     (case take_waiter (\<lambda>w. wt_timeout w \<le> time) (sv_sleeping s) of
        None \<Rightarrow> Inr s
      | Some (w, rest) \<Rightarrow>
          resumeThread env (wt_thread_id w) (wt_thread_id w) time False (s\<lparr>sv_sleeping := rest\<rparr>))"

primrec foldR :: "('b \<Rightarrow> 's \<Rightarrow> 's result) \<Rightarrow> 'b list \<Rightarrow> 's \<Rightarrow> 's result" where
  "foldR f [] s = Inr s"
| "foldR f (x # xs) s = bindR (f x s) (foldR f xs)"

definition futexPeriodic :: "'a sv_env \<Rightarrow> subsecond \<Rightarrow> 'a sv_state \<Rightarrow> 'a sv_state result" where
  "futexPeriodic env time s =
     bindR (wake_sleeping env time s) (\<lambda>s1. foldR (wakeTimedOut env time) (sv_futex_order s1) s1)"

definition getNextTimeout :: "'a sv_state \<Rightarrow> subsecond" where
  "getNextTimeout s =
     fold (\<lambda>a next. min next (futex_getNextTimeout a s)) (sv_futex_order s) (last_timeout (sv_sleeping s))"

end
