(* ===== verification/Sync_Server.thy ===== *)
theory Sync_Server
  imports Syscall_Server
begin

text \<open>
  \<^verbatim>\<open>common/system/sync_server.cc\<close>: the mutexes, condition variables and barriers of the simulated
  application. A pointer to a mutex or a condition variable is the address under which the server
  keeps it. Calls that wait are those of the thread manager.
\<close>

section \<open>State\<close>

record sim_mutex =
  mx_waiting :: "thread_id list"
  mx_owner :: thread_id

text \<open>\<^verbatim>\<open>NO_OWNER\<close> is \<^verbatim>\<open>UINT_MAX\<close> converted to the signed type of thread ids.\<close>

abbreviation NO_OWNER :: thread_id where "NO_OWNER \<equiv> -1"

record cond_waiter =
  cw_thread_id :: thread_id
  cw_mutex :: intptr

record sim_barrier =
  br_waiting :: "thread_id list"
  br_count :: u32

record sync_server = syscall_server +
  ss_mutexes :: "intptr \<Rightarrow> sim_mutex option"
  ss_conds :: "intptr \<Rightarrow> cond_waiter list option"
  ss_barriers :: "sim_barrier list"
  ss_reschedule_cost :: subsecond

type_synonym 'a ss_state = "'a sync_server_scheme"
type_synonym 'a ss_env = "'a sync_server_scheme environment"

section \<open>SimMutex\<close>

definition SimMutex :: sim_mutex where
  "SimMutex = \<lparr>mx_waiting = [], mx_owner = NO_OWNER\<rparr>"

definition mutex_at :: "'a ss_state \<Rightarrow> intptr \<Rightarrow> sim_mutex" where
  "mutex_at s m = (case ss_mutexes s m of None \<Rightarrow> SimMutex | Some x \<Rightarrow> x)"

definition set_mutex :: "intptr \<Rightarrow> sim_mutex \<Rightarrow> 'a ss_state \<Rightarrow> 'a ss_state" where
  "set_mutex m x s = s\<lparr>ss_mutexes := (ss_mutexes s)(m := Some x)\<rparr>"

definition mutex_isLocked :: "sim_mutex \<Rightarrow> thread_id \<Rightarrow> bool" where
  "mutex_isLocked x tid = (mx_owner x \<noteq> NO_OWNER \<and> mx_owner x \<noteq> tid)"

definition mutex_lock ::
  "'a ss_env \<Rightarrow> intptr \<Rightarrow> thread_id \<Rightarrow> subsecond \<Rightarrow> 'a ss_state \<Rightarrow> (subsecond call \<times> 'a ss_state) result" where
  "mutex_lock env m tid time s =
     (let x = mutex_at s m in
      if mx_owner x = NO_OWNER then Inr (Returned time, set_mutex m (x\<lparr>mx_owner := tid\<rparr>) s)
      else stallThread env tid STALL_MUTEX time (set_mutex m (x\<lparr>mx_waiting := mx_waiting x @ [tid]\<rparr>) s))"

definition mutex_lock_async ::
  "'a ss_env \<Rightarrow> intptr \<Rightarrow> thread_id \<Rightarrow> thread_id \<Rightarrow> subsecond \<Rightarrow> 'a ss_state \<Rightarrow> (bool \<times> 'a ss_state) result" where
  "mutex_lock_async env m tid thread_by time s =
     (let x = mutex_at s m in
      if mx_owner x = NO_OWNER
      then bindR (resumeThread env tid thread_by time False (set_mutex m (x\<lparr>mx_owner := tid\<rparr>) s)) (\<lambda>s1. Inr (True, s1))
      else Inr (False, set_mutex m (x\<lparr>mx_waiting := mx_waiting x @ [tid]\<rparr>) s))"

definition mutex_unlock ::
  "'a ss_env \<Rightarrow> intptr \<Rightarrow> thread_id \<Rightarrow> subsecond \<Rightarrow> 'a ss_state \<Rightarrow> (thread_id \<times> 'a ss_state) result" where
  "mutex_unlock env m tid time s =
     (let x = mutex_at s m in
      bindR (assertR (mx_owner x = tid)) (\<lambda>_.
      case mx_waiting x of
        [] \<Rightarrow> Inr (NO_OWNER, set_mutex m (x\<lparr>mx_owner := NO_OWNER\<rparr>) s)
      | w # rest \<Rightarrow>
          bindR (resumeThread env w tid time False (set_mutex m (x\<lparr>mx_waiting := rest, mx_owner := w\<rparr>) s)) (\<lambda>s1.
          Inr (mx_owner (mutex_at s1 m), s1))))"

section \<open>SimCond\<close>

definition cond_at :: "'a ss_state \<Rightarrow> intptr \<Rightarrow> cond_waiter list" where
  "cond_at s c = (case ss_conds s c of None \<Rightarrow> [] | Some q \<Rightarrow> q)"

definition set_cond :: "intptr \<Rightarrow> cond_waiter list \<Rightarrow> 'a ss_state \<Rightarrow> 'a ss_state" where
  "set_cond c q s = s\<lparr>ss_conds := (ss_conds s)(c := Some q)\<rparr>"

definition cond_wait ::
  "'a ss_env \<Rightarrow> intptr \<Rightarrow> thread_id \<Rightarrow> subsecond \<Rightarrow> intptr \<Rightarrow> 'a ss_state \<Rightarrow> (subsecond call \<times> 'a ss_state) result" where
  "cond_wait env c tid time m s =
     bindR (mutex_unlock env m tid time s) (\<lambda>(_, s1).
     stallThread env tid STALL_COND time (set_cond c (cond_at s1 c @ [\<lparr>cw_thread_id = tid, cw_mutex = m\<rparr>]) s1))"

definition cond_signal ::
  "'a ss_env \<Rightarrow> intptr \<Rightarrow> thread_id \<Rightarrow> subsecond \<Rightarrow> 'a ss_state \<Rightarrow> (thread_id \<times> 'a ss_state) result" where
  "cond_signal env c tid time s =
     (case cond_at s c of
        [] \<Rightarrow> Inr (INVALID_THREAD_ID, s)
      | woken # rest \<Rightarrow>
          bindR (mutex_lock_async env (cw_mutex woken) (cw_thread_id woken) tid time (set_cond c rest s)) (\<lambda>(locked, s1).
          Inr (if locked then cw_thread_id woken else INVALID_THREAD_ID, s1)))"

text \<open>The loop takes a waiter off the queue in each round; its number of rounds is the length of the queue.\<close>

primrec cond_broadcast_loop :: "'a ss_env \<Rightarrow> intptr \<Rightarrow> thread_id \<Rightarrow> subsecond \<Rightarrow> nat \<Rightarrow> 'a ss_state \<Rightarrow> 'a ss_state result" where
  "cond_broadcast_loop env c tid time 0 s = (if cond_at s c = [] then Inr s else Inl No_Return)"
| "cond_broadcast_loop env c tid time (Suc n) s =
     (case cond_at s c of
        [] \<Rightarrow> Inr s
      | woken # rest \<Rightarrow>
          bindR (mutex_lock_async env (cw_mutex woken) (cw_thread_id woken) tid time (set_cond c rest s)) (\<lambda>(_, s1).
          cond_broadcast_loop env c tid time n s1))"

definition cond_broadcast :: "'a ss_env \<Rightarrow> intptr \<Rightarrow> thread_id \<Rightarrow> subsecond \<Rightarrow> 'a ss_state \<Rightarrow> 'a ss_state result" where
  "cond_broadcast env c tid time s = cond_broadcast_loop env c tid time (length (cond_at s c)) s"

section \<open>SimBarrier\<close>

definition SimBarrier :: "u32 \<Rightarrow> sim_barrier" where
  "SimBarrier count = \<lparr>br_waiting = [], br_count = count\<rparr>"

definition barrier_at :: "'a ss_state \<Rightarrow> nat \<Rightarrow> sim_barrier" where
  "barrier_at s b = ss_barriers s ! b"

definition set_barrier :: "nat \<Rightarrow> sim_barrier \<Rightarrow> 'a ss_state \<Rightarrow> 'a ss_state" where
  "set_barrier b x s = s\<lparr>ss_barriers := (ss_barriers s)[b := x]\<rparr>"

primrec barrier_release :: "'a ss_env \<Rightarrow> nat \<Rightarrow> thread_id \<Rightarrow> subsecond \<Rightarrow> nat \<Rightarrow> 'a ss_state \<Rightarrow> 'a ss_state result" where
  "barrier_release env b tid time 0 s = (if br_waiting (barrier_at s b) = [] then Inr s else Inl No_Return)"
| "barrier_release env b tid time (Suc n) s =
     (case br_waiting (barrier_at s b) of
        [] \<Rightarrow> Inr s
      | w # rest \<Rightarrow>
          bindR (resumeThread env w tid time False (set_barrier b ((barrier_at s b)\<lparr>br_waiting := rest\<rparr>) s))
            (barrier_release env b tid time n))"

definition barrier_wait ::
  "'a ss_env \<Rightarrow> nat \<Rightarrow> thread_id \<Rightarrow> subsecond \<Rightarrow> 'a ss_state \<Rightarrow> (subsecond call \<times> 'a ss_state) result" where
  "barrier_wait env b tid time s =
     (let x = barrier_at s b in
      if length (br_waiting x) = unat (br_count x - 1)
      then bindR (barrier_release env b tid time (length (br_waiting x)) s) (\<lambda>s1. Inr (Returned time, s1))
      else stallThread env tid STALL_BARRIER time (set_barrier b (x\<lparr>br_waiting := br_waiting x @ [tid]\<rparr>) s))"

section \<open>SyncServer\<close>

definition getMutex :: "intptr \<Rightarrow> bool \<Rightarrow> 'a ss_state \<Rightarrow> 'a ss_state result" where
  "getMutex m canCreate s =
     (if ss_mutexes s m \<noteq> None then Inr s
      else if canCreate then Inr (set_mutex m SimMutex s)
      else Inl Assert_Failed)"

definition getCond :: "intptr \<Rightarrow> bool \<Rightarrow> 'a ss_state \<Rightarrow> 'a ss_state result" where
  "getCond c canCreate s =
     (if ss_conds s c \<noteq> None then Inr s
      else if canCreate then Inr (set_cond c [] s)
      else Inl Assert_Failed)"

definition mutexInit :: "intptr \<Rightarrow> 'a ss_state \<Rightarrow> 'a ss_state result" where
  "mutexInit m s = getMutex m True s"

definition mutexLock ::
  "'a ss_env \<Rightarrow> thread_id \<Rightarrow> intptr \<Rightarrow> bool \<Rightarrow> subsecond \<Rightarrow> 'a ss_state \<Rightarrow> ((subsecond \<times> bool) call \<times> 'a ss_state) result" where
  "mutexLock env tid m tryLock time s =
     bindR (getMutex m True s) (\<lambda>s1.
     if tryLock \<and> mutex_isLocked (mutex_at s1 m) tid then Inr (Returned (time, False), s1)
     else
       bindR (mutex_lock env m tid time s1) (\<lambda>(r, s2).
       Inr (map_call_result (\<lambda>time_end. (time_end + ss_reschedule_cost s, True)) r, s2)))"

definition mutexUnlock ::
  "'a ss_env \<Rightarrow> thread_id \<Rightarrow> intptr \<Rightarrow> subsecond \<Rightarrow> 'a ss_state \<Rightarrow> (subsecond \<times> 'a ss_state) result" where
  "mutexUnlock env tid m time s =
     bindR (getMutex m False s) (\<lambda>s1.
     bindR (mutex_unlock env m tid (time + ss_reschedule_cost s) s1) (\<lambda>(new_owner, s2).
     Inr (time + (if new_owner = NO_OWNER then 0 else ss_reschedule_cost s), s2)))"

definition condInit :: "intptr \<Rightarrow> 'a ss_state \<Rightarrow> 'a ss_state result" where
  "condInit c s = getCond c True s"

definition condWait ::
  "'a ss_env \<Rightarrow> thread_id \<Rightarrow> intptr \<Rightarrow> intptr \<Rightarrow> subsecond \<Rightarrow> 'a ss_state \<Rightarrow> (subsecond call \<times> 'a ss_state) result" where
  "condWait env tid c m time s =
     bindR (getMutex m True s) (\<lambda>s1.
     bindR (getCond c True s1) (cond_wait env c tid time m))"

definition condSignal ::
  "'a ss_env \<Rightarrow> thread_id \<Rightarrow> intptr \<Rightarrow> subsecond \<Rightarrow> 'a ss_state \<Rightarrow> (subsecond \<times> 'a ss_state) result" where
  "condSignal env tid c time s =
     bindR (getCond c True s) (\<lambda>s1. bindR (cond_signal env c tid time s1) (\<lambda>(_, s2). Inr (time, s2)))"

definition condBroadcast ::
  "'a ss_env \<Rightarrow> thread_id \<Rightarrow> intptr \<Rightarrow> subsecond \<Rightarrow> 'a ss_state \<Rightarrow> (subsecond \<times> 'a ss_state) result" where
  "condBroadcast env tid c time s =
     bindR (getCond c True s) (\<lambda>s1. bindR (cond_broadcast env c tid time s1) (\<lambda>s2. Inr (time, s2)))"

definition barrierInit :: "u32 \<Rightarrow> 'a ss_state \<Rightarrow> nat \<times> 'a ss_state" where
  "barrierInit count s =
     (length (ss_barriers s), s\<lparr>ss_barriers := ss_barriers s @ [SimBarrier count]\<rparr>)"

definition barrierWait ::
  "'a ss_env \<Rightarrow> thread_id \<Rightarrow> nat \<Rightarrow> subsecond \<Rightarrow> 'a ss_state \<Rightarrow> (subsecond call \<times> 'a ss_state) result" where
  "barrierWait env tid b time s =
     (if b < length (ss_barriers s) then barrier_wait env b tid time s else Inl Out_Of_Range)"

end
