(* ===== verification/Clock_Barrier.thy ===== *)
theory Clock_Barrier
  imports Sync_Server
begin

text \<open>
  \<^verbatim>\<open>common/system/barrier_sync_server.cc\<close>: the barrier that keeps the clocks of the cores together.
  \<open>bs_core_waiting\<close> says for each core whether a thread of the host is blocked in the condition
  variable of the core. The callbacks \<^verbatim>\<open>barrierEnter\<close> and \<^verbatim>\<open>barrierExit\<close> of the
  performance models are empty. The order in which waiting cores are released is shuffled by the
  standard library; the shuffle is an argument.
\<close>

section \<open>State\<close>

record barrier_server = sync_server +
  bs_barrier_interval :: subsecond
  bs_next_barrier_time :: subsecond
  bs_local_clock_list :: "subsecond list"
  bs_barrier_acquire_list :: "bool list"
  bs_core_waiting :: "bool list"
  bs_to_release :: "core_id list"
  bs_core_group :: "core_id list"
  bs_core_thread :: "thread_id list"
  bs_global_time :: subsecond
  bs_fastforward :: bool
  bs_disable :: bool
  bs_num_host_cores :: nat
  bs_shuffle :: "core_id list \<Rightarrow> core_id list"

type_synonym 'a bs_state = "'a barrier_server_scheme"
type_synonym 'a bs_env = "'a barrier_server_scheme environment"

definition core_ids :: "'a bs_state \<Rightarrow> core_id list" where
  "core_ids s = map int [0..<length (tm_cores s)]"

text \<open>The constructor, on the state of the other servers.\<close>

definition BarrierSyncServer :: "u64 \<Rightarrow> nat \<Rightarrow> (core_id list \<Rightarrow> core_id list) \<Rightarrow> 'a bs_state \<Rightarrow> 'a bs_state" where
  "BarrierSyncServer quantum host_cores shuffle s =
     (let n = length (tm_cores s) in
      s\<lparr>bs_barrier_interval := ST_NS 1 * quantum,
        bs_next_barrier_time := ST_NS 1 * quantum,
        bs_local_clock_list := replicate n 0,
        bs_barrier_acquire_list := replicate n False,
        bs_core_waiting := replicate n False,
        bs_to_release := [],
        bs_core_group := replicate n INVALID_CORE_ID,
        bs_core_thread := replicate n INVALID_THREAD_ID,
        bs_global_time := 0, bs_fastforward := False, bs_disable := False,
        bs_num_host_cores := host_cores, bs_shuffle := shuffle\<rparr>)"

section \<open>Releasing cores\<close>

definition signal_core :: "core_id \<Rightarrow> 'a bs_state \<Rightarrow> 'a bs_state" where
  "signal_core c s = s\<lparr>bs_core_waiting := upd_at c (\<lambda>_. False) (bs_core_waiting s)\<rparr>"

text \<open>The list of the cores to release is emptied from its end; a negative number releases all.\<close>

definition doRelease :: "int \<Rightarrow> 'a bs_state \<Rightarrow> 'a bs_state" where
  "doRelease n s =
     (let xs = bs_to_release s;
          k = (if n < 0 then length xs else min (nat n) (length xs));
          rest = take (length xs - k) xs
      in fold signal_core (rev (drop (length xs - k) xs)) (s\<lparr>bs_to_release := rest\<rparr>))"

primrec release_clocks :: "thread_id \<Rightarrow> core_id list \<Rightarrow> 'a bs_state \<Rightarrow> 'a bs_state" where
  "release_clocks tid [] s = s"
| "release_clocks tid (c # cs) s =
     release_clocks tid cs
       (if bs_barrier_acquire_list s ! nat c \<and> bs_core_thread s ! nat c = tid
        then s\<lparr>bs_local_clock_list := upd_at c (\<lambda>_. 0) (bs_local_clock_list s)\<rparr> else s)"

definition releaseThread :: "thread_id \<Rightarrow> 'a bs_state \<Rightarrow> 'a bs_state" where
  "releaseThread tid s = doRelease 1 (release_clocks tid (core_ids s) s)"

section \<open>Reaching the barrier\<close>

definition thread_of_core_runs :: "'a bs_state \<Rightarrow> core_id \<Rightarrow> bool result" where
  "thread_of_core_runs s c =
     bindR (getCoreFromID s c) (\<lambda>k.
     if co_state k = RUNNING
     then (case co_thread k of None \<Rightarrow> Inl Assert_Failed | Some tid \<Rightarrow> isThreadRunning s tid)
     else Inr False)"

primrec sibling_runs :: "'a bs_state \<Rightarrow> core_id \<Rightarrow> core_id list \<Rightarrow> bool result" where
  "sibling_runs s c [] = Inr False"
| "sibling_runs s c (d # ds) =
     bindR (if bs_core_group s ! nat d = c then thread_of_core_runs s d else Inr False) (\<lambda>b.
     if b then Inr True else sibling_runs s c ds)"

definition isCoreRunning :: "'a bs_state \<Rightarrow> core_id \<Rightarrow> bool result" where
  "isCoreRunning s c =
     bindR (thread_of_core_runs s c) (\<lambda>b.
     if b then Inr True
     else if \<not> bs_fastforward s then sibling_runs s c (core_ids s)
     else Inr False)"

primrec barrier_reached :: "'a bs_state \<Rightarrow> bool \<Rightarrow> core_id list \<Rightarrow> bool result" where
  "barrier_reached s single [] = Inr single"
| "barrier_reached s single (c # cs) =
     (if bs_fastforward s then
        if bs_barrier_acquire_list s ! nat c then barrier_reached s True cs
        else bindR (isCoreRunning s c) (\<lambda>b. if b then Inr False else barrier_reached s single cs)
      else if bs_core_group s ! nat c \<noteq> INVALID_CORE_ID then barrier_reached s single cs
      else
        bindR (isCoreRunning s c) (\<lambda>b.
        if b then if bs_local_clock_list s ! nat c < bs_next_barrier_time s then Inr False else barrier_reached s True cs
        else barrier_reached s single cs))"

definition isBarrierReached :: "'a bs_state \<Rightarrow> bool result" where
  "isBarrierReached s = barrier_reached s False (core_ids s)"

section \<open>Releasing the barrier\<close>

text \<open>The loop over the cores: the cores whose clock is before the next barrier leave it.\<close>

primrec release_cores :: "thread_id \<Rightarrow> core_id list \<Rightarrow> bool \<times> bool \<Rightarrow> 'a bs_state \<Rightarrow> (bool \<times> bool) \<times> 'a bs_state" where
  "release_cores caller [] flags s = (flags, s)"
| "release_cores caller (c # cs) flags s =
     (if bs_local_clock_list s ! nat c < bs_next_barrier_time s \<and> bs_barrier_acquire_list s ! nat c
      then let s1 = s\<lparr>bs_barrier_acquire_list := upd_at c (\<lambda>_. False) (bs_barrier_acquire_list s)\<rparr> in
           if bs_core_thread s ! nat c = caller then release_cores caller cs (True, False) s1
           else release_cores caller cs (True, snd flags) (s1\<lparr>bs_to_release := bs_to_release s1 @ [c]\<rparr>)
      else release_cores caller cs flags s)"

definition skip_to_clocks :: "'a bs_state \<Rightarrow> 'a bs_state" where
  "skip_to_clocks s =
     (if bs_fastforward s
      then s\<lparr>bs_next_barrier_time := fold max (bs_local_clock_list s) (bs_next_barrier_time s)\<rparr>
      else s)"

text \<open>
  The loop that advances the time until a core can be resumed. The result says whether the caller must
  wait. It may be endless; the number of its rounds is bounded by the environment.
\<close>

primrec release_loop ::
  "'a bs_env \<Rightarrow> thread_id \<Rightarrow> bool \<Rightarrow> nat \<Rightarrow> bool \<Rightarrow> 'a bs_state \<Rightarrow> (bool \<times> 'a bs_state) result" where
  "release_loop env caller continue 0 must_wait s = Inl No_Return"
| "release_loop env caller continue (Suc n) must_wait s =
     bindR (en_hooks env (HOOK_PERIODIC (bs_next_barrier_time s)) (s\<lparr>bs_global_time := bs_next_barrier_time s\<rparr>)) (\<lambda>s1.
     if continue \<and> anyThreadRunning s1 then Inr (False, s1)
     else
       bindR (assertR (continue \<longrightarrow> getNextTimeout s1 < ST_MaxTime)) (\<lambda>_.
       if bs_disable s1 then Inr (False, s1)
       else
         let s2 = s1\<lparr>bs_next_barrier_time := bs_next_barrier_time s1 + bs_barrier_interval s1\<rparr>;
             ((resumed, wait'), s3) = release_cores caller (core_ids s2) (False, must_wait) s2
         in if resumed
            then Inr (wait', doRelease (if bs_fastforward s3 then -1 else int (bs_num_host_cores s3))
                               (s3\<lparr>bs_to_release := bs_shuffle s3 (bs_to_release s3)\<rparr>))
            else release_loop env caller continue n wait' s3))"

definition barrierRelease :: "'a bs_env \<Rightarrow> thread_id \<Rightarrow> bool \<Rightarrow> 'a bs_state \<Rightarrow> (bool \<times> 'a bs_state) result" where
  "barrierRelease env caller continue s =
     bindR (assertR (bs_to_release s = [])) (\<lambda>_.
     release_loop env caller continue (en_rounds env) True (skip_to_clocks s))"

definition advance :: "'a bs_env \<Rightarrow> 'a bs_state \<Rightarrow> 'a bs_state result" where
  "advance env s = bindR (barrierRelease env INVALID_THREAD_ID True s) (\<lambda>(_, s1). Inr s1)"

definition barrier_signal :: "'a bs_env \<Rightarrow> 'a bs_state \<Rightarrow> 'a bs_state result" where
  "barrier_signal env s =
     (if bs_disable s then Inr s
      else
        bindR (isBarrierReached s) (\<lambda>b.
        if b then bindR (barrierRelease env INVALID_THREAD_ID False s) (\<lambda>(_, s1). Inr s1) else Inr s))"

section \<open>Callbacks and calls of the cores\<close>

definition barrier_threadExit :: "'a bs_env \<Rightarrow> thread_id \<Rightarrow> 'a bs_state \<Rightarrow> 'a bs_state result" where
  "barrier_threadExit env tid s = barrier_signal env (releaseThread tid s)"

definition barrier_threadStall :: "'a bs_env \<Rightarrow> thread_id \<Rightarrow> 'a bs_state \<Rightarrow> 'a bs_state result" where
  "barrier_threadStall env tid s = barrier_signal env (releaseThread tid s)"

definition barrier_threadMigrate :: "thread_id \<Rightarrow> 'a bs_state \<Rightarrow> 'a bs_state" where
  "barrier_threadMigrate tid s = releaseThread tid s"

definition master_core :: "'a bs_state \<Rightarrow> core_id \<Rightarrow> core_id" where
  "master_core s c =
     (if bs_fastforward s then c
      else if bs_core_group s ! nat c = INVALID_CORE_ID then c else bs_core_group s ! nat c)"

definition enter_barrier :: "core_id \<Rightarrow> thread_id \<Rightarrow> subsecond \<Rightarrow> 'a bs_state \<Rightarrow> 'a bs_state" where
  "enter_barrier c tid time s =
     s\<lparr>bs_local_clock_list := upd_at c (\<lambda>_. time) (bs_local_clock_list s),
       bs_barrier_acquire_list := upd_at c (\<lambda>_. True) (bs_barrier_acquire_list s),
       bs_core_thread := upd_at c (\<lambda>_. tid) (bs_core_thread s)\<rparr>"

definition wait_at_barrier :: "'a bs_env \<Rightarrow> core_id \<Rightarrow> thread_id \<Rightarrow> subsecond \<Rightarrow> 'a bs_state \<Rightarrow> (unit call \<times> 'a bs_state) result" where
  "wait_at_barrier env master me time s =
     bindR (isBarrierReached s) (\<lambda>reached.
     bindR (if reached then barrierRelease env me False s else Inr (True, s)) (\<lambda>(must_wait, s1).
     Inr (if must_wait
          then (Blocked (\<lambda>t m. ()), s1\<lparr>bs_core_waiting := upd_at master (\<lambda>_. True) (bs_core_waiting s1)\<rparr>)
          else (Returned (), s1))))"

definition synchronize :: "'a bs_env \<Rightarrow> core_id \<Rightarrow> subsecond \<Rightarrow> 'a bs_state \<Rightarrow> (unit call \<times> 'a bs_state) result" where
  "synchronize env c time s =
     (if bs_disable s then Inr (Returned (), s)
      else
        bindR (getCoreFromID s c) (\<lambda>k.
        let master = master_core s c in
        case co_thread k of
          None \<Rightarrow> Inl Null_Pointer
        | Some me \<Rightarrow>
            bindR (assertR (co_state k = RUNNING \<or> co_state k = INITIALIZING)) (\<lambda>_.
            bindR (assertR (\<not> bs_barrier_acquire_list s ! nat master)) (\<lambda>_.
            if time < bs_next_barrier_time s \<and> \<not> bs_fastforward s then Inr (Returned (), s)
            else wait_at_barrier env master me time (enter_barrier master me time (doRelease 1 s))))))"

primrec abort_cores :: "core_id list \<Rightarrow> 'a bs_state \<Rightarrow> 'a bs_state" where
  "abort_cores [] s = s"
| "abort_cores (c # cs) s =
     abort_cores cs
       (if bs_barrier_acquire_list s ! nat c
        then signal_core c (s\<lparr>bs_barrier_acquire_list := upd_at c (\<lambda>_. False) (bs_barrier_acquire_list s)\<rparr>)
        else s)"

definition abortBarrier :: "'a bs_state \<Rightarrow> 'a bs_state" where
  "abortBarrier s = abort_cores (core_ids s) s"

definition setDisable :: "bool \<Rightarrow> 'a bs_state \<Rightarrow> 'a bs_state" where
  "setDisable disable s = (let s1 = s\<lparr>bs_disable := disable\<rparr> in if disable then abortBarrier s1 else s1)"

definition setGroup :: "core_id \<Rightarrow> core_id \<Rightarrow> 'a bs_state \<Rightarrow> 'a bs_state result" where
  "setGroup c master s =
     bindR (if master \<noteq> INVALID_CORE_ID then assertR (\<not> bs_barrier_acquire_list s ! nat c) else Inr ()) (\<lambda>_.
     Inr (s\<lparr>bs_core_group := upd_at c (\<lambda>_. master) (bs_core_group s)\<rparr>))"

definition setFastForward :: "bool \<Rightarrow> subsecond \<Rightarrow> 'a bs_state \<Rightarrow> 'a bs_state" where
  "setFastForward fastforward next_barrier_time s =
     (let s1 = s\<lparr>bs_fastforward := fastforward\<rparr> in
      if next_barrier_time \<noteq> ST_MaxTime
      then s1\<lparr>bs_next_barrier_time := max (bs_next_barrier_time s1) next_barrier_time\<rparr> else s1)"

definition getGlobalTime :: "bool \<Rightarrow> 'a bs_state \<Rightarrow> subsecond" where
  "getGlobalTime upper_bound s = (if upper_bound then bs_next_barrier_time s else bs_global_time s)"

definition setBarrierInterval :: "subsecond \<Rightarrow> 'a bs_state \<Rightarrow> 'a bs_state" where
  "setBarrierInterval t s = s\<lparr>bs_barrier_interval := t\<rparr>"

section \<open>The client of a core\<close>

record barrier_client =
  bc_core :: core_id
  bc_barrier_interval :: subsecond
  bc_next_sync_time :: subsecond

definition BarrierSyncClient :: "core_id \<Rightarrow> u64 \<Rightarrow> barrier_client" where
  "BarrierSyncClient c quantum =
     \<lparr>bc_core = c, bc_barrier_interval = ST_NS 1 * quantum, bc_next_sync_time = ST_NS 1 * quantum\<rparr>"

text \<open>The second part of the client's call runs when the server has returned.\<close>

definition client_synchronize ::
  "'a bs_env \<Rightarrow> barrier_client \<Rightarrow> subsecond \<Rightarrow> bool \<Rightarrow> 'a bs_state \<Rightarrow> ((unit call \<times> subsecond) option \<times> 'a bs_state) result" where
  "client_synchronize env cl time ignore_time s =
     bindR (if time = 0 then getElapsedTime s (bc_core cl) else Inr time) (\<lambda>elapsed.
     if elapsed \<ge> bc_next_sync_time cl \<or> ignore_time
     then bindR (synchronize env (bc_core cl) elapsed s) (\<lambda>(r, s1). Inr (Some (r, elapsed), s1))
     else Inr (None, s))"

definition client_synchronized :: "barrier_client \<Rightarrow> subsecond \<Rightarrow> 'a bs_state \<Rightarrow> barrier_client result" where
  "client_synchronized cl elapsed s =
     (let interval = bs_barrier_interval s in
      bindR (div64 elapsed interval) (\<lambda>q.
      Inr (cl\<lparr>bc_barrier_interval := interval, bc_next_sync_time := q * interval + interval\<rparr>)))"

end
