(* ===== verification/Thread_Waits.thy ===== *)
theory Thread_Waits
  imports Sync_Server
begin

text \<open>
  Where the stalled threads wait. Every queue of the servers is a place, and the invariant says that
  a thread stalled for a mutex, a condition variable, a barrier, a futex, a sleep or a join waits in
  exactly one place, that only such threads wait, and that the host thread of a resumed thread is
  never left blocked. The locale states what the operations rely on in their environment, and the
  lemmas in it show that every operation keeps the invariant.
\<close>

section \<open>Places\<close>

datatype place =
    At_Mutex intptr | At_Cond intptr | At_Barrier nat | At_Futex intptr | Asleep | Joining thread_id

definition waiters :: "'a ss_state \<Rightarrow> place \<Rightarrow> thread_id list" where
  "waiters s p =
     (case p of
        At_Mutex m \<Rightarrow> mx_waiting (mutex_at s m)
      | At_Cond c \<Rightarrow> map cw_thread_id (cond_at s c)
      | At_Barrier b \<Rightarrow> if b < length (ss_barriers s) then br_waiting (barrier_at s b) else []
      | At_Futex a \<Rightarrow> map wt_thread_id (sv_futexes s a)
      | Asleep \<Rightarrow> map wt_thread_id (sv_sleeping s)
      | Joining t \<Rightarrow>
          (case threadState s t of
             Inl _ \<Rightarrow> [] | Inr x \<Rightarrow> if ts_waiter x = INVALID_THREAD_ID then [] else [ts_waiter x]))"

text \<open>A thread that is signalled while the mutex is taken moves from the condition variable to the mutex.\<close>

definition place_ok :: "stall_type \<Rightarrow> place \<Rightarrow> bool" where
  "place_ok r p =
     (case p of
        At_Mutex _ \<Rightarrow> r = STALL_MUTEX \<or> r = STALL_COND
      | At_Cond _ \<Rightarrow> r = STALL_COND
      | At_Barrier _ \<Rightarrow> r = STALL_BARRIER
      | At_Futex _ \<Rightarrow> r = STALL_FUTEX
      | Asleep \<Rightarrow> r = STALL_SLEEP
      | Joining _ \<Rightarrow> r = STALL_JOIN)"

definition queued_stall :: "stall_type \<Rightarrow> bool" where
  "queued_stall r = (r \<in> {STALL_JOIN, STALL_MUTEX, STALL_COND, STALL_BARRIER, STALL_FUTEX, STALL_SLEEP})"

definition stat :: "'a thread_manager_scheme \<Rightarrow> thread_id \<Rightarrow> core_state option" where
  "stat s t = (case threadState s t of Inl _ \<Rightarrow> None | Inr x \<Rightarrow> Some (ts_status x))"

definition stalled :: "'a thread_manager_scheme \<Rightarrow> thread_id \<Rightarrow> stall_type option" where
  "stalled s t =
     (case threadState s t of Inl _ \<Rightarrow> None | Inr x \<Rightarrow> if ts_status x = STALLED then ts_stalled_reason x else None)"

definition blocked :: "'a thread_manager_scheme \<Rightarrow> thread_id \<Rightarrow> bool" where
  "blocked s t = (case getThreadFromID s t of Inl _ \<Rightarrow> False | Inr th \<Rightarrow> th_waiting th)"

definition waits :: "(thread_id \<Rightarrow> stall_type option) \<Rightarrow> (place \<Rightarrow> thread_id list) \<Rightarrow> bool" where
  "waits st W \<longleftrightarrow>
     (\<forall>p. distinct (W p)) \<and>
     (\<forall>p q t. t \<in> set (W p) \<longrightarrow> t \<in> set (W q) \<longrightarrow> p = q) \<and>
     (\<forall>p t. t \<in> set (W p) \<longrightarrow> (\<exists>r. st t = Some r \<and> place_ok r p)) \<and>
     (\<forall>t r. st t = Some r \<longrightarrow> queued_stall r \<longrightarrow> (\<exists>p. t \<in> set (W p)))"

definition lens :: "'a thread_manager_scheme \<Rightarrow> nat \<times> nat" where
  "lens s = (length (tm_threads s), length (tm_thread_state s))"

definition blocked_ok :: "'a thread_manager_scheme \<Rightarrow> bool" where
  "blocked_ok s \<longleftrightarrow> (\<forall>t. blocked s t \<longrightarrow> stat s t = Some STALLED) \<and> fst (lens s) = snd (lens s)"

definition waits_ok :: "'a ss_state \<Rightarrow> bool" where
  "waits_ok s \<longleftrightarrow> waits (stalled s) (waiters s) \<and> blocked_ok s"

section \<open>Joining and leaving a place\<close>

lemma place_ok_queued: "place_ok r p \<Longrightarrow> queued_stall r"
  by (cases p) (auto simp: place_ok_def queued_stall_def)

lemma waitsD:
  assumes "waits st W"
  shows "distinct (W p)" and "t \<in> set (W p) \<Longrightarrow> t \<in> set (W q) \<Longrightarrow> p = q"
    and "t \<in> set (W p) \<Longrightarrow> \<exists>r. st t = Some r \<and> place_ok r p"
    and "st t = Some r \<Longrightarrow> queued_stall r \<Longrightarrow> \<exists>p. t \<in> set (W p)"
  using assms unfolding waits_def by blast+

lemma waits_not_waiting: "waits st W \<Longrightarrow> st t = None \<Longrightarrow> t \<notin> set (W p)"
  using waitsD(3) by fastforce

lemma waits_park:
  assumes "waits st W" and "st t = None" and "place_ok r p"
  shows "waits (st(t := Some r)) (W(p := W p @ [t]))"
  unfolding waits_def
proof (intro conjI allI impI)
  note n = waits_not_waiting [OF assms(1,2)] and w = waitsD [OF assms(1)]
  show "distinct ((W(p := W p @ [t])) q)" for q using w(1) n by simp
  have new: "u \<in> set ((W(p := W p @ [t])) q) \<longleftrightarrow> (if u = t then q = p else u \<in> set (W q))" for u q
    using n [of q] by auto
  show "q = q'" if "u \<in> set ((W(p := W p @ [t])) q)" "u \<in> set ((W(p := W p @ [t])) q')" for q q' u
    using that w(2) unfolding new by (auto split: if_splits)
  show "\<exists>r'. (st(t := Some r)) u = Some r' \<and> place_ok r' q" if "u \<in> set ((W(p := W p @ [t])) q)" for q u
    using that w(3) assms(3) unfolding new by (auto split: if_splits)
  show "\<exists>q. u \<in> set ((W(p := W p @ [t])) q)" if "(st(t := Some r)) u = Some r'" "queued_stall r'" for u r'
    using that w(4) unfolding new by (auto split: if_splits)
qed

lemma waits_wake:
  assumes "waits st W" and "W p = xs @ t # ys"
  shows "waits (st(t := None)) (W(p := xs @ ys))"
  unfolding waits_def
proof (intro conjI allI impI)
  note w = waitsD [OF assms(1)]
  have d: "distinct (xs @ t # ys)" using w(1) [of p] assms(2) by simp
  have only: "q = p" if "t \<in> set (W q)" for q using w(2) [OF that, of p] assms(2) by simp
  show "distinct ((W(p := xs @ ys)) q)" for q using w(1) d by simp
  have new: "u \<in> set ((W(p := xs @ ys)) q) \<longleftrightarrow> u \<in> set (W q) \<and> u \<noteq> t" for u q
    using assms(2) d only by auto
  show "q = q'" if "u \<in> set ((W(p := xs @ ys)) q)" "u \<in> set ((W(p := xs @ ys)) q')" for q q' u
    using that w(2) unfolding new by blast
  show "\<exists>r'. (st(t := None)) u = Some r' \<and> place_ok r' q" if "u \<in> set ((W(p := xs @ ys)) q)" for q u
    using that w(3) unfolding new by simp
  show "\<exists>q. u \<in> set ((W(p := xs @ ys)) q)" if "(st(t := None)) u = Some r'" "queued_stall r'" for u r'
    using that w(4) unfolding new by (auto split: if_splits)
qed

lemma waits_move:
  assumes "waits (st(t := None)) W" and "st t = Some r" and "place_ok r q"
  shows "waits st (W(q := W q @ [t]))"
proof -
  have "waits ((st(t := None))(t := Some r)) (W(q := W q @ [t]))"
    by (rule waits_park [OF assms(1) _ assms(3)]) simp
  moreover have "(st(t := None))(t := Some r) = st" using assms(2) by auto
  ultimately show ?thesis by simp
qed

lemma waits_stalled_other:
  assumes "waits st W" and "\<And>r. st t = Some r \<Longrightarrow> \<not> queued_stall r" and "\<And>r. v = Some r \<Longrightarrow> \<not> queued_stall r"
  shows "waits (st(t := v)) W"
  unfolding waits_def
proof (intro conjI allI impI)
  note w = waitsD [OF assms(1)]
  have n: "t \<notin> set (W p)" for p using w(3) [of t p] assms(2) place_ok_queued by blast
  show "distinct (W p)" for p by (rule w(1))
  show "p = q" if "u \<in> set (W p)" "u \<in> set (W q)" for p q u using that by (rule w(2))
  show "\<exists>r. (st(t := v)) u = Some r \<and> place_ok r p" if "u \<in> set (W p)" for p u
    using that n w(3) by auto
  show "\<exists>p. u \<in> set (W p)" if "(st(t := v)) u = Some r" "queued_stall r" for u r
    using that assms(3) w(4) by (auto split: if_splits)
qed

section \<open>Effect of the primitive updates\<close>

lemma atR_Inr_iff: "atR er xs i = Inr x \<longleftrightarrow> 0 \<le> i \<and> nat i < length xs \<and> x = xs ! nat i"
  by (auto simp: atR_def)

lemma atR_upd_at:
  "0 \<le> i \<Longrightarrow> nat i < length xs \<Longrightarrow> atR er (upd_at i f xs) j = (if j = i then Inr (f (xs ! nat i)) else atR er xs j)"
  by (auto simp: atR_def upd_at_def nth_list_update)

text \<open>What the invariant sees of a state.\<close>

definition same_view :: "'a ss_state \<Rightarrow> 'a ss_state \<Rightarrow> bool" where
  "same_view s s' \<longleftrightarrow>
     stat s' = stat s \<and> stalled s' = stalled s \<and> blocked s' = blocked s \<and> waiters s' = waiters s
     \<and> lens s' = lens s \<and> length (ss_barriers s') = length (ss_barriers s)"

lemma same_view_refl [simp]: "same_view s s"
  by (simp add: same_view_def)

lemma same_view_waits_ok: "same_view s s' \<Longrightarrow> waits_ok s' = waits_ok s"
  by (simp add: same_view_def waits_ok_def blocked_ok_def)

lemma same_view_running:
  assumes "same_view s s'" and "waits_ok s" and "stat s t = Some RUNNING"
  shows "waits_ok s'" and "stat s' t = Some RUNNING"
  using assms by (simp_all add: same_view_def waits_ok_def blocked_ok_def)

lemma set_state_view:
  assumes "set_state t f s = Inr s'" and "\<And>x. ts_waiter (f x) = ts_waiter x"
  obtains x where "threadState s t = Inr x" and "stat s' = (stat s)(t := Some (ts_status (f x)))"
    and "stalled s' = (stalled s)(t := if ts_status (f x) = STALLED then ts_stalled_reason (f x) else None)"
    and "blocked s' = blocked s" and "waiters (s' :: 'a ss_state) = waiters s" and "lens s' = lens s"
proof -
  from assms(1) obtain x where x: "threadState s t = Inr x"
    and s': "s' = s\<lparr>tm_thread_state := upd_at t f (tm_thread_state s)\<rparr>"
    by (auto simp: set_state_def)
  have ts: "threadState s' u = (if u = t then Inr (f x) else threadState s u)" for u
    using x by (auto simp: s' threadState_def atR_upd_at atR_Inr_iff)
  have same: "mutex_at s' = mutex_at s" "cond_at s' = cond_at s" "barrier_at s' = barrier_at s"
    "ss_barriers s' = ss_barriers s" "sv_futexes s' = sv_futexes s" "sv_sleeping s' = sv_sleeping s"
    "getThreadFromID s' = getThreadFromID s"
    by (auto simp: s' mutex_at_def cond_at_def barrier_at_def getThreadFromID_def fun_eq_iff)
  show ?thesis
  proof (rule that [OF x])
    show "stat s' = (stat s)(t := Some (ts_status (f x)))" by (auto simp: stat_def ts fun_eq_iff)
    show "stalled s' = (stalled s)(t := if ts_status (f x) = STALLED then ts_stalled_reason (f x) else None)"
      by (auto simp: stalled_def ts fun_eq_iff)
    show "blocked s' = blocked s" by (simp add: blocked_def same fun_eq_iff)
    show "lens s' = lens s" by (simp add: lens_def s' upd_at_def)
    show "waiters s' = waiters s"
      using x assms(2) by (auto simp: waiters_def same ts fun_eq_iff split: place.splits)
  qed
qed

lemma set_waiter_view:
  assumes "set_waiter t w s = Inr s'"
  shows "stat s' = stat s" and "stalled s' = stalled s" and "blocked s' = blocked s" and "lens s' = lens s"
    and "waiters (s' :: 'a ss_state) = (waiters s)(Joining t := if w = INVALID_THREAD_ID then [] else [w])"
proof -
  from assms obtain x where x: "threadState s t = Inr x"
    and s': "s' = s\<lparr>tm_thread_state := upd_at t (\<lambda>x. x\<lparr>ts_waiter := w\<rparr>) (tm_thread_state s)\<rparr>"
    by (auto simp: set_waiter_def set_state_def)
  have ts: "threadState s' u = (if u = t then Inr (x\<lparr>ts_waiter := w\<rparr>) else threadState s u)" for u
    using x by (auto simp: s' threadState_def atR_upd_at atR_Inr_iff)
  have same: "mutex_at s' = mutex_at s" "cond_at s' = cond_at s" "barrier_at s' = barrier_at s"
    "ss_barriers s' = ss_barriers s" "sv_futexes s' = sv_futexes s" "sv_sleeping s' = sv_sleeping s"
    "getThreadFromID s' = getThreadFromID s"
    by (auto simp: s' mutex_at_def cond_at_def barrier_at_def getThreadFromID_def fun_eq_iff)
  show "lens s' = lens s" by (simp add: lens_def s' upd_at_def)
  show "stat s' = stat s" "stalled s' = stalled s" "blocked s' = blocked s"
    using x by (auto simp: stat_def stalled_def blocked_def same ts fun_eq_iff)
  show "waiters s' = (waiters s)(Joining t := if w = INVALID_THREAD_ID then [] else [w])"
    by (auto simp: waiters_def same ts fun_eq_iff split: place.splits)
qed

lemma set_thread_view:
  assumes "set_thread t f s = Inr s'"
  obtains th where "getThreadFromID s t = Inr th" and "blocked s' = (blocked s)(t := th_waiting (f th))"
    and "stat s' = stat s" and "stalled s' = stalled s" and "waiters (s' :: 'a ss_state) = waiters s" and "lens s' = lens s"
proof -
  from assms obtain th where th: "getThreadFromID s t = Inr th"
    and s': "s' = s\<lparr>tm_threads := upd_at t f (tm_threads s)\<rparr>"
    by (auto simp: set_thread_def)
  have same: "mutex_at s' = mutex_at s" "cond_at s' = cond_at s" "barrier_at s' = barrier_at s"
    "ss_barriers s' = ss_barriers s" "sv_futexes s' = sv_futexes s" "sv_sleeping s' = sv_sleeping s"
    "threadState s' = threadState s"
    by (auto simp: s' mutex_at_def cond_at_def barrier_at_def threadState_def fun_eq_iff)
  show ?thesis
  proof (rule that [OF th])
    show "blocked s' = (blocked s)(t := th_waiting (f th))"
      using th by (auto simp: blocked_def s' getThreadFromID_def atR_upd_at atR_Inr_iff fun_eq_iff)
    show "lens s' = lens s" by (simp add: lens_def s' upd_at_def)
    show "stat s' = stat s" "stalled s' = stalled s" "waiters s' = waiters s"
      by (auto simp: stat_def stalled_def waiters_def same fun_eq_iff split: place.splits)
  qed
qed

lemma same_view_threads:
  assumes "tm_thread_state s' = tm_thread_state s" and "map th_waiting (tm_threads s') = map th_waiting (tm_threads s)"
    and "ss_mutexes s' = ss_mutexes s" and "ss_conds s' = ss_conds s" and "ss_barriers s' = ss_barriers s"
    and "sv_futexes s' = sv_futexes s" and "sv_sleeping s' = sv_sleeping s"
  shows "same_view s s'"
proof -
  have len: "length (tm_threads s') = length (tm_threads s)" by (metis assms(2) length_map)
  have "th_waiting (tm_threads s' ! i) = th_waiting (tm_threads s ! i)" if "i < length (tm_threads s)" for i
    by (metis assms(2) len nth_map that)
  then have "blocked s' t = blocked s t" for t
    by (auto simp: blocked_def getThreadFromID_def atR_def len)
  moreover have ts: "threadState s' = threadState s" by (simp add: threadState_def assms(1) fun_eq_iff)
  moreover have "lens s' = lens s" by (simp add: lens_def assms(1) len)
  ultimately show ?thesis
    by (auto simp: same_view_def stat_def stalled_def waiters_def ts mutex_at_def cond_at_def barrier_at_def assms(3-)
        fun_eq_iff split: place.splits)
qed

lemma map_upd_at: "(\<And>x. g (f x) = g x) \<Longrightarrow> map g (upd_at i f xs) = map g xs"
  by (simp add: upd_at_def map_list_update_same)

lemma set_core_view: "set_core c f s = Inr s' \<Longrightarrow> same_view s s'"
  by (auto simp: set_core_def intro!: same_view_threads)

lemmas core_views = set_core_view [of _ "\<lambda>k. k\<lparr>co_state := _\<rparr>", folded setCoreState_def]
  set_core_view [of _ "\<lambda>k. k\<lparr>co_pseudo := co_pseudo k @ [_]\<rparr>", folded queuePseudoInstruction_def]

lemma same_view_trans: "same_view s s' \<Longrightarrow> same_view s' s'' \<Longrightarrow> same_view s s''"
  by (simp add: same_view_def)

lemma setCore_view:
  assumes "setCore t c s = Inr s'"
  shows "same_view s s'"
proof -
  from assms obtain th :: thread and s1 s2 where
    s1: "(case th_core th of None \<Rightarrow> Inr s | Some old \<Rightarrow> set_core old (\<lambda>k. k\<lparr>co_thread := None\<rparr>) s) = Inr s1"
    and s2: "set_thread t (\<lambda>th. th\<lparr>th_core := c\<rparr>) s1 = Inr s2"
    and s3: "(case c of None \<Rightarrow> Inr s2 | Some new \<Rightarrow>
         bindR (getCoreFromID s2 new) (\<lambda>k.
         bindR (assertR (co_thread k = None)) (\<lambda>_.
         set_core new (\<lambda>k. k\<lparr>co_thread := Some t\<rparr>) s2))) = Inr s'"
    by (auto simp: setCore_def simp del: assertR_Inr_iff)
  from s3 have s': "s' = s2 \<or> (\<exists>d f. set_core d f s2 = Inr s')" by (auto split: option.splits)
  have "same_view s s1" using s1 set_core_view by (cases "th_core th") auto
  moreover have "same_view s1 s2"
    using s2 by (auto simp: set_thread_def map_upd_at intro!: same_view_threads)
  moreover have "same_view s2 s'" using s' set_core_view by auto
  ultimately show ?thesis by (blast intro: same_view_trans)
qed

lemma view_simps [simp]:
  "stat (set_mutex m x s) = stat s" "stalled (set_mutex m x s) = stalled s" "blocked (set_mutex m x s) = blocked s"
  "waiters (set_mutex m x s) = (waiters s)(At_Mutex m := mx_waiting x)"
  "stat (set_cond c q s) = stat s" "stalled (set_cond c q s) = stalled s" "blocked (set_cond c q s) = blocked s"
  "waiters (set_cond c q s) = (waiters s)(At_Cond c := map cw_thread_id q)"
  "stat (set_barrier b y s) = stat s" "stalled (set_barrier b y s) = stalled s" "blocked (set_barrier b y s) = blocked s"
  "stat (set_futex a w s) = stat s" "stalled (set_futex a w s) = stalled s" "blocked (set_futex a w s) = blocked s"
  "waiters (set_futex a w s) = (waiters s)(At_Futex a := map wt_thread_id w)"
  "stat (s\<lparr>sv_sleeping := w\<rparr>) = stat s" "stalled (s\<lparr>sv_sleeping := w\<rparr>) = stalled s" "blocked (s\<lparr>sv_sleeping := w\<rparr>) = blocked s"
  "waiters (s\<lparr>sv_sleeping := w\<rparr>) = (waiters s)(Asleep := map wt_thread_id w)"
  by (auto simp: set_mutex_def set_cond_def set_barrier_def set_futex_def stat_def stalled_def blocked_def threadState_def
      getThreadFromID_def waiters_def mutex_at_def cond_at_def barrier_at_def fun_eq_iff split: place.splits)

lemma lens_simps [simp]:
  "lens (set_mutex m x s) = lens s" "lens (set_cond c q s) = lens s" "lens (set_barrier b y s) = lens s"
  "lens (set_futex a w s) = lens s" "lens (s\<lparr>sv_sleeping := w\<rparr>) = lens s"
  "ss_barriers (set_mutex m x s) = ss_barriers s" "ss_barriers (set_cond c q s) = ss_barriers s"
  by (simp_all add: lens_def set_mutex_def set_cond_def set_barrier_def set_futex_def)

lemma waiters_set_barrier:
  "b < length (ss_barriers s) \<Longrightarrow> waiters (set_barrier b y s) = (waiters s)(At_Barrier b := br_waiting y)"
  by (auto simp: set_barrier_def threadState_def waiters_def mutex_at_def cond_at_def barrier_at_def fun_eq_iff
      split: place.splits)

lemma waiters_empty:
  "ss_mutexes s m = None \<Longrightarrow> waiters s (At_Mutex m) = []" "ss_conds s c = None \<Longrightarrow> waiters s (At_Cond c) = []"
  by (simp_all add: waiters_def mutex_at_def cond_at_def SimMutex_def)

lemma getMutex_view: "getMutex m c s = Inr s' \<Longrightarrow> same_view s s'"
  by (auto simp: getMutex_def same_view_def SimMutex_def waiters_empty fun_upd_idem split: if_splits)

lemma getCond_view: "getCond m c s = Inr s' \<Longrightarrow> same_view s s'"
  by (auto simp: getCond_def same_view_def waiters_empty fun_upd_idem split: if_splits)

lemma findFutex_view: "findFutexByUaddr env u t s = Inr (a, s') \<Longrightarrow> same_view s s'"
  by (auto simp: findFutexByUaddr_def Let_def intro!: same_view_threads)

lemma memory_view: "same_view s (s\<lparr>tm_memory := m\<rparr>)"
  by (rule same_view_threads) simp_all

lemma barrierInit_ok:
  assumes "waits_ok s"
  shows "waits_ok (snd (barrierInit n s))"
proof -
  let ?s = "snd (barrierInit n s)"
  have "waiters ?s = waiters s"
    by (auto simp: barrierInit_def SimBarrier_def waiters_def barrier_at_def threadState_def mutex_at_def cond_at_def
        nth_append fun_eq_iff split: place.splits)
  moreover have "stat ?s = stat s" "stalled ?s = stalled s" "blocked ?s = blocked s" "lens ?s = lens s"
    by (simp_all add: barrierInit_def stat_def stalled_def blocked_def lens_def threadState_def getThreadFromID_def fun_eq_iff)
  ultimately show ?thesis using assms by (simp add: waits_ok_def blocked_ok_def)
qed

lemma take_waiter_Some:
  assumes "take_waiter P q = Some (w, rest)"
  obtains xs ys where "q = xs @ w # ys" and "rest = xs @ ys" and "P w"
proof -
  from assms obtain i where i: "first_idx (\<lambda>i. P (q ! i)) (length q) = Some i" "w = q ! i" "rest = take i q @ drop (Suc i) q"
    by (auto simp: take_waiter_def split: option.splits)
  with first_idx_SomeD [OF i(1)] that [of "take i q" "drop (Suc i) q"] id_take_nth_drop [of i q]
  show ?thesis by simp
qed

section \<open>The environment\<close>

text \<open>
  Callbacks for a thread that is created, started, resumed or moved may give a core to threads that
  had none, and leave everything else of the threads as it is. The other callbacks and the advance of the
  time may wake threads.
\<close>

definition keeps :: "'a ss_state \<Rightarrow> 'a ss_state \<Rightarrow> bool" where
  "keeps s s' \<longleftrightarrow>
     waiters s' = waiters s \<and>
     (\<forall>t. stalled s' t = stalled s t \<or> stalled s t = Some STALL_UNSCHEDULED \<and> stalled s' t = None) \<and>
     (\<forall>t. stat s' t = stat s t \<or> stat s t = Some STALLED \<and> stat s' t = Some RUNNING \<and> \<not> blocked s' t) \<and>
     (\<forall>t. blocked s' t \<longrightarrow> blocked s t) \<and>
     length (ss_barriers s') = length (ss_barriers s) \<and> lens s' = lens s"

definition wakes :: "'a ss_state \<Rightarrow> 'a ss_state \<Rightarrow> bool" where
  "wakes s s' \<longleftrightarrow> (\<forall>t. stat s' t = stat s t \<or> stat s t = Some STALLED \<and> stat s' t = Some RUNNING)"

definition frame_hook :: "hook \<Rightarrow> bool" where
  "frame_hook h =
     (case h of
        HOOK_THREAD_CREATE _ _ \<Rightarrow> True | HOOK_THREAD_START _ _ \<Rightarrow> True | HOOK_THREAD_RESUME _ _ _ \<Rightarrow> True
      | HOOK_THREAD_MIGRATE _ _ _ \<Rightarrow> True | _ \<Rightarrow> False)"

locale thread_environment =
  fixes env :: "'a ss_env"
  assumes frame_hooks: "frame_hook h \<Longrightarrow> wpR (en_hooks env h s) (keeps s)"
    and stall_hook: "waits_ok s \<Longrightarrow> wpR (en_hooks env (HOOK_THREAD_STALL t r time) s) (\<lambda>s'. waits_ok s' \<and> wakes s s')"
    and exit_hook: "waits_ok s \<Longrightarrow> wpR (en_hooks env (HOOK_THREAD_EXIT t time) s) (\<lambda>s'. waits_ok s' \<and> wakes s s')"
    and advances: "waits_ok s \<Longrightarrow> wpR (en_advance env s) (\<lambda>s'. waits_ok s' \<and> wakes s s')"
    and creates: "wpR (en_threadCreate env t s) (\<lambda>(c, s'). keeps s s')"
    and wakes_futex: "waits_ok s \<Longrightarrow> wpR (en_futexWake env t u time s) (\<lambda>s'. waits_ok s' \<and> wakes s s')"

lemma same_view_keeps: "same_view s s' \<Longrightarrow> keeps s s'"
  by (simp add: same_view_def keeps_def)

lemma keeps_refl [simp]: "keeps s s"
  by (simp add: keeps_def)

lemma keeps_trans:
  assumes "keeps s s'" and "keeps s' s''"
  shows "keeps s s''"
proof -
  note k = assms [unfolded keeps_def]
  have "stalled s'' t = stalled s t \<or> stalled s t = Some STALL_UNSCHEDULED \<and> stalled s'' t = None" for t
    using k by (metis option.distinct(1))
  moreover have "stat s'' t = stat s t \<or> stat s t = Some STALLED \<and> stat s'' t = Some RUNNING \<and> \<not> blocked s'' t" for t
    using k by (metis core_state.distinct(3) option.inject)
  ultimately show ?thesis using k by (simp add: keeps_def)
qed

lemma keeps_waiters: "keeps s s' \<Longrightarrow> waiters s' = waiters s"
  by (simp add: keeps_def)

lemma keeps_wakes: "keeps s s' \<Longrightarrow> wakes s s'"
  by (auto simp: keeps_def wakes_def)

lemma wakes_refl [simp]: "wakes s s"
  by (simp add: wakes_def)

lemma wakes_trans: "wakes s s' \<Longrightarrow> wakes s' s'' \<Longrightarrow> wakes s s''"
  unfolding wakes_def by (metis option.inject core_state.distinct(3))

lemma wakes_running: "wakes s s' \<Longrightarrow> stat s t = Some RUNNING \<Longrightarrow> stat s' t = Some RUNNING"
  by (metis wakes_def)

lemma keeps_waits:
  assumes "waits st W"
    and "\<And>t. st' t = st t \<or> st t = Some STALL_UNSCHEDULED \<and> st' t = None"
  shows "waits st' W"
proof -
  note w = waitsD [OF assms(1)]
  have un: "\<not> place_ok STALL_UNSCHEDULED p" for p using place_ok_queued by (fastforce simp: queued_stall_def)
  show ?thesis
    unfolding waits_def
  proof (intro conjI allI impI)
    show "distinct (W p)" for p by (rule w(1))
    show "p = q" if "u \<in> set (W p)" "u \<in> set (W q)" for p q u using that by (rule w(2))
    show "\<exists>r. st' u = Some r \<and> place_ok r p" if "u \<in> set (W p)" for p u
      using w(3) [OF that] assms(2) [of u] un by auto
    show "\<exists>p. u \<in> set (W p)" if "st' u = Some r" "queued_stall r" for u r
      using that assms(2) [of u] by (intro w(4) [of u r]) auto
  qed
qed

lemma keeps_waits_ok: "keeps s s' \<Longrightarrow> waits_ok s \<Longrightarrow> waits_ok s'"
  unfolding waits_ok_def blocked_ok_def keeps_def by (metis keeps_waits)

lemma wpR_I: "(\<And>x. m = Inr x \<Longrightarrow> Q x) \<Longrightarrow> wpR m Q"
  by (simp add: wpR_def)

lemma wpR_prod [simp]: "wpR (case x of (a, b) \<Rightarrow> f a b) Q \<longleftrightarrow> (case x of (a, b) \<Rightarrow> wpR (f a b) Q)"
  by (cases x) simp

lemma wpR_if [simp]: "wpR (if b then m else n) Q \<longleftrightarrow> (if b then wpR m Q else wpR n Q)"
  by simp

lemma not_stalled: "stat s t \<noteq> Some STALLED \<Longrightarrow> stalled s t = None"
  by (auto simp: stat_def stalled_def split: sum.splits)

lemma stalled_stat: "stalled s t = Some r \<Longrightarrow> stat s t = Some STALLED"
  by (auto simp: stat_def stalled_def split: sum.splits if_splits)

lemma waits_okD: "waits_ok s \<Longrightarrow> waits (stalled s) (waiters s)" "waits_ok s \<Longrightarrow> blocked_ok s"
  by (simp_all add: waits_ok_def)

lemma waits_okI: "waits (stalled s) (waiters s) \<Longrightarrow> blocked_ok s \<Longrightarrow> waits_ok s"
  by (simp add: waits_ok_def)

lemma blocked_ok_simps [simp]:
  "blocked_ok (set_mutex m x s) = blocked_ok s" "blocked_ok (set_cond c q s) = blocked_ok s"
  "blocked_ok (set_barrier b y s) = blocked_ok s" "blocked_ok (set_futex a w s) = blocked_ok s"
  "blocked_ok (s\<lparr>sv_sleeping := w\<rparr>) = blocked_ok s"
  by (simp_all add: blocked_ok_def)

section \<open>The operations keep the invariant\<close>

context thread_environment
begin

lemma resumeThread_keeps:
  assumes "resumeThread env t by time msg s = Inr s'"
  obtains s2 where "keeps s2 s'" and "stat s2 = (stat s)(t := Some RUNNING)" and "stalled s2 = (stalled s)(t := None)"
    and "blocked s2 = (blocked s)(t := False)" and "waiters s2 = waiters s" and "lens s2 = lens s"
proof -
  from assms obtain s1 s2 where s1: "thread_signal t time msg s = Inr s1" and s2: "set_status t RUNNING s1 = Inr s2"
    and s': "en_hooks env (HOOK_THREAD_RESUME t by time) s2 = Inr s'"
    by (auto simp: resumeThread_def resumeThread_async_def)
  from s1 obtain th where v1: "blocked s1 = (blocked s)(t := False)" "stat s1 = stat s" "stalled s1 = stalled s" "waiters s1 = waiters s"
      "lens s1 = lens s"
    unfolding thread_signal_def by (elim set_thread_view) simp
  from s2 obtain x where v2: "stat s2 = (stat s1)(t := Some RUNNING)" "stalled s2 = (stalled s1)(t := None)"
    "blocked s2 = blocked s1" "waiters s2 = waiters s1" "lens s2 = lens s1"
    unfolding set_status_def by (elim set_state_view) simp_all
  show ?thesis
  proof (rule that)
    show "keeps s2 s'" using wpR_D [OF frame_hooks s'] by (simp add: frame_hook_def)
  qed (simp_all add: v1 v2)
qed

lemma resumeThread_barriers:
  assumes "resumeThread env t by time msg s = Inr s'"
  shows "length (ss_barriers s') = length (ss_barriers s)"
proof -
  from assms obtain s1 s2 where s1: "thread_signal t time msg s = Inr s1" and s2: "set_status t RUNNING s1 = Inr s2"
    and s': "en_hooks env (HOOK_THREAD_RESUME t by time) s2 = Inr s'"
    by (auto simp: resumeThread_def resumeThread_async_def)
  have "keeps s2 s'" using wpR_D [OF frame_hooks s'] by (simp add: frame_hook_def)
  then have "length (ss_barriers s') = length (ss_barriers s2)" by (simp add: keeps_def)
  with s1 s2 show ?thesis by (auto simp: thread_signal_def set_thread_def set_status_def set_state_def)
qed

lemma resumeThread_ok:
  assumes "waits ((stalled s)(t := None)) (waiters s)" and "blocked_ok s" and "stat s t = Some STALLED"
  shows "wpR (resumeThread env t by time msg s) (\<lambda>s'. waits_ok s' \<and> wakes s s')"
proof (rule wpR_I)
  fix s' assume "resumeThread env t by time msg s = Inr s'"
  then obtain s2 where s2: "keeps s2 s'" "stat s2 = (stat s)(t := Some RUNNING)" "stalled s2 = (stalled s)(t := None)"
    "blocked s2 = (blocked s)(t := False)" "waiters s2 = waiters s" "lens s2 = lens s"
    by (rule resumeThread_keeps)
  have "waits_ok s2" using assms(1,2) by (auto simp: waits_ok_def blocked_ok_def s2)
  moreover have "wakes s s2" using assms(3) by (simp add: wakes_def s2)
  ultimately show "waits_ok s' \<and> wakes s s'" using s2(1) keeps_waits_ok keeps_wakes wakes_trans by blast
qed

lemma advance_while_stalled_ok:
  "waits_ok s \<Longrightarrow> wpR (advance_while_stalled n (en_advance env) s) (\<lambda>s'. waits_ok s' \<and> wakes s s')"
proof (induction n arbitrary: s)
  case (Suc n)
  show ?case
  proof (cases "anyThreadRunning s")
    case False
    have "wpR (en_advance env s) (\<lambda>x. wpR (advance_while_stalled n (en_advance env) x) (\<lambda>s'. waits_ok s' \<and> wakes s s'))"
      using advances [OF Suc.prems]
    proof (rule wpR_mono)
      fix s1 assume "waits_ok s1 \<and> wakes s s1"
      with wpR_mono [OF Suc.IH [of s1]] show "wpR (advance_while_stalled n (en_advance env) s1) (\<lambda>s'. waits_ok s' \<and> wakes s s')"
        using wakes_trans by (metis (mono_tags, lifting))
    qed
    with False show ?thesis by simp
  qed (simp add: Suc.prems)
qed simp

lemma stallThread_ok:
  assumes "waits ((stalled s)(t := Some r)) (waiters s)" and "blocked_ok s"
  shows "wpR (stallThread env t r time s) (\<lambda>(c, s'). waits_ok s')"
proof (rule wpR_I)
  fix x assume "stallThread env t r time s = Inr x"
  then obtain s0 s1 s2 ts where s0: "set_state t (\<lambda>x. x\<lparr>ts_status := STALLED, ts_stalled_reason := Some r\<rparr>) s = Inr s0"
    and s1: "en_hooks env (HOOK_THREAD_STALL t r time) s0 = Inr s1"
    and s2: "advance_while_stalled (en_rounds env) (en_advance env) s1 = Inr s2"
    and ts: "threadState s2 t = Inr ts"
    and x: "if ts_status ts = RUNNING then \<exists>c. x = (c, s2) else \<exists>c s3. thread_wait t s2 = Inr s3 \<and> x = (c, s3)"
    by (auto simp: stallThread_def stallThread_async_def split: if_splits)
  from s0 obtain y where v0: "stat s0 = (stat s)(t := Some STALLED)" "stalled s0 = (stalled s)(t := Some r)"
    "blocked s0 = blocked s" "waiters s0 = waiters s" "lens s0 = lens s"
    by (elim set_state_view) simp_all
  have "waits_ok s0" using assms by (auto simp: waits_ok_def blocked_ok_def v0)
  with wpR_D [OF stall_hook s1] have 1: "waits_ok s1" "wakes s0 s1" by simp_all
  with wpR_D [OF advance_while_stalled_ok s2] have 2: "waits_ok s2" "wakes s0 s2" using wakes_trans by blast+
  have st: "stat s2 t = Some (ts_status ts)" using ts by (simp add: stat_def)
  have "ts_status ts = RUNNING \<or> stat s2 t = Some STALLED"
    using 2(2) unfolding wakes_def v0 by (metis fun_upd_same option.inject st)
  then show "case x of (c, s') \<Rightarrow> waits_ok s'"
  proof (cases "ts_status ts = RUNNING")
    case False
    with x obtain c s3 where s3: "thread_wait t s2 = Inr s3" and x': "x = (c, s3)" by auto
    from s3 obtain th where "blocked s3 = (blocked s2)(t := True)" "stat s3 = stat s2" "stalled s3 = stalled s2" "waiters s3 = waiters s2"
      "lens s3 = lens s2"
      unfolding thread_wait_def by (elim set_thread_view) simp
    then show ?thesis using 2(1) \<open>ts_status ts = RUNNING \<or> stat s2 t = Some STALLED\<close> False
      by (auto simp: waits_ok_def blocked_ok_def x')
  qed (use x 2 in auto)
qed

text \<open>A running thread joins a place and stalls; a thread leaves its place and is resumed.\<close>

lemma park_ok:
  assumes "waits_ok s" and "stat s t = Some RUNNING" and "place_ok r p"
    and "waiters s1 = (waiters s)(p := waiters s p @ [t])" and "stalled s1 = stalled s" and "blocked_ok s1"
  shows "wpR (stallThread env t r time s1) (\<lambda>(c, s'). waits_ok s')"
proof (rule stallThread_ok)
  have "stalled s t = None" using assms(2) by (simp add: not_stalled)
  then show "waits ((stalled s1)(t := Some r)) (waiters s1)"
    unfolding assms(4,5) using waits_park [OF waits_okD(1) [OF assms(1)] _ assms(3)] by blast
qed (rule assms(6))

lemma wake_ok:
  assumes "waits_ok s" and "waiters s p = xs @ t # ys"
    and "waiters s1 = (waiters s)(p := xs @ ys)" and "stalled s1 = stalled s" and "stat s1 = stat s" and "blocked_ok s1"
  shows "wpR (resumeThread env t by time msg s1) (\<lambda>s'. waits_ok s' \<and> wakes s s')"
proof -
  note w = waits_okD(1) [OF assms(1)]
  have "t \<in> set (waiters s p)" using assms(2) by simp
  with waitsD(3) [OF w] obtain r where "stalled s t = Some r" by blast
  then have st: "stat s1 t = Some STALLED" using stalled_stat assms(5) by metis
  have "wakes s1 s' = wakes s s'" for s' by (simp add: wakes_def assms(5))
  moreover have "waits ((stalled s1)(t := None)) (waiters s1)"
    unfolding assms(3,4) by (rule waits_wake [OF w assms(2)])
  ultimately show ?thesis using resumeThread_ok [OF _ assms(6) st] by simp
qed

subsection \<open>Mutexes, condition variables and barriers\<close>

lemma mutex_lock_ok:
  assumes "waits_ok s" and "stat s t = Some RUNNING"
  shows "wpR (mutex_lock env m t time s) (\<lambda>(c, s'). waits_ok s')"
proof -
  let ?x = "mutex_at s m"
  have "waiters s (At_Mutex m) = mx_waiting ?x" by (simp add: waiters_def)
  then have free: "waits_ok (set_mutex m (?x\<lparr>mx_owner := t\<rparr>) s)"
    using assms(1) by (simp add: waits_ok_def fun_upd_idem)
  have "wpR (stallThread env t STALL_MUTEX time (set_mutex m (?x\<lparr>mx_waiting := mx_waiting ?x @ [t]\<rparr>) s)) (\<lambda>(c, s'). waits_ok s')"
    by (rule park_ok [where p = "At_Mutex m", OF assms])
      (simp_all add: place_ok_def waits_okD(2) [OF assms(1)], simp add: waiters_def)
  with free show ?thesis by (simp add: mutex_lock_def Let_def)
qed

lemma mutexLock_ok:
  assumes "waits_ok s" and "stat s t = Some RUNNING"
  shows "wpR (mutexLock env t m try time s) (\<lambda>(c, s'). waits_ok s')"
proof -
  have "wpR (mutex_lock env m t time s1) (\<lambda>(c, s'). waits_ok s')" "waits_ok s1" if "getMutex m True s = Inr s1" for s1
    using mutex_lock_ok same_view_running [OF getMutex_view [OF that] assms] by blast+
  then show ?thesis
    unfolding mutexLock_def by (auto simp: wpR_def split: prod.splits)
qed

lemma mutex_unlock_ok:
  assumes "waits_ok s" and "stat s t = Some RUNNING"
  shows "wpR (mutex_unlock env m t time s) (\<lambda>(c, s'). waits_ok s' \<and> wakes s s')"
proof -
  let ?x = "mutex_at s m"
  have w: "waiters s (At_Mutex m) = mx_waiting ?x" by (simp add: waiters_def)
  show ?thesis
  proof (cases "mx_waiting ?x")
    case Nil
    have "waits_ok (set_mutex m (?x\<lparr>mx_owner := NO_OWNER\<rparr>) s)" "wakes s (set_mutex m (?x\<lparr>mx_owner := NO_OWNER\<rparr>) s)"
      using assms(1) w by (simp_all add: waits_ok_def fun_upd_idem wakes_def)
    with Nil show ?thesis by (simp add: mutex_unlock_def Let_def)
  next
    case (Cons u rest)
    have "wpR (resumeThread env u t time False (set_mutex m (?x\<lparr>mx_waiting := rest, mx_owner := u\<rparr>) s))
      (\<lambda>s'. waits_ok s' \<and> wakes s s')"
      by (rule wake_ok [where p = "At_Mutex m" and xs = "[]" and ys = rest, OF assms(1)])
        (simp_all add: w Cons waits_okD(2) [OF assms(1)])
    with Cons show ?thesis by (simp add: mutex_unlock_def Let_def)
  qed
qed

lemma mutexUnlock_ok:
  assumes "waits_ok s" and "stat s t = Some RUNNING"
  shows "wpR (mutexUnlock env t m time s) (\<lambda>(c, s'). waits_ok s')"
proof -
  have "wpR (mutex_unlock env m t time' s) (\<lambda>(c, s'). waits_ok s')" for time'
    by (rule wpR_mono [OF mutex_unlock_ok [OF assms]]) auto
  then show ?thesis by (auto simp: mutexUnlock_def getMutex_def wpR_def split: if_splits prod.splits)
qed

lemma mutex_lock_async_ok:
  assumes "waits ((stalled s)(t := None)) (waiters s)" and "blocked_ok s" and "stalled s t = Some STALL_COND"
  shows "wpR (mutex_lock_async env m t by time s) (\<lambda>(c, s'). waits_ok s' \<and> wakes s s')"
proof -
  let ?x = "mutex_at s m" and ?s = "\<lambda>x. set_mutex m x s"
  have w: "waiters s (At_Mutex m) = mx_waiting ?x" by (simp add: waiters_def)
  have v: "wakes (?s x) s' = wakes s s'" for x s' by (simp add: wakes_def)
  have "wpR (resumeThread env t by time False (?s (?x\<lparr>mx_owner := t\<rparr>))) (\<lambda>s'. waits_ok s' \<and> wakes s s')"
    using resumeThread_ok [where s = "?s (?x\<lparr>mx_owner := t\<rparr>)" and t = t] assms stalled_stat [OF assms(3)] w
    by (simp add: v fun_upd_idem)
  moreover have "waits_ok (?s (?x\<lparr>mx_waiting := mx_waiting ?x @ [t]\<rparr>))"
    using waits_move [OF assms(1,3), of "At_Mutex m"] assms(2) w by (intro waits_okI) (simp_all add: place_ok_def)
  ultimately show ?thesis by (simp add: mutex_lock_async_def Let_def wakes_def)
qed

lemma cond_pop_ok:
  assumes "waits_ok s" and "cond_at s c = woken # rest"
  shows "wpR (mutex_lock_async env (cw_mutex woken) (cw_thread_id woken) by time (set_cond c rest s))
    (\<lambda>(b, s'). waits_ok s' \<and> wakes s s')"
proof -
  let ?t = "cw_thread_id woken" and ?s = "set_cond c rest s"
  note w = waits_okD(1) [OF assms(1)]
  have q: "waiters s (At_Cond c) = [] @ ?t # map cw_thread_id rest" by (simp add: waiters_def assms(2))
  then have "\<exists>r. stalled s ?t = Some r \<and> place_ok r (At_Cond c)" by (intro waitsD(3) [OF w]) simp
  then have st: "stalled ?s ?t = Some STALL_COND" by (simp add: place_ok_def)
  have "waits ((stalled ?s)(?t := None)) (waiters ?s)" using waits_wake [OF w q] by simp
  from mutex_lock_async_ok [OF this _ st] waits_okD(2) [OF assms(1)] show ?thesis
    by (simp add: wakes_def)
qed

lemma condWait_ok:
  assumes "waits_ok s" and "stat s t = Some RUNNING"
  shows "wpR (condWait env t c m time s) (\<lambda>(r, s'). waits_ok s')"
proof -
  have "wpR (cond_wait env c t time m s2) (\<lambda>(r, s'). waits_ok s')" if "waits_ok s2" "stat s2 t = Some RUNNING" for s2
  proof -
    have "wpR (stallThread env t STALL_COND time (set_cond c (cond_at s1 c @ [\<lparr>cw_thread_id = t, cw_mutex = m\<rparr>]) s1)) (\<lambda>(r, s'). waits_ok s')"
      if "waits_ok s1" "stat s1 t = Some RUNNING" for s1
      by (rule park_ok [where p = "At_Cond c", OF that])
        (simp_all add: place_ok_def waits_okD(2) [OF that(1)], simp add: waiters_def)
    then show ?thesis
      unfolding cond_wait_def wpR_simps
      by (intro wpR_mono [OF mutex_unlock_ok [OF that]]) (auto dest: wakes_running [OF _ that(2)])
  qed
  moreover have "waits_ok s2 \<and> stat s2 t = Some RUNNING" if "getMutex m True s = Inr s1" "getCond c True s1 = Inr s2" for s1 s2
    using same_view_running [OF same_view_trans [OF getMutex_view [OF that(1)] getCond_view [OF that(2)]] assms] by blast
  ultimately show ?thesis by (auto simp: condWait_def wpR_def)
qed

lemma condSignal_ok:
  assumes "waits_ok s"
  shows "wpR (condSignal env t c time s) (\<lambda>(r, s'). waits_ok s')"
proof -
  have "wpR (cond_signal env c t time s1) (\<lambda>(r, s'). waits_ok s')" if "waits_ok s1" for s1
  proof (cases "cond_at s1 c")
    case Nil then show ?thesis using that by (simp add: cond_signal_def)
  next
    case (Cons w rest)
    show ?thesis using cond_pop_ok [OF that Cons] by (auto simp: cond_signal_def Cons wpR_def split: prod.splits)
  qed
  moreover have "waits_ok s1" if "getCond c True s = Inr s1" for s1
    using getCond_view [OF that] same_view_waits_ok assms by blast
  ultimately show ?thesis by (auto simp: condSignal_def wpR_def split: prod.splits)
qed

lemma condBroadcast_ok:
  assumes "waits_ok s"
  shows "wpR (condBroadcast env t c time s) (\<lambda>(r, s'). waits_ok s')"
proof -
  have loop: "waits_ok s1 \<Longrightarrow> wpR (cond_broadcast_loop env c t time n s1) waits_ok" for n s1
  proof (induction n arbitrary: s1)
    case (Suc n)
    show ?case
    proof (cases "cond_at s1 c")
      case (Cons w rest)
      have "wpR (mutex_lock_async env (cw_mutex w) (cw_thread_id w) t time (set_cond c rest s1)) (\<lambda>(b, s'). wpR (cond_broadcast_loop env c t time n s') waits_ok)"
        by (rule wpR_mono [OF cond_pop_ok [OF Suc.prems Cons]]) (auto intro: Suc.IH)
      with Cons show ?thesis by simp
    qed (simp add: Suc.prems)
  qed simp
  moreover have "waits_ok s1" if "getCond c True s = Inr s1" for s1
    using getCond_view [OF that] same_view_waits_ok assms by blast
  ultimately show ?thesis by (auto simp: condBroadcast_def cond_broadcast_def wpR_def)
qed

lemma barrierWait_ok:
  assumes "waits_ok s" and "stat s t = Some RUNNING"
  shows "wpR (barrierWait env t b time s) (\<lambda>(r, s'). waits_ok s')"
proof -
  have rel: "waits_ok s1 \<Longrightarrow> b < length (ss_barriers s1) \<Longrightarrow> wpR (barrier_release env b t time n s1) waits_ok" for n s1
  proof (induction n arbitrary: s1)
    case (Suc n)
    let ?x = "barrier_at s1 b"
    show ?case
    proof (cases "br_waiting ?x")
      case (Cons w rest)
      let ?s = "set_barrier b (?x\<lparr>br_waiting := rest\<rparr>) s1"
      have "wpR (resumeThread env w t time False ?s) (\<lambda>s'. waits_ok s' \<and> wakes s1 s')"
        by (rule wake_ok [where p = "At_Barrier b" and xs = "[]" and ys = rest, OF Suc.prems(1)])
          (simp_all add: waiters_set_barrier Suc.prems(2) waits_okD(2) [OF Suc.prems(1)], simp add: waiters_def Suc.prems(2) Cons)
      moreover have "b < length (ss_barriers s')" if "resumeThread env w t time False ?s = Inr s'" for s'
        using resumeThread_barriers [OF that] Suc.prems(2) by (simp add: set_barrier_def)
      ultimately show ?thesis using Cons Suc.IH by (auto simp: wpR_def)
    qed (simp add: Suc.prems)
  qed simp
  have "wpR (stallThread env t STALL_BARRIER time (set_barrier b ((barrier_at s b)\<lparr>br_waiting := br_waiting (barrier_at s b) @ [t]\<rparr>) s)) (\<lambda>(r, s'). waits_ok s')"
    if "b < length (ss_barriers s)"
    by (rule park_ok [where p = "At_Barrier b", OF assms])
      (simp_all add: waiters_set_barrier that place_ok_def waits_okD(2) [OF assms(1)], simp add: waiters_def that)
  with rel [OF assms(1)] show ?thesis
    by (simp add: barrierWait_def barrier_wait_def Let_def)
qed

subsection \<open>Futexes and sleeping threads\<close>

lemma handleSleepCall_ok:
  assumes "waits_ok s" and "stat s t = Some RUNNING"
  shows "wpR (handleSleepCall env t wake_time time s) (\<lambda>(r, s'). waits_ok s')"
  unfolding handleSleepCall_def
  by (rule park_ok [where p = Asleep, OF assms])
    (simp_all add: place_ok_def waits_okD(2) [OF assms(1)], simp add: waiters_def)

lemma futexWait_ok:
  assumes "waits_ok s" and "stat s t = Some RUNNING"
  shows "wpR (futexWait env t u val act_val bits time timeout s) (\<lambda>(r, s'). waits_ok s')"
proof -
  let ?w = "\<lparr>wt_thread_id = t, wt_mask = bits, wt_timeout = timeout\<rparr>"
  have "wpR (enqueueWaiter env a t bits time timeout s1) (\<lambda>(r, s'). waits_ok s')" if "findFutexByUaddr env u t s = Inr (a, s1)" for a s1
  proof -
    note v = same_view_running [OF findFutex_view [OF that] assms]
    have "wpR (stallThread env t STALL_FUTEX time (set_futex a (sv_futexes s1 a @ [?w]) s1)) (\<lambda>(r, s'). waits_ok s')"
      by (rule park_ok [where p = "At_Futex a", OF v])
        (simp_all add: place_ok_def waits_okD(2) [OF v(1)], simp add: waiters_def)
    then show ?thesis unfolding enqueueWaiter_def wpR_simps
      by (rule wpR_mono) (auto simp: wpR_def split: call.split_asm)
  qed
  moreover have "waits_ok s1" if "findFutexByUaddr env u t s = Inr (a, s1)" for a s1
    by (rule same_view_running [OF findFutex_view [OF that] assms])
  ultimately show ?thesis by (auto simp: futexWait_def wpR_def split: prod.splits if_splits)
qed

lemma futex_take_ok:
  assumes "waits_ok s" and "take_waiter P (sv_futexes s a) = Some (w, rest)"
  shows "wpR (resumeThread env (wt_thread_id w) by time msg (set_futex a rest s)) (\<lambda>s'. waits_ok s' \<and> wakes s s')"
proof -
  from assms(2) obtain xs ys where q: "sv_futexes s a = xs @ w # ys" "rest = xs @ ys" by (rule take_waiter_Some)
  show ?thesis
    by (rule wake_ok [where p = "At_Futex a" and xs = "map wt_thread_id xs" and ys = "map wt_thread_id ys", OF assms(1)])
      (simp_all add: q waits_okD(2) [OF assms(1)], simp add: waiters_def q)
qed

lemma dequeueWaiter_ok:
  "waits_ok s \<Longrightarrow> wpR (dequeueWaiter env a by bits time s) (\<lambda>(r, s'). waits_ok s' \<and> wakes s s')"
  using futex_take_ok by (auto simp: dequeueWaiter_def wpR_def split: option.splits)

lemma wakeFutexOne_ok:
  "waits_ok s \<Longrightarrow> wpR (wakeFutexOne env a by bits time s) (\<lambda>(r, s'). waits_ok s' \<and> wakes s s')"
  using dequeueWaiter_ok by (auto simp: wakeFutexOne_def wpR_def)

lemma wakeTimedOut_ok:
  "waits_ok s \<Longrightarrow> wpR (wakeTimedOut env time a s) (\<lambda>s'. waits_ok s' \<and> wakes s s')"
  using futex_take_ok by (auto simp: wakeTimedOut_def split: option.splits)

lemma wake_loop_ok:
  assumes "\<And>s. waits_ok s \<Longrightarrow> wpR (wake s) (\<lambda>(r, s'). waits_ok s' \<and> wakes s s')"
  shows "waits_ok s \<Longrightarrow> wpR (wake_loop wake n s) (\<lambda>(r, s'). waits_ok s' \<and> wakes s s')"
proof (induction n arbitrary: s)
  case (Suc n)
  have "wpR (wake_loop wake n s1) (\<lambda>(r, s'). waits_ok s' \<and> wakes s s')" if "waits_ok s1" "wakes s s1" for s1
    by (rule wpR_mono [OF Suc.IH [OF that(1)]]) (auto intro: wakes_trans [OF that(2)])
  then have "wpR (bindR (wake_loop wake n s1) (\<lambda>(k, s2). Inr (Suc k, s2))) (\<lambda>(r, s'). waits_ok s' \<and> wakes s s')"
    if "waits_ok s1" "wakes s s1" for s1 using that by simp
  then show ?case unfolding wake_loop.simps wpR_simps
    by (intro wpR_mono [OF assms [OF Suc.prems]]) auto
qed simp

lemma view_wakes:
  assumes "same_view s s1" and "wpR m (\<lambda>(r, s'). waits_ok s' \<and> wakes s1 s')"
  shows "wpR m (\<lambda>(r, s'). waits_ok s' \<and> wakes s s')"
  using assms by (simp add: same_view_def wakes_def)

lemma futexWake_ok:
  assumes "waits_ok s"
  shows "wpR (futexWake env t u n bits time s) (\<lambda>(r, s'). waits_ok s' \<and> wakes s s')"
proof -
  have "wpR (wake_loop (wakeFutexOne env a t bits time) (loop_bound n) s1) (\<lambda>(r, s'). waits_ok s' \<and> wakes s s')"
    if "findFutexByUaddr env u t s = Inr (a, s1)" for a s1
    by (rule view_wakes [OF findFutex_view [OF that]], rule wake_loop_ok [OF wakeFutexOne_ok])
      (use assms same_view_waits_ok [OF findFutex_view [OF that]] in auto)
  then show ?thesis unfolding futexWake_def wpR_simps
    by (intro wpR_I) (auto simp: wpR_def)
qed

lemma futexDoOp_view: "futexDoOp op u s = Inr (r, s') \<Longrightarrow> same_view s s'"
  by (auto simp: futexDoOp_def Let_def memory_view)

lemma futexWakeOp_ok:
  assumes "waits_ok s"
  shows "wpR (futexWakeOp env t u u2 n n2 op time s) (\<lambda>(r, s'). waits_ok s')"
proof (rule wpR_I)
  fix x assume "futexWakeOp env t u u2 n n2 op time s = Inr x"
  then obtain a s1 a2 s2 r s3 k s4 k2 s5 c where
    e: "findFutexByUaddr env u t s = Inr (a, s1)" "findFutexByUaddr env u2 t s1 = Inr (a2, s2)" "futexDoOp op u2 s2 = Inr (r, s3)"
    and l1: "wake_loop (wakeFutexOne env a t FUTEX_BITSET_MATCH_ANY time) (loop_bound n) s3 = Inr (k, s4)"
    and l2: "(if r then wake_loop (wakeFutexOne env a2 t FUTEX_BITSET_MATCH_ANY time) (loop_bound n2) s4 else Inr (0, s4)) = Inr (k2, s5)"
    and x: "x = (c, s5)"
    by (auto simp: futexWakeOp_def split: prod.splits)
  have "same_view s s3" using e findFutex_view futexDoOp_view same_view_trans by metis
  with assms have "waits_ok s3" by (simp add: same_view_waits_ok)
  with wpR_D [OF wake_loop_ok [OF wakeFutexOne_ok] l1] have "waits_ok s4" by simp
  then have "waits_ok s5"
  proof (cases r)
    case True
    with l2 have "wake_loop (wakeFutexOne env a2 t FUTEX_BITSET_MATCH_ANY time) (loop_bound n2) s4 = Inr (k2, s5)" by simp
    from wpR_D [OF wake_loop_ok [OF wakeFutexOne_ok \<open>waits_ok s4\<close>] this] show ?thesis by simp
  qed (use l2 in auto)
  then show "case x of (r, s') \<Rightarrow> waits_ok s'" by (simp add: x)
qed

lemma requeueWaiter_ok:
  assumes "waits_ok s"
  shows "waits_ok (snd (requeueWaiter a b s))"
proof (cases "sv_futexes s a")
  case (Cons w rest)
  let ?t = "wt_thread_id w" and ?s = "set_futex a rest s"
  note W = waits_okD(1) [OF assms]
  have q: "waiters s (At_Futex a) = [] @ ?t # map wt_thread_id rest" by (simp add: waiters_def Cons)
  then have "\<exists>r. stalled s ?t = Some r \<and> place_ok r (At_Futex a)" by (intro waitsD(3) [OF W]) simp
  then have st: "stalled s ?t = Some STALL_FUTEX" by (simp add: place_ok_def)
  have "waits ((stalled s)(?t := None)) (waiters ?s)" using waits_wake [OF W q] by simp
  from waits_move [OF this st, of "At_Futex b"]
  have "waits (stalled s) ((waiters ?s)(At_Futex b := waiters ?s (At_Futex b) @ [?t]))" by (simp add: place_ok_def)
  moreover have "waiters ?s (At_Futex b) @ [?t] = map wt_thread_id (sv_futexes ?s b @ [w])"
    by (simp only: waiters_def place.simps map_append list.map)
  ultimately show ?thesis using waits_okD(2) [OF assms]
    by (intro waits_okI) (simp_all add: requeueWaiter_def Cons Let_def del: map_append)
qed (simp add: requeueWaiter_def assms)

lemma requeue_loop_ok: "waits_ok s \<Longrightarrow> wpR (requeue_loop n a b s) waits_ok"
proof (induction n arbitrary: s)
  case (Suc n)
  then show ?case using requeueWaiter_ok [OF Suc.prems, of a b] by (auto simp: Let_def split: prod.splits)
qed simp

lemma futexCmpRequeue_ok:
  assumes "waits_ok s"
  shows "wpR (futexCmpRequeue env t u val u2 val3 act_val time s) (\<lambda>(r, s'). waits_ok s')"
proof (rule wpR_I)
  fix x assume x: "futexCmpRequeue env t u val u2 val3 act_val time s = Inr x"
  then obtain a s1 where e: "findFutexByUaddr env u t s = Inr (a, s1)" by (auto simp: futexCmpRequeue_def)
  have 1: "waits_ok s1" using same_view_waits_ok [OF findFutex_view [OF e]] assms by simp
  show "case x of (r, s') \<Rightarrow> waits_ok s'"
  proof (cases "val3 = act_val")
    case True
    with x e obtain k s2 b s3 s4 c where
      2: "wake_loop (dequeueWaiter env a t FUTEX_BITSET_MATCH_ANY time) (loop_bound val) s1 = Inr (k, s2)"
      and 3: "findFutexByUaddr env u2 t s2 = Inr (b, s3)"
      and 4: "requeue_loop (Suc (length (sv_futexes s3 a))) a b s3 = Inr s4" and x': "x = (c, s4)"
      by (auto simp: futexCmpRequeue_def simp del: requeue_loop.simps)
    have "waits_ok s2" using wpR_D [OF wake_loop_ok [OF dequeueWaiter_ok 1] 2] by simp
    then have "waits_ok s3" using same_view_waits_ok [OF findFutex_view [OF 3]] by simp
    then show ?thesis using wpR_D [OF requeue_loop_ok 4] by (simp add: x')
  qed (use x e 1 in \<open>auto simp: futexCmpRequeue_def\<close>)
qed

lemma handleFutexCall_ok:
  assumes "waits_ok s" and "stat s t = Some RUNNING"
  shows "wpR (handleFutexCall env time_start t args time s) (\<lambda>(r, s'). waits_ok s')"
proof -
  have "wpR (futexWake env t u n bits time s) (\<lambda>(r, s'). waits_ok s')" for u n bits
    by (rule wpR_mono [OF futexWake_ok [OF assms(1)]]) auto
  with futexWait_ok [OF assms] futexWakeOp_ok [OF assms(1)] futexCmpRequeue_ok [OF assms(1)] show ?thesis
    unfolding handleFutexCall_def Let_def by (intro wpR_I [THEN wpR_simps(3) [THEN iffD2]]) simp
qed

lemma wake_sleeping_ok:
  assumes "waits_ok s"
  shows "wpR (wake_sleeping env time s) (\<lambda>s'. waits_ok s' \<and> wakes s s')"
proof (cases "take_waiter (\<lambda>w. wt_timeout w \<le> time) (sv_sleeping s)")
  case (Some wr)
  obtain w rest where wr: "wr = (w, rest)" by (cases wr)
  from Some wr obtain xs ys where q: "sv_sleeping s = xs @ w # ys" "rest = xs @ ys"
    by (auto elim: take_waiter_Some)
  have "wpR (resumeThread env (wt_thread_id w) (wt_thread_id w) time False (s\<lparr>sv_sleeping := rest\<rparr>)) (\<lambda>s'. waits_ok s' \<and> wakes s s')"
    by (rule wake_ok [where p = Asleep and xs = "map wt_thread_id xs" and ys = "map wt_thread_id ys", OF assms])
      (simp_all add: q waits_okD(2) [OF assms], simp add: waiters_def q)
  with Some wr show ?thesis by (simp add: wake_sleeping_def)
qed (simp add: wake_sleeping_def assms)

lemma futexPeriodic_ok:
  assumes "waits_ok s"
  shows "wpR (futexPeriodic env time s) (\<lambda>s'. waits_ok s' \<and> wakes s s')"
proof -
  have fold: "waits_ok s1 \<Longrightarrow> wpR (foldR (wakeTimedOut env time) as s1) (\<lambda>s'. waits_ok s' \<and> wakes s1 s')" for as s1
  proof (induction as arbitrary: s1)
    case (Cons a as)
    have "wpR (foldR (wakeTimedOut env time) as s2) (\<lambda>s'. waits_ok s' \<and> wakes s1 s')" if "waits_ok s2 \<and> wakes s1 s2" for s2
      by (rule wpR_mono [OF Cons.IH]) (use that wakes_trans in auto)
    then show ?case unfolding foldR.simps wpR_simps by (rule wpR_mono [OF wakeTimedOut_ok [OF Cons.prems]])
  qed simp
  note sleep = wake_sleeping_ok [OF assms]
  have "wpR (foldR (wakeTimedOut env time) as s1) (\<lambda>s'. waits_ok s' \<and> wakes s s')" if "waits_ok s1 \<and> wakes s s1" for as s1
    by (rule wpR_mono [OF fold]) (use that wakes_trans in auto)
  then show ?thesis unfolding futexPeriodic_def wpR_simps by (rule wpR_mono [OF sleep])
qed

subsection \<open>Life of a thread\<close>

lemma keeps_running:
  assumes "keeps s s'" and "waits_ok s" and "stat s t = Some RUNNING"
  shows "waits_ok s'" and "stat s' t = Some RUNNING"
  using keeps_waits_ok [OF assms(1,2)] wakes_running [OF keeps_wakes [OF assms(1)] assms(3)] by simp_all

lemma place_core_view:
  assumes "(if c \<noteq> INVALID_CORE_ID
            then bindR (getCoreFromID s c) (\<lambda>_. bindR (setCore t (Some c) s) (setCoreState c INITIALIZING))
            else Inr s) = Inr s'"
  shows "same_view s s'"
proof (cases "c = INVALID_CORE_ID")
  case False
  with assms obtain s1 where "setCore t (Some c) s = Inr s1" "setCoreState c INITIALIZING s1 = Inr s'" by auto
  then show ?thesis using setCore_view core_views(1) same_view_trans by blast
qed (use assms in simp)

lemma createThread_ok:
  assumes "waits_ok s"
  shows "wpR (createThread_unlocked env app creator name s) (\<lambda>(t, s'). waits_ok s')"
proof -
  let ?n = "int (length (tm_threads s))"
  have len: "length (tm_thread_state s) = length (tm_threads s)" using assms by (simp add: waits_ok_def blocked_ok_def lens_def)
  define s1 where "s1 = s\<lparr>tm_threads := tm_threads s @ [new_thread app name],
      tm_thread_state := tm_thread_state s
        @ [\<lparr>ts_status = INITIALIZING, ts_stalled_reason = None, ts_waiter = INVALID_THREAD_ID\<rparr>]\<rparr>"
  have ts: "threadState s1 t = (if t = ?n then Inr \<lparr>ts_status = INITIALIZING, ts_stalled_reason = None, ts_waiter = INVALID_THREAD_ID\<rparr>
      else threadState s t)" for t
    using len by (auto simp: s1_def threadState_def atR_def nth_append)
  have none: "threadState s ?n = Inl Out_Of_Range" using len by (simp add: threadState_def atR_def)
  have "waiters s1 = waiters s" "stalled s1 = stalled s"
    using none by (auto simp: waiters_def stalled_def ts mutex_at_def cond_at_def barrier_at_def fun_eq_iff s1_def [symmetric]
        split: place.splits) (auto simp: s1_def)
  moreover have "blocked s1 t = (t \<noteq> ?n \<and> blocked s t)" for t
    by (auto simp: blocked_def s1_def getThreadFromID_def atR_def nth_append new_thread_def)
  moreover have "stat s1 t = (if t = ?n then Some INITIALIZING else stat s t)" for t by (simp add: stat_def ts)
  moreover have "fst (lens s1) = snd (lens s1)" by (simp add: lens_def s1_def len)
  ultimately have 1: "waits_ok s1" using assms(1) by (simp add: waits_ok_def blocked_ok_def)
  show ?thesis
  proof (rule wpR_I)
    fix x assume "createThread_unlocked env app creator name s = Inr x"
    then obtain c s2 s3 s4 where 2: "en_threadCreate env ?n s1 = Inr (c, s2)"
      and 3: "(if c \<noteq> INVALID_CORE_ID
            then bindR (getCoreFromID s2 c) (\<lambda>_. bindR (setCore ?n (Some c) s2) (setCoreState c INITIALIZING))
            else Inr s2) = Inr s3"
      and 4: "en_hooks env (HOOK_THREAD_CREATE ?n creator) s3 = Inr s4" and x: "x = (?n, s4)"
      unfolding createThread_unlocked_def Let_def s1_def [symmetric] by (auto simp del: not_None_eq)
    have "waits_ok s2" using wpR_D [OF creates 2] keeps_waits_ok [OF _ 1] by simp
    then have "waits_ok s3" using same_view_waits_ok [OF place_core_view [OF 3]] by simp
    then show "case x of (t, s') \<Rightarrow> waits_ok s'"
      using wpR_D [OF frame_hooks 4] keeps_waits_ok by (simp add: x frame_hook_def)
  qed
qed

lemma spawnThread_ok:
  assumes "waits_ok s"
  shows "wpR (spawnThread env t app name s) (\<lambda>(n, s'). waits_ok s')"
proof -
  have "waits_ok (s1\<lparr>tm_spawn_list := l\<rparr>) = waits_ok s1" for s1 :: "'a ss_state" and l
    by (rule same_view_waits_ok, rule same_view_threads) simp_all
  then show ?thesis unfolding spawnThread_def wpR_simps
    by (intro wpR_I wpR_mono [OF createThread_ok [OF assms]]) auto
qed

lemma no_joiner: "threadState s t = Inr x \<Longrightarrow> ts_waiter x = INVALID_THREAD_ID \<longleftrightarrow> waiters s (Joining t) = []"
  by (simp add: waiters_def)

lemma joinThread_ok:
  assumes "waits_ok s" and "stat s t = Some RUNNING"
  shows "wpR (joinThread env t j s) (\<lambda>(r, s'). waits_ok s')"
proof (rule wpR_I)
  fix y assume y: "joinThread env t j s = Inr y"
  then obtain x where x: "threadState s j = Inr x" by (auto simp: joinThread_def)
  show "case y of (r, s') \<Rightarrow> waits_ok s'"
  proof (cases "ts_status x = IDLE")
    case False
    with y x obtain time s1 r s2 c where w: "ts_waiter x = INVALID_THREAD_ID" and s1: "set_waiter j t s = Inr s1"
      and s2: "stallThread env t STALL_JOIN time s1 = Inr (r, s2)" and y': "y = (c, s2)"
      by (auto simp: joinThread_def)
    note v = set_waiter_view [OF s1]
    have "t \<noteq> INVALID_THREAD_ID" using assms(2) by (auto simp: stat_def threadState_def atR_def)
    then have "waiters s1 = (waiters s)(Joining j := waiters s (Joining j) @ [t])"
      using no_joiner [OF x] w v(5) by simp
    moreover have "blocked_ok s1" using waits_okD(2) [OF assms(1)] by (simp add: blocked_ok_def v)
    moreover have "place_ok STALL_JOIN (Joining j)" by (simp add: place_ok_def)
    ultimately have "wpR (stallThread env t STALL_JOIN time s1) (\<lambda>(c, s'). waits_ok s')"
      using park_ok [OF assms] v(2) by blast
    from wpR_D [OF this s2] show ?thesis by (simp add: y')
  qed (use y x assms in \<open>auto simp: joinThread_def\<close>)
qed

lemma reschedule_thread_ok:
  assumes "waits_ok s" and "stat s t = Some RUNNING"
  shows "wpR (reschedule_thread env t current time s) (\<lambda>(r, s'). waits_ok s')"
proof -
  have "stalled s t = None" using assms(2) by (simp add: not_stalled)
  then have "waits ((stalled s)(t := Some STALL_UNSCHEDULED)) (waiters s)"
    by (intro waits_stalled_other [OF waits_okD(1) [OF assms(1)]]) (auto simp: queued_stall_def)
  from stallThread_ok [OF this waits_okD(2) [OF assms(1)]]
  have "wpR (stallThread env t STALL_UNSCHEDULED time s) (\<lambda>(c, s'). waits_ok s')" .
  moreover have "waits_ok s1" if "queuePseudoInstruction c i s = Inr s1" for c i s1
    using same_view_waits_ok [OF core_views(2) [OF that]] assms(1) by simp
  ultimately show ?thesis using assms(1)
    by (auto simp: reschedule_thread_def wpR_def split: option.split_asm if_splits)
qed

lemma wakeUpWaiter_ok:
  assumes "waits_ok s"
  shows "wpR (wakeUpWaiter env t time s) (\<lambda>s'. waits_ok s' \<and> wakes s s')"
proof (rule wpR_I)
  fix s' assume r: "wakeUpWaiter env t time s = Inr s'"
  then obtain x where x: "threadState s t = Inr x" by (auto simp: wakeUpWaiter_def)
  let ?w = "ts_waiter x"
  show "waits_ok s' \<and> wakes s s'"
  proof (cases "?w = INVALID_THREAD_ID")
    case False
    with r x obtain s3 where s3: "resumeThread env ?w t time False s = Inr s3" and s': "set_waiter t INVALID_THREAD_ID s3 = Inr s'"
      by (auto simp: wakeUpWaiter_def)
    obtain s2 where k: "keeps s2 s3" and v: "stat s2 = (stat s)(?w := Some RUNNING)" "stalled s2 = (stalled s)(?w := None)"
      "blocked s2 = (blocked s)(?w := False)" "waiters s2 = waiters s" "lens s2 = lens s"
      by (rule resumeThread_keeps [OF s3])
    note W = waits_okD(1) [OF assms]
    have j: "waiters s (Joining t) = [] @ ?w # []" using x False by (simp add: waiters_def)
    then have "\<exists>r. stalled s ?w = Some r" using waitsD(3) [OF W, of ?w "Joining t"] by auto
    then have st: "stat s ?w = Some STALLED" using stalled_stat by blast
    have "blocked_ok s2" using waits_okD(2) [OF assms] st by (auto simp: blocked_ok_def v)
    then have b3: "blocked_ok s3" using k unfolding keeps_def blocked_ok_def by metis
    have "waits (stalled s2) ((waiters s)(Joining t := []))" using waits_wake [OF W j] by (simp add: v)
    then have "waits (stalled s3) ((waiters s)(Joining t := []))"
      by (rule keeps_waits) (use k in \<open>simp add: keeps_def\<close>)
    moreover have "waiters s3 = waiters s" using k v by (simp add: keeps_def)
    ultimately have "waits_ok s'" using b3 by (intro waits_okI) (simp_all add: set_waiter_view [OF s'] blocked_ok_def)
    moreover have "wakes s s3" using keeps_wakes [OF k] st unfolding wakes_def v by (metis fun_upd_apply)
    ultimately show ?thesis by (simp add: wakes_def set_waiter_view [OF s'])
  qed (use r x assms in \<open>simp add: wakeUpWaiter_def\<close>)
qed

lemma set_status_ok:
  assumes "waits_ok s" and "set_status t st s = Inr s'" and "stalled s t = None" and "\<not> blocked s t" and "st \<noteq> STALLED"
  shows "waits_ok s'" and "stat s' = (stat s)(t := Some st)" and "waiters s' = waiters s" and "\<not> blocked s' t"
proof -
  from assms(2,5) obtain x where v: "stat s' = (stat s)(t := Some st)" "stalled s' = (stalled s)(t := None)"
    "blocked s' = blocked s" "waiters s' = waiters s" "lens s' = lens s"
    unfolding set_status_def by (elim set_state_view) simp_all
  then show "stat s' = (stat s)(t := Some st)" "waiters s' = waiters s" "\<not> blocked s' t" using assms(4) by simp_all
  have "stalled s' = stalled s" using v(2) assms(3) by (simp add: fun_upd_idem)
  then show "waits_ok s'" using assms(1,4) by (auto simp: waits_ok_def blocked_ok_def v)
qed

lemma running_not_blocked: "waits_ok s \<Longrightarrow> stat s t \<noteq> Some STALLED \<Longrightarrow> \<not> blocked s t"
  by (auto simp: waits_ok_def blocked_ok_def)

lemma onThreadExit_ok:
  assumes "waits_ok s"
  shows "wpR (onThreadExit env t s) waits_ok"
proof (rule wpR_I)
  fix s' assume "onThreadExit env t s = Inr s'"
  then obtain th c time x s1 s2 s3 s4 s5 where x: "threadState s t = Inr x" "ts_status x = RUNNING"
    and s1: "set_status t IDLE s = Inr s1" and s2: "wakeUpWaiter env t time s1 = Inr s2"
    and s3: "(if th_clear_tid (th :: thread)
              then en_futexWake env t (th_tid_ptr th) time (s2\<lparr>tm_memory := (tm_memory s2)(th_tid_ptr th := 0)\<rparr>)
              else Inr s2) = Inr s3"
    and s4: "setCoreState c IDLE s3 = Inr s4" and s5: "setCore t None s4 = Inr s5"
    and s': "en_hooks env (HOOK_THREAD_EXIT t time) s5 = Inr s'"
    by (auto simp: onThreadExit_def split: option.split_asm)
  have st: "stat s t = Some RUNNING" using x by (simp add: stat_def)
  have "waits_ok s1"
    using set_status_ok(1) [OF assms s1] running_not_blocked [OF assms] st by (simp add: not_stalled)
  then have 2: "waits_ok s2" using wpR_D [OF wakeUpWaiter_ok s2] by simp
  have "waits_ok (s2\<lparr>tm_memory := m\<rparr>)" for m using 2 same_view_waits_ok [OF memory_view] by blast
  note 3 = wpR_D [OF wakes_futex [OF this]]
  have "waits_ok s3"
  proof (cases "th_clear_tid th")
    case True
    with s3 show ?thesis using 3 by simp
  qed (use 2 s3 in simp)
  then have "waits_ok s5"
    using same_view_waits_ok [OF same_view_trans [OF core_views(1) [OF s4] setCore_view [OF s5]]] by simp
  from wpR_D [OF exit_hook [OF this] s'] show "waits_ok s'" by simp
qed

lemma start_on_core_ok:
  assumes "waits_ok s" and "stat s t = Some RUNNING"
  shows "wpR (start_on_core env t c time s) (\<lambda>(r, s'). waits_ok s' \<and> waiters s' = waiters s)"
proof (rule wpR_I)
  fix y assume "start_on_core env t c time s = Inr y"
  then obtain s1 time' s2 s3 s4 where s1: "setCoreState c RUNNING s = Inr s1"
    and s2: "queuePseudoInstruction c (Spawn_Instruction time') s1 = Inr s2" and s3: "set_status t RUNNING s2 = Inr s3"
    and s4: "en_hooks env (HOOK_THREAD_MIGRATE t c time') s3 = Inr s4" and y: "y = (time', s4)"
    by (auto simp: start_on_core_def Let_def)
  note v = same_view_trans [OF core_views(1) [OF s1] core_views(2) [OF s2]]
  note 2 = same_view_running [OF v assms]
  note 3 = set_status_ok [OF 2(1) s3]
  have "waits_ok s3" "waiters s3 = waiters s"
    using 3(1,3) running_not_blocked [OF 2(1)] 2(2) v by (simp_all add: not_stalled same_view_def)
  moreover have "keeps s3 s4" using wpR_D [OF frame_hooks s4] by (simp add: frame_hook_def)
  ultimately show "case y of (r, s') \<Rightarrow> waits_ok s' \<and> waiters s' = waiters s"
    using keeps_waits_ok [of s3 s4] keeps_waiters [of s3 s4] by (simp add: y)
qed

lemma onThreadStart_ok:
  assumes "waits_ok s" and "stat s t = Some INITIALIZING" and "waiters s (Joining t) = []"
  shows "wpR (onThreadStart env t time s) waits_ok"
proof (rule wpR_I)
  fix s' assume "onThreadStart env t time s = Inr s'"
  then obtain s1 s2 th time' s3 x where s1: "set_status t RUNNING s = Inr s1"
    and s2: "en_hooks env (HOOK_THREAD_START t time) s1 = Inr s2"
    and s3: "(case th_core (th :: thread) of
              Some c \<Rightarrow> start_on_core env t c time s2
            | None \<Rightarrow>
                bindR (set_state t (\<lambda>x. x\<lparr>ts_status := STALLED, ts_stalled_reason := Some STALL_UNSCHEDULED\<rparr>) s2)
                  (\<lambda>s3. Inr (time, s3))) = Inr (time', s3)"
    and x: "threadState s3 t = Inr x"
    and s': "(if ts_waiter x \<noteq> INVALID_THREAD_ID
      then bindR (thread_signal (ts_waiter x) time' False s3) (set_waiter t INVALID_THREAD_ID) else Inr s3) = Inr s'"
    by (auto simp: onThreadStart_def simp del: not_None_eq)
  have nb: "\<not> blocked s t" "stalled s t = None" using running_not_blocked [OF assms(1)] assms(2) by (simp_all add: not_stalled)
  note 1 = set_status_ok [OF assms(1) s1 nb(2,1)]
  have k: "keeps s1 s2" using wpR_D [OF frame_hooks s2] by (simp add: frame_hook_def)
  have 2: "waits_ok s2" "stat s2 t = Some RUNNING" using keeps_running [OF k, of t] 1 by simp_all
  have w2: "waiters s2 = waiters s" using k 1(3) by (simp add: keeps_def)
  have 3: "waits_ok s3 \<and> waiters s3 = waiters s2"
  proof (cases "th_core th")
    case None
    with s3 have s3': "set_state t (\<lambda>x. x\<lparr>ts_status := STALLED, ts_stalled_reason := Some STALL_UNSCHEDULED\<rparr>) s2 = Inr s3" by auto
    then obtain z where v: "stat s3 = (stat s2)(t := Some STALLED)" "stalled s3 = (stalled s2)(t := Some STALL_UNSCHEDULED)"
      "blocked s3 = blocked s2" "waiters s3 = waiters s2" "lens s3 = lens s2"
      by (elim set_state_view) simp_all
    have "waits ((stalled s2)(t := Some STALL_UNSCHEDULED)) (waiters s2)"
      using 2(2) by (intro waits_stalled_other [OF waits_okD(1) [OF 2(1)]]) (auto simp: not_stalled queued_stall_def)
    then show ?thesis using waits_okD(2) [OF 2(1)] by (auto simp: waits_ok_def blocked_ok_def v)
  qed (use s3 wpR_D [OF start_on_core_ok [OF 2]] in auto)
  have "ts_waiter x = INVALID_THREAD_ID" using no_joiner [OF x] 3 w2 assms(3) by simp
  with s' 3 show "waits_ok s'" by simp
qed

lemma resume_unscheduled_keeps:
  assumes "stalled s t = Some STALL_UNSCHEDULED"
  shows "wpR (resumeThread env t by time msg s) (keeps s)"
proof (rule wpR_I)
  fix s' assume r: "resumeThread env t by time msg s = Inr s'"
  obtain s2 where k: "keeps s2 s'" and v: "stat s2 = (stat s)(t := Some RUNNING)" "stalled s2 = (stalled s)(t := None)"
    "blocked s2 = (blocked s)(t := False)" "waiters s2 = waiters s" "lens s2 = lens s"
    by (rule resumeThread_keeps [OF r])
  have "length (ss_barriers s2) = length (ss_barriers s)" using resumeThread_barriers [OF r] k by (simp add: keeps_def)
  then have "keeps s s2" using assms stalled_stat [OF assms] by (auto simp: keeps_def v)
  then show "keeps s s'" using k by (rule keeps_trans)
qed

lemma put_on_core_keeps: "wpR (put_on_core t c s) (keeps s)"
  unfolding put_on_core_def
  by (auto simp: wpR_def split: if_splits dest!: core_views(1) setCore_view same_view_keeps intro: keeps_trans)

lemma wake_unscheduled_keeps: "wpR (wake_unscheduled env t b time s) (keeps s)"
  unfolding wake_unscheduled_def wpR_simps
proof (rule wpR_I)
  fix x assume "threadState s t = Inr x"
  then show "wpR (if b \<and> ts_status x = STALLED \<and> ts_stalled_reason x = Some STALL_UNSCHEDULED
    then resumeThread env t INVALID_THREAD_ID time False s else Inr s) (keeps s)"
    using resume_unscheduled_keeps [of s t] by (simp add: stalled_def)
qed

lemma moveThread_keeps: "wpR (moveThread env t c time s) (keeps s)"
proof -
  have step: "wpR m (keeps s)" if "wpR m (keeps s1)" "keeps s s1" for m s1
    by (rule wpR_mono [OF that(1)]) (rule keeps_trans [OF that(2)])
  have hook: "wpR (en_hooks env (HOOK_THREAD_MIGRATE t c time) s2) (keeps s2)" for s2
    by (rule frame_hooks) (simp add: frame_hook_def)
  have first: "wpR (case th_core th of None \<Rightarrow> Inr s | Some c \<Rightarrow> setCoreState c IDLE s) (keeps s)" for th :: thread
    by (auto simp: wpR_def split: option.split_asm dest!: core_views(1) same_view_keeps)
  have mid: "wpR (if c = INVALID_CORE_ID then setCore t None s1
    else bindR (wake_unscheduled env t b time s1) (put_on_core t c)) (keeps s)" if "keeps s s1" for s1 b
  proof -
    have "wpR (put_on_core t c s2) (keeps s)" if "keeps s s2" for s2 by (rule step [OF put_on_core_keeps that])
    then have "wpR (bindR (wake_unscheduled env t b time s1) (put_on_core t c)) (keeps s)"
      unfolding wpR_simps by (intro wpR_mono [OF step [OF wake_unscheduled_keeps that]])
    moreover have "wpR (setCore t None s1) (keeps s)"
      by (rule step [OF _ that]) (auto simp: wpR_def dest: setCore_view same_view_keeps)
    ultimately show ?thesis by simp
  qed
  show ?thesis
    unfolding moveThread_def wpR_simps(3)
    by (rule wpR_I, rule wpR_mono [OF first], rule wpR_mono [OF mid], assumption, rule step [OF hook])
qed

end

end
