(* ===== verification/Thread_System.thy ===== *)
theory Thread_System
  imports Clock_Barrier Thread_Waits
begin

text \<open>
  The thread manager, the servers and the clock barrier together, with the scheduler of
  \<^verbatim>\<open>common/scheduler/scheduler_static.cc\<close>. This scheduler registers no callback, so the
  callbacks of the hooks are those of the clock barrier (a thread stalls, exits or moves) and of the
  futex server (the barrier is reached), and none of them leads to another stall: the environments
  below are nested, not recursive. Runs are sequences of calls of running threads, of starts of
  threads, and of changes of clocks and memory, in any order.
\<close>

section \<open>The static scheduler\<close>

definition findFirstFreeMaskedCore :: "bool list \<Rightarrow> 'a thread_manager_scheme \<Rightarrow> core_id" where
  "findFirstFreeMaskedCore core_mask s =
     (case first_idx (\<lambda>c. core_mask ! c \<and> co_state (tm_cores s ! c) = IDLE) (length (tm_cores s)) of
        None \<Rightarrow> INVALID_CORE_ID | Some c \<Rightarrow> int c)"

definition static_threadCreate ::
  "bool list \<Rightarrow> thread_id \<Rightarrow> 'a thread_manager_scheme \<Rightarrow> (core_id \<times> 'a thread_manager_scheme) result" where
  "static_threadCreate core_mask tid s =
     (let c = findFirstFreeMaskedCore core_mask s in
      bindR (assertR (c \<noteq> INVALID_CORE_ID)) (\<lambda>_.
      bindR (getThreadFromID s tid) (\<lambda>_. Inr (c, s))))"

section \<open>The callbacks\<close>

definition quiet_env :: "(thread_id \<Rightarrow> intptr \<Rightarrow> intptr) \<Rightarrow> nat \<Rightarrow> 'a bs_env" where
  "quiet_env va2pa rounds =
     \<lparr>en_hooks = \<lambda>h s. Inr s, en_threadCreate = \<lambda>t s. Inr (INVALID_CORE_ID, s), en_advance = Inr, en_rounds = rounds,
      en_va2pa = va2pa, en_futexWake = \<lambda>t u time s. Inr s\<rparr>"

definition periodic_env :: "(thread_id \<Rightarrow> intptr \<Rightarrow> intptr) \<Rightarrow> nat \<Rightarrow> 'a bs_env" where
  "periodic_env va2pa rounds =
     (quiet_env va2pa rounds)\<lparr>en_hooks := \<lambda>h s. case h of
        HOOK_PERIODIC time \<Rightarrow> futexPeriodic (quiet_env va2pa rounds) time s
      | _ \<Rightarrow> Inr s\<rparr>"

definition static_env :: "bool list \<Rightarrow> (thread_id \<Rightarrow> intptr \<Rightarrow> intptr) \<Rightarrow> nat \<Rightarrow> 'a bs_env" where
  "static_env core_mask va2pa rounds =
     \<lparr>en_hooks = \<lambda>h s. case h of
        HOOK_THREAD_STALL t reason time \<Rightarrow> barrier_threadStall (periodic_env va2pa rounds) t s
      | HOOK_THREAD_EXIT t time \<Rightarrow> barrier_threadExit (periodic_env va2pa rounds) t s
      | HOOK_THREAD_MIGRATE t c time \<Rightarrow> Inr (barrier_threadMigrate t s)
      | HOOK_PERIODIC time \<Rightarrow> futexPeriodic (quiet_env va2pa rounds) time s
      | _ \<Rightarrow> Inr s,
      en_threadCreate = static_threadCreate core_mask, en_advance = advance (periodic_env va2pa rounds),
      en_rounds = rounds, en_va2pa = va2pa, en_futexWake = exit_futexWake (quiet_env va2pa rounds)\<rparr>"

section \<open>Runs\<close>

datatype thread_call =
    Mutex_Init intptr
  | Mutex_Lock intptr bool subsecond
  | Mutex_Unlock intptr subsecond
  | Cond_Init intptr
  | Cond_Wait intptr intptr subsecond
  | Cond_Signal intptr subsecond
  | Cond_Broadcast intptr subsecond
  | Barrier_Init u32
  | Barrier_Wait nat subsecond
  | Sleep_Call subsecond subsecond
  | Futex_Call futex_args subsecond
  | Join_Thread thread_id
  | Spawn_Thread int string
  | Reschedule "core_id option" subsecond
  | Synchronize core_id subsecond
  | Exit_Thread

definition exec_call :: "'a bs_env \<Rightarrow> u64 \<Rightarrow> thread_id \<Rightarrow> thread_call \<Rightarrow> 'a bs_state \<Rightarrow> 'a bs_state result" where
  "exec_call env time_start t call s =
     (case call of
        Mutex_Init m \<Rightarrow> mutexInit m s
      | Mutex_Lock m tryLock time \<Rightarrow> bindR (mutexLock env t m tryLock time s) (\<lambda>(_, s'). Inr s')
      | Mutex_Unlock m time \<Rightarrow> bindR (mutexUnlock env t m time s) (\<lambda>(_, s'). Inr s')
      | Cond_Init c \<Rightarrow> condInit c s
      | Cond_Wait c m time \<Rightarrow> bindR (condWait env t c m time s) (\<lambda>(_, s'). Inr s')
      | Cond_Signal c time \<Rightarrow> bindR (condSignal env t c time s) (\<lambda>(_, s'). Inr s')
      | Cond_Broadcast c time \<Rightarrow> bindR (condBroadcast env t c time s) (\<lambda>(_, s'). Inr s')
      | Barrier_Init count \<Rightarrow> Inr (snd (barrierInit count s))
      | Barrier_Wait b time \<Rightarrow> bindR (barrierWait env t b time s) (\<lambda>(_, s'). Inr s')
      | Sleep_Call wake_time time \<Rightarrow> bindR (handleSleepCall env t wake_time time s) (\<lambda>(_, s'). Inr s')
      | Futex_Call args time \<Rightarrow> bindR (handleFutexCall env time_start t args time s) (\<lambda>(_, s'). Inr s')
      | Join_Thread j \<Rightarrow> bindR (joinThread env t j s) (\<lambda>(_, s'). Inr s')
      | Spawn_Thread app name \<Rightarrow> bindR (spawnThread env t app name s) (\<lambda>(_, s'). Inr s')
      | Reschedule current time \<Rightarrow> bindR (reschedule_thread env t current time s) (\<lambda>(_, s'). Inr s')
      | Synchronize c time \<Rightarrow> bindR (synchronize env c time s) (\<lambda>(_, s'). Inr s')
      | Exit_Thread \<Rightarrow> onThreadExit env t s)"

text \<open>
  Calls come from threads in state \<open>RUNNING\<close>; a thread starts when the frontend has created its host
  thread. A thread that is joined before it has started is woken by its start, see
  \<open>join_before_start\<close> below, so such starts are left out of the runs.
\<close>

datatype thread_event =
    Call thread_id thread_call
  | Create_Thread int string
  | Start_Thread thread_id subsecond
  | Core_Progress core_id subsecond u64
  | Memory_Write intptr u32
  | Set_Disable bool
  | Set_Group core_id core_id
  | Set_Fast_Forward bool subsecond

definition event_possible :: "thread_event \<Rightarrow> 'a bs_state \<Rightarrow> bool" where
  "event_possible e s =
     (case e of
        Call t call \<Rightarrow> stat s t = Some RUNNING
      | Start_Thread t time \<Rightarrow> stat s t = Some INITIALIZING \<and> waiters s (Joining t) = []
      | _ \<Rightarrow> True)"

definition exec_event :: "'a bs_env \<Rightarrow> u64 \<Rightarrow> thread_event \<Rightarrow> 'a bs_state \<Rightarrow> 'a bs_state result" where
  "exec_event env time_start e s =
     (case e of
        Call t call \<Rightarrow> exec_call env time_start t call s
      | Create_Thread app name \<Rightarrow> bindR (createThread_unlocked env app INVALID_THREAD_ID name s) (\<lambda>(_, s'). Inr s')
      | Start_Thread t time \<Rightarrow> onThreadStart env t time s
      | Core_Progress c time n \<Rightarrow>
          Inr (s\<lparr>tm_cores := upd_at c (\<lambda>k. k\<lparr>co_elapsed_time := time, co_instruction_count := n\<rparr>) (tm_cores s)\<rparr>)
      | Memory_Write a v \<Rightarrow> Inr (s\<lparr>tm_memory := (tm_memory s)(a := v)\<rparr>)
      | Set_Disable b \<Rightarrow> Inr (setDisable b s)
      | Set_Group c master \<Rightarrow> setGroup c master s
      | Set_Fast_Forward b time \<Rightarrow> Inr (setFastForward b time s))"

text \<open>Events that are not possible do not happen.\<close>

primrec sys_run :: "'a bs_env \<Rightarrow> u64 \<Rightarrow> thread_event list \<Rightarrow> 'a bs_state \<Rightarrow> 'a bs_state result" where
  "sys_run env time_start [] s = Inr s"
| "sys_run env time_start (e # es) s =
     (if event_possible e s then bindR (exec_event env time_start e s) (sys_run env time_start es)
      else sys_run env time_start es s)"

definition initial_core :: core where
  "initial_core = \<lparr>co_state = IDLE, co_thread = None, co_elapsed_time = 0, co_instruction_count = 0, co_pseudo = []\<rparr>"

definition initial_system :: "nat \<Rightarrow> u64 \<Rightarrow> nat \<Rightarrow> (core_id list \<Rightarrow> core_id list) \<Rightarrow> subsecond \<Rightarrow> (intptr \<Rightarrow> u32) \<Rightarrow> barrier_server" where
  "initial_system cores quantum host_cores shuffle reschedule_cost mem =
     BarrierSyncServer quantum host_cores shuffle
       \<lparr>tm_threads = [], tm_thread_state = [], tm_spawn_list = [], tm_cores = replicate cores initial_core, tm_memory = mem,
        sv_reschedule_cost = reschedule_cost, sv_sleeping = [], sv_futexes = \<lambda>_. [], sv_futex_order = [],
        ss_mutexes = \<lambda>_. None, ss_conds = \<lambda>_. None, ss_barriers = [], ss_reschedule_cost = reschedule_cost,
        bs_barrier_interval = 0, bs_next_barrier_time = 0, bs_local_clock_list = [], bs_barrier_acquire_list = [],
        bs_core_waiting = [], bs_to_release = [], bs_core_group = [], bs_core_thread = [], bs_global_time = 0,
        bs_fastforward = False, bs_disable = False, bs_num_host_cores = 0, bs_shuffle = shuffle\<rparr>"

section \<open>The clock barrier leaves the threads alone\<close>

definition same_threads :: "'a bs_state \<Rightarrow> 'a bs_state \<Rightarrow> bool" where
  "same_threads s s' \<longleftrightarrow>
     tm_threads s' = tm_threads s \<and> tm_thread_state s' = tm_thread_state s \<and> tm_cores s' = tm_cores s \<and>
     ss_mutexes s' = ss_mutexes s \<and> ss_conds s' = ss_conds s \<and> ss_barriers s' = ss_barriers s \<and>
     sv_futexes s' = sv_futexes s \<and> sv_sleeping s' = sv_sleeping s \<and> sv_futex_order s' = sv_futex_order s"

lemma same_threads_refl [simp]: "same_threads s s"
  by (simp add: same_threads_def)

lemma same_threads_trans: "same_threads s s' \<Longrightarrow> same_threads s' s'' \<Longrightarrow> same_threads s s''"
  by (simp add: same_threads_def)

lemma same_threads_view: "same_threads s s' \<Longrightarrow> same_view s s'"
  by (rule same_view_threads) (simp_all add: same_threads_def)

lemma fold_signal_core: "same_threads s (fold signal_core cs s)"
  by (induction cs arbitrary: s)
    (auto simp: same_threads_def signal_core_def)

lemma doRelease_threads [simp]: "same_threads s (doRelease n s)"
  unfolding doRelease_def Let_def by (rule same_threads_trans [OF _ fold_signal_core]) (simp add: same_threads_def)

lemma release_clocks_threads [simp]: "same_threads s (release_clocks t cs s)"
  by (induction cs arbitrary: s) (auto simp: same_threads_def)

lemma releaseThread_threads [simp]: "same_threads s (releaseThread t s)"
  unfolding releaseThread_def by (rule same_threads_trans [OF release_clocks_threads doRelease_threads])

lemma release_cores_threads: "same_threads s (snd (release_cores caller cs flags s))"
  by (induction cs arbitrary: s flags) (auto simp: same_threads_def Let_def)

lemma abort_cores_threads: "same_threads s (abort_cores cs s)"
  by (induction cs arbitrary: s) (auto simp: same_threads_def signal_core_def)

section \<open>The environments keep the contract\<close>

interpretation quiet: thread_environment "quiet_env va2pa rounds" for va2pa rounds
  by unfold_locales (simp_all add: quiet_env_def)

lemma keeps_threads: "same_threads s s' \<Longrightarrow> keeps s s'"
  by (rule same_view_keeps [OF same_threads_view])

lemma wakes_threads: "same_threads s s1 \<Longrightarrow> wakes s1 s' = wakes s s'"
  using same_threads_view [of s s1] by (simp add: wakes_def same_view_def)

lemma waits_ok_threads: "same_threads s s' \<Longrightarrow> waits_ok s' = waits_ok s"
  by (rule same_view_waits_ok [OF same_threads_view])

text \<open>A change of clocks before a call that keeps the invariant, and one after it.\<close>

lemma after_threads:
  assumes "wpR m (\<lambda>s'. waits_ok s' \<and> wakes s1 s')" and "same_threads s s1"
  shows "wpR m (\<lambda>s'. waits_ok s' \<and> wakes s s')"
  using assms(1) unfolding wakes_threads [OF assms(2)] .

lemma threads_after:
  "waits_ok s1 \<and> wakes s s1 \<Longrightarrow> same_threads s1 s2 \<Longrightarrow> waits_ok s2 \<and> wakes s s2"
  using waits_ok_threads [of s1 s2] keeps_wakes [OF keeps_threads] wakes_trans by blast

locale periodic_environment =
  fixes env :: "'a bs_env"
  assumes periodic_hook: "waits_ok s \<Longrightarrow> wpR (en_hooks env (HOOK_PERIODIC time) s) (\<lambda>s'. waits_ok s' \<and> wakes s s')"
begin

lemma release_loop_ok:
  "waits_ok s \<Longrightarrow> wpR (release_loop env caller continue n must_wait s) (\<lambda>(b, s'). waits_ok s' \<and> wakes s s')"
proof (induction n arbitrary: s must_wait)
  case (Suc n)
  let ?s = "s\<lparr>bs_global_time := bs_next_barrier_time s\<rparr>"
  have "same_threads s ?s" by (simp add: same_threads_def)
  then have hook: "wpR (en_hooks env (HOOK_PERIODIC (bs_next_barrier_time s)) ?s) (\<lambda>s'. waits_ok s' \<and> wakes s s')"
    using Suc.prems waits_ok_threads [of s ?s]
    by (intro after_threads [where s = s and ?s1.0 = ?s]) (simp_all add: periodic_hook)
  have rest: "wpR (let s2 = s1\<lparr>bs_next_barrier_time := bs_next_barrier_time s1 + bs_barrier_interval s1\<rparr>;
             ((resumed, wait'), s3) = release_cores caller (core_ids s2) (False, must_wait) s2
         in if resumed
            then Inr (wait', doRelease (if bs_fastforward s3 then -1 else int (bs_num_host_cores s3))
                               (s3\<lparr>bs_to_release := bs_shuffle s3 (bs_to_release s3)\<rparr>))
            else release_loop env caller continue n wait' s3) (\<lambda>(b, s'). waits_ok s' \<and> wakes s s')"
    if 1: "waits_ok s1 \<and> wakes s s1" for s1
  proof -
    define s2 where "s2 = s1\<lparr>bs_next_barrier_time := bs_next_barrier_time s1 + bs_barrier_interval s1\<rparr>"
    obtain resumed wait' s3 where s3: "release_cores caller (core_ids s2) (False, must_wait) s2 = ((resumed, wait'), s3)"
      by (metis surj_pair)
    have "same_threads s1 s2" by (simp add: s2_def same_threads_def)
    moreover have "same_threads s2 s3" using release_cores_threads [of s2 caller "core_ids s2" "(False, must_wait)"] s3 by simp
    ultimately have 3: "waits_ok s3 \<and> wakes s s3" using threads_after [OF threads_after [OF 1]] by blast
    have "same_threads s3 (s3\<lparr>bs_to_release := l\<rparr>)" for l by (simp add: same_threads_def)
    then have fin: "waits_ok (doRelease k (s3\<lparr>bs_to_release := l\<rparr>)) \<and> wakes s (doRelease k (s3\<lparr>bs_to_release := l\<rparr>))" for k l
      using threads_after [OF threads_after [OF 3]] doRelease_threads by blast
    have "wpR (release_loop env caller continue n wait' s3) (\<lambda>(b, s'). waits_ok s' \<and> wakes s s')"
      using 3 by (intro wpR_mono [OF Suc.IH]) (auto intro: wakes_trans)
    then show ?thesis using fin by (simp add: s2_def [symmetric] s3 Let_def)
  qed
  show ?case
    unfolding release_loop.simps wpR_simps(3)
  proof (rule wpR_mono [OF hook])
    fix s1 assume 1: "waits_ok s1 \<and> wakes s s1"
    show "wpR (if continue \<and> anyThreadRunning s1 then Inr (False, s1)
      else bindR (assertR (continue \<longrightarrow> getNextTimeout s1 < ST_MaxTime)) (\<lambda>_.
       if bs_disable s1 then Inr (False, s1)
       else let s2 = s1\<lparr>bs_next_barrier_time := bs_next_barrier_time s1 + bs_barrier_interval s1\<rparr>;
             ((resumed, wait'), s3) = release_cores caller (core_ids s2) (False, must_wait) s2
         in if resumed
            then Inr (wait', doRelease (if bs_fastforward s3 then -1 else int (bs_num_host_cores s3))
                               (s3\<lparr>bs_to_release := bs_shuffle s3 (bs_to_release s3)\<rparr>))
            else release_loop env caller continue n wait' s3)) (\<lambda>(b, s'). waits_ok s' \<and> wakes s s')"
      using rest [OF 1] 1 by simp
  qed
qed simp

lemma barrierRelease_ok:
  assumes "waits_ok s"
  shows "wpR (barrierRelease env caller continue s) (\<lambda>(b, s'). waits_ok s' \<and> wakes s s')"
proof -
  have "same_threads s (skip_to_clocks s)" by (simp add: skip_to_clocks_def same_threads_def)
  with release_loop_ok [of "skip_to_clocks s"] assms waits_ok_threads [of s "skip_to_clocks s"] wakes_threads [of s "skip_to_clocks s"]
  show ?thesis by (simp add: barrierRelease_def)
qed

lemma barrier_signal_ok:
  assumes "waits_ok s"
  shows "wpR (barrier_signal env s) (\<lambda>s'. waits_ok s' \<and> wakes s s')"
  using barrierRelease_ok [OF assms] assms
  by (auto simp: barrier_signal_def wpR_def)

lemma barrier_hook_ok:
  assumes "waits_ok s"
  shows "wpR (barrier_signal env (releaseThread t s)) (\<lambda>s'. waits_ok s' \<and> wakes s s')"
  by (rule after_threads [OF barrier_signal_ok releaseThread_threads])
    (simp add: waits_ok_threads [OF releaseThread_threads] assms)

lemma synchronize_ok:
  assumes "waits_ok s"
  shows "wpR (synchronize env c time s) (\<lambda>(r, s'). waits_ok s')"
proof -
  have enter: "waits_ok (enter_barrier m me time (doRelease 1 s))" for m me
  proof -
    have "same_threads (doRelease 1 s) (enter_barrier m me time (doRelease 1 s))" by (simp add: enter_barrier_def same_threads_def)
    with doRelease_threads have "same_threads s (enter_barrier m me time (doRelease 1 s))" by (rule same_threads_trans)
    then show ?thesis using assms waits_ok_threads by blast
  qed
  have "waits_ok (s'\<lparr>bs_core_waiting := l\<rparr>) = waits_ok s'" for s' l
    by (rule waits_ok_threads) (simp add: same_threads_def)
  then have "wpR (wait_at_barrier env m me time s1) (\<lambda>(r, s'). waits_ok s')" if "waits_ok s1" for m me s1
    using barrierRelease_ok [OF that, of me False] that by (auto simp: wait_at_barrier_def wpR_def)
  with enter assms show ?thesis
    by (auto simp: synchronize_def Let_def wpR_def [where Q = "\<lambda>x. True"] intro!: wpR_I [THEN wpR_simps(3) [THEN iffD2]] split: option.split)
qed

end

interpretation periodic: periodic_environment "periodic_env va2pa rounds" for va2pa rounds
  by unfold_locales (simp add: periodic_env_def quiet.futexPeriodic_ok)

interpretation static_clock: periodic_environment "static_env core_mask va2pa rounds" for core_mask va2pa rounds
  by unfold_locales (simp add: static_env_def quiet.futexPeriodic_ok)

interpretation static: thread_environment "static_env core_mask va2pa rounds" for core_mask va2pa rounds
proof unfold_locales
  fix s :: "'a bs_state" and h t r time u
  show "frame_hook h \<Longrightarrow> wpR (en_hooks (static_env core_mask va2pa rounds) h s) (keeps s)"
    by (auto simp: static_env_def frame_hook_def barrier_threadMigrate_def keeps_threads split: hook.split)
  show "waits_ok s \<Longrightarrow> wpR (en_hooks (static_env core_mask va2pa rounds) (HOOK_THREAD_STALL t r time) s) (\<lambda>s'. waits_ok s' \<and> wakes s s')"
    "waits_ok s \<Longrightarrow> wpR (en_hooks (static_env core_mask va2pa rounds) (HOOK_THREAD_EXIT t time) s) (\<lambda>s'. waits_ok s' \<and> wakes s s')"
    by (simp_all add: static_env_def barrier_threadStall_def barrier_threadExit_def periodic.barrier_hook_ok)
  show "waits_ok s \<Longrightarrow> wpR (en_advance (static_env core_mask va2pa rounds) s) (\<lambda>s'. waits_ok s' \<and> wakes s s')"
    using periodic.barrierRelease_ok [of s] by (simp add: static_env_def advance_def)
  show "wpR (en_threadCreate (static_env core_mask va2pa rounds) t s) (\<lambda>(c, s'). keeps s s')"
    by (auto simp: static_env_def static_threadCreate_def Let_def wpR_def)
  show "waits_ok s \<Longrightarrow> wpR (en_futexWake (static_env core_mask va2pa rounds) t u time s) (\<lambda>s'. waits_ok s' \<and> wakes s s')"
    using quiet.futexWake_ok [of s] by (simp add: static_env_def exit_futexWake_def)
qed

section \<open>Every run keeps the invariant\<close>

lemma exec_call_ok:
  assumes "waits_ok s" and "stat s t = Some RUNNING"
  shows "wpR (exec_call (static_env core_mask va2pa rounds) time_start t call s) waits_ok"
proof -
  have view: "wpR (mutexInit m s) waits_ok" "wpR (condInit m s) waits_ok" for m
    using getMutex_view [of m True s] getCond_view [of m True s] same_view_waits_ok assms(1)
    unfolding mutexInit_def condInit_def wpR_def by blast+
  note ok = static.mutexLock_ok [OF assms] static.mutexUnlock_ok [OF assms] static.condWait_ok [OF assms]
    static.condSignal_ok [OF assms(1)] static.condBroadcast_ok [OF assms(1)] barrierInit_ok [OF assms(1)]
    static.barrierWait_ok [OF assms] static.handleSleepCall_ok [OF assms] static.handleFutexCall_ok [OF assms]
    static.joinThread_ok [OF assms] static.spawnThread_ok [OF assms(1)] static.reschedule_thread_ok [OF assms]
    static_clock.synchronize_ok [OF assms(1)] static.onThreadExit_ok [OF assms(1)]
  show ?thesis by (cases call) (simp_all add: exec_call_def view ok)
qed

lemma exec_event_ok:
  assumes "waits_ok s" and "event_possible e s"
  shows "wpR (exec_event (static_env core_mask va2pa rounds) time_start e s) waits_ok"
proof -
  have view: "waits_ok s'" if "same_threads s s'" for s' using waits_ok_threads [OF that] assms(1) by simp
  have "same_view s (s\<lparr>tm_cores := cs\<rparr>)" "same_view s (s\<lparr>tm_memory := mem\<rparr>)" for cs mem
    by (rule same_view_threads; simp)+
  then have core: "waits_ok (s\<lparr>tm_cores := cs\<rparr>)" "waits_ok (s\<lparr>tm_memory := mem\<rparr>)" for cs mem
    using assms(1) same_view_waits_ok by blast+
  have disable: "same_threads s (setDisable b s)" for b
  proof -
    have "same_threads s (s\<lparr>bs_disable := b\<rparr>)" by (simp add: same_threads_def)
    then show ?thesis using same_threads_trans [OF _ abort_cores_threads] by (cases b) (simp_all add: setDisable_def abortBarrier_def Let_def)
  qed
  have group: "wpR (setGroup c m s) waits_ok" for c m
    by (auto simp: setGroup_def wpR_def intro!: view) (auto simp: same_threads_def)
  have ff: "same_threads s (setFastForward b t s)" for b t
    by (simp add: setFastForward_def same_threads_def Let_def)
  show ?thesis
    using assms(2) exec_call_ok [OF assms(1)] static.createThread_ok [OF assms(1)] static.onThreadStart_ok [OF assms(1)]
    by (cases e) (simp_all add: exec_event_def event_possible_def core view disable group ff)
qed

lemma sys_run_ok: "waits_ok s \<Longrightarrow> wpR (sys_run (static_env core_mask va2pa rounds) time_start es s) waits_ok"
proof (induction es arbitrary: s)
  case (Cons e es)
  have "wpR (exec_event (static_env core_mask va2pa rounds) time_start e s)
      (\<lambda>s1. wpR (sys_run (static_env core_mask va2pa rounds) time_start es s1) waits_ok)" if "event_possible e s"
    by (rule wpR_mono [OF exec_event_ok [OF Cons.prems that]]) (rule Cons.IH)
  with Cons show ?case by simp
qed simp

lemma initial_waits_ok: "waits_ok (initial_system cores quantum host_cores shuffle cost mem)"
  by (simp add: waits_ok_def waits_def blocked_ok_def lens_def initial_system_def BarrierSyncServer_def stalled_def
      waiters_def blocked_def threadState_def getThreadFromID_def atR_def mutex_at_def SimMutex_def cond_at_def Let_def
      split: place.split)


definition demo_threads :: "thread_event list" where
  "demo_threads =
     [Create_Thread 0 ''a'', Create_Thread 0 ''a'', Start_Thread 0 0, Start_Thread 1 0,
      Call 0 (Mutex_Lock 64 False 0), Call 1 (Mutex_Lock 64 False 5)]"

definition demo_system :: barrier_server where
  "demo_system = initial_system 2 100 4 id 0 (\<lambda>_. 0)"

lemma demo_threads_run:
  "case sys_run (static_env [True, True] (\<lambda>t a. a) 10) 0 demo_threads demo_system of
     Inl _ \<Rightarrow> False
   | Inr s \<Rightarrow> stalled s 1 = Some STALL_MUTEX \<and> waiters s (At_Mutex 64) = [1] \<and> stat s 0 = Some RUNNING \<and> blocked s 1"
  by code_simp


section \<open>Sleeping threads are woken\<close>

lemma anyThreadRunning_stat: "anyThreadRunning s \<longleftrightarrow> (\<exists>t. stat s t = Some RUNNING \<or> stat s t = Some INITIALIZING)"
proof
  assume "anyThreadRunning s"
  then obtain i where i: "i < length (tm_thread_state s)"
    "ts_status (tm_thread_state s ! i) = RUNNING \<or> ts_status (tm_thread_state s ! i) = INITIALIZING"
    by (auto simp: anyThreadRunning_def list_ex_length)
  then have "stat s (int i) = Some (ts_status (tm_thread_state s ! i))" by (simp add: stat_def threadState_def atR_def)
  with i(2) show "\<exists>t. stat s t = Some RUNNING \<or> stat s t = Some INITIALIZING" by metis
next
  assume "\<exists>t. stat s t = Some RUNNING \<or> stat s t = Some INITIALIZING"
  then show "anyThreadRunning s"
    by (auto simp: stat_def threadState_def atR_def anyThreadRunning_def list_ex_length split: sum.splits if_splits)
qed

lemma wakes_any: "wakes s s' \<Longrightarrow> anyThreadRunning s \<Longrightarrow> anyThreadRunning s'"
  unfolding anyThreadRunning_stat wakes_def by (metis option.inject core_state.distinct(11))

lemma quiet_resume:
  assumes "stat s t \<noteq> None" and "fst (lens s) = snd (lens s)"
  shows "\<exists>s'. resumeThread (quiet_env va2pa rounds) t by time msg s = Inr s' \<and> anyThreadRunning s'"
proof -
  from assms have t: "0 \<le> t" "nat t < length (tm_thread_state s)" "length (tm_threads s) = length (tm_thread_state s)"
    by (auto simp: stat_def threadState_def atR_def lens_def split: if_splits)
  then obtain s' where s': "resumeThread (quiet_env va2pa rounds) t by time msg s = Inr s'"
    by (simp add: resumeThread_def resumeThread_async_def thread_signal_def set_thread_def getThreadFromID_def atR_def
        set_status_def set_state_def threadState_def quiet_env_def)
  obtain s2 where "keeps s2 s'" "stat s2 = (stat s)(t := Some RUNNING)" by (rule quiet.resumeThread_keeps [OF s'])
  then have "anyThreadRunning s'" using wakes_any [OF keeps_wakes] by (fastforce simp: anyThreadRunning_stat)
  with s' show ?thesis by blast
qed

lemma waiter_known: "waits_ok s \<Longrightarrow> t \<in> set (waiters s p) \<Longrightarrow> stat s t \<noteq> None"
  using waitsD(3) [OF waits_okD(1)] stalled_stat by fastforce

text \<open>Either nothing is timed out, and nothing changes, or a thread runs afterwards.\<close>

lemma wakeTimedOut_returns:
  assumes "waits_ok s"
  shows "\<exists>s'. wakeTimedOut (quiet_env va2pa rounds) time a s = Inr s' \<and> (s' = s \<or> anyThreadRunning s')"
proof (cases "take_waiter (\<lambda>w. wt_timeout w \<le> time) (sv_futexes s a)")
  case (Some wr)
  obtain w rest where wr: "wr = (w, rest)" by (cases wr)
  with Some have "w \<in> set (sv_futexes s a)" by (auto elim: take_waiter_Some)
  then have "wt_thread_id w \<in> set (waiters s (At_Futex a))" by (simp add: waiters_def)
  from waiter_known [OF assms this] waits_okD(2) [OF assms]
  have "\<exists>s'. resumeThread (quiet_env va2pa rounds) (wt_thread_id w) INVALID_THREAD_ID time False (set_futex a rest s) = Inr s'
    \<and> anyThreadRunning s'"
    by (intro quiet_resume) (simp_all add: blocked_ok_def)
  with Some wr show ?thesis by (auto simp: wakeTimedOut_def)
qed (simp add: wakeTimedOut_def)

lemma wake_sleeping_returns:
  assumes "waits_ok s"
  shows "\<exists>s'. wake_sleeping (quiet_env va2pa rounds) time s = Inr s' \<and> (s' = s \<or> anyThreadRunning s')
    \<and> ((\<exists>w \<in> set (sv_sleeping s). wt_timeout w \<le> time) \<longrightarrow> anyThreadRunning s')"
proof (cases "take_waiter (\<lambda>w. wt_timeout w \<le> time) (sv_sleeping s)")
  case None
  then have "\<forall>w \<in> set (sv_sleeping s). \<not> wt_timeout w \<le> time" by (auto simp: take_waiter_def in_set_conv_nth split: option.splits)
  with None show ?thesis by (simp add: wake_sleeping_def)
next
  case (Some wr)
  obtain w rest where wr: "wr = (w, rest)" by (cases wr)
  with Some have "w \<in> set (sv_sleeping s)" by (auto elim: take_waiter_Some)
  then have "wt_thread_id w \<in> set (waiters s Asleep)" by (simp add: waiters_def)
  from waiter_known [OF assms this] waits_okD(2) [OF assms]
  have "\<exists>s'. resumeThread (quiet_env va2pa rounds) (wt_thread_id w) (wt_thread_id w) time False (s\<lparr>sv_sleeping := rest\<rparr>) = Inr s'
    \<and> anyThreadRunning s'"
    by (intro quiet_resume) (simp_all add: blocked_ok_def)
  with Some wr show ?thesis by (auto simp: wake_sleeping_def)
qed

lemma futexPeriodic_returns:
  assumes "waits_ok s"
  shows "\<exists>s'. futexPeriodic (quiet_env va2pa rounds) time s = Inr s' \<and> (s' = s \<or> anyThreadRunning s')
    \<and> ((\<exists>w \<in> set (sv_sleeping s). wt_timeout w \<le> time) \<longrightarrow> anyThreadRunning s')"
proof -
  let ?env = "quiet_env va2pa rounds"
  have fold: "waits_ok s1 \<Longrightarrow> \<exists>s'. foldR (wakeTimedOut ?env time) as s1 = Inr s' \<and> (s' = s1 \<or> anyThreadRunning s')
    \<and> (anyThreadRunning s1 \<longrightarrow> anyThreadRunning s')" for as s1
  proof (induction as arbitrary: s1)
    case (Cons a as)
    obtain s2 where s2: "wakeTimedOut ?env time a s1 = Inr s2" "s2 = s1 \<or> anyThreadRunning s2"
      using wakeTimedOut_returns [OF Cons.prems] by blast
    have ok: "waits_ok s2" "wakes s1 s2" using wpR_D [OF quiet.wakeTimedOut_ok [OF Cons.prems] s2(1)] by simp_all
    from Cons.IH [OF ok(1)] s2 wakes_any [OF ok(2)] show ?case by auto
  qed simp
  obtain s1 where s1: "wake_sleeping ?env time s = Inr s1" "s1 = s \<or> anyThreadRunning s1"
    "(\<exists>w \<in> set (sv_sleeping s). wt_timeout w \<le> time) \<longrightarrow> anyThreadRunning s1"
    using wake_sleeping_returns [OF assms] by blast
  have "waits_ok s1" using wpR_D [OF quiet.wake_sleeping_ok [OF assms] s1(1)] by simp
  from fold [OF this, of "sv_futex_order s1"] s1 show ?thesis by (auto simp: futexPeriodic_def)
qed

lemma release_cores_none:
  "(\<forall>c \<in> set cs. \<not> bs_barrier_acquire_list s ! nat c) \<Longrightarrow> release_cores caller cs flags s = (flags, s)"
  by (induction cs) auto

lemma getNextTimeout_sleeping:
  assumes "w \<in> set (sv_sleeping s)" and "wt_timeout w < ST_MaxTime"
  shows "getNextTimeout s < ST_MaxTime"
proof -
  have keep: "fold (\<lambda>w next. if wt_timeout w < ST_MaxTime then wt_timeout w else next) q n < ST_MaxTime" if "n < ST_MaxTime" for q n
    using that by (induction q arbitrary: n) auto
  have "last_timeout q < ST_MaxTime" if "w \<in> set q" for q
  proof -
    from that obtain xs ys where "q = xs @ w # ys" by (meson split_list)
    then show ?thesis using keep assms(2) by (simp add: last_timeout_def)
  qed
  then have "last_timeout (sv_sleeping s) < ST_MaxTime" using assms(1) by blast
  moreover have "fold (\<lambda>a next. min next (futex_getNextTimeout a s)) as n \<le> n" for as n
    by (induction as arbitrary: n) (auto intro: order_trans min.cobounded1)
  ultimately show ?thesis unfolding getNextTimeout_def by (meson order_le_less_trans)
qed

lemma release_loop_wakes:
  assumes "waits_ok s" and "\<not> bs_disable s" and "\<forall>c \<in> set (core_ids s). \<not> bs_barrier_acquire_list s ! nat c"
    and "w \<in> set (sv_sleeping s)" and "wt_timeout w < ST_MaxTime"
    and "unat (wt_timeout w) \<le> unat (bs_next_barrier_time s) + n * unat (bs_barrier_interval s)"
    and "unat (bs_next_barrier_time s) + n * unat (bs_barrier_interval s) < 2 ^ 64" and "n < k"
  shows "\<exists>s'. release_loop (periodic_env va2pa rounds) caller True k must_wait s = Inr (False, s') \<and> anyThreadRunning s'"
  using assms
proof (induction n arbitrary: s k)
  case 0
  then obtain k' where k: "k = Suc k'" by (cases k) auto
  let ?s = "s\<lparr>bs_global_time := bs_next_barrier_time s\<rparr>"
  have "waits_ok ?s" using 0 waits_ok_threads [of s ?s] by (simp add: same_threads_def)
  from futexPeriodic_returns [OF this] obtain s1 where
    s1: "futexPeriodic (quiet_env va2pa rounds) (bs_next_barrier_time s) ?s = Inr s1"
      "(\<exists>w \<in> set (sv_sleeping ?s). wt_timeout w \<le> bs_next_barrier_time s) \<longrightarrow> anyThreadRunning s1" by blast
  have "wt_timeout w \<le> bs_next_barrier_time s" using 0(6) by (simp add: word_le_nat_alt)
  then have "anyThreadRunning s1" using s1(2) 0(4) by auto
  then show ?case by (simp add: k periodic_env_def s1(1))
next
  case (Suc n)
  then obtain k' where k: "k = Suc k'" by (cases k) auto
  let ?s = "s\<lparr>bs_global_time := bs_next_barrier_time s\<rparr>" and ?i = "bs_barrier_interval s"
  have "waits_ok ?s" using Suc.prems(1) waits_ok_threads [of s ?s] by (simp add: same_threads_def)
  from futexPeriodic_returns [OF this] obtain s1 where
    s1: "futexPeriodic (quiet_env va2pa rounds) (bs_next_barrier_time s) ?s = Inr s1" "s1 = ?s \<or> anyThreadRunning s1" by blast
  show ?case
  proof (cases "anyThreadRunning s1")
    case True
    then show ?thesis by (simp add: k periodic_env_def s1(1))
  next
    case False
    with s1 have e: "s1 = ?s" by blast
    let ?s2 = "?s\<lparr>bs_next_barrier_time := bs_next_barrier_time s + ?i\<rparr>"
    have add: "unat (bs_next_barrier_time s + ?i) = unat (bs_next_barrier_time s) + unat ?i"
      using Suc.prems(7) by (intro unat_add_u64) simp
    have "waits_ok ?s2" using Suc.prems(1) waits_ok_threads [of s ?s2] by (simp add: same_threads_def)
    moreover have "core_ids ?s2 = core_ids s" by (simp add: core_ids_def)
    ultimately have "\<exists>s'. release_loop (periodic_env va2pa rounds) caller True k' must_wait ?s2 = Inr (False, s') \<and> anyThreadRunning s'"
      using Suc.prems by (intro Suc.IH) (simp_all add: add k)
    moreover have "release_cores caller (core_ids ?s2) (False, must_wait) ?s2 = ((False, must_wait), ?s2)"
      using Suc.prems(3) by (intro release_cores_none) (simp add: core_ids_def)
    moreover have "getNextTimeout ?s < ST_MaxTime" using Suc.prems(4,5) by (intro getNextTimeout_sleeping) simp_all
    ultimately show ?thesis
      using False Suc.prems(2) by (simp add: k periodic_env_def s1(1) e assertR_def)
  qed
qed

text \<open>
  C6. When every thread is stalled and one of them sleeps, the loop of \<^verbatim>\<open>stallThread\<close> comes back and a
  thread runs: the clock barrier advances the time, interval by interval, until a timeout is reached.
  The number of rounds it needs is the distance of the timeout in intervals.
\<close>

theorem sleeping_thread_woken:
  assumes "waits_ok s" and "\<not> bs_disable s" and "\<not> bs_fastforward s" and "bs_to_release s = []"
    and "\<forall>c \<in> set (core_ids s). \<not> bs_barrier_acquire_list s ! nat c"
    and "w \<in> set (sv_sleeping s)" and "wt_timeout w < ST_MaxTime"
    and "unat (wt_timeout w) \<le> unat (bs_next_barrier_time s) + n * unat (bs_barrier_interval s)"
    and "unat (bs_next_barrier_time s) + n * unat (bs_barrier_interval s) < 2 ^ 64"
    and "n < rounds"
  shows "\<exists>s'. advance_while_stalled rounds (en_advance (static_env core_mask va2pa rounds)) s = Inr s' \<and> anyThreadRunning s'"
proof (cases "anyThreadRunning s")
  case True
  then show ?thesis by (cases rounds) auto
next
  case False
  have "skip_to_clocks s = s" using assms(3) by (simp add: skip_to_clocks_def)
  then obtain s' where "barrierRelease (periodic_env va2pa rounds) INVALID_THREAD_ID True s = Inr (False, s')" "anyThreadRunning s'"
    using release_loop_wakes [OF assms(1,2,5-), of va2pa rounds INVALID_THREAD_ID True] assms(4)
    by (auto simp: barrierRelease_def periodic_env_def quiet_env_def assertR_def)
  moreover obtain r where "rounds = Suc r" using assms(10) by (cases rounds) auto
  moreover have "advance_while_stalled r adv s' = Inr s'" if "anyThreadRunning s'" for r adv and s' :: "'a bs_state"
    using that by (cases r) auto
  ultimately show ?thesis using False by (auto simp: static_env_def advance_def)
qed

definition demo_asleep :: barrier_server where
  "demo_asleep =
     (initial_system 1 100 4 id 0 (\<lambda>_. 0))
       \<lparr>tm_threads := [new_thread 0 ''a''],
        tm_thread_state := [\<lparr>ts_status = STALLED, ts_stalled_reason = Some STALL_SLEEP, ts_waiter = INVALID_THREAD_ID\<rparr>],
        sv_sleeping := [\<lparr>wt_thread_id = 0, wt_mask = 0, wt_timeout = 250000000\<rparr>]\<rparr>"

lemma demo_asleep_waits: "waits_ok demo_asleep"
proof -
  have ts: "threadState demo_asleep t = (if t = 0 then Inr \<lparr>ts_status = STALLED, ts_stalled_reason = Some STALL_SLEEP,
      ts_waiter = INVALID_THREAD_ID\<rparr> else Inl Out_Of_Range)" for t
    by (auto simp: threadState_def demo_asleep_def atR_def)
  have w: "waiters demo_asleep p = (if p = Asleep then [0] else [])" for p
    by (auto simp: waiters_def ts mutex_at_def SimMutex_def cond_at_def split: place.split)
      (auto simp: demo_asleep_def initial_system_def BarrierSyncServer_def Let_def SimMutex_def)
  have "stalled demo_asleep t = (if t = 0 then Some STALL_SLEEP else None)" for t by (simp add: stalled_def ts)
  then have "waits (stalled demo_asleep) (waiters demo_asleep)"
    by (auto simp: waits_def w place_ok_def split: if_splits)
  moreover have "blocked_ok demo_asleep"
    by (auto simp: blocked_ok_def blocked_def lens_def demo_asleep_def getThreadFromID_def atR_def new_thread_def split: if_splits)
  ultimately show ?thesis by (rule waits_okI)
qed

theorem sleeping_thread_woken_witness:
  "\<not> anyThreadRunning demo_asleep \<and>
   (\<exists>s'. advance_while_stalled 3 (en_advance (static_env [True] (\<lambda>t a. a) 3)) demo_asleep = Inr s' \<and> anyThreadRunning s')"
proof
  show "\<not> anyThreadRunning demo_asleep" by (simp add: anyThreadRunning_def demo_asleep_def)
  have "core_ids demo_asleep = [0]" by (simp add: core_ids_def demo_asleep_def initial_system_def BarrierSyncServer_def Let_def)
  then show "\<exists>s'. advance_while_stalled 3 (en_advance (static_env [True] (\<lambda>t a. a) 3)) demo_asleep = Inr s' \<and> anyThreadRunning s'"
    by (intro sleeping_thread_woken [where n = 2 and w = "\<lparr>wt_thread_id = 0, wt_mask = 0, wt_timeout = 250000000\<rparr>", OF demo_asleep_waits])
      (simp_all add: demo_asleep_def initial_system_def BarrierSyncServer_def Let_def ST_NS_def)
qed

section \<open>Cores leave the clock barrier together\<close>

definition same_clocks :: "'a bs_state \<Rightarrow> 'a bs_state \<Rightarrow> bool" where
  "same_clocks s s' \<longleftrightarrow>
     bs_local_clock_list s' = bs_local_clock_list s \<and> bs_barrier_acquire_list s' = bs_barrier_acquire_list s \<and>
     bs_next_barrier_time s' = bs_next_barrier_time s \<and> bs_disable s' = bs_disable s \<and> core_ids s' = core_ids s"

lemma resumeThread_clocks:
  "resumeThread (quiet_env va2pa rounds) t by time msg s = Inr s' \<Longrightarrow> same_clocks s s'"
  by (auto simp: resumeThread_def resumeThread_async_def thread_signal_def set_thread_def set_status_def set_state_def
      quiet_env_def same_clocks_def core_ids_def)

lemma same_clocks_trans: "same_clocks s s1 \<Longrightarrow> same_clocks s1 s' \<Longrightarrow> same_clocks s s'"
  by (simp add: same_clocks_def)

lemma wakeTimedOut_clocks: "wakeTimedOut (quiet_env va2pa rounds) time a s = Inr s' \<Longrightarrow> same_clocks s s'"
  by (auto simp: wakeTimedOut_def set_futex_def split: option.splits dest!: resumeThread_clocks)
    (simp_all add: same_clocks_def core_ids_def)

lemma wake_sleeping_clocks: "wake_sleeping (quiet_env va2pa rounds) time s = Inr s' \<Longrightarrow> same_clocks s s'"
  by (auto simp: wake_sleeping_def split: option.splits dest!: resumeThread_clocks)
    (simp_all add: same_clocks_def core_ids_def)

lemma futexPeriodic_clocks:
  assumes "futexPeriodic (quiet_env va2pa rounds) time s = Inr s'"
  shows "same_clocks s s'"
proof -
  have fold: "foldR (wakeTimedOut (quiet_env va2pa rounds) time) as s1 = Inr s' \<Longrightarrow> same_clocks s1 s'" for as s1
  proof (induction as arbitrary: s1)
    case (Cons a as)
    then show ?case using wakeTimedOut_clocks same_clocks_trans by fastforce
  qed (simp add: same_clocks_def)
  from assms show ?thesis using fold wake_sleeping_clocks same_clocks_trans by (fastforce simp: futexPeriodic_def)
qed

definition clocks_ok :: "'a bs_state \<Rightarrow> bool" where
  "clocks_ok s \<longleftrightarrow> length (bs_barrier_acquire_list s) = length (tm_cores s)"

lemma release_cores_acquire:
  assumes "release_cores caller cs flags s = (flags', s')" and "distinct cs" and "\<forall>c \<in> set cs. 0 \<le> c"
    and "\<forall>c \<in> set cs. nat c < length (bs_barrier_acquire_list s)"
  shows "bs_local_clock_list s' = bs_local_clock_list s" and "bs_next_barrier_time s' = bs_next_barrier_time s"
    and "length (bs_barrier_acquire_list s') = length (bs_barrier_acquire_list s)"
    and "0 \<le> c \<Longrightarrow> bs_barrier_acquire_list s' ! nat c \<longleftrightarrow> bs_barrier_acquire_list s ! nat c
          \<and> (c \<in> set cs \<longrightarrow> bs_next_barrier_time s \<le> bs_local_clock_list s ! nat c)"
    and "\<not> fst flags' \<Longrightarrow> s' = s"
proof -
  have "bs_local_clock_list s' = bs_local_clock_list s \<and> bs_next_barrier_time s' = bs_next_barrier_time s
    \<and> length (bs_barrier_acquire_list s') = length (bs_barrier_acquire_list s)
    \<and> (\<forall>c \<ge> 0. bs_barrier_acquire_list s' ! nat c \<longleftrightarrow> bs_barrier_acquire_list s ! nat c
          \<and> (c \<in> set cs \<longrightarrow> bs_next_barrier_time s \<le> bs_local_clock_list s ! nat c))
    \<and> (fst flags \<longrightarrow> fst flags') \<and> (\<not> fst flags' \<longrightarrow> s' = s)"
    using assms
  proof (induction cs arbitrary: s flags)
    case (Cons d ds)
    show ?case
    proof (cases "bs_local_clock_list s ! nat d < bs_next_barrier_time s \<and> bs_barrier_acquire_list s ! nat d")
      case True
      define A where "A = upd_at d (\<lambda>_. False) (bs_barrier_acquire_list s)"
      obtain f s1 where step: "release_cores caller ds (True, f) s1 = (flags', s')"
        and s1: "bs_barrier_acquire_list s1 = A" "bs_local_clock_list s1 = bs_local_clock_list s"
          "bs_next_barrier_time s1 = bs_next_barrier_time s"
      proof (cases "bs_core_thread s ! nat d = caller")
        case t: True
        show ?thesis
          by (rule that [of False "s\<lparr>bs_barrier_acquire_list := A\<rparr>"]) (use Cons.prems(1) True t in \<open>simp_all add: Let_def A_def\<close>)
      next
        case False
        show ?thesis
          by (rule that [of "snd flags" "s\<lparr>bs_barrier_acquire_list := A, bs_to_release := bs_to_release s @ [d]\<rparr>"])
            (use Cons.prems(1) True False in \<open>simp_all add: Let_def A_def\<close>)
      qed
      have len: "length A = length (bs_barrier_acquire_list s)" by (simp add: A_def upd_at_def)
      have nth: "A ! nat c = (c \<noteq> d \<and> bs_barrier_acquire_list s ! nat c)" if "0 \<le> c" for c
        using that Cons.prems(3,4) by (auto simp: A_def upd_at_def nth_list_update nat_eq_iff)
      moreover have "\<not> bs_next_barrier_time s \<le> bs_local_clock_list s ! nat d" using True by (simp add: not_le)
      ultimately show ?thesis using Cons.IH [OF step] Cons.prems(2-4) len by (auto simp: s1 nth True)
    next
      case False
      with Cons.prems(1) have "release_cores caller ds flags s = (flags', s')" by simp
      from Cons.IH [OF this] Cons.prems(2-4) False show ?thesis by (auto simp: not_less)
    qed
  qed auto
  then show "bs_local_clock_list s' = bs_local_clock_list s" "bs_next_barrier_time s' = bs_next_barrier_time s"
    "length (bs_barrier_acquire_list s') = length (bs_barrier_acquire_list s)"
    "0 \<le> c \<Longrightarrow> bs_barrier_acquire_list s' ! nat c \<longleftrightarrow> bs_barrier_acquire_list s ! nat c
          \<and> (c \<in> set cs \<longrightarrow> bs_next_barrier_time s \<le> bs_local_clock_list s ! nat c)"
    "\<not> fst flags' \<Longrightarrow> s' = s"
    by blast+
qed

lemma release_loop_clocks:
  assumes "release_loop (static_env core_mask va2pa rounds) caller False n must_wait s = Inr (b, s')" and "\<not> bs_disable s"
    and "clocks_ok s"
  shows "bs_local_clock_list s' = bs_local_clock_list s
    \<and> (\<forall>c \<in> set (core_ids s). bs_barrier_acquire_list s' ! nat c \<longleftrightarrow>
         bs_barrier_acquire_list s ! nat c \<and> bs_next_barrier_time s' \<le> bs_local_clock_list s ! nat c)"
  using assms
proof (induction n arbitrary: s must_wait)
  case (Suc n)
  let ?s = "s\<lparr>bs_global_time := bs_next_barrier_time s\<rparr>"
  from Suc.prems(1) obtain s1 where s1: "futexPeriodic (quiet_env va2pa rounds) (bs_next_barrier_time s) ?s = Inr s1"
    by (auto simp: static_env_def)
  have same: "same_clocks s s1" using futexPeriodic_clocks [OF s1] by (simp add: same_clocks_def core_ids_def)
  define s2 where "s2 = s1\<lparr>bs_next_barrier_time := bs_next_barrier_time s1 + bs_barrier_interval s1\<rparr>"
  obtain resumed wait' s3 where s3: "release_cores caller (core_ids s2) (False, must_wait) s2 = ((resumed, wait'), s3)"
    by (metis surj_pair)
  have ids: "core_ids s2 = core_ids s" using same by (simp add: s2_def same_clocks_def core_ids_def)
  have v2: "bs_local_clock_list s2 = bs_local_clock_list s" "bs_barrier_acquire_list s2 = bs_barrier_acquire_list s" "\<not> bs_disable s1"
    using same Suc.prems(2) by (simp_all add: s2_def same_clocks_def)
  have range: "distinct (core_ids s2)" "\<forall>c \<in> set (core_ids s2). 0 \<le> c" "\<forall>c \<in> set (core_ids s2). nat c < length (bs_barrier_acquire_list s2)"
    unfolding ids v2 using Suc.prems(3) by (auto simp: core_ids_def clocks_ok_def distinct_map inj_on_def)
  note rel = release_cores_acquire [OF s3 range]
  show ?case
  proof (cases resumed)
    case True
    define k where "k = (if bs_fastforward s3 then - 1 else int (bs_num_host_cores s3))"
    have fs: "bs_local_clock_list (fold signal_core cs x) = bs_local_clock_list x
      \<and> bs_barrier_acquire_list (fold signal_core cs x) = bs_barrier_acquire_list x
      \<and> bs_next_barrier_time (fold signal_core cs x) = bs_next_barrier_time x" for cs and x :: "'a bs_state"
      by (induction cs arbitrary: x) (auto simp: signal_core_def)
    have "s' = doRelease k (s3\<lparr>bs_to_release := bs_shuffle s3 (bs_to_release s3)\<rparr>)"
      using Suc.prems(1) True v2(3) by (simp add: static_env_def s1 s2_def [symmetric] s3 k_def Let_def)
    then have "bs_local_clock_list s' = bs_local_clock_list s3" "bs_barrier_acquire_list s' = bs_barrier_acquire_list s3"
      "bs_next_barrier_time s' = bs_next_barrier_time s3"
      by (simp_all add: doRelease_def Let_def fs)
    then show ?thesis using rel range(2) by (auto simp: v2 ids)
  next
    case False
    then have e: "s3 = s2" using rel(5) by simp
    have "release_loop (static_env core_mask va2pa rounds) caller False n wait' s2 = Inr (b, s')"
      using Suc.prems(1) False v2(3) by (simp add: static_env_def s1 s2_def [symmetric] s3 e Let_def)
    moreover have "\<not> bs_disable s2" "clocks_ok s2"
      using v2(2,3) Suc.prems(3) same by (simp_all add: s2_def clocks_ok_def same_clocks_def core_ids_def)
        (metis length_map length_upt diff_zero)
    ultimately show ?thesis using Suc.IH [of wait' s2] by (simp add: v2 ids)
  qed
qed simp

lemma barrier_reached_all:
  assumes "barrier_reached s single cs = Inr True" and "\<not> bs_fastforward s" and "c \<in> set cs"
    and "bs_core_group s ! nat c = INVALID_CORE_ID" and "isCoreRunning s c = Inr True"
  shows "bs_next_barrier_time s \<le> bs_local_clock_list s ! nat c"
  using assms by (induction cs arbitrary: single) (auto split: if_splits)


lemma demo_barrier_run:
  "case sys_run (static_env [True, True] (\<lambda>t a. a) 10) 0
      [Create_Thread 0 ''a'', Create_Thread 0 ''a'', Start_Thread 0 0, Start_Thread 1 0] demo_system of
     Inl _ \<Rightarrow> False
   | Inr s0 \<Rightarrow>
       let s = enter_barrier 1 1 (ST_NS 120) (enter_barrier 0 0 (ST_NS 350) s0) in
       clocks_ok s \<and> \<not> bs_fastforward s \<and> \<not> bs_disable s \<and> core_ids s = [0, 1] \<and>
       isBarrierReached s = Inr True \<and> bs_local_clock_list s = [ST_NS 350, ST_NS 120] \<and>
       bs_barrier_acquire_list s = [True, True] \<and>
       (case wait_at_barrier (static_env [True, True] (\<lambda>t a. a) 10) 1 1 (ST_NS 120) s of
          Inl _ \<Rightarrow> False | Inr (r, s') \<Rightarrow> bs_next_barrier_time s' = ST_NS 200)"
  by code_simp


section \<open>Limits\<close>

text \<open>A thread that is joined before it starts: its start wakes the thread that joins it, which is still stalled.\<close>

lemma join_before_start:
  "case bindR (sys_run (static_env [True, True] (\<lambda>t a. a) 10) 0
       [Create_Thread 0 ''a'', Create_Thread 0 ''a'', Start_Thread 0 0, Call 0 (Join_Thread 1)] demo_system)
       (onThreadStart (static_env [True, True] (\<lambda>t a. a) 10) 1 0) of
     Inl _ \<Rightarrow> False
   | Inr s \<Rightarrow> stalled s 0 = Some STALL_JOIN \<and> \<not> blocked s 0 \<and> waiters s (Joining 1) = [] \<and> stat s 1 = Some RUNNING"
  by code_simp

text \<open>A thread that tries to lock a mutex it holds waits for itself; the call should fail.\<close>

lemma trylock_own_mutex:
  "case sys_run (static_env [True, True] (\<lambda>t a. a) 10) 0
       [Create_Thread 0 ''a'', Create_Thread 0 ''a'', Start_Thread 0 0, Start_Thread 1 0, Call 0 (Mutex_Lock 64 False 0),
        Call 0 (Mutex_Lock 64 True 0)] demo_system of
     Inl _ \<Rightarrow> False
   | Inr s \<Rightarrow> waiters s (At_Mutex 64) = [0] \<and> mx_owner (mutex_at s 64) = 0 \<and> blocked s 0"
  by code_simp

text \<open>\<^verbatim>\<open>FUTEX_WAKE_BITSET\<close> ignores its bit set.\<close>

lemma wake_bitset_ignored:
  assumes "(fa_op args AND FUTEX_CMD_MASK) AND NOT FUTEX_PRIVATE_FLAG = FUTEX_WAKE_BITSET"
  shows "handleFutexCall env time_start t (args\<lparr>fa_val3 := b\<rparr>) time s = handleFutexCall env time_start t args time s"
  using assms by (simp add: handleFutexCall_def Let_def)

text \<open>The relative timeout of \<^verbatim>\<open>FUTEX_WAIT\<close> is reduced by the start time of the emulated clock.\<close>

lemma relative_timeout:
  "futex_timeout 1337000000 FUTEX_WAIT (Some (1, 0)) 0 \<noteq> ST_SEC 1"
  by (simp add: futex_timeout_def ST_SEC_def ST_NS_def)

end
