(* ===== verification/Cache_Cntlr.thy ===== *)
theory Cache_Cntlr
  imports Dram "HOL-Library.AList"
begin

text \<open>
  The controllers of the cache hierarchy (\<^verbatim>\<open>parametric_dram_directory_msi/cache_cntlr.cc\<close>): accesses
  of a core to the first level, requests of one level to the next, insertion and eviction, write-backs,
  the messages to and from the tag directory, and prefetching. Controllers and the master objects they
  share are named by numbers; the maps from names to objects are the heap. A controller whose cache is
  shared by several cores is a proxy of the controller that owns the master object.

  A failed assertion about a cache line, and the use of a line that is not there, is the error
  \<open>Bad_Line\<close>, so that the other errors, of time or of the parts below, can be told from it.
  Left out are statistics (also the reason of a transition, which only they use), auxiliary tag directories, the callbacks of the efficiency tracker with the
  usage bits that are kept for them, and the locks: an operation runs with the lock of its set.
\<close>

datatype cc_error = Bad_Line | Failed sim_error

definition bindC :: "cc_error + 'a \<Rightarrow> ('a \<Rightarrow> cc_error + 'b) \<Rightarrow> cc_error + 'b" where
  "bindC m f = (case m of Inl e \<Rightarrow> Inl e | Inr x \<Rightarrow> f x)"

definition liftC :: "'a result \<Rightarrow> cc_error + 'a" where
  "liftC m = (case m of Inl e \<Rightarrow> Inl (Failed e) | Inr x \<Rightarrow> Inr x)"

definition lineC :: "bool \<Rightarrow> cc_error + unit" where
  "lineC b = (if b then Inr () else Inl Bad_Line)"

section \<open>Objects\<close>

datatype mem_op_t = READ | READ_EX | WRITE

datatype prefetch_type_t = PREFETCH_NONE | PREFETCH_OWN | PREFETCH_OTHER

datatype lock_signal_t = LOCK_NONE | LOCK | UNLOCK

datatype cache_access_t = ACCESS_CACHE_DATA_AND_TAGS | ACCESS_CACHE_DATA | ACCESS_CACHE_TAGS

text \<open>\<^verbatim>\<open>CachePerfModelParallel\<close> and \<^verbatim>\<open>CachePerfModelSequential\<close>.\<close>

record cache_perf =
  cf_sequential :: bool
  cf_enabled :: bool
  cf_data_access_time :: subsecond
  cf_tags_access_time :: subsecond

definition cf_getLatency :: "cache_perf \<Rightarrow> cache_access_t \<Rightarrow> subsecond" where
  "cf_getLatency p access =
     (if \<not> cf_enabled p then 0
      else case access of
             ACCESS_CACHE_TAGS \<Rightarrow> cf_tags_access_time p
           | ACCESS_CACHE_DATA \<Rightarrow> cf_data_access_time p
           | ACCESS_CACHE_DATA_AND_TAGS \<Rightarrow>
               if cf_sequential p then cf_data_access_time p + cf_tags_access_time p else cf_data_access_time p)"

record directory_waiter =
  dw_exclusive :: bool
  dw_is_prefetch :: bool
  dw_cntlr :: nat
  dw_t_issue :: subsecond

text \<open>
  The object that the controllers of one cache share. The outstanding misses are listed in the order in
  which the hash table is walked. \<open>cm_evicting\<close> is the address and the buffer of the line that is
  being evicted.
\<close>

record cache_master =
  cm_cache :: cache
  cm_prevs :: "nat list"
  cm_prefetcher :: "prefetcher option"
  cm_dram :: bool
  cm_dram_writebacks :: "contention option"
  cm_mshr :: "(intptr \<times> subsecond \<times> subsecond) list"
  cm_l1_mshr :: contention
  cm_bandwidth :: contention
  cm_waiters :: "directory_waiter req_queue_list"
  cm_evicting :: "(intptr \<times> byte list) option"
  cm_prefetch_list :: "intptr list"
  cm_prefetch_next :: subsecond

record cache_cntlr_obj =
  cc_component :: component_t
  cc_master :: nat
  cc_next :: "nat option"
  cc_perfect :: bool
  cc_passthrough :: bool
  cc_coherent :: bool
  cc_prefetch_on_prefetch_hit :: bool
  cc_l1_mshr :: bool
  cc_core_id :: core_id
  cc_core_id_master :: core_id
  cc_block_size :: u32
  cc_writethrough :: bool
  cc_writeback_time :: subsecond
  cc_bandwidth_period :: subsecond
  cc_bandwidth :: u64
  cc_last_remote_hit_where :: where_t
  cc_shmem_perf :: shmem_perf
  cc_dummy_shmem_perf :: shmem_perf
  cc_shmem_perf_global :: shmem_perf
  cc_shmem_perf_totaltime :: subsecond
  cc_shmem_perf_numrequests :: u64
  cc_perf_model :: cache_perf

text \<open>The heap: controllers, master objects, the clocks of the cores, DRAM, and the messages sent.\<close>

record 'd hierarchy =
  hi_cntlr :: "nat \<Rightarrow> cache_cntlr_obj"
  hi_master :: "nat \<Rightarrow> cache_master"
  hi_spm :: "core_id \<Rightarrow> shmem_perf_model"
  hi_dram :: 'd
  hi_outbox :: "packet list"

text \<open>
  What the hierarchy is built on: the DRAM controller, the home of an address, the mode of the
  simulation, the function \<^verbatim>\<open>abs\<close> that the prefetchers call, the contents of local arrays before
  they are written, and the number of levels. \<open>ce_wait\<close> is what the other threads do to the heap from
  the moment a thread waits for the reply of the directory until it is woken up, and \<open>ce_wake\<close> what a
  thread that is woken up does until it gives back the lock of the set.
\<close>

record 'd cc_env =
  ce_get :: "'d dram_get"
  ce_put :: "'d dram_put"
  ce_home :: "intptr \<Rightarrow> core_id"
  ce_cache_only :: bool
  ce_abs :: "u64 \<Rightarrow> u64"
  ce_fresh :: "u32 \<Rightarrow> byte list"
  ce_levels :: nat
  ce_wait :: "nat \<Rightarrow> 'd hierarchy \<Rightarrow> cc_error + 'd hierarchy"
  ce_wake :: "nat \<Rightarrow> 'd hierarchy \<Rightarrow> cc_error + 'd hierarchy"

section \<open>Construction\<close>

record cache_parameters =
  cp_size :: u32
  cp_num_sets :: u32
  cp_associativity :: u32
  cp_hash_function :: string
  cp_replacement_policy :: string
  cp_perfect :: bool
  cp_coherent :: bool
  cp_writeback_time :: subsecond
  cp_bandwidth_period :: subsecond
  cp_bandwidth :: u64
  cp_writethrough :: bool
  cp_shared_cores :: u32
  cp_prefetcher :: string
  cp_outstanding_misses :: u32

definition CacheParameters :: "u32 \<Rightarrow> cache_parameters \<Rightarrow> cache_parameters result" where
  "CacheParameters block_size p =
     bindR (if cp_associativity p * block_size = 0 then Inl Div_By_Zero
            else Inr (1024 * cp_size p div (cp_associativity p * block_size))) (\<lambda>num_sets.
     bindR (assertR (1024 * cp_size p = num_sets * cp_associativity p * block_size)) (\<lambda>_.
     Inr (p\<lparr>cp_num_sets := num_sets\<rparr>)))"

definition CacheMasterCntlr :: "cache \<Rightarrow> prefetcher option \<Rightarrow> subsecond \<Rightarrow> u32 \<Rightarrow> cache_master" where
  "CacheMasterCntlr c pf proc_period outstanding_misses =
     \<lparr>cm_cache = c, cm_prevs = [], cm_prefetcher = pf, cm_dram = False, cm_dram_writebacks = None, cm_mshr = [],
      cm_l1_mshr = ContentionModel proc_period outstanding_misses, cm_bandwidth = ContentionModel proc_period 1,
      cm_waiters = Map.empty, cm_evicting = None, cm_prefetch_list = [], cm_prefetch_next = 0\<rparr>"

text \<open>
  The constructor of a controller with the name \<open>k\<close>. The names of the master objects are those of the
  controllers that own them; \<open>master\<close> is the one of the controller of the first core that shares the
  cache. \<open>faults\<close> and \<open>fault_injector\<close> are those of the fault injection manager.
\<close>

definition CacheCntlr ::
  "repl_config \<Rightarrow> prefetcher_config \<Rightarrow> bool \<Rightarrow> fault_injector option \<Rightarrow> bool \<Rightarrow> bool \<Rightarrow> subsecond \<Rightarrow> cache_perf
     \<Rightarrow> component_t \<Rightarrow> nat \<Rightarrow> nat \<Rightarrow> core_id \<Rightarrow> u32 \<Rightarrow> cache_parameters \<Rightarrow> bool \<Rightarrow> 'd hierarchy \<Rightarrow> 'd hierarchy result" where
  "CacheCntlr cfg pcfg faults fault_injector passthrough on_prefetch_hit proc_period perf
     component k master core block_size p is_last_level h =
     (let core_master = core - core mod uint (cp_shared_cores p) in
      bindR (assertR (is_last_level \<longrightarrow> \<not> passthrough)) (\<lambda>_.
      bindR (if core = core_master
             then bindR (parseAddressHash (cp_hash_function p)) (\<lambda>hash.
                  bindR (Cache cfg faults (cp_num_sets p) (cp_associativity p) block_size (cp_replacement_policy p)
                           SHARED_CACHE hash fault_injector None) (\<lambda>c.
                  bindR (createPrefetcher pcfg (cp_prefetcher p) core (cp_shared_cores p)) (\<lambda>pf.
                  Inr ((hi_master h)(k := CacheMasterCntlr c pf proc_period (cp_outstanding_misses p))))))
             else Inr (hi_master h)) (\<lambda>masters.
      let m = (if core = core_master then k else master)
      in Inr (h\<lparr>hi_master := masters,
           hi_cntlr := (hi_cntlr h)(k :=
             \<lparr>cc_component = component, cc_master = m, cc_next = None, cc_perfect = cp_perfect p,
              cc_passthrough = passthrough, cc_coherent = cp_coherent p,
              cc_prefetch_on_prefetch_hit = (cm_prefetcher (masters m) \<noteq> None \<and> on_prefetch_hit),
              cc_l1_mshr = (cp_outstanding_misses p > 0), cc_core_id = core, cc_core_id_master = core_master,
              cc_block_size = block_size, cc_writethrough = cp_writethrough p, cc_writeback_time = cp_writeback_time p,
              cc_bandwidth_period = cp_bandwidth_period p, cc_bandwidth = cp_bandwidth p,
              cc_last_remote_hit_where = UNKNOWN, cc_shmem_perf = ShmemPerf, cc_dummy_shmem_perf = ShmemPerf,
              cc_shmem_perf_global = ShmemPerf, cc_shmem_perf_totaltime = 0, cc_shmem_perf_numrequests = 0,
              cc_perf_model = perf\<rparr>)\<rparr>))))"

definition master_of :: "'d hierarchy \<Rightarrow> nat \<Rightarrow> cache_master" where
  "master_of h k = hi_master h (cc_master (hi_cntlr h k))"

definition cache_of :: "'d hierarchy \<Rightarrow> nat \<Rightarrow> cache" where
  "cache_of h k = cm_cache (master_of h k)"

definition set_master :: "nat \<Rightarrow> (cache_master \<Rightarrow> cache_master) \<Rightarrow> 'd hierarchy \<Rightarrow> 'd hierarchy" where
  "set_master k f h = h\<lparr>hi_master := (hi_master h)(cc_master (hi_cntlr h k) := f (master_of h k))\<rparr>"

definition put_cache :: "nat \<Rightarrow> cache \<Rightarrow> 'd hierarchy \<Rightarrow> 'd hierarchy" where
  "put_cache k c h = set_master k (\<lambda>m. m\<lparr>cm_cache := c\<rparr>) h"

definition set_cntlr :: "nat \<Rightarrow> (cache_cntlr_obj \<Rightarrow> cache_cntlr_obj) \<Rightarrow> 'd hierarchy \<Rightarrow> 'd hierarchy" where
  "set_cntlr k f h = h\<lparr>hi_cntlr := (hi_cntlr h)(k := f (hi_cntlr h k))\<rparr>"

definition setPrevCacheCntlrs :: "nat \<Rightarrow> nat list \<Rightarrow> 'd hierarchy \<Rightarrow> 'd hierarchy" where
  "setPrevCacheCntlrs k prevs h =
     set_master k (\<lambda>m. m\<lparr>cm_prevs := cm_prevs m @
       filter (\<lambda>j. cc_core_id (hi_cntlr h j) = cc_core_id_master (hi_cntlr h j)) prevs\<rparr>) h"

definition setNextCacheCntlr :: "nat \<Rightarrow> nat \<Rightarrow> 'd hierarchy \<Rightarrow> 'd hierarchy" where
  "setNextCacheCntlr k j h = set_cntlr k (\<lambda>c. c\<lparr>cc_next := Some j\<rparr>) h"

definition setDRAMDirectAccess :: "nat \<Rightarrow> subsecond \<Rightarrow> u32 \<Rightarrow> 'd hierarchy \<Rightarrow> 'd hierarchy" where
  "setDRAMDirectAccess k proc_period num_outstanding h =
     set_master k (\<lambda>m. m\<lparr>cm_dram := True, cm_dram_writebacks := Some (ContentionModel proc_period num_outstanding)\<rparr>) h"

text \<open>The clock of the core of a controller, and the delays of its memory manager.\<close>

definition now :: "nat \<Rightarrow> spm_thread \<Rightarrow> 'd hierarchy \<Rightarrow> subsecond" where
  "now k thread h = spm_getElapsedTime (hi_spm h (cc_core_id (hi_cntlr h k))) thread"

definition set_time :: "nat \<Rightarrow> spm_thread \<Rightarrow> subsecond \<Rightarrow> 'd hierarchy \<Rightarrow> 'd hierarchy" where
  "set_time k thread t h =
     (let c = cc_core_id (hi_cntlr h k) in h\<lparr>hi_spm := (hi_spm h)(c := spm_setElapsedTime (hi_spm h c) thread t)\<rparr>)"

definition incrElapsedTime :: "nat \<Rightarrow> subsecond \<Rightarrow> spm_thread \<Rightarrow> 'd hierarchy \<Rightarrow> cc_error + 'd hierarchy" where
  "incrElapsedTime k latency thread h =
     (let c = cc_core_id (hi_cntlr h k) in
      bindC (liftC (spm_incrElapsedTime (hi_spm h c) latency thread)) (\<lambda>m.
      Inr (h\<lparr>hi_spm := (hi_spm h)(c := m)\<rparr>)))"

definition incr_access :: "nat \<Rightarrow> cache_access_t \<Rightarrow> spm_thread \<Rightarrow> 'd hierarchy \<Rightarrow> cc_error + 'd hierarchy" where
  "incr_access k access thread h = incrElapsedTime k (cf_getLatency (cc_perf_model (hi_cntlr h k)) access) thread h"

text \<open>
  \<^verbatim>\<open>HitWhere::where_t(m_mem_component + (sibling ? HitWhere::SIBLING : 0))\<close>. No level is below the
  instruction cache, so it has no siblings.
\<close>

definition hit_at :: "component_t \<Rightarrow> bool \<Rightarrow> where_t" where
  "hit_at component sibling =
     (case component of
        MC_L1_ICACHE \<Rightarrow> if sibling then UNKNOWN else L1I
      | MC_L1_DCACHE \<Rightarrow> if sibling then L1_SIBLING else L1_OWN
      | MC_L2_CACHE \<Rightarrow> if sibling then L2_SIBLING else L2_OWN
      | MC_L3_CACHE \<Rightarrow> if sibling then L3_SIBLING else L3_OWN
      | MC_L4_CACHE \<Rightarrow> if sibling then L4_SIBLING else L4_OWN
      | _ \<Rightarrow> UNKNOWN)"

section \<open>Operations of a cache on itself\<close>

definition getCacheBlockInfo :: "nat \<Rightarrow> intptr \<Rightarrow> 'd hierarchy \<Rightarrow> cc_error + line_ptr option" where
  "getCacheBlockInfo k address h = liftC (peekSingleLine (cache_of h k) address)"

definition state_at :: "nat \<Rightarrow> line_ptr option \<Rightarrow> 'd hierarchy \<Rightarrow> cstate_t" where
  "state_at k p h = (case p of None \<Rightarrow> INVALID | Some q \<Rightarrow> m_cstate (deref (cache_of h k) q))"

definition getCacheState :: "nat \<Rightarrow> intptr \<Rightarrow> 'd hierarchy \<Rightarrow> cc_error + cstate_t" where
  "getCacheState k address h = bindC (getCacheBlockInfo k address h) (\<lambda>p. Inr (state_at k p h))"

definition set_line :: "nat \<Rightarrow> line_ptr \<Rightarrow> (cache_block_info \<Rightarrow> cache_block_info) \<Rightarrow> 'd hierarchy \<Rightarrow> 'd hierarchy" where
  "set_line k p f h = put_cache k (assign_line (cache_of h k) p (f (deref (cache_of h k) p))) h"

definition setCState :: "nat \<Rightarrow> line_ptr \<Rightarrow> cstate_t \<Rightarrow> 'd hierarchy \<Rightarrow> 'd hierarchy" where
  "setCState k p cstate h = set_line k p (\<lambda>b. b\<lparr>m_cstate := cstate\<rparr>) h"

text \<open>The use of a pointer to a line: the line must be there.\<close>

definition the_line :: "line_ptr option \<Rightarrow> cc_error + line_ptr" where
  "the_line p = (case p of None \<Rightarrow> Inl Bad_Line | Some q \<Rightarrow> Inr q)"

definition setCacheState :: "nat \<Rightarrow> intptr \<Rightarrow> cstate_t \<Rightarrow> 'd hierarchy \<Rightarrow> cc_error + (line_ptr \<times> 'd hierarchy)" where
  "setCacheState k address cstate h =
     bindC (getCacheBlockInfo k address h) (\<lambda>p.
     bindC (the_line p) (\<lambda>q. Inr (q, setCState k q cstate h)))"

definition permits :: "mem_op_t \<Rightarrow> cstate_t \<Rightarrow> bool" where
  "permits mem_op cstate = (case mem_op of READ \<Rightarrow> readable cstate | _ \<Rightarrow> writable cstate)"

definition operationPermissibleinCache :: "nat \<Rightarrow> intptr \<Rightarrow> mem_op_t \<Rightarrow> 'd hierarchy \<Rightarrow> cc_error + (bool \<times> line_ptr option)" where
  "operationPermissibleinCache k address mem_op h =
     bindC (getCacheBlockInfo k address h) (\<lambda>p. Inr (permits mem_op (state_at k p h), p))"

definition invalidateCacheBlock :: "nat \<Rightarrow> intptr \<Rightarrow> 'd hierarchy \<Rightarrow> cc_error + 'd hierarchy" where
  "invalidateCacheBlock k address h =
     bindC (getCacheState k address h) (\<lambda>old_cstate.
     bindC (lineC (old_cstate \<noteq> MODIFIED \<and> old_cstate \<noteq> INVALID)) (\<lambda>_.
     bindC (liftC (invalidateSingleLine (cache_of h k) address)) (\<lambda>(_, c). Inr (put_cache k c h))))"

definition retrieveCacheBlock ::
  "nat \<Rightarrow> intptr \<Rightarrow> byte list \<Rightarrow> bool \<Rightarrow> 'd hierarchy \<Rightarrow> cc_error + (byte list \<times> 'd hierarchy)" where
  "retrieveCacheBlock k address data_buf update_replacement h =
     bindC (liftC (accessSingleLine (cache_of h k) address LOAD (Some data_buf) (cc_block_size (hi_cntlr h k)) update_replacement))
       (\<lambda>(p, out, c).
     bindC (the_line p) (\<lambda>_. Inr (the out, put_cache k c h)))"

text \<open>A local array of the size of a line of the cache.\<close>

definition local_buf :: "'d cc_env \<Rightarrow> nat \<Rightarrow> 'd hierarchy \<Rightarrow> byte list" where
  "local_buf env k h = ce_fresh env (cc_block_size (hi_cntlr h k))"

definition store_line ::
  "nat \<Rightarrow> intptr \<Rightarrow> u32 \<Rightarrow> byte list option \<Rightarrow> u32 \<Rightarrow> 'd hierarchy \<Rightarrow> cc_error + 'd hierarchy" where
  "store_line k address offset data_buf data_length h =
     bindC (liftC (accessSingleLine (cache_of h k) (address + ucast offset) STORE data_buf data_length False)) (\<lambda>(p, _, c).
     bindC (the_line p) (\<lambda>q.
     bindC (lineC (m_cstate (deref c q) = MODIFIED)) (\<lambda>_. Inr (put_cache k c h))))"

text \<open>
  \<^verbatim>\<open>writeCacheBlock\<close>; a write-through cache passes the data on to the next level. \<open>data_buf\<close> is
  \<open>None\<close> for a null pointer.
\<close>

primrec write_block ::
  "nat \<Rightarrow> nat \<Rightarrow> intptr \<Rightarrow> u32 \<Rightarrow> byte list option \<Rightarrow> u32 \<Rightarrow> 'd hierarchy \<Rightarrow> cc_error + 'd hierarchy" where
  "write_block 0 k address offset data_buf data_length h = Inl (Failed No_Return)"
| "write_block (Suc n) k address offset data_buf data_length h =
     bindC (case cm_evicting (master_of h k) of
              Some (a, buf) \<Rightarrow>
                if a = address then
                  bindC (lineC (offset = 0 \<and> data_length = cc_block_size (hi_cntlr h k))) (\<lambda>_.
                  Inr (case data_buf of None \<Rightarrow> h
                       | Some d \<Rightarrow> set_master k (\<lambda>m. m\<lparr>cm_evicting := Some (a, mem_copy buf 0 d 0 (unat data_length))\<rparr>) h))
                else store_line k address offset data_buf data_length h
            | None \<Rightarrow> store_line k address offset data_buf data_length h) (\<lambda>h1.
     if cc_writethrough (hi_cntlr h k)
     then (case cc_next (hi_cntlr h k) of
             None \<Rightarrow> Inl (Failed Null_Pointer)
           | Some j \<Rightarrow> write_block n j address offset data_buf data_length h1)
     else Inr h1)"

definition writeCacheBlock ::
  "'d cc_env \<Rightarrow> nat \<Rightarrow> intptr \<Rightarrow> u32 \<Rightarrow> byte list option \<Rightarrow> u32 \<Rightarrow> 'd hierarchy \<Rightarrow> cc_error + 'd hierarchy" where
  "writeCacheBlock env k address offset data_buf data_length h =
     write_block (ce_levels env) k address offset data_buf data_length h"

section \<open>Updates that go to the previous levels\<close>

text \<open>A call on each previous level: the largest latency, and whether one of the calls hit.\<close>

primrec each_prev ::
  "(nat \<Rightarrow> 'd hierarchy \<Rightarrow> cc_error + (subsecond \<times> bool \<times> 'd hierarchy)) \<Rightarrow> nat list \<Rightarrow> 'd hierarchy
     \<Rightarrow> cc_error + (subsecond \<times> bool \<times> 'd hierarchy)" where
  "each_prev f [] h = Inr (0, False, h)"
| "each_prev f (j # js) h =
     bindC (f j h) (\<lambda>(latency, hit, h1).
     bindC (each_prev f js h1) (\<lambda>(latency', hit', h2). Inr (max latency latency', hit \<or> hit', h2)))"

text \<open>The data of a modified line goes to the next level, or to the buffer that the caller passed.\<close>

definition write_back ::
  "'d cc_env \<Rightarrow> nat \<Rightarrow> intptr \<Rightarrow> byte list option \<Rightarrow> 'd hierarchy \<Rightarrow> cc_error + (bool \<times> byte list option \<times> 'd hierarchy)" where
  "write_back env k address out_buf h =
     (if cc_writethrough (hi_cntlr h k) then Inr (False, out_buf, h)
      else case cc_next (hi_cntlr h k) of
        Some j \<Rightarrow>
          bindC (retrieveCacheBlock k address (local_buf env k h) False h) (\<lambda>(d, h1).
          bindC (writeCacheBlock env j address 0 (Some d) (cc_block_size (hi_cntlr h1 k)) h1) (\<lambda>h2.
          Inr (True, out_buf, h2)))
      | None \<Rightarrow>
          (case out_buf of
             Some b \<Rightarrow> bindC (retrieveCacheBlock k address b False h) (\<lambda>(d, h1). Inr (True, Some d, h1))
           | None \<Rightarrow> Inl Bad_Line))"

definition copy_out :: "nat \<Rightarrow> intptr \<Rightarrow> byte list option \<Rightarrow> 'd hierarchy \<Rightarrow> cc_error + (bool \<times> byte list option \<times> 'd hierarchy)" where
  "copy_out k address out_buf h =
     (case out_buf of
        None \<Rightarrow> Inr (False, None, h)
      | Some b \<Rightarrow> bindC (retrieveCacheBlock k address b False h) (\<lambda>(d, h1). Inr (True, Some d, h1)))"

text \<open>
  The change of state of a line that is present: whether data was moved, the buffer, and the heap.
\<close>

definition change_state ::
  "'d cc_env \<Rightarrow> nat \<Rightarrow> intptr \<Rightarrow> line_ptr \<Rightarrow> cstate_t \<Rightarrow> byte list option \<Rightarrow> 'd hierarchy
     \<Rightarrow> cc_error + (bool \<times> byte list option \<times> 'd hierarchy)" where
  "change_state env k address p new_cstate out_buf h =
     bindC (if m_cstate (deref (cache_of h k) p) = MODIFIED
            then bindC (write_back env k address out_buf h) (\<lambda>(w, out, h1). Inr (w, out, setCState k p SHARED h1))
            else Inr (False, out_buf, h)) (\<lambda>(w1, out1, h1).
     case new_cstate of
       INVALID \<Rightarrow>
         bindC (copy_out k address out1 h1) (\<lambda>(w2, out2, h2).
         bindC (if cc_coherent (hi_cntlr h2 k) then invalidateCacheBlock k address h2 else Inr h2) (\<lambda>h3.
         Inr (w1 \<or> w2, out2, h3)))
     | SHARED \<Rightarrow>
         bindC (copy_out k address out1 h1) (\<lambda>(w2, out2, h2). Inr (w1 \<or> w2, out2, setCState k p SHARED h2))
     | MODIFIED \<Rightarrow> Inr (w1, out1, setCState k p MODIFIED h1)
     | _ \<Rightarrow> Inl Bad_Line)"

text \<open>
  \<^verbatim>\<open>updateCacheBlock\<close> without the calls on the previous levels. The buffer, when there is one, must
  have been written to: data was moved, by a cache that has no next level or by \<open>copy_out\<close>.
\<close>

definition update_own ::
  "'d cc_env \<Rightarrow> nat \<Rightarrow> intptr \<Rightarrow> cstate_t \<Rightarrow> byte list option \<Rightarrow> bool \<Rightarrow> 'd hierarchy
     \<Rightarrow> cc_error + (subsecond \<times> bool \<times> byte list option \<times> 'd hierarchy)" where
  "update_own env k address new_cstate out_buf sibling_hit h =
     bindC (getCacheBlockInfo k address h) (\<lambda>p.
     bindC (case p of
              None \<Rightarrow> bindC (lineC (out_buf = None)) (\<lambda>_. Inr (False, out_buf, h))
            | Some q \<Rightarrow>
                if new_cstate = m_cstate (deref (cache_of h k) q) \<and> out_buf \<noteq> None
                then copy_out k address out_buf h
                else change_state env k address q new_cstate out_buf h) (\<lambda>(moved, out, h1).
     bindC (getCacheState k address h1) (\<lambda>cstate.
     bindC (lineC (cstate = INVALID \<or> cstate = new_cstate \<or> \<not> cc_coherent (hi_cntlr h1 k))) (\<lambda>_.
     bindC (lineC (out_buf = None \<or> new_cstate \<noteq> MODIFIED \<or> moved)) (\<lambda>_.
     Inr (if moved then cc_writeback_time (hi_cntlr h1 k) else 0, sibling_hit \<or> moved, out, h1))))))"

primrec update_block ::
  "nat \<Rightarrow> 'd cc_env \<Rightarrow> nat \<Rightarrow> intptr \<Rightarrow> cstate_t \<Rightarrow> byte list option \<Rightarrow> 'd hierarchy
     \<Rightarrow> cc_error + (subsecond \<times> bool \<times> byte list option \<times> 'd hierarchy)" where
  "update_block 0 env k address new_cstate out_buf h = Inl (Failed No_Return)"
| "update_block (Suc n) env k address new_cstate out_buf h =
     bindC (each_prev (\<lambda>j h. bindC (update_block n env j address new_cstate None h) (\<lambda>(latency, hit, _, h'). Inr (latency, hit, h')))
              (cm_prevs (master_of h k)) h) (\<lambda>(_, sibling_hit, h1).
     update_own env k address new_cstate out_buf sibling_hit h1)"

definition updateCacheBlock ::
  "'d cc_env \<Rightarrow> nat \<Rightarrow> intptr \<Rightarrow> cstate_t \<Rightarrow> byte list option \<Rightarrow> 'd hierarchy
     \<Rightarrow> cc_error + (subsecond \<times> bool \<times> byte list option \<times> 'd hierarchy)" where
  "updateCacheBlock env k address new_cstate out_buf h = update_block (ce_levels env) env k address new_cstate out_buf h"

text \<open>The loops over the previous levels other than the one that sent the request.\<close>

definition snoop ::
  "'d cc_env \<Rightarrow> nat \<Rightarrow> (nat \<Rightarrow> bool) \<Rightarrow> intptr \<Rightarrow> cstate_t \<Rightarrow> spm_thread \<Rightarrow> 'd hierarchy \<Rightarrow> cc_error + (bool \<times> 'd hierarchy)" where
  "snoop env k asked address new_cstate thread h =
     bindC (each_prev (\<lambda>j h. bindC (updateCacheBlock env j address new_cstate None h) (\<lambda>(latency, hit, _, h'). Inr (latency, hit, h')))
              (filter asked (cm_prevs (master_of h k))) h) (\<lambda>(latency, hit, h1).
     bindC (incrElapsedTime k latency thread h1) (\<lambda>h2. Inr (hit, h2)))"

section \<open>Messages to the tag directory\<close>

definition cc_sendMsg ::
  "nat \<Rightarrow> msg_t \<Rightarrow> core_id \<Rightarrow> core_id \<Rightarrow> intptr \<Rightarrow> byte list option \<Rightarrow> u32 \<Rightarrow> spm_thread \<Rightarrow> 'd hierarchy \<Rightarrow> cc_error + 'd hierarchy" where
  "cc_sendMsg k msg_type requester receiver address data_buf data_length thread h =
     bindC (liftC (assertR ((data_buf = None) = (data_length = 0)))) (\<lambda>_.
     Inr (h\<lparr>hi_outbox := hi_outbox h @
       [\<lparr>pk_time = now k thread h, pk_receiver = receiver,
         pk_msg = \<lparr>sm_type = msg_type, sm_sender_component = MC_LAST_LEVEL_CACHE,
           sm_receiver_component = TAG_DIR, sm_requester = requester, sm_where = UNKNOWN,
           sm_address = address, sm_data_buf = data_buf, sm_data_length = data_length\<rparr>\<rparr>]\<rparr>))"

definition charge_perf :: "nat \<Rightarrow> subsecond \<Rightarrow> 'd hierarchy \<Rightarrow> 'd hierarchy" where
  "charge_perf k time h =
     set_cntlr k (\<lambda>c. c\<lparr>cc_shmem_perf := sp_updateTime (cc_shmem_perf c) time UNKNOWN_TIME\<rparr>) h"

definition processExReqToDirectory :: "'d cc_env \<Rightarrow> nat \<Rightarrow> intptr \<Rightarrow> 'd hierarchy \<Rightarrow> cc_error + 'd hierarchy" where
  "processExReqToDirectory env k address h =
     bindC (getCacheState k address h) (\<lambda>cstate.
     bindC (lineC (cstate = INVALID)) (\<lambda>_.
     cc_sendMsg k EX_REQ (cc_core_id_master (hi_cntlr h k)) (ce_home env address) address None 0 USER_THREAD
       (charge_perf k (now k USER_THREAD h) h)))"

text \<open>\<open>p\<close> is the controller whose record of times is charged.\<close>

definition processUpgradeReqToDirectory ::
  "'d cc_env \<Rightarrow> nat \<Rightarrow> intptr \<Rightarrow> nat \<Rightarrow> spm_thread \<Rightarrow> 'd hierarchy \<Rightarrow> cc_error + 'd hierarchy" where
  "processUpgradeReqToDirectory env k address p thread h =
     bindC (getCacheState k address h) (\<lambda>cstate.
     bindC (lineC (cstate = SHARED)) (\<lambda>_.
     bindC (setCacheState k address SHARED_UPGRADING h) (\<lambda>(_, h1).
     cc_sendMsg k UPGRADE_REQ (cc_core_id_master (hi_cntlr h1 k)) (ce_home env address) address None 0 thread
       (charge_perf p (now k thread h1) h1))))"

definition processShReqToDirectory :: "'d cc_env \<Rightarrow> nat \<Rightarrow> intptr \<Rightarrow> 'd hierarchy \<Rightarrow> cc_error + 'd hierarchy" where
  "processShReqToDirectory env k address h =
     cc_sendMsg k SH_REQ (cc_core_id_master (hi_cntlr h k)) (ce_home env address) address None 0 USER_THREAD
       (charge_perf k (now k USER_THREAD h) h)"

definition reset_perf :: "nat \<Rightarrow> 'd hierarchy \<Rightarrow> 'd hierarchy" where
  "reset_perf k h =
     set_cntlr k (\<lambda>c. c\<lparr>cc_shmem_perf := sp_reset (cc_shmem_perf c) (now k USER_THREAD h) (cc_core_id c)\<rparr>) h"

definition initiateDirectoryAccess ::
  "'d cc_env \<Rightarrow> nat \<Rightarrow> mem_op_t \<Rightarrow> intptr \<Rightarrow> bool \<Rightarrow> subsecond \<Rightarrow> 'd hierarchy \<Rightarrow> cc_error + 'd hierarchy" where
  "initiateDirectoryAccess env k mem_op address is_prefetch t_issue h =
     (let exclusive = (mem_op \<noteq> READ);
          request = \<lparr>dw_exclusive = exclusive, dw_is_prefetch = is_prefetch, dw_cntlr = k, dw_t_issue = t_issue\<rparr>;
          h1 = set_master k (\<lambda>m. m\<lparr>cm_waiters := rq_enqueue (cm_waiters m) address request\<rparr>) h
      in if rq_size (cm_waiters (master_of h1 k)) address = 1
         then let h2 = reset_perf k h1
              in if exclusive
                 then bindC (getCacheBlockInfo k address h2) (\<lambda>p.
                      if state_at k p h2 = SHARED then processUpgradeReqToDirectory env k address k USER_THREAD h2
                      else processExReqToDirectory env k address h2)
                 else processShReqToDirectory env k address h2
         else Inr h1)"

section \<open>DRAM\<close>

text \<open>A read into the buffer or a write from it: the place of the hit and the latency.\<close>

definition accessDRAM ::
  "'d cc_env \<Rightarrow> nat \<Rightarrow> mem_op_t \<Rightarrow> intptr \<Rightarrow> byte list \<Rightarrow> 'd hierarchy
     \<Rightarrow> cc_error + (where_t \<times> subsecond \<times> byte list \<times> 'd hierarchy)" where
  "accessDRAM env k mem_op address data_buf h =
     (let c = hi_cntlr h k; t_issue = now k USER_THREAD h
      in if mem_op = READ
         then bindC (liftC (ce_get env (hi_dram h) address (cc_core_id_master c) (Some data_buf) t_issue (Some (cc_shmem_perf c))))
                (\<lambda>(latency, hit_where, out, perf, d).
              Inr (hit_where, latency, the out,
                (set_cntlr k (\<lambda>c. c\<lparr>cc_shmem_perf := the perf\<rparr>) h)\<lparr>hi_dram := d\<rparr>))
         else bindC (liftC (ce_put env (hi_dram h) address (cc_core_id_master c) (Some data_buf) t_issue)) (\<lambda>(latency, hit_where, d).
              Inr (hit_where, latency, data_buf, h\<lparr>hi_dram := d\<rparr>)))"

section \<open>Insertion and eviction\<close>

text \<open>The lookups that the replacement policy makes in the previous levels, and their cost.\<close>

definition in_prev_cache :: "nat \<Rightarrow> 'd hierarchy \<Rightarrow> cache_block_info \<Rightarrow> bool" where
  "in_prev_cache k h b =
     (let address = tagToAddress (c_base (cache_of h k)) (m_tag b)
      in list_ex (\<lambda>j. case getCacheBlockInfo j address h of Inr (Some _) \<Rightarrow> True | _ \<Rightarrow> False) (cm_prevs (master_of h k)))"

definition evict_dirty_to_dram :: "'d cc_env \<Rightarrow> nat \<Rightarrow> intptr \<Rightarrow> byte list \<Rightarrow> 'd hierarchy \<Rightarrow> cc_error + 'd hierarchy" where
  "evict_dirty_to_dram env k evict_address evict_buf h =
     (let t_now = now k USER_THREAD h; buffers = cm_dram_writebacks (master_of h k)
      in bindC (case buffers of None \<Rightarrow> Inr h
                | Some q \<Rightarrow> incrElapsedTime k (getStartTime q t_now - t_now) USER_THREAD h) (\<lambda>h1.
         bindC (accessDRAM env k WRITE evict_address evict_buf h1) (\<lambda>(_, dram_latency, _, h2).
         Inr (set_master k (\<lambda>m. m\<lparr>cm_dram_writebacks :=
           map_option (\<lambda>q. snd (getCompletionTime q t_now dram_latency 0)) (cm_dram_writebacks m)\<rparr>) h2))))"

text \<open>The last part of an eviction: what happens with the line that left the cache.\<close>

definition dispose_line ::
  "'d cc_env \<Rightarrow> nat \<Rightarrow> intptr \<Rightarrow> cstate_t \<Rightarrow> byte list \<Rightarrow> spm_thread \<Rightarrow> 'd hierarchy \<Rightarrow> cc_error + 'd hierarchy" where
  "dispose_line env k evict_address cstate evict_buf thread h =
     (let c = hi_cntlr h k
      in if cc_perfect c then Inr h
         else if \<not> cc_coherent c then bindC (lineC (cc_writethrough c \<or> cstate \<noteq> MODIFIED)) (\<lambda>_. Inr h)
         else case cc_next c of
           Some j \<Rightarrow>
             if \<not> cc_writethrough c \<and> cstate = MODIFIED
             then writeCacheBlock env j evict_address 0 (Some evict_buf) (cc_block_size c) h else Inr h
         | None \<Rightarrow>
             if cm_dram (master_of h k)
             then if cstate = MODIFIED then evict_dirty_to_dram env k evict_address evict_buf h else Inr h
             else
               let h1 = set_cntlr k (\<lambda>c. c\<lparr>cc_dummy_shmem_perf :=
                          sp_updateTime (cc_dummy_shmem_perf c) (now k thread h) UNKNOWN_TIME\<rparr>) h
               in if cstate = MODIFIED
                  then cc_sendMsg k FLUSH_REP (cc_core_id c) (ce_home env evict_address) evict_address
                         (Some evict_buf) (cc_block_size c) thread h1
                  else bindC (lineC (cstate = SHARED \<or> cstate = EXCLUSIVE)) (\<lambda>_.
                       cc_sendMsg k INV_REP (cc_core_id c) (ce_home env evict_address) evict_address None 0 thread h1))"

definition evict_line ::
  "'d cc_env \<Rightarrow> nat \<Rightarrow> intptr \<Rightarrow> cstate_t \<Rightarrow> byte list \<Rightarrow> spm_thread \<Rightarrow> 'd hierarchy \<Rightarrow> cc_error + 'd hierarchy" where
  "evict_line env k evict_address cstate evict_buf thread h =
     bindC (if cm_prevs (master_of h k) = [] then Inr (evict_buf, h)
            else
              bindC (snoop env k (\<lambda>_. True) evict_address INVALID thread
                       (set_master k (\<lambda>m. m\<lparr>cm_evicting := Some (evict_address, evict_buf)\<rparr>) h)) (\<lambda>(_, h1).
              Inr (snd (the (cm_evicting (master_of h1 k))), set_master k (\<lambda>m. m\<lparr>cm_evicting := None\<rparr>) h1))) (\<lambda>(buf, h2).
     bindC (dispose_line env k evict_address cstate buf thread h2) (\<lambda>h3.
     bindC (getCacheState k evict_address h3) (\<lambda>st.
     bindC (lineC (st = INVALID)) (\<lambda>_. Inr h3))))"

primrec qbs_costs :: "nat \<Rightarrow> nat \<Rightarrow> 'd hierarchy \<Rightarrow> cc_error + 'd hierarchy" where
  "qbs_costs k 0 h = Inr h"
| "qbs_costs k (Suc n) h =
     bindC (incrElapsedTime k (cc_writeback_time (hi_cntlr h k)) USER_THREAD h) (\<lambda>h1. qbs_costs k n h1)"

text \<open>\<open>data_buf\<close> is \<open>None\<close> for a null pointer. The line that is returned is the one of the address.\<close>

definition insertCacheBlock ::
  "'d cc_env \<Rightarrow> nat \<Rightarrow> intptr \<Rightarrow> cstate_t \<Rightarrow> byte list option \<Rightarrow> spm_thread \<Rightarrow> 'd hierarchy
     \<Rightarrow> cc_error + (line_ptr \<times> 'd hierarchy)" where
  "insertCacheBlock env k address cstate data_buf thread h =
     bindC (getCacheState k address h) (\<lambda>st.
     bindC (lineC (st = INVALID)) (\<lambda>_.
     bindC (liftC (CacheBlockInfo_create SHARED_CACHE)) (\<lambda>b0.
     bindC (liftC (outcomeR (insertSingleLine (cache_of h k) address data_buf b0 (Some (local_buf env k h))
              (Some \<lparr>isInLowerLevelCache = in_prev_cache k h, qbs_lookups = 0\<rparr>)))) (\<lambda>(eviction, evict_address, evict_info, evict_buf, c, cn).
     bindC (qbs_costs k (case cn of None \<Rightarrow> 0 | Some x \<Rightarrow> qbs_lookups x) (put_cache k c h)) (\<lambda>h1.
     bindC (setCacheState k address cstate h1) (\<lambda>(p, h2).
     let h3 = (if ce_cache_only env then set_line k p (\<lambda>b. setOption b WARMUP) h2 else h2) in
     bindC (if eviction then evict_line env k evict_address (m_cstate evict_info) (the evict_buf) thread h3 else Inr h3) (\<lambda>h4.
     Inr (p, h4))))))))"

section \<open>Outstanding misses\<close>

definition mshr_delay :: "nat \<Rightarrow> intptr \<Rightarrow> spm_thread \<Rightarrow> 'd hierarchy \<Rightarrow> subsecond option" where
  "mshr_delay k address thread h =
     (case map_of (cm_mshr (master_of h k)) address of
        None \<Rightarrow> None
      | Some (t_issue, t_complete) \<Rightarrow>
          let t_now = now k thread h in if t_issue < t_now \<and> t_complete > t_now then Some (t_complete - t_now) else None)"

definition mshr_min :: "(intptr \<times> subsecond \<times> subsecond) list \<Rightarrow> intptr" where
  "mshr_min es = fst (fold (\<lambda>(a, _, t) (a', t'). if t < t' then (a, t) else (a', t')) es (0, ST_MaxTime))"

text \<open>The loop does not end when no entry is completed before the largest time and none has address 0.\<close>

primrec mshr_shrink :: "nat \<Rightarrow> (intptr \<times> subsecond \<times> subsecond) list \<Rightarrow> cc_error + (intptr \<times> subsecond \<times> subsecond) list" where
  "mshr_shrink 0 es = (if length es > 8 then Inl (Failed No_Return) else Inr es)"
| "mshr_shrink (Suc n) es =
     (if length es > 8 then mshr_shrink n (filter (\<lambda>e. fst e \<noteq> mshr_min es) es) else Inr es)"

definition cleanupMshr :: "nat \<Rightarrow> 'd hierarchy \<Rightarrow> cc_error + 'd hierarchy" where
  "cleanupMshr k h =
     bindC (mshr_shrink (length (cm_mshr (master_of h k))) (cm_mshr (master_of h k))) (\<lambda>es.
     Inr (set_master k (\<lambda>m. m\<lparr>cm_mshr := es\<rparr>) h))"

definition make_mshr :: "nat \<Rightarrow> intptr \<Rightarrow> subsecond \<Rightarrow> subsecond \<Rightarrow> 'd hierarchy \<Rightarrow> 'd hierarchy" where
  "make_mshr k address t_issue t_complete h =
     set_master k (\<lambda>m. m\<lparr>cm_mshr := AList.update address (t_issue, t_complete) (cm_mshr m)\<rparr>) h"

text \<open>\<^verbatim>\<open>updateCounters\<close> of the cache and of the controller.\<close>

definition count_access :: "nat \<Rightarrow> bool \<Rightarrow> bool \<Rightarrow> 'd hierarchy \<Rightarrow> cc_error + 'd hierarchy" where
  "count_access k demand cache_hit h =
     cleanupMshr k (if demand then put_cache k (updateCounters (cache_of h k) cache_hit) h else h)"

primrec cc_updateHits :: "nat \<Rightarrow> nat \<Rightarrow> 'd hierarchy \<Rightarrow> cc_error + 'd hierarchy" where
  "cc_updateHits k 0 h = Inr h"
| "cc_updateHits k (Suc hits) h = bindC (count_access k True True h) (\<lambda>h1. cc_updateHits k hits h1)"

definition updateUncoreStatistics :: "nat \<Rightarrow> where_t \<Rightarrow> subsecond \<Rightarrow> 'd hierarchy \<Rightarrow> 'd hierarchy" where
  "updateUncoreStatistics k hit_where time h =
     set_cntlr k (\<lambda>c0. let c = c0\<lparr>cc_last_remote_hit_where := hit_where\<rparr> in
       if sp_time_begin (cc_shmem_perf c) > 0
       then c\<lparr>cc_shmem_perf_global := sp_add (cc_shmem_perf_global c) (sp_disable (cc_shmem_perf c)),
              cc_shmem_perf_totaltime := cc_shmem_perf_totaltime c + (time - sp_time_begin (cc_shmem_perf c)),
              cc_shmem_perf_numrequests := cc_shmem_perf_numrequests c + 1,
              cc_shmem_perf := sp_reset (sp_disable (cc_shmem_perf c)) 0 INVALID_CORE_ID\<rparr>
       else c) h"

section \<open>Requests of the previous level\<close>

definition copyDataFromNextLevel ::
  "'d cc_env \<Rightarrow> nat \<Rightarrow> mem_op_t \<Rightarrow> intptr \<Rightarrow> bool \<Rightarrow> subsecond \<Rightarrow> 'd hierarchy \<Rightarrow> cc_error + 'd hierarchy" where
  "copyDataFromNextLevel env k mem_op address modeled t_now h =
     (case cc_next (hi_cntlr h k) of
        None \<Rightarrow> Inl (Failed Null_Pointer)
      | Some j \<Rightarrow>
          bindC (operationPermissibleinCache j address mem_op h) (\<lambda>(permissible, _).
          bindC (lineC permissible) (\<lambda>_.
          bindC (retrieveCacheBlock j address (local_buf env j h) False h) (\<lambda>(data_buf, h1).
          bindC (getCacheState j address h1) (\<lambda>cstate.
          bindC (if modeled \<and> cc_bandwidth (hi_cntlr h1 k) \<noteq> 0
                 then bindC (liftC (bwc_getRoundedLatency (cc_bandwidth_period (hi_cntlr h1 k)) (cc_bandwidth (hi_cntlr h1 k))
                             (ucast (cc_block_size (hi_cntlr h1 k)) * 8))) (\<lambda>delay.
                      let (t_done, q) = getCompletionTime (cm_bandwidth (master_of h1 k)) t_now delay 0 in
                      bindC (liftC (assertR (t_done \<ge> t_now + delay))) (\<lambda>_.
                      incrElapsedTime k (t_done - t_now - delay) USER_THREAD (set_master k (\<lambda>m. m\<lparr>cm_bandwidth := q\<rparr>) h1)))
                 else Inr h1) (\<lambda>h2.
          bindC (getCacheBlockInfo k address h2) (\<lambda>p.
          if p \<noteq> None
          then bindC (updateCacheBlock env k address cstate None h2) (\<lambda>(_, _, _, h3). Inr h3)
          else bindC (insertCacheBlock env k address cstate (Some data_buf) USER_THREAD h2) (\<lambda>(_, h3). Inr h3))))))))"

primrec prefetch_candidates :: "nat \<Rightarrow> intptr list \<Rightarrow> intptr list \<Rightarrow> 'd hierarchy \<Rightarrow> cc_error + intptr list" where
  "prefetch_candidates k [] acc h = Inr acc"
| "prefetch_candidates k (a # as) acc h =
     (if length acc > 32 then Inr acc
      else bindC (operationPermissibleinCache k a READ h) (\<lambda>(permissible, _).
           prefetch_candidates k as (if permissible then acc else acc @ [a]) h))"

definition trainPrefetcher ::
  "'d cc_env \<Rightarrow> nat \<Rightarrow> intptr \<Rightarrow> bool \<Rightarrow> bool \<Rightarrow> subsecond \<Rightarrow> 'd hierarchy \<Rightarrow> cc_error + 'd hierarchy" where
  "trainPrefetcher env k address cache_hit prefetch_hit t_issue h =
     (case cm_prefetcher (master_of h k) of
        None \<Rightarrow> Inr h
      | Some pf \<Rightarrow>
          bindC (liftC (getNextAddress (ce_abs env) pf address (cc_core_id (hi_cntlr h k)))) (\<lambda>(addresses, pf').
          let h1 = set_master k (\<lambda>m. m\<lparr>cm_prefetcher := Some pf'\<rparr>) h in
          if \<not> cache_hit \<or> (cc_prefetch_on_prefetch_hit (hi_cntlr h k) \<and> prefetch_hit)
          then bindC (prefetch_candidates k addresses [] h1) (\<lambda>l.
               Inr (set_master k (\<lambda>m. m\<lparr>cm_prefetch_list := l, cm_prefetch_next := t_issue + ST_NS 1\<rparr>) h1))
          else Inr h1))"

text \<open>The line is there: the options of the line, the delay, and the other previous levels.\<close>

definition shmem_hit ::
  "'d cc_env \<Rightarrow> nat \<Rightarrow> nat \<Rightarrow> mem_op_t \<Rightarrow> intptr \<Rightarrow> line_ptr \<Rightarrow> bool \<Rightarrow> bool \<Rightarrow> 'd hierarchy
     \<Rightarrow> cc_error + (where_t \<times> bool \<times> 'd hierarchy)" where
  "shmem_hit env k requester mem_op address p modeled demand h =
     (let b = deref (cache_of h k) p;
          prefetch_hit = (demand \<and> hasOption b PREFETCH);
          h1 = (if prefetch_hit then set_line k p (\<lambda>b. clearOption b PREFETCH) h else h);
          h2 = (if hasOption b WARMUP \<and> \<not> ce_cache_only env then set_line k p (\<lambda>b. clearOption b WARMUP) h1 else h1)
      in bindC (if modeled
                then case mshr_delay k address USER_THREAD h2 of
                       Some latency \<Rightarrow> incrElapsedTime k latency USER_THREAD h2
                     | None \<Rightarrow> incr_access k ACCESS_CACHE_DATA_AND_TAGS USER_THREAD h2
                else Inr h2) (\<lambda>h3.
         bindC (if mem_op \<noteq> READ then snoop env k (\<lambda>j. j \<noteq> requester) address INVALID USER_THREAD h3
                else if m_cstate b = MODIFIED \<or> m_cstate b = EXCLUSIVE
                then snoop env k (\<lambda>j. j \<noteq> requester) address SHARED USER_THREAD h3
                else Inr (False, h3)) (\<lambda>(sibling_hit, h4).
         let remote = cc_last_remote_hit_where (hi_cntlr h4 k)
         in if remote \<noteq> UNKNOWN
            then Inr (remote, prefetch_hit, set_cntlr k (\<lambda>c. c\<lparr>cc_last_remote_hit_where := UNKNOWN\<rparr>) h4)
            else Inr (hit_at (cc_component (hi_cntlr h4 k)) sibling_hit, prefetch_hit, h4))))"

definition mark_prefetched :: "nat \<Rightarrow> intptr \<Rightarrow> bool \<Rightarrow> 'd hierarchy \<Rightarrow> cc_error + 'd hierarchy" where
  "mark_prefetched k address is_prefetch h =
     (if is_prefetch
      then bindC (getCacheBlockInfo k address h) (\<lambda>p.
           bindC (the_line p) (\<lambda>q. Inr (set_line k q (\<lambda>b. setOption b PREFETCH) h)))
      else Inr h)"

text \<open>The last level does not have what is asked for: whether the line is there now, and where it was.\<close>

definition last_level_miss ::
  "'d cc_env \<Rightarrow> nat \<Rightarrow> nat \<Rightarrow> mem_op_t \<Rightarrow> intptr \<Rightarrow> line_ptr option \<Rightarrow> bool \<Rightarrow> subsecond \<Rightarrow> 'd hierarchy
     \<Rightarrow> cc_error + (where_t \<times> bool \<times> 'd hierarchy)" where
  "last_level_miss env k requester mem_op address p is_prefetch t_issue h =
     (let own = hit_at (cc_component (hi_cntlr h k)) False
      in case p of
           Some q \<Rightarrow>
             if m_cstate (deref (cache_of h k) q) = EXCLUSIVE
             then bindC (snoop env k (\<lambda>j. j \<noteq> requester) address INVALID USER_THREAD h) (\<lambda>(_, h1).
                  Inr (own, True, setCState k q MODIFIED h1))
             else if cm_dram (master_of h k) then Inr (own, True, setCState k q MODIFIED h)
             else bindC (initiateDirectoryAccess env k mem_op address is_prefetch t_issue h) (\<lambda>h1. Inr (MISS, False, h1))
         | None \<Rightarrow>
             if cm_dram (master_of h k)
             then bindC (accessDRAM env k READ address (local_buf env k h) (reset_perf k h)) (\<lambda>(hit_where, latency, data_buf, h1).
                  bindC (incrElapsedTime k latency USER_THREAD h1) (\<lambda>h2.
                  bindC (insertCacheBlock env k address (if mem_op = READ then SHARED else MODIFIED) (Some data_buf) USER_THREAD h2) (\<lambda>(_, h3).
                  bindC (mark_prefetched k address is_prefetch h3) (\<lambda>h4.
                  Inr (hit_where, True, updateUncoreStatistics k hit_where (now k USER_THREAD h4) h4)))))
             else bindC (initiateDirectoryAccess env k mem_op address is_prefetch t_issue h) (\<lambda>h1. Inr (MISS, False, h1)))"

text \<open>
  A perfect cache turns a miss into a hit, a cache that is passed through turns a hit into a miss:
  whether the access hits, whether it hit at first, and the line.
\<close>

definition perfect_line ::
  "'d cc_env \<Rightarrow> nat \<Rightarrow> mem_op_t \<Rightarrow> intptr \<Rightarrow> line_ptr option \<Rightarrow> 'd hierarchy \<Rightarrow> cc_error + (line_ptr \<times> 'd hierarchy)" where
  "perfect_line env k mem_op address p h =
     (case p of
        Some q \<Rightarrow> Inr (q, setCState k q MODIFIED h)
      | None \<Rightarrow> insertCacheBlock env k address (if mem_op = READ then SHARED else MODIFIED) None USER_THREAD h)"

definition shmem_start ::
  "'d cc_env \<Rightarrow> nat \<Rightarrow> mem_op_t \<Rightarrow> intptr \<Rightarrow> bool \<Rightarrow> 'd hierarchy
     \<Rightarrow> cc_error + (bool \<times> bool \<times> line_ptr option \<times> 'd hierarchy)" where
  "shmem_start env k mem_op address count h =
     bindC (operationPermissibleinCache k address mem_op h) (\<lambda>(hit, p).
     if \<not> hit \<and> cc_perfect (hi_cntlr h k)
     then bindC (perfect_line env k mem_op address p h) (\<lambda>(q, h1). Inr (True, False, Some q, h1))
     else if hit \<and> cc_passthrough (hi_cntlr h k) \<and> count
     then bindC (the_line p) (\<lambda>q.
          bindC (lineC (cc_next (hi_cntlr h k) \<noteq> None)) (\<lambda>_.
          Inr (False, False, None, set_line k q invalidate_block h)))
     else Inr (hit, hit, p, h))"

text \<open>
  The line is not there, or not in a state that permits the operation. \<open>ask\<close> sends the request to the
  next level.
\<close>

definition shmem_miss ::
  "'d cc_env \<Rightarrow> (nat \<Rightarrow> 'd hierarchy \<Rightarrow> cc_error + (where_t \<times> 'd hierarchy)) \<Rightarrow> nat \<Rightarrow> nat \<Rightarrow> mem_op_t \<Rightarrow> intptr
     \<Rightarrow> line_ptr option \<Rightarrow> bool \<Rightarrow> bool \<Rightarrow> subsecond \<Rightarrow> 'd hierarchy \<Rightarrow> cc_error + (where_t \<times> bool \<times> 'd hierarchy)" where
  "shmem_miss env ask k requester mem_op address p modeled is_prefetch t_issue h =
     bindC (if modeled then incr_access k ACCESS_CACHE_TAGS USER_THREAD h else Inr h) (\<lambda>h1.
     bindC (if state_at k p h1 = SHARED
            then bindC (snoop env k (\<lambda>j. j \<noteq> requester) address INVALID USER_THREAD h1) (\<lambda>(_, h'). Inr h')
            else Inr h1) (\<lambda>h2.
     case cc_next (hi_cntlr h2 k) of
       Some j \<Rightarrow>
         bindC (if p = None then Inr h2 else invalidateCacheBlock k address h2) (\<lambda>h3.
         bindC (ask j h3) (\<lambda>(w, h4).
         if w = MISS then Inr (w, False, h4)
         else bindC (copyDataFromNextLevel env k mem_op address modeled (now k USER_THREAD h4) h4) (\<lambda>h5.
              bindC (mark_prefetched k address is_prefetch h5) (\<lambda>h6. Inr (w, True, h6)))))
     | None \<Rightarrow> last_level_miss env k requester mem_op address p is_prefetch t_issue h2))"

definition shmem_finish ::
  "'d cc_env \<Rightarrow> nat \<Rightarrow> intptr \<Rightarrow> bool \<Rightarrow> bool \<Rightarrow> bool \<Rightarrow> bool \<Rightarrow> bool \<Rightarrow> subsecond \<Rightarrow> 'd hierarchy \<Rightarrow> cc_error + 'd hierarchy" where
  "shmem_finish env k address modeled count first_hit there prefetch_hit t_issue h =
     bindC (if there
            then bindC (retrieveCacheBlock k address (local_buf env k h) (first_hit \<and> count) h) (\<lambda>(_, h1).
                 if modeled \<and> \<not> first_hit \<and> \<not> cc_passthrough (hi_cntlr h1 k)
                 then cleanupMshr k (make_mshr k address t_issue (now k USER_THREAD h1) h1) else Inr h1)
            else Inr h) (\<lambda>h2.
     if modeled then trainPrefetcher env k address there prefetch_hit t_issue h2 else Inr h2)"

primrec shmem_level ::
  "nat \<Rightarrow> 'd cc_env \<Rightarrow> nat \<Rightarrow> nat \<Rightarrow> mem_op_t \<Rightarrow> intptr \<Rightarrow> bool \<Rightarrow> bool \<Rightarrow> prefetch_type_t \<Rightarrow> subsecond \<Rightarrow> 'd hierarchy
     \<Rightarrow> cc_error + (where_t \<times> 'd hierarchy)" where
  "shmem_level 0 env k requester mem_op address modeled count is_prefetch t_issue h = Inl (Failed No_Return)"
| "shmem_level (Suc n) env k requester mem_op address modeled count is_prefetch t_issue h =
     bindC (shmem_start env k mem_op address count h) (\<lambda>(cache_hit, first_hit, p, h1).
     bindC (if count then count_access k (is_prefetch = PREFETCH_NONE) cache_hit h1 else Inr h1) (\<lambda>h2.
     bindC (if cache_hit
            then bindC (the_line p) (\<lambda>q.
                 bindC (shmem_hit env k requester mem_op address q modeled (is_prefetch = PREFETCH_NONE) h2)
                   (\<lambda>(w, prefetch_hit, h'). Inr (w, True, prefetch_hit, h')))
            else bindC (shmem_miss env
                     (\<lambda>j h. shmem_level n env j k mem_op address modeled count
                        (if is_prefetch = PREFETCH_NONE then PREFETCH_NONE else PREFETCH_OTHER) t_issue h)
                     k requester mem_op address p modeled (is_prefetch \<noteq> PREFETCH_NONE) t_issue h2)
                   (\<lambda>(w, there, h'). Inr (w, there, False, h'))) (\<lambda>(hit_where, there, prefetch_hit, h3).
     bindC (shmem_finish env k address modeled count first_hit there prefetch_hit t_issue h3) (\<lambda>h4.
     Inr (hit_where, h4)))))"

definition processShmemReqFromPrevCache ::
  "'d cc_env \<Rightarrow> nat \<Rightarrow> nat \<Rightarrow> mem_op_t \<Rightarrow> intptr \<Rightarrow> bool \<Rightarrow> bool \<Rightarrow> prefetch_type_t \<Rightarrow> subsecond \<Rightarrow> 'd hierarchy
     \<Rightarrow> cc_error + (where_t \<times> 'd hierarchy)" where
  "processShmemReqFromPrevCache env k requester mem_op address modeled count is_prefetch t_issue h =
     shmem_level (ce_levels env) env k requester mem_op address modeled count is_prefetch t_issue h"

section \<open>Prefetching\<close>

definition doPrefetch :: "'d cc_env \<Rightarrow> nat \<Rightarrow> intptr \<Rightarrow> subsecond \<Rightarrow> 'd hierarchy \<Rightarrow> cc_error + 'd hierarchy" where
  "doPrefetch env k prefetch_address t_start h =
     (let t_before = now k USER_THREAD h
      in bindC (processShmemReqFromPrevCache env k k READ prefetch_address True True PREFETCH_OWN t_start
                  (set_time k USER_THREAD t_start h)) (\<lambda>(w, h1).
         bindC (if w = MISS
                then bindC (ce_wait env k h1) (\<lambda>h2.
                     bindC (processShmemReqFromPrevCache env k k READ prefetch_address False False PREFETCH_OWN t_start h2) (\<lambda>(w', h3).
                     bindC (lineC (w' \<noteq> MISS)) (\<lambda>_. Inr h3)))
                else Inr h1) (\<lambda>h4.
         Inr (set_time k USER_THREAD t_before h4))))"

text \<open>The first address of the list that is not in the cache, and the rest of the list.\<close>

primrec next_prefetch :: "nat \<Rightarrow> intptr list \<Rightarrow> 'd hierarchy \<Rightarrow> cc_error + (intptr option \<times> intptr list)" where
  "next_prefetch k [] h = Inr (None, [])"
| "next_prefetch k (a # as) h =
     bindC (operationPermissibleinCache k a READ h) (\<lambda>(permissible, _).
     if permissible then next_prefetch k as h else Inr (Some a, as))"

primrec prefetch_levels :: "nat \<Rightarrow> 'd cc_env \<Rightarrow> nat \<Rightarrow> subsecond \<Rightarrow> 'd hierarchy \<Rightarrow> cc_error + 'd hierarchy" where
  "prefetch_levels 0 env k t_now h = Inl (Failed No_Return)"
| "prefetch_levels (Suc n) env k t_now h =
     bindC (if cm_prefetch_next (master_of h k) \<le> t_now
            then bindC (next_prefetch k (cm_prefetch_list (master_of h k)) h) (\<lambda>(a, as).
                 Inr (a, set_master k (\<lambda>m. m\<lparr>cm_prefetch_list := as\<rparr>) h))
            else Inr (None, h)) (\<lambda>(a, h1).
     bindC (case a of
              Some address \<Rightarrow>
                if address = INVALID_ADDRESS then Inr h1
                else bindC (doPrefetch env k address (cm_prefetch_next (master_of h1 k)) h1) (\<lambda>h2.
                     Inr (set_master k (\<lambda>m. m\<lparr>cm_prefetch_next := cm_prefetch_next m + ST_NS 1\<rparr>) h2))
            | None \<Rightarrow> Inr h1) (\<lambda>h3.
     case cc_next (hi_cntlr h3 k) of Some j \<Rightarrow> prefetch_levels n env j t_now h3 | None \<Rightarrow> Inr h3))"

definition Prefetch :: "'d cc_env \<Rightarrow> nat \<Rightarrow> subsecond \<Rightarrow> 'd hierarchy \<Rightarrow> cc_error + 'd hierarchy" where
  "Prefetch env k t_now h = prefetch_levels (ce_levels env) env k t_now h"

section \<open>Accesses of a core\<close>

definition accessCache ::
  "'d cc_env \<Rightarrow> nat \<Rightarrow> mem_op_t \<Rightarrow> intptr \<Rightarrow> u32 \<Rightarrow> byte list option \<Rightarrow> u32 \<Rightarrow> bool \<Rightarrow> 'd hierarchy
     \<Rightarrow> cc_error + (byte list option \<times> 'd hierarchy)" where
  "accessCache env k mem_op ca_address offset data_buf data_length update_replacement h =
     bindC (liftC (accessSingleLine (cache_of h k) (ca_address + ucast offset) (if mem_op = WRITE then STORE else LOAD)
              data_buf data_length update_replacement)) (\<lambda>(_, out, c).
     let h1 = put_cache k c h in
     if mem_op = WRITE \<and> cc_writethrough (hi_cntlr h k)
     then (case cc_next (hi_cntlr h k) of
             None \<Rightarrow> Inl (Failed Assert_Failed)
           | Some j \<Rightarrow> bindC (writeCacheBlock env j ca_address offset data_buf data_length h1) (\<lambda>h2. Inr (out, h2)))
     else Inr (out, h1))"

definition core_start ::
  "'d cc_env \<Rightarrow> nat \<Rightarrow> mem_op_t \<Rightarrow> intptr \<Rightarrow> 'd hierarchy \<Rightarrow> cc_error + (bool \<times> line_ptr option \<times> 'd hierarchy)" where
  "core_start env k mem_op address h =
     bindC (operationPermissibleinCache k address mem_op h) (\<lambda>(hit, p).
     if \<not> hit \<and> cc_perfect (hi_cntlr h k)
     then bindC (perfect_line env k mem_op address p h) (\<lambda>(q, h1). Inr (True, Some q, h1))
     else if hit \<and> cc_passthrough (hi_cntlr h k)
     then bindC (the_line p) (\<lambda>q. Inr (False, None, set_line k q invalidate_block h))
     else Inr (hit, p, h))"

definition core_hit ::
  "'d cc_env \<Rightarrow> nat \<Rightarrow> intptr \<Rightarrow> line_ptr \<Rightarrow> bool \<Rightarrow> 'd hierarchy \<Rightarrow> cc_error + (where_t \<times> bool \<times> 'd hierarchy)" where
  "core_hit env k address p modeled h =
     bindC (incr_access k ACCESS_CACHE_DATA_AND_TAGS USER_THREAD h) (\<lambda>h1.
     let b = deref (cache_of h1 k) p;
         prefetch_hit = hasOption b PREFETCH;
         h2 = (if hasOption b WARMUP \<and> \<not> ce_cache_only env then set_line k p (\<lambda>b. clearOption b WARMUP) h1 else h1);
         h3 = (if prefetch_hit then set_line k p (\<lambda>b. clearOption b PREFETCH) h2 else h2);
         t_completed = getTagCompletionTime (cm_l1_mshr (master_of h3 k)) address in
     bindC (if modeled \<and> cc_l1_mshr (hi_cntlr h3 k) \<and> t_completed \<noteq> ST_MaxTime \<and> t_completed > now k USER_THREAD h3
            then incrElapsedTime k (t_completed - now k USER_THREAD h3) USER_THREAD h3 else Inr h3) (\<lambda>h4.
     bindC (case (if modeled then mshr_delay k address USER_THREAD h4 else None) of
              Some latency \<Rightarrow> incrElapsedTime k latency USER_THREAD h4 | None \<Rightarrow> Inr h4) (\<lambda>h5.
     Inr (hit_at (cc_component (hi_cntlr h5 k)) False, prefetch_hit, h5))))"

text \<open>The request to the next level, with the wait for the directory when the line is nowhere.\<close>

definition core_fetch ::
  "'d cc_env \<Rightarrow> nat \<Rightarrow> mem_op_t \<Rightarrow> intptr \<Rightarrow> bool \<Rightarrow> bool \<Rightarrow> subsecond \<Rightarrow> 'd hierarchy \<Rightarrow> cc_error + (where_t \<times> 'd hierarchy)" where
  "core_fetch env k mem_op address modeled count t_start h =
     (case cc_next (hi_cntlr h k) of
        None \<Rightarrow> Inl (Failed Null_Pointer)
      | Some j \<Rightarrow>
          bindC (processShmemReqFromPrevCache env j k mem_op address modeled count PREFETCH_NONE t_start h) (\<lambda>(w, h1).
          if w \<noteq> MISS then Inr (w, h1)
          else bindC (ce_wait env k h1) (\<lambda>h2.
               bindC (processShmemReqFromPrevCache env j k mem_op address False False PREFETCH_NONE t_start h2) (\<lambda>(w', h3).
               bindC (lineC (w' \<noteq> MISS)) (\<lambda>_. Inr (w', h3))))))"

definition core_miss ::
  "'d cc_env \<Rightarrow> nat \<Rightarrow> lock_signal_t \<Rightarrow> mem_op_t \<Rightarrow> intptr \<Rightarrow> bool \<Rightarrow> bool \<Rightarrow> subsecond \<Rightarrow> 'd hierarchy
     \<Rightarrow> cc_error + (where_t \<times> 'd hierarchy)" where
  "core_miss env k lock_signal mem_op address modeled count t_start h =
     bindC (if cc_passthrough (hi_cntlr h k) then Inr h else incr_access k ACCESS_CACHE_TAGS USER_THREAD h) (\<lambda>h1.
     let t_miss_begin = now k USER_THREAD h1;
         limited = (modeled \<and> cc_l1_mshr (hi_cntlr h1 k) \<and> \<not> cc_passthrough (hi_cntlr h1 k));
         t_mshr_avail = (if limited then getStartTime (cm_l1_mshr (master_of h1 k)) t_miss_begin else t_miss_begin) in
     bindC (liftC (assertR (t_mshr_avail \<ge> t_miss_begin))) (\<lambda>_.
     bindC (if limited then incrElapsedTime k (t_mshr_avail - t_miss_begin) USER_THREAD h1 else Inr h1) (\<lambda>h2.
     bindC (if lock_signal = UNLOCK then Inl (Failed Log_Error) else Inr ()) (\<lambda>_.
     bindC (getCacheState k address h2) (\<lambda>st.
     bindC (if st \<noteq> INVALID then invalidateCacheBlock k address h2 else Inr h2) (\<lambda>h3.
     bindC (core_fetch env k mem_op address modeled count t_start h3) (\<lambda>(w, h4).
     bindC (copyDataFromNextLevel env k mem_op address modeled (now k USER_THREAD h4) h4) (\<lambda>h5.
     bindC (operationPermissibleinCache k address mem_op h5) (\<lambda>(permissible, _).
     bindC (lineC permissible) (\<lambda>_.
     Inr (w, if limited
             then set_master k (\<lambda>m. m\<lparr>cm_l1_mshr := snd (getCompletionTime (cm_l1_mshr m) t_miss_begin
                    (now k USER_THREAD h5 - t_mshr_avail) address)\<rparr>) h5
             else h5)))))))))))"

text \<open>\<^verbatim>\<open>processMemOpFromCore\<close>: where the line was, and the buffer of the core.\<close>

definition processMemOpFromCore ::
  "'d cc_env \<Rightarrow> nat \<Rightarrow> lock_signal_t \<Rightarrow> mem_op_t \<Rightarrow> intptr \<Rightarrow> u32 \<Rightarrow> byte list option \<Rightarrow> u32 \<Rightarrow> bool \<Rightarrow> bool \<Rightarrow> 'd hierarchy
     \<Rightarrow> cc_error + (where_t \<times> byte list option \<times> 'd hierarchy)" where
  "processMemOpFromCore env k lock_signal mem_op ca_address offset data_buf data_length modeled count h =
     bindC (liftC (assertR (ca_address AND ucast (cc_block_size (hi_cntlr h k) - 1) = 0))) (\<lambda>_.
     bindC (liftC (assertR (offset + data_length \<le> cc_block_size (hi_cntlr h k)))) (\<lambda>_.
     let t_start = now k USER_THREAD h in
     bindC (core_start env k mem_op ca_address h) (\<lambda>(cache_hit, p, h1).
     bindC (if count then count_access k True cache_hit h1 else Inr h1) (\<lambda>h2.
     bindC (if cache_hit
            then bindC (the_line p) (\<lambda>q. core_hit env k ca_address q modeled h2)
            else bindC (core_miss env k lock_signal mem_op ca_address modeled count t_start h2)
                   (\<lambda>(w, h'). Inr (w, False, h'))) (\<lambda>(hit_where, prefetch_hit, h3).
     bindC (accessCache env k mem_op ca_address offset data_buf data_length
              (hit_where = hit_at (cc_component (hi_cntlr h3 k)) False \<and> count) h3) (\<lambda>(out, h4).
     bindC (if modeled then trainPrefetcher env k ca_address cache_hit prefetch_hit t_start h4 else Inr h4) (\<lambda>h5.
     bindC (if lock_signal \<noteq> LOCK \<and> modeled then Prefetch env k t_start h5 else Inr h5) (\<lambda>h6.
     Inr (hit_where, out, h6)))))))))"

section \<open>Messages of the tag directory\<close>

text \<open>
  The times that are charged to the record of times of the request, which travels with the message, are
  left out. A reply names the node of the directory as its receiver.
\<close>

definition processExRepFromDramDirectory :: "'d cc_env \<Rightarrow> nat \<Rightarrow> shmem_msg \<Rightarrow> 'd hierarchy \<Rightarrow> cc_error + 'd hierarchy" where
  "processExRepFromDramDirectory env k msg h =
     bindC (insertCacheBlock env k (sm_address msg) EXCLUSIVE (sm_data_buf msg) SIM_THREAD h) (\<lambda>(_, h1). Inr h1)"

definition processShRepFromDramDirectory :: "'d cc_env \<Rightarrow> nat \<Rightarrow> shmem_msg \<Rightarrow> 'd hierarchy \<Rightarrow> cc_error + 'd hierarchy" where
  "processShRepFromDramDirectory env k msg h =
     bindC (insertCacheBlock env k (sm_address msg) SHARED (sm_data_buf msg) SIM_THREAD h) (\<lambda>(_, h1). Inr h1)"

definition processUpgradeRepFromDramDirectory :: "'d cc_env \<Rightarrow> nat \<Rightarrow> shmem_msg \<Rightarrow> 'd hierarchy \<Rightarrow> cc_error + 'd hierarchy" where
  "processUpgradeRepFromDramDirectory env k msg h =
     bindC (getCacheState k (sm_address msg) h) (\<lambda>cstate.
     if cstate = INVALID
     then bindC (lineC (sm_data_buf msg \<noteq> None)) (\<lambda>_.
          bindC (updateCacheBlock env k (sm_address msg) MODIFIED (sm_data_buf msg) h) (\<lambda>(_, _, _, h1). Inr h1))
     else if cstate = SHARED_UPGRADING
     then bindC (updateCacheBlock env k (sm_address msg) MODIFIED None h) (\<lambda>(_, _, _, h1). Inr h1)
     else Inl Bad_Line)"

definition processInvReqFromDramDirectory :: "'d cc_env \<Rightarrow> nat \<Rightarrow> core_id \<Rightarrow> shmem_msg \<Rightarrow> 'd hierarchy \<Rightarrow> cc_error + 'd hierarchy" where
  "processInvReqFromDramDirectory env k sender msg h =
     bindC (getCacheState k (sm_address msg) h) (\<lambda>cstate.
     bindC (incr_access k ACCESS_CACHE_TAGS SIM_THREAD h) (\<lambda>h1.
     if cstate = INVALID then Inr h1
     else bindC (updateCacheBlock env k (sm_address msg) INVALID None h1) (\<lambda>(_, _, _, h2).
          cc_sendMsg k INV_REP (sm_requester msg) sender (sm_address msg) None 0 SIM_THREAD h2)))"

definition processFlushReqFromDramDirectory :: "'d cc_env \<Rightarrow> nat \<Rightarrow> core_id \<Rightarrow> shmem_msg \<Rightarrow> 'd hierarchy \<Rightarrow> cc_error + 'd hierarchy" where
  "processFlushReqFromDramDirectory env k sender msg h =
     bindC (getCacheState k (sm_address msg) h) (\<lambda>cstate.
     if cstate = INVALID then incr_access k ACCESS_CACHE_TAGS SIM_THREAD h
     else bindC (incr_access k ACCESS_CACHE_DATA_AND_TAGS SIM_THREAD h) (\<lambda>h1.
          bindC (updateCacheBlock env k (sm_address msg) INVALID (Some (local_buf env k h1)) h1) (\<lambda>(_, _, data_buf, h2).
          cc_sendMsg k FLUSH_REP (sm_requester msg) sender (sm_address msg) data_buf (cc_block_size (hi_cntlr h2 k)) SIM_THREAD h2)))"

definition processWbReqFromDramDirectory :: "'d cc_env \<Rightarrow> nat \<Rightarrow> core_id \<Rightarrow> shmem_msg \<Rightarrow> 'd hierarchy \<Rightarrow> cc_error + 'd hierarchy" where
  "processWbReqFromDramDirectory env k sender msg h =
     bindC (getCacheState k (sm_address msg) h) (\<lambda>cstate.
     if cstate = INVALID then incr_access k ACCESS_CACHE_TAGS SIM_THREAD h
     else bindC (incr_access k ACCESS_CACHE_DATA_AND_TAGS SIM_THREAD h) (\<lambda>h1.
          bindC (if cstate = SHARED_UPGRADING then Inr (Some (local_buf env k h1), h1)
                 else bindC (updateCacheBlock env k (sm_address msg) SHARED (Some (local_buf env k h1)) h1)
                        (\<lambda>(_, _, data_buf, h2). Inr (data_buf, h2))) (\<lambda>(data_buf, h3).
          cc_sendMsg k WB_REP (sm_requester msg) sender (sm_address msg) data_buf (cc_block_size (hi_cntlr h3 k)) SIM_THREAD h3)))"

text \<open>
  The loop that wakes up the threads that wait for an address, in the order of their requests. It ends
  early when one of them needs a line that others share. The bound on its rounds is the number of waiting
  requests; a further request that a thread makes for the address after it is woken up is not followed.
\<close>

primrec wake_waiters :: "nat \<Rightarrow> 'd cc_env \<Rightarrow> nat \<Rightarrow> shmem_msg \<Rightarrow> 'd hierarchy \<Rightarrow> cc_error + 'd hierarchy" where
  "wake_waiters 0 env k msg h =
     (if rq_empty (cm_waiters (master_of h k)) (sm_address msg) then Inr h else Inl (Failed No_Return))"
| "wake_waiters (Suc n) env k msg h =
     (let address = sm_address msg in
      if rq_empty (cm_waiters (master_of h k)) address then Inr h
      else
        bindC (liftC (rq_front (cm_waiters (master_of h k)) address)) (\<lambda>request.
        let r = dw_cntlr request;
            h1 = set_cntlr r (\<lambda>c. c\<lparr>cc_shmem_perf := sp_updateTime (cc_shmem_perf c) (now k SIM_THREAD h) PENDING_HIT\<rparr>) h in
        bindC (getCacheState k address h1) (\<lambda>cstate.
        if dw_exclusive request \<and> cstate = SHARED
        then processUpgradeReqToDirectory env k address r SIM_THREAD h1
        else
          bindC (mark_prefetched k address (dw_is_prefetch request) h1) (\<lambda>h2.
          let t_here = now k SIM_THREAD h2;
              h3 = (if t_here > now r USER_THREAD h2 then set_time r USER_THREAD t_here h2 else h2) in
          bindC (ce_wake env r (updateUncoreStatistics r (sm_where msg) t_here h3)) (\<lambda>h4.
          bindC (cleanupMshr k (make_mshr r address (dw_t_issue request) (now k SIM_THREAD h4) h4)) (\<lambda>h5.
          bindC (liftC (rq_dequeue (cm_waiters (master_of h5 k)) address)) (\<lambda>(_, q).
          wake_waiters n env k msg (set_master k (\<lambda>m. m\<lparr>cm_waiters := q\<rparr>) h5))))))))"

definition handleMsgFromDramDirectory :: "'d cc_env \<Rightarrow> nat \<Rightarrow> core_id \<Rightarrow> shmem_msg \<Rightarrow> 'd hierarchy \<Rightarrow> cc_error + 'd hierarchy" where
  "handleMsgFromDramDirectory env k sender msg h =
     (let wake = (\<lambda>h. wake_waiters (rq_size (cm_waiters (master_of h k)) (sm_address msg)) env k msg h);
          reply = (\<lambda>m. bindC (liftC (rq_front (cm_waiters (master_of h k)) (sm_address msg))) (\<lambda>_. bindC m wake))
      in case sm_type msg of
           EX_REP \<Rightarrow> reply (processExRepFromDramDirectory env k msg h)
         | SH_REP \<Rightarrow> reply (processShRepFromDramDirectory env k msg h)
         | UPGRADE_REP \<Rightarrow> reply (processUpgradeRepFromDramDirectory env k msg h)
         | INV_REQ \<Rightarrow> processInvReqFromDramDirectory env k sender msg h
         | FLUSH_REQ \<Rightarrow> processFlushReqFromDramDirectory env k sender msg h
         | WB_REQ \<Rightarrow> processWbReqFromDramDirectory env k sender msg h
         | _ \<Rightarrow> Inl (Failed Log_Error))"

end
