(* ===== verification/Cache_Runs.thy ===== *)
theory Cache_Runs
  imports Cache_Cntlr Cache_Theorems
begin

text \<open>
  A machine of two cores, each with a first-level cache of its own, over one shared last level
  that reaches main memory directly, built with the constructors and the wiring calls of
  \<open>Cache_Cntlr\<close>.  Controllers 0 and 1 are the first levels; 2 and 3 are the two faces (one per
  core) of the shared cache, which is the master object 2.  Every cache has one set of one way
  and blocks of two bytes.
\<close>

declare bindC_def [code_unfold] bindR_def [code_unfold]
declare fun_upd_apply [code]

definition duo_params :: cache_parameters where
  "duo_params = \<lparr>cp_size = 0, cp_num_sets = 1, cp_associativity = 1, cp_hash_function = ''mask'',
     cp_replacement_policy = ''lru'', cp_perfect = False, cp_coherent = True, cp_writeback_time = 0,
     cp_bandwidth_period = 0, cp_bandwidth = 0, cp_writethrough = False, cp_shared_cores = 1,
     cp_prefetcher = ''none'', cp_outstanding_misses = 0\<rparr>"

definition duo_perf :: cache_perf where
  "duo_perf = \<lparr>cf_sequential = False, cf_enabled = False, cf_data_access_time = 0, cf_tags_access_time = 0\<rparr>"

definition duo_blank :: "(intptr \<Rightarrow> byte list) hierarchy" where
  "duo_blank = \<lparr>hi_cntlr = (\<lambda>_. undefined), hi_master = (\<lambda>_. undefined), hi_spm = (\<lambda>_. ShmemPerfModel),
     hi_dram = (\<lambda>_. [0, 0]), hi_outbox = []\<rparr>"

definition duo_cntlr ::
  "component_t \<Rightarrow> nat \<Rightarrow> nat \<Rightarrow> core_id \<Rightarrow> u32 \<Rightarrow> 'd hierarchy \<Rightarrow> 'd hierarchy result" where
  "duo_cntlr compo k m core shared h = CacheCntlr demo_config
     \<lparr>pf_flows = 0, pf_flows_per_core = False, pf_num_prefetches = 0, pf_stop_at_page = False,
      pf_width = 0, pf_depth = 0, pf_ghb_size = 0, pf_ghb_table_size = 0\<rparr>
     True None False False 0 duo_perf compo k m core 2 (duo_params\<lparr>cp_shared_cores := shared\<rparr>) False h"

definition duo_system :: "(intptr \<Rightarrow> byte list) hierarchy result" where
  "duo_system =
     bindR (duo_cntlr MC_L1_DCACHE 0 0 0 1 duo_blank) (\<lambda>h.
     bindR (duo_cntlr MC_L1_DCACHE 1 1 1 1 h) (\<lambda>h.
     bindR (duo_cntlr MC_L2_CACHE 2 2 0 2 h) (\<lambda>h.
     bindR (duo_cntlr MC_L2_CACHE 3 2 1 2 h) (\<lambda>h.
     Inr (setDRAMDirectAccess 2 0 0 (setNextCacheCntlr 1 3 (setNextCacheCntlr 0 2
       (setPrevCacheCntlrs 3 [1] (setPrevCacheCntlrs 2 [0] h)))))))))"

definition duo_env :: "(intptr \<Rightarrow> byte list) cc_env" where
  "duo_env = \<lparr>ce_get = (\<lambda>d a c b t p. Inr (0, DRAM_HIT, Some (d a), p, d)),
     ce_put = (\<lambda>d a c b t. Inr (0, DRAM_HIT, d(a := the b))), ce_home = (\<lambda>_. 0), ce_cache_only = False,
     ce_abs = id, ce_fresh = (\<lambda>n. replicate (unat n) 0), ce_levels = 2, ce_wait = (\<lambda>_. Inr), ce_wake = (\<lambda>_. Inr)\<rparr>"

text \<open>A run: the accesses (controller, operation, buffer) of one line, in order; the buffers they return.\<close>

fun duo_run ::
  "(nat \<times> mem_op_t \<times> byte list) list \<Rightarrow> (intptr \<Rightarrow> byte list) hierarchy \<Rightarrow>
     cc_error + (byte list option list \<times> (intptr \<Rightarrow> byte list) hierarchy)" where
  "duo_run [] h = Inr ([], h)"
| "duo_run ((k, mop, b) # ops) h =
     bindC (processMemOpFromCore duo_env k LOCK_NONE mop 4 0 (Some b) 2 True True h) (\<lambda>(w, out, h1).
     bindC (duo_run ops h1) (\<lambda>(outs, h2). Inr (out # outs, h2)))"

definition duo_stale_run :: "cc_error + (byte list option list \<times> (intptr \<Rightarrow> byte list) hierarchy)" where
  "duo_stale_run =
     bindC (liftC duo_system) (duo_run
       [(0, WRITE, [1, 1]), (1, READ, [0, 0]), (1, WRITE, [2, 2]), (0, READ, [0, 0])])"

lemma upgrade_reply_without_line:
  assumes "getCacheBlockInfo k (sm_address msg) h = Inr None" and "cm_prevs (master_of h k) = []"
    and "ce_levels env \<noteq> 0"
  shows "processUpgradeRepFromDramDirectory env k msg h = Inl Bad_Line"
proof -
  from assms(3) obtain n where n: "ce_levels env = Suc n" by (cases "ce_levels env") auto
  show ?thesis
    using assms(1,2) by (cases "sm_data_buf msg") (simp_all add: processUpgradeRepFromDramDirectory_def getCacheState_def
      bindC_def state_at_def lineC_def updateCacheBlock_def n update_own_def)
qed


end
