(* ===== verification/Spec2Isabelle.thy ===== *)
theory Spec2Isabelle
  imports Cache_View Contention Queue_History Shmem_Perf Nuca Dir_Runs Dram_Cache Branch_Predictor Thread_System Cache_Runs
begin

text \<open>
  A verification of the simulation kernel of HotSniper, the many-core simulator of this repository.
  File names below are relative to \<^verbatim>\<open>src/common\<close>; \<^verbatim>\<open>MS\<close> stands for
  \<^verbatim>\<open>core/memory_subsystem\<close> and \<^verbatim>\<open>PM\<close> for \<^verbatim>\<open>performance_model\<close>.

  \<^bold>\<open>The program.\<close> A front end feeds the instructions of simulated threads to cores. A core sends its
  memory accesses to a hierarchy of caches. Misses of the last level go as messages to the tag
  directory of the home of the address, which keeps the caches coherent and fetches lines from a NUCA
  slice or from DRAM. Every shared resource has a queue model that turns the load into a delay, and the
  time of an access is charged to the component that caused it. The thread manager, the servers for
  system calls and for synchronisation, and the barrier that keeps the clocks of the cores together
  decide which thread runs on which core and when it waits.

  \<^bold>\<open>Conventions.\<close> Operations are functions on records that carry the fields of the C++ classes; a
  method that changes its object returns the changed record. Integers keep their width as words, so
  that wrap-around is part of the model. A failed assertion, an index out of range or a dereferenced
  null pointer is a value \<open>Inl e\<close> of the type \<open>result\<close>, and the lemmas say which
  operations return. What the sources only call, such as virtual functions of unmodelled classes,
  random numbers of the host and the order of hash tables, is an argument of the definitions.
  Statistics, logging and locks of the host are left out.

  \<^bold>\<open>Foundations.\<close>
  \<^item> Prelude: widths, errors, the weakest preconditions \<open>wpR\<close> of fallible operations, arrays.
  \<^item> Bits: \<^verbatim>\<open>misc/utils.cc\<close>, \<^verbatim>\<open>misc/rng.h\<close>. Subsecond\_Time: \<^verbatim>\<open>misc/subsecond_time.h\<close>.
  \<^item> Fifo: \<^verbatim>\<open>misc/circular_queue.h\<close> and the request queues of the controllers; the locale
    \<open>fifo\<close> is the contract of a queue, interpreted for both. Moving\_Average:
    \<^verbatim>\<open>misc/moving_average.h\<close>, a ring buffer that holds the most recent values.

  \<^bold>\<open>Caches.\<close>
  \<^item> Cache\_Base: address decoding (\<^verbatim>\<open>MS/cache/cache_base.cc\<close>, \<^verbatim>\<open>MS/address_home_lookup.cc\<close>); an
    address is rebuilt from its tag, and set indices are in range.
  \<^item> Replacement, Replacement\_Policies: the nine policies of \<^verbatim>\<open>MS/cache/cache_set_*.cc\<close>; what each
    victim is, and which searches return.
  \<^item> Cache\_Set, Policy\_Contract, Cache\_Set\_Spec: \<^verbatim>\<open>MS/cache/cache_set.cc\<close>. The locales
    \<open>replacement_policy\<close> and \<open>fills_invalid\<close> are what a set relies on; each policy and
    the dispatch over all of them interpret them, and a set is shown to implement a map from tags to lines.
  \<^item> Fault\_Injection: \<^verbatim>\<open>fault_injection/\<close>. Cache, Cache\_Spec, Cache\_Theorems:
    \<^verbatim>\<open>MS/cache/cache.cc\<close>, a map from addresses to lines in every reachable state.
  \<^item> Cache\_View: the same cache as a map from the addresses of lines to lines with their bytes, for a
    cache that keeps data (the simulator runs with fault injection, and no injector is on this cache).
    Each operation is an update of the map; an insertion reports the bytes of the line it evicts.

  \<^bold>\<open>Time.\<close>
  \<^item> Contention: \<^verbatim>\<open>PM/contention_model.cc\<close> and the queue models without history. Queue\_History:
    the history list and the windowed M/G/1 queue. Shmem\_Perf: the breakdown of the time of an access.

  \<^bold>\<open>Main memory and directory.\<close>
  \<^item> Nuca: \<^verbatim>\<open>nuca_cache.cc\<close>. Dram: the DRAM performance models and controller; the locale
    \<open>dram_interface\<close> is the memory that its clients see. Dram\_Cache: \<^verbatim>\<open>MS/dram/dram_cache.cc\<close>.
  \<^item> Directory: entries and their storage. Dir\_Cntlr: messages and the tag directory controller
    \<^verbatim>\<open>dram_directory_cntlr.cc\<close>, with its mutually recursive handlers. Dir\_Coherence, Dir\_Protocol,
    Dir\_Runs: the coherence invariant, the order of the replies and the termination of the handlers
    over all runs of messages from the initial state. The recursion of the handlers is bounded by the
    requests that are queued for the address.

  \<^bold>\<open>Prediction.\<close>
  \<^item> Prefetch: the stride and the history-buffer prefetcher. Branch\_Predictor: \<^verbatim>\<open>PM/branch_predictors\<close>.

  \<^bold>\<open>Cache controllers.\<close>
  \<^item> Cache\_Cntlr (\<^verbatim>\<open>MS/parametric_dram_directory_msi/cache_cntlr.cc\<close>): the controllers of all levels
    as objects of one heap, so that levels can share a cache. \<open>processMemOpFromCore\<close> and
    \<open>processShmemReqFromPrevCache\<close> are split into the start, the hit, the miss and the end of an access.
    The recursion over the levels is bounded by the number of levels, \<open>ce_levels\<close>, which no chain
    of controllers exceeds. A failed assertion about a line is \<open>Bad_Line\<close>, any other error
    \<open>Failed\<close>.
  \<^item> Cache\_Runs: a machine of two cores built with the constructors, and a run in which a core reads
    a value that the other has overwritten.

  \<^bold>\<open>Threads.\<close>
  \<^item> Thread\_Manager (\<^verbatim>\<open>system/thread_manager.cc\<close>, \<^verbatim>\<open>core/thread.cc\<close>), Syscall\_Server, Sync\_Server
    and Clock\_Barrier (\<^verbatim>\<open>system/syscall_server.cc\<close>, \<^verbatim>\<open>sync_server.cc\<close>,
    \<^verbatim>\<open>barrier_sync_server.cc\<close>): one record that each server extends. The callbacks that an operation
    may trigger are an \<open>environment\<close>.
  \<^item> Thread\_Waits: the places where threads wait, the locale \<open>thread_environment\<close> of what the
    operations rely on, and the proof that each operation keeps a stalled thread in exactly one place.
  \<^item> Thread\_System: the environments of the static scheduler and all runs. The loops that let time
    pass are bounded by a number of rounds; a sleeping thread is woken within the rounds that its
    timeout takes.

  \<^bold>\<open>Not modelled.\<close> The core models of \<^verbatim>\<open>PM/performance_models\<close> and the front ends, which turn
  instructions into accesses; statistics, logging, configuration files and scripting; the locks and
  threads of the host; the power and thermal models and HotSpot, which compute in floating point on
  files that other programs write; the scripts around the simulator. In the modelled parts, statistics
  counters, the locks of the simulator, and the auxiliary tag directories are left out.
\<close>

end
